(* ===== verification/Prelude.thy ===== *)
theory Prelude
  imports Main "HOL-Library.Word" "HOL-Library.Code_Target_Nat" "HOL-Library.Multiset"
begin

text \<open>
  Shared vocabulary of the development: machine integers and byte strings, big-endian
  integer encodings (Rust's \<open>to_be_bytes\<close> and \<open>from_be_bytes\<close>), checked machine
  arithmetic on \<open>usize\<close>, the result type, and the interface that every wire codec of
  the protocol implements.

  Conventions. \<open>usize\<close> is 64 bits wide and is a \<open>nat\<close> with the bound written out;
  \<open>u8\<close>, \<open>u16\<close>, \<open>u32\<close>, \<open>u64\<close> and \<open>i64\<close> are words (an \<open>i64\<close> is read by
  \<open>sint\<close>). A Rust \<open>String\<close> is its UTF-8 byte sequence. \<open>Result<T, E>\<close> is the sum
  \<open>'e + 't\<close> with \<open>Inl\<close> the error. An \<open>Instant\<close> or \<open>SystemTime\<close> is a \<open>nat\<close> number
  of nanoseconds and is an argument of the operations that read the clock.
\<close>

unbundle bit_operations_syntax

section \<open>Types\<close>

type_synonym byte = "8 word"
type_synonym bytes = "8 word list"
type_synonym u16 = "16 word"
type_synonym u32 = "32 word"
type_synonym u64 = "64 word"
type_synonym i64 = "64 word"
type_synonym instant = nat
type_synonym duration = nat

named_theorems codec_simps
  \<open>unfolding rules of the wire codecs\<close>

section \<open>Checked machine arithmetic\<close>

abbreviation USIZE_MAX :: nat where
  "USIZE_MAX \<equiv> 2 ^ 64 - 1"

definition checked_add :: "nat \<Rightarrow> nat \<Rightarrow> nat option" where
  "checked_add a b = (if a + b \<le> USIZE_MAX then Some (a + b) else None)"

lemma checked_add_small [simp]: "a + b \<le> USIZE_MAX \<Longrightarrow> checked_add a b = Some (a + b)"
  by (simp add: checked_add_def)

lemma checked_add_def_Some [simp]:
  "checked_add a b = Some c \<longleftrightarrow> c = a + b \<and> a + b \<le> USIZE_MAX"
  by (auto simp: checked_add_def)

section \<open>Sequencing of results\<close>

definition bind_result :: "'e + 'a \<Rightarrow> ('a \<Rightarrow> 'e + 'b) \<Rightarrow> 'e + 'b" where
  "bind_result r f = (case r of Inl e \<Rightarrow> Inl e | Inr a \<Rightarrow> f a)"

definition map_err :: "('e \<Rightarrow> 'f) \<Rightarrow> 'e + 'a \<Rightarrow> 'f + 'a" where
  "map_err g r = (case r of Inl e \<Rightarrow> Inl (g e) | Inr a \<Rightarrow> Inr a)"

lemma bind_result_simps [simp]:
  "bind_result (Inl e) f = Inl e"
  "bind_result (Inr a) f = f a"
  by (simp_all add: bind_result_def)

lemma bind_result_cong [fundef_cong]:
  "r = r' \<Longrightarrow> (\<And>a. r' = Inr a \<Longrightarrow> f a = g a) \<Longrightarrow> bind_result r f = bind_result r' g"
  by (cases r') auto

lemma bind_result_Inr_iff:
  "bind_result r f = Inr b \<longleftrightarrow> (\<exists>a. r = Inr a \<and> f a = Inr b)"
  by (cases r) auto

lemma bind_result_Inl_iff:
  "bind_result r f = Inl e \<longleftrightarrow> r = Inl e \<or> (\<exists>a. r = Inr a \<and> f a = Inl e)"
  by (cases r) auto

lemma map_err_simps [simp]:
  "map_err g (Inl e) = Inl (g e)"
  "map_err g (Inr a) = Inr a"
  by (simp_all add: map_err_def)

lemma map_err_Inr_iff [simp]: "map_err g r = Inr a \<longleftrightarrow> r = Inr a"
  by (cases r) auto

text \<open>The \<open>?\<close> operator on computations that also change a state.\<close>

definition then_with ::
    "('w \<Rightarrow> ('e + 'a) \<times> 'w) \<Rightarrow> ('a \<Rightarrow> 'w \<Rightarrow> ('e + 'b) \<times> 'w) \<Rightarrow> 'w \<Rightarrow> ('e + 'b) \<times> 'w" where
  "then_with m f w = (case m w of (Inl e, w') \<Rightarrow> (Inl e, w') | (Inr a, w') \<Rightarrow> f a w')"

definition lift_result :: "'e + 'a \<Rightarrow> 'w \<Rightarrow> ('e + 'a) \<times> 'w" where
  "lift_result r w = (r, w)"

lemma then_with_lift [simp]:
  "then_with (lift_result (Inl e)) f w = (Inl e, w)"
  "then_with (lift_result (Inr a)) f w = f a w"
  by (simp_all add: then_with_def lift_result_def)

lemma then_with_Inr_iff:
  "then_with m f w = (Inr b, w') \<longleftrightarrow> (\<exists>a w1. m w = (Inr a, w1) \<and> f a w1 = (Inr b, w'))"
  by (auto simp: then_with_def split: prod.splits sum.splits)

section \<open>Big-endian integers\<close>

primrec be_bytes :: "nat \<Rightarrow> nat \<Rightarrow> bytes" where
  "be_bytes 0 n = []"
| "be_bytes (Suc k) n = be_bytes k (n div 256) @ [word_of_nat (n mod 256)]"

definition be_val :: "bytes \<Rightarrow> nat" where
  "be_val bs = foldl (\<lambda>a b. a * 256 + unat b) 0 bs"

lemma length_be_bytes [simp]: "length (be_bytes k n) = k"
  by (induction k arbitrary: n) auto

lemma be_val_Nil [simp]: "be_val [] = 0"
  by (simp add: be_val_def)

lemma be_val_snoc [simp]: "be_val (bs @ [b]) = be_val bs * 256 + unat b"
  by (simp add: be_val_def)

lemma be_val_singleton [simp]: "be_val [b] = unat b"
  by (simp add: be_val_def)

lemma be_val_be_bytes: "be_val (be_bytes k n) = n mod 256 ^ k"
proof (induction k arbitrary: n)
  case 0
  then show ?case by simp
next
  case (Suc k)
  have "unat (word_of_nat (n mod 256) :: byte) = n mod 256"
    by (simp add: unat_of_nat)
  with Suc show ?case
    by (simp add: mod_mult2_eq)
qed

lemma be_val_be_bytes_small [simp]: "n < 256 ^ k \<Longrightarrow> be_val (be_bytes k n) = n"
  by (simp add: be_val_be_bytes)

lemma be_val_bound: "be_val bs < 256 ^ length bs"
proof (induction bs rule: rev_induct)
  case Nil
  then show ?case by simp
next
  case (snoc b bs)
  have "unat b < 256" using unsigned_less [of b] by simp
  with snoc show ?case by simp
qed

lemma be_bytes_be_val: "be_bytes (length bs) (be_val bs) = bs"
proof (induction bs rule: rev_induct)
  case Nil
  then show ?case by simp
next
  case (snoc b bs)
  have "unat b < 256" using unsigned_less [of b] by simp
  with snoc show ?case by (simp add: div_mult_self3)
qed

lemma be_bytes_inj: "m < 256 ^ k \<Longrightarrow> n < 256 ^ k \<Longrightarrow> be_bytes k m = be_bytes k n \<longleftrightarrow> m = n"
  by (metis be_val_be_bytes_small)

text \<open>\<open>u16\<close>, \<open>u32\<close> and \<open>u64\<close> in network byte order.\<close>

abbreviation u16_to_be_bytes :: "u16 \<Rightarrow> bytes" where
  "u16_to_be_bytes w \<equiv> be_bytes 2 (unat w)"

abbreviation u32_to_be_bytes :: "u32 \<Rightarrow> bytes" where
  "u32_to_be_bytes w \<equiv> be_bytes 4 (unat w)"

abbreviation u64_to_be_bytes :: "u64 \<Rightarrow> bytes" where
  "u64_to_be_bytes w \<equiv> be_bytes 8 (unat w)"

lemma unat_less: "unat (w :: 'a::len word) < 2 ^ LENGTH('a)"
  by (rule unsigned_less)

lemma be_val_u16 [simp]: "be_val (u16_to_be_bytes w) = unat w"
  using unat_less [of w] by simp

lemma be_val_u32 [simp]: "be_val (u32_to_be_bytes w) = unat w"
  using unat_less [of w] by simp

lemma be_val_u64 [simp]: "be_val (u64_to_be_bytes w) = unat w"
  using unat_less [of w] by simp

text \<open>The sign bit of an \<open>i64\<close>, and \<open>-1 - k\<close> as \<open>u64\<close>.\<close>

lemma sint_neg_iff: "sint (k :: i64) < 0 \<longleftrightarrow> 2 ^ 63 \<le> unat k"
proof -
  have "sint k < 0 \<longleftrightarrow> odd (uint k div 2 ^ 63)"
    by (simp add: sint_uint bit_iff_odd)
  also have "uint k div 2 ^ 63 = int (unat k div 2 ^ 63)"
    by (simp add: zdiv_int)
  also have "odd (int (unat k div 2 ^ 63)) \<longleftrightarrow> odd (unat k div 2 ^ 63)"
    by simp
  also have "unat k div 2 ^ 63 = (if unat k < 2 ^ 63 then 0 else 1)"
    using unat_less [of k] by (auto simp: div_nat_eqI)
  finally show ?thesis by auto
qed

lemma unat_neg: "unat (- 1 - k :: u64) = 2 ^ 64 - 1 - unat k"
  using unat_sub [of k "-1"] by (simp add: unsigned_minus_1_eq_mask mask_eq_exp_minus_1)

section \<open>Slices\<close>

text \<open>\<open>data[a..b]\<close>, for \<open>a \<le> b \<le> data.len()\<close> (the callers check the bound).\<close>

definition subslice :: "'a list \<Rightarrow> nat \<Rightarrow> nat \<Rightarrow> 'a list" where
  "subslice xs a b = take (b - a) (drop a xs)"

lemma length_subslice [simp]: "a \<le> b \<Longrightarrow> b \<le> length xs \<Longrightarrow> length (subslice xs a b) = b - a"
  by (simp add: subslice_def)

lemma subslice_append_left: "b \<le> length xs \<Longrightarrow> subslice (xs @ ys) a b = subslice xs a b"
  by (cases "a \<le> length xs") (auto simp: subslice_def)

lemma subslice_middle:
  "length xs = a \<Longrightarrow> length ys = b - a \<Longrightarrow> a \<le> b \<Longrightarrow> subslice (xs @ ys @ zs) a b = ys"
  by (simp add: subslice_def)

section \<open>Sorting by a derived key\<close>

lemma insort_key_map: "insort_key g (h x) (map h ys) = map h (insort_key (\<lambda>y. g (h y)) x ys)"
  by (induction ys) auto

lemma sort_key_map: "sort_key g (map h xs) = map h (sort_key (\<lambda>x. g (h x)) xs)"
  by (induction xs) (auto simp: insort_key_map)

lemma size_list_sort_key: "size_list f (sort_key g xs) = size_list f xs"
proof -
  have "sum_list (map f (sort_key g xs)) = sum_list (map f xs)"
    by (metis mset_map mset_sort sum_mset_sum_list)
  then show ?thesis by (simp add: size_list_conv_sum_list)
qed

section \<open>The interface of a wire codec\<close>

text \<open>
  Every wire format of the protocol is decoded from the front of a buffer and reports how
  many bytes it consumed. A codec implements this interface when decoding an encoding
  returns the value and its length, whatever follows it in the buffer. A Rust buffer is
  never longer than \<open>isize::MAX\<close> bytes; the laws only need that its length is a \<open>usize\<close>.
\<close>

abbreviation fits :: "bytes \<Rightarrow> bool" where
  "fits bs \<equiv> length bs \<le> USIZE_MAX"

locale prefix_codec =
  fixes enc :: "'a \<Rightarrow> bytes"
    and dec :: "bytes \<Rightarrow> 'e + ('a \<times> nat)"
    and valid :: "'a \<Rightarrow> bool"
  assumes dec_enc:
    "valid a \<Longrightarrow> fits (enc a @ rest) \<Longrightarrow> dec (enc a @ rest) = Inr (a, length (enc a))"
begin

lemma dec_enc_exact: "valid a \<Longrightarrow> fits (enc a) \<Longrightarrow> dec (enc a) = Inr (a, length (enc a))"
  using dec_enc [of a "[]"] by simp

lemma enc_prefix_free:
  assumes "valid a" and "valid b" and "fits (enc a @ r)" and "enc a @ r = enc b @ s"
  shows "a = b \<and> r = s"
proof -
  from assms(1,3) have "dec (enc a @ r) = Inr (a, length (enc a))" by (rule dec_enc)
  moreover have "dec (enc b @ s) = Inr (b, length (enc b))"
    using assms by (intro dec_enc) auto
  ultimately have "a = b" using assms(4) by simp
  with assms(4) show ?thesis by simp
qed

lemma enc_inj: "valid a \<Longrightarrow> valid b \<Longrightarrow> fits (enc a) \<Longrightarrow> enc a = enc b \<Longrightarrow> a = b"
  using enc_prefix_free [of a b "[]" "[]"] by simp

lemma concat_enc_inj:
  assumes "\<forall>a \<in> set as. valid a" and "\<forall>b \<in> set bs. valid b"
    and "\<And>a. valid a \<Longrightarrow> enc a \<noteq> []"
    and "fits (concat (map enc as))"
    and "concat (map enc as) = concat (map enc bs)"
  shows "as = bs"
  using assms
proof (induction as arbitrary: bs)
  case Nil
  then show ?case by (cases bs) auto
next
  case (Cons a as)
  from Cons.prems(1,3,5) obtain b bs' where bs: "bs = b # bs'" by (cases bs) auto
  have "fits (enc a @ concat (map enc as))" using Cons.prems(4) by simp
  moreover have "enc a @ concat (map enc as) = enc b @ concat (map enc bs')"
    using Cons.prems(5) bs by simp
  moreover have "valid a" "valid b" using Cons.prems(1,2) bs by simp_all
  ultimately have "a = b \<and> concat (map enc as) = concat (map enc bs')"
    by (intro enc_prefix_free)
  moreover have "as = bs'" if "concat (map enc as) = concat (map enc bs')"
    using Cons.prems(1,2,4) bs by (intro Cons.IH Cons.prems(3) that) auto
  ultimately show ?case using bs by blast
qed

end

section \<open>Saturating arithmetic\<close>

definition sat_add :: "u64 \<Rightarrow> u64 \<Rightarrow> u64" where
  "sat_add a b = (if unat a + unat b > USIZE_MAX then - 1 else a + b)"

definition sat_sub :: "u64 \<Rightarrow> u64 \<Rightarrow> u64" where
  "sat_sub a b = (if a < b then 0 else a - b)"

definition sat_mul :: "u64 \<Rightarrow> u64 \<Rightarrow> u64" where
  "sat_mul a b = (if unat a * unat b > USIZE_MAX then - 1 else a * b)"

lemma unat_minus_one_u64: "unat (- 1 :: u64) = USIZE_MAX"
  by (simp add: unsigned_minus_1_eq_mask mask_eq_exp_minus_1)

lemma unat_sat_add: "unat (sat_add a b) = min USIZE_MAX (unat a + unat b)"
  by (simp add: sat_add_def unat_minus_one_u64 unat_word_ariths min_def not_less)

lemma unat_sat_sub: "unat (sat_sub a b) = unat a - unat b"
  by (simp add: sat_sub_def unat_sub word_less_nat_alt not_less word_le_nat_alt)

lemma unat_u64_le: "unat (a :: u64) \<le> USIZE_MAX"
  using unat_less [of a] by simp

end
