(* ===== verification/Utf8.thy ===== *)
theory Utf8
  imports Prelude
begin

text \<open>
  The part of Rust's string library that the protocol code relies on: well-formed UTF-8
  (\<open>std::str::from_utf8\<close>, the table of the Unicode standard with no overlong forms, no
  surrogates and nothing above U+10FFFF) and character boundaries
  (\<open>str::is_char_boundary\<close>). A Rust \<open>String\<close> is modelled by its byte sequence.
\<close>

type_synonym ustring = bytes

text \<open>An ASCII string literal of the source.\<close>

definition str :: "string \<Rightarrow> ustring" where
  "str s = map of_char s"

definition is_cont :: "byte \<Rightarrow> bool" where
  "is_cont b \<longleftrightarrow> 0x80 \<le> b \<and> b \<le> 0xBF"

definition utf8_two :: "byte \<Rightarrow> byte \<Rightarrow> bool" where
  "utf8_two a b \<longleftrightarrow> 0xC2 \<le> a \<and> a \<le> 0xDF \<and> is_cont b"

definition utf8_three :: "byte \<Rightarrow> byte \<Rightarrow> byte \<Rightarrow> bool" where
  "utf8_three a b c \<longleftrightarrow>
     (if a = 0xE0 then 0xA0 \<le> b \<and> b \<le> 0xBF
      else if a = 0xED then 0x80 \<le> b \<and> b \<le> 0x9F
      else 0xE1 \<le> a \<and> a \<le> 0xEF \<and> is_cont b) \<and> is_cont c"

definition utf8_four :: "byte \<Rightarrow> byte \<Rightarrow> byte \<Rightarrow> byte \<Rightarrow> bool" where
  "utf8_four a b c d \<longleftrightarrow>
     (if a = 0xF0 then 0x90 \<le> b \<and> b \<le> 0xBF
      else if a = 0xF4 then 0x80 \<le> b \<and> b \<le> 0x8F
      else 0xF1 \<le> a \<and> a \<le> 0xF3 \<and> is_cont b) \<and> is_cont c \<and> is_cont d"

text \<open>The length of the well-formed character at the front of a string, 0 if there is none.\<close>

definition utf8_len :: "bytes \<Rightarrow> nat" where
  "utf8_len s = (case s of [] \<Rightarrow> 0 | a # r \<Rightarrow>
     if a < 0x80 then 1
     else (case r of [] \<Rightarrow> 0 | b # r2 \<Rightarrow>
       if utf8_two a b then 2
       else (case r2 of [] \<Rightarrow> 0 | c # r3 \<Rightarrow>
         if utf8_three a b c then 3
         else (case r3 of [] \<Rightarrow> 0 | d # r4 \<Rightarrow>
           if utf8_four a b c d then 4 else 0))))"

lemma utf8_len_le: "utf8_len s \<le> length s"
  by (auto simp: utf8_len_def split: list.splits)

function utf8_valid :: "bytes \<Rightarrow> bool" where
  "utf8_valid s \<longleftrightarrow>
     (if s = [] then True
      else if utf8_len s = 0 then False
      else utf8_valid (drop (utf8_len s) s))"
  by pat_completeness auto
termination
  by (relation "measure length") auto

declare utf8_valid.simps [simp del]

lemma utf8_valid_Nil [simp]: "utf8_valid []"
  by (simp add: utf8_valid.simps)

lemma utf8_valid_ascii: "\<forall>b \<in> set s. b < 0x80 \<Longrightarrow> utf8_valid s"
proof (induction s)
  case (Cons a s)
  then have "utf8_len (a # s) = 1" by (simp add: utf8_len_def)
  with Cons show ?case by (subst utf8_valid.simps) simp
qed simp

definition is_char_boundary :: "ustring \<Rightarrow> nat \<Rightarrow> bool" where
  "is_char_boundary s i \<longleftrightarrow> i = 0 \<or> i = length s \<or> (i < length s \<and> \<not> is_cont (s ! i))"

lemma ascii_not_cont: "a < 0x80 \<Longrightarrow> \<not> is_cont a"
  by (simp add: is_cont_def word_le_nat_alt word_less_nat_alt)

lemma utf8_two_cont: "utf8_two a b \<Longrightarrow> is_cont b"
  by (simp add: utf8_two_def)

lemma utf8_three_cont: "utf8_three a b c \<Longrightarrow> is_cont b \<and> is_cont c"
  by (cases "a = 0xE0"; cases "a = 0xED")
    (auto simp: is_cont_def utf8_three_def word_le_nat_alt)

lemma utf8_four_cont: "utf8_four a b c d \<Longrightarrow> is_cont b \<and> is_cont c \<and> is_cont d"
  by (cases "a = 0xF0"; cases "a = 0xF4")
    (auto simp: is_cont_def utf8_four_def word_le_nat_alt)

text \<open>
  Cutting a well-formed string at a character boundary leaves a well-formed prefix: the
  fact behind \<open>&s[..end]\<close> being a \<open>str\<close> again.
\<close>

lemma utf8_len_cases:
  assumes "0 < utf8_len s"
  obtains (one) a r where "s = a # r" "a < 0x80" "utf8_len s = 1"
    | (two) a b r where "s = a # b # r" "utf8_two a b" "utf8_len s = 2"
    | (three) a b c r where "s = a # b # c # r" "utf8_three a b c" "utf8_len s = 3"
    | (four) a b c d r where "s = a # b # c # d # r" "utf8_four a b c d" "utf8_len s = 4"
  using assms
  by (simp add: utf8_len_def split: list.splits if_splits) 

lemma utf8_len_inside_cont:
  assumes "0 < i" and "i < utf8_len s"
  shows "is_cont (s ! i)"
proof -
  have "0 < utf8_len s" using assms by simp
  then show ?thesis
    using assms
    by (cases rule: utf8_len_cases)
      (auto simp: nth_Cons' dest: utf8_two_cont utf8_three_cont utf8_four_cont)
qed

lemma utf8_len_take:
  assumes "utf8_len s \<le> i" and "0 < utf8_len s"
  shows "utf8_len (take i s) = utf8_len s"
proof -
  obtain j where i: "i = utf8_len s + j" using assms(1) le_Suc_ex by blast
  from assms(2) show ?thesis
  proof (cases rule: utf8_len_cases)
    case (one a r)
    with i have "take i s = a # take j r" by simp
    with one(1,2) show ?thesis by (simp add: utf8_len_def)
  next
    case (two a b r)
    with i have "take i s = a # b # take j r" by simp
    with two(1,2) show ?thesis by (simp add: utf8_len_def)
  next
    case (three a b c r)
    with i have "take i s = a # b # c # take j r" by (simp add: numeral_eq_Suc)
    with three(1,2) show ?thesis by (simp add: utf8_len_def)
  next
    case (four a b c d r)
    with i have "take i s = a # b # c # d # take j r" by (simp add: numeral_eq_Suc)
    with four(1,2) show ?thesis by (simp add: utf8_len_def)
  qed
qed

lemma utf8_valid_take_boundary:
  "utf8_valid s \<Longrightarrow> is_char_boundary s i \<Longrightarrow> utf8_valid (take i s)"
proof (induction s arbitrary: i rule: utf8_valid.induct)
  case (1 s)
  show ?case
  proof (cases "s = [] \<or> i = 0 \<or> length s \<le> i")
    case True
    with "1.prems"(1) show ?thesis by auto
  next
    case False
    with "1.prems"(1) have v: "0 < utf8_len s" "utf8_valid (drop (utf8_len s) s)"
      by (simp_all add: utf8_valid.simps [of s] split: if_splits)
    from False "1.prems"(2) have b: "i < length s" "\<not> is_cont (s ! i)"
      by (auto simp: is_char_boundary_def)
    with False have le: "utf8_len s \<le> i"
      using utf8_len_inside_cont [of i s] by fastforce
    have "is_char_boundary (drop (utf8_len s) s) (i - utf8_len s)"
      using b le by (auto simp: is_char_boundary_def)
    with "1.IH" v False have "utf8_valid (take (i - utf8_len s) (drop (utf8_len s) s))"
      by simp
    then have "utf8_valid (drop (utf8_len s) (take i s))"
      by (simp add: drop_take)
    with v le show ?thesis
      by (subst utf8_valid.simps) (simp add: utf8_len_take)
  qed
qed

end
