(* ===== verification/Cbor.thy ===== *)
theory Cbor
  imports Utf8 "HOL-Library.List_Lexorder" "HOL-Library.Product_Lexorder"
begin

text \<open>
  The canonical CBOR codec of \<open>crates/aafp-cbor/src/lib.rs\<close>: the value type, the encoder
  (shortest integer headers, map keys in canonical order) and the decoder (position and
  nesting depth threaded through, every early return an error value). Error values carry
  the offsets of the source; the human-readable message strings are enumerated as the
  constructors of \<open>cbor_invalid\<close> and \<open>cbor_unsupported\<close>.
\<close>

section \<open>Constants and values\<close>

abbreviation (input) MT_UNSIGNED :: byte where "MT_UNSIGNED \<equiv> 0"
abbreviation (input) MT_NEGATIVE :: byte where "MT_NEGATIVE \<equiv> 1"
abbreviation (input) MT_BYTE_STRING :: byte where "MT_BYTE_STRING \<equiv> 2"
abbreviation (input) MT_TEXT_STRING :: byte where "MT_TEXT_STRING \<equiv> 3"
abbreviation (input) MT_ARRAY :: byte where "MT_ARRAY \<equiv> 4"
abbreviation (input) MT_MAP :: byte where "MT_MAP \<equiv> 5"
abbreviation (input) MT_TAG :: byte where "MT_TAG \<equiv> 6"
abbreviation (input) MT_SIMPLE :: byte where "MT_SIMPLE \<equiv> 7"

abbreviation (input) AI_ONE_BYTE :: byte where "AI_ONE_BYTE \<equiv> 24"
abbreviation (input) AI_TWO_BYTES :: byte where "AI_TWO_BYTES \<equiv> 25"
abbreviation (input) AI_FOUR_BYTES :: byte where "AI_FOUR_BYTES \<equiv> 26"
abbreviation (input) AI_EIGHT_BYTES :: byte where "AI_EIGHT_BYTES \<equiv> 27"
abbreviation (input) AI_BREAK :: byte where "AI_BREAK \<equiv> 31"

abbreviation (input) SIMPLE_FALSE :: byte where "SIMPLE_FALSE \<equiv> 20"
abbreviation (input) SIMPLE_TRUE :: byte where "SIMPLE_TRUE \<equiv> 21"
abbreviation (input) SIMPLE_NULL :: byte where "SIMPLE_NULL \<equiv> 22"
abbreviation (input) SIMPLE_UNDEFINED :: byte where "SIMPLE_UNDEFINED \<equiv> 23"

abbreviation (input) MAX_DECODE_DEPTH :: nat where "MAX_DECODE_DEPTH \<equiv> 100"

datatype Value =
    Unsigned u64
  | Negative i64
  | ByteString bytes
  | TextString ustring
  | Array "Value list"
  | IntMap "(i64 \<times> Value) list"
  | StrMap "(ustring \<times> Value) list"
  | Bool bool
  | Null

definition from_u64 :: "u64 \<Rightarrow> Value" where "from_u64 v = Unsigned v"
definition from_bytes :: "bytes \<Rightarrow> Value" where "from_bytes b = ByteString b"
definition from_str :: "ustring \<Rightarrow> Value" where "from_str s = TextString s"
definition from_bool :: "bool \<Rightarrow> Value" where "from_bool b = Bool b"
definition null_value :: Value where "null_value = Null"

datatype cbor_invalid =
    TrailingBytes nat nat
  | NegativeOutOfRange u64
  | ByteStringLengthOverflow
  | TextStringLengthOverflow
  | InvalidUtf8
  | DuplicateMapKey
  | NonCanonicalInteger u64

datatype cbor_unsupported =
    MixedKeyTypes
  | SimpleValue byte
  | TagValue u64
  | MajorType byte
  | BreakCode
  | AdditionalInfo byte

datatype CborError =
    UnexpectedEof nat
  | Invalid nat cbor_invalid
  | Unsupported nat cbor_unsupported
  | KeyOutOfRange i64
  | DepthExceeded nat nat

section \<open>Encoding\<close>

definition encode_header :: "bytes \<Rightarrow> byte \<Rightarrow> u64 \<Rightarrow> bytes" where
  "encode_header buf major value =
     (if value \<le> 23 then buf @ [push_bit 5 major OR ucast value]
      else if value \<le> 255 then buf @ [push_bit 5 major OR AI_ONE_BYTE] @ [ucast value]
      else if value \<le> 65535
        then buf @ [push_bit 5 major OR AI_TWO_BYTES] @ u16_to_be_bytes (ucast value)
      else if value \<le> 0xFFFFFFFF
        then buf @ [push_bit 5 major OR AI_FOUR_BYTES] @ u32_to_be_bytes (ucast value)
      else buf @ [push_bit 5 major OR AI_EIGHT_BYTES] @ u64_to_be_bytes value)"

definition encode_int_key :: "bytes \<Rightarrow> i64 \<Rightarrow> bytes" where
  "encode_int_key buf key =
     (if 0 \<le> sint key then encode_header buf MT_UNSIGNED key
      else encode_header buf MT_NEGATIVE (- 1 - key))"

definition int_key_encoding :: "i64 \<Rightarrow> bytes" where
  "int_key_encoding key = encode_int_key [] key"

definition text_key_encoding :: "ustring \<Rightarrow> bytes" where
  "text_key_encoding s = encode_header [] MT_TEXT_STRING (word_of_nat (length s)) @ s"

text \<open>
  \<open>sort_by\<close> of the standard library is a stable sort; so is \<open>sort_key\<close>. The comparison
  \<open>len.cmp().then_with(|| bytes.cmp())\<close> is the lexicographic order on the pair of length
  and bytes.
\<close>

definition sort_int_keys :: "(i64 \<times> Value) list \<Rightarrow> (i64 \<times> Value) list" where
  "sort_int_keys entries =
     map (\<lambda>(e, k, v). (k, v))
       (sort_key (\<lambda>(e, k, v). (length e, e))
         (map (\<lambda>(k, v). (int_key_encoding k, k, v)) entries))"

definition sort_str_keys :: "(ustring \<times> Value) list \<Rightarrow> (ustring \<times> Value) list" where
  "sort_str_keys entries =
     map (\<lambda>(b, k, v). (k, v))
       (sort_key (\<lambda>(b, k, v). text_key_encoding k)
         (map (\<lambda>(k, v). (k, k, v)) entries))"

abbreviation int_key_rank :: "i64 \<Rightarrow> nat \<times> bytes" where
  "int_key_rank k \<equiv> (length (int_key_encoding k), int_key_encoding k)"

lemma sort_int_keys_eq: "sort_int_keys entries = sort_key (\<lambda>e. int_key_rank (fst e)) entries"
  by (simp add: sort_int_keys_def sort_key_map split_beta comp_def)

lemma sort_str_keys_eq: "sort_str_keys entries = sort_key (\<lambda>e. text_key_encoding (fst e)) entries"
  by (simp add: sort_str_keys_def sort_key_map split_beta comp_def)

lemma size_sort_int_keys [simp]: "size_list f (sort_int_keys es) = size_list f es"
  by (simp add: sort_int_keys_eq size_list_sort_key)

lemma size_sort_str_keys [simp]: "size_list f (sort_str_keys es) = size_list f es"
  by (simp add: sort_str_keys_eq size_list_sort_key)

fun encode_value :: "bytes \<Rightarrow> Value \<Rightarrow> CborError + bytes"
  and encode_items :: "bytes \<Rightarrow> Value list \<Rightarrow> CborError + bytes"
  and encode_int_entries :: "bytes \<Rightarrow> (i64 \<times> Value) list \<Rightarrow> CborError + bytes"
  and encode_str_entries :: "bytes \<Rightarrow> (ustring \<times> Value) list \<Rightarrow> CborError + bytes"
where
  "encode_value buf (Unsigned n) = Inr (encode_header buf MT_UNSIGNED n)"
| "encode_value buf (Negative n) = Inr (encode_header buf MT_NEGATIVE (- 1 - n))"
| "encode_value buf (ByteString b) =
     Inr (encode_header buf MT_BYTE_STRING (word_of_nat (length b)) @ b)"
| "encode_value buf (TextString s) =
     Inr (encode_header buf MT_TEXT_STRING (word_of_nat (length s)) @ s)"
| "encode_value buf (Array arr) =
     encode_items (encode_header buf MT_ARRAY (word_of_nat (length arr))) arr"
| "encode_value buf (IntMap entries) =
     (let sorted = sort_int_keys entries
      in encode_int_entries (encode_header buf MT_MAP (word_of_nat (length sorted))) sorted)"
| "encode_value buf (StrMap entries) =
     (let sorted = sort_str_keys entries
      in encode_str_entries (encode_header buf MT_MAP (word_of_nat (length sorted))) sorted)"
| "encode_value buf (Bool True) = Inr (buf @ [push_bit 5 MT_SIMPLE OR SIMPLE_TRUE])"
| "encode_value buf (Bool False) = Inr (buf @ [push_bit 5 MT_SIMPLE OR SIMPLE_FALSE])"
| "encode_value buf Null = Inr (buf @ [push_bit 5 MT_SIMPLE OR SIMPLE_NULL])"
| "encode_items buf [] = Inr buf"
| "encode_items buf (item # arr) =
     bind_result (encode_value buf item) (\<lambda>buf. encode_items buf arr)"
| "encode_int_entries buf [] = Inr buf"
| "encode_int_entries buf ((key, val) # rest) =
     bind_result (encode_value (encode_int_key buf key) val)
       (\<lambda>buf. encode_int_entries buf rest)"
| "encode_str_entries buf [] = Inr buf"
| "encode_str_entries buf ((key, val) # rest) =
     bind_result
       (encode_value (encode_header buf MT_TEXT_STRING (word_of_nat (length key)) @ key) val)
       (\<lambda>buf. encode_str_entries buf rest)"

definition encode :: "Value \<Rightarrow> CborError + bytes" where
  "encode value = encode_value [] value"

section \<open>Decoding\<close>

definition read_argument :: "bytes \<Rightarrow> nat \<Rightarrow> byte \<Rightarrow> CborError + (u64 \<times> nat)" where
  "read_argument data pos ai =
     (if ai \<le> 23 then Inr (ucast ai, pos)
      else if ai = AI_ONE_BYTE then
        (if length data \<le> pos then Inl (UnexpectedEof pos)
         else let val = ucast (data ! pos) in
           if val \<le> 23 then Inl (Invalid pos (NonCanonicalInteger val))
           else Inr (val, pos + 1))
      else if ai = AI_TWO_BYTES then
        (if length data < pos + 2 then Inl (UnexpectedEof pos)
         else let val = word_of_nat (be_val (subslice data pos (pos + 2))) in
           if val \<le> 255 then Inl (Invalid pos (NonCanonicalInteger val))
           else Inr (val, pos + 2))
      else if ai = AI_FOUR_BYTES then
        (if length data < pos + 4 then Inl (UnexpectedEof pos)
         else let val = word_of_nat (be_val (subslice data pos (pos + 4))) in
           if val \<le> 65535 then Inl (Invalid pos (NonCanonicalInteger val))
           else Inr (val, pos + 4))
      else if ai = AI_EIGHT_BYTES then
        (if length data < pos + 8 then Inl (UnexpectedEof pos)
         else let val = word_of_nat (be_val (subslice data pos (pos + 8))) in
           if val \<le> 4294967295 then Inl (Invalid pos (NonCanonicalInteger val))
           else Inr (val, pos + 8))
      else if ai = AI_BREAK then Inl (Unsupported pos BreakCode)
      else Inl (Unsupported pos (AdditionalInfo ai)))"

fun is_int_key :: "Value \<Rightarrow> bool" where
  "is_int_key (Unsigned n) = True"
| "is_int_key (Negative n) = True"
| "is_int_key _ = False"

fun is_str_key :: "Value \<Rightarrow> bool" where
  "is_str_key (TextString s) = True"
| "is_str_key _ = False"

text \<open>The \<open>match k\<close> of the two conversions; the other arms are \<open>unreachable!()\<close>.\<close>

fun int_key_of :: "Value \<Rightarrow> i64 option" where
  "int_key_of (Unsigned n) = Some n"
| "int_key_of (Negative n) = Some n"
| "int_key_of _ = None"

fun str_key_of :: "Value \<Rightarrow> ustring option" where
  "str_key_of (TextString s) = Some s"
| "str_key_of _ = None"

definition classify_map :: "nat \<Rightarrow> (Value \<times> Value) list \<Rightarrow> CborError + Value" where
  "classify_map pos entries =
     (if list_all (\<lambda>(k, v). is_int_key k) entries
      then Inr (IntMap (map (\<lambda>(k, v). (the (int_key_of k), v)) entries))
      else if list_all (\<lambda>(k, v). is_str_key k) entries
      then Inr (StrMap (map (\<lambda>(k, v). (the (str_key_of k), v)) entries))
      else Inl (Unsupported pos MixedKeyTypes))"

definition decode_simple :: "nat \<Rightarrow> byte \<Rightarrow> CborError + (Value \<times> nat)" where
  "decode_simple pos ai =
     (if ai = SIMPLE_FALSE then Inr (Bool False, pos)
      else if ai = SIMPLE_TRUE then Inr (Bool True, pos)
      else if ai = SIMPLE_NULL then Inr (Null, pos)
      else if ai = SIMPLE_UNDEFINED then Inr (Null, pos)
      else Inl (Unsupported pos (SimpleValue ai)))"

definition decode_byte_string :: "bytes \<Rightarrow> nat \<Rightarrow> u64 \<Rightarrow> CborError + (Value \<times> nat)" where
  "decode_byte_string data pos arg =
     (case checked_add pos (unat arg) of
        None \<Rightarrow> Inl (Invalid pos ByteStringLengthOverflow)
      | Some end \<Rightarrow>
          if length data < end then Inl (UnexpectedEof pos)
          else Inr (ByteString (subslice data pos end), end))"

definition decode_text_string :: "bytes \<Rightarrow> nat \<Rightarrow> u64 \<Rightarrow> CborError + (Value \<times> nat)" where
  "decode_text_string data pos arg =
     (case checked_add pos (unat arg) of
        None \<Rightarrow> Inl (Invalid pos TextStringLengthOverflow)
      | Some end \<Rightarrow>
          if length data < end then Inl (UnexpectedEof pos)
          else if utf8_valid (subslice data pos end)
          then Inr (TextString (subslice data pos end), end)
          else Inl (Invalid end InvalidUtf8))"

text \<open>
  \<open>decode_value\<close> with its two loops: \<open>decode_items\<close> is the \<open>for _ in 0..len\<close> of arrays,
  \<open>decode_entries\<close> that of maps, with the entries collected so far. The nesting limit
  makes the recursion terminate: it descends only while \<open>depth < MAX_DECODE_DEPTH\<close>.
\<close>

function (sequential) decode_value :: "bytes \<Rightarrow> nat \<Rightarrow> nat \<Rightarrow> CborError + (Value \<times> nat)"
  and decode_items :: "bytes \<Rightarrow> nat \<Rightarrow> nat \<Rightarrow> nat \<Rightarrow> Value list \<Rightarrow> CborError + (Value list \<times> nat)"
  and decode_entries ::
    "bytes \<Rightarrow> nat \<Rightarrow> nat \<Rightarrow> nat \<Rightarrow> (Value \<times> Value) list \<Rightarrow> CborError + ((Value \<times> Value) list \<times> nat)"
where
  "decode_value data pos depth =
     (if length data \<le> pos then Inl (UnexpectedEof pos)
      else if MAX_DECODE_DEPTH \<le> depth then Inl (DepthExceeded pos MAX_DECODE_DEPTH)
      else
        let initial_byte = data ! pos;
            major = drop_bit 5 initial_byte;
            ai = initial_byte AND 0x1F
        in bind_result (read_argument data (pos + 1) ai) (\<lambda>(arg, pos).
          if major = MT_UNSIGNED then Inr (Unsigned arg, pos)
          else if major = MT_NEGATIVE then
            (if arg > 0x7FFFFFFFFFFFFFFF then Inl (Invalid pos (NegativeOutOfRange arg))
             else Inr (Negative (- 1 - arg), pos))
          else if major = MT_BYTE_STRING then decode_byte_string data pos arg
          else if major = MT_TEXT_STRING then decode_text_string data pos arg
          else if major = MT_ARRAY then
            (if length data < unat arg then Inl (UnexpectedEof pos)
             else bind_result (decode_items data pos (depth + 1) (unat arg) [])
               (\<lambda>(arr, pos). Inr (Array arr, pos)))
          else if major = MT_MAP then
            (if length data < unat arg then Inl (UnexpectedEof pos)
             else bind_result (decode_entries data pos (depth + 1) (unat arg) [])
               (\<lambda>(entries, pos). bind_result (classify_map pos entries) (\<lambda>m. Inr (m, pos))))
          else if major = MT_SIMPLE then decode_simple pos ai
          else if major = MT_TAG then Inl (Unsupported pos (TagValue arg))
          else Inl (Unsupported pos (MajorType major))))"
| "decode_items data pos depth 0 arr = Inr (arr, pos)"
| "decode_items data pos depth (Suc n) arr =
     bind_result (decode_value data pos depth)
       (\<lambda>(v, pos). decode_items data pos depth n (arr @ [v]))"
| "decode_entries data pos depth 0 entries = Inr (entries, pos)"
| "decode_entries data pos depth (Suc n) entries =
     bind_result (decode_value data pos depth) (\<lambda>(key, pos).
       bind_result (decode_value data pos depth) (\<lambda>(val, pos).
         if list_ex (\<lambda>(k, v). k = key) entries then Inl (Invalid pos DuplicateMapKey)
         else decode_entries data pos depth n (entries @ [(key, val)])))"
  by pat_completeness auto
termination
  by (relation "measures [\<lambda>x. case x of
        Inl (_, _, depth) \<Rightarrow> 101 - depth
      | Inr (Inl (_, _, depth, _, _)) \<Rightarrow> 101 - depth
      | Inr (Inr (_, _, depth, _, _)) \<Rightarrow> 101 - depth,
      \<lambda>x. case x of
        Inl _ \<Rightarrow> 0
      | Inr (Inl (_, _, _, n, _)) \<Rightarrow> n
      | Inr (Inr (_, _, _, n, _)) \<Rightarrow> n]") auto

declare decode_value.simps [simp del]

definition decode :: "bytes \<Rightarrow> CborError + (Value \<times> nat)" where
  "decode data = decode_value data 0 0"

definition check_canonical :: "bytes \<Rightarrow> CborError + unit" where
  "check_canonical data =
     bind_result (decode data) (\<lambda>(v, consumed).
       if consumed \<noteq> length data
       then Inl (Invalid consumed (TrailingBytes consumed (length data)))
       else Inr ())"

section \<open>Map helpers\<close>

definition int_map :: "(i64 \<times> Value) list \<Rightarrow> Value" where
  "int_map entries = IntMap entries"

definition str_map :: "(ustring \<times> Value) list \<Rightarrow> Value" where
  "str_map entries = StrMap entries"

definition int_map_get :: "Value \<Rightarrow> i64 \<Rightarrow> Value option" where
  "int_map_get m key =
     (case m of IntMap entries \<Rightarrow> map_option snd (find (\<lambda>(k, v). k = key) entries) | _ \<Rightarrow> None)"

definition str_map_get :: "Value \<Rightarrow> ustring \<Rightarrow> Value option" where
  "str_map_get m key =
     (case m of StrMap entries \<Rightarrow> map_option snd (find (\<lambda>(k, v). k = key) entries) | _ \<Rightarrow> None)"

end
