(* ===== verification/Cbor_Codec.thy ===== *)
theory Cbor_Codec
  imports Cbor
begin

text \<open>
  Correctness of the CBOR codec. The headers round trip and are shortest; the encoder
  never fails and appends; the decoder accepts exactly the language of the inductive
  grammar \<open>cbor_item\<close>; encoding followed by decoding returns the value with its map
  entries in canonical order.
\<close>

section \<open>Headers\<close>

definition hdr :: "byte \<Rightarrow> u64 \<Rightarrow> bytes" where
  "hdr major value = encode_header [] major value"

lemma encode_header_append: "encode_header buf major value = buf @ hdr major value"
  by (simp add: encode_header_def hdr_def)

lemma hdr_nonempty [simp]: "hdr major value \<noteq> []"
  by (simp add: encode_header_def hdr_def)

lemma major_ai_byte:
  fixes m v :: byte
  assumes "m < 8" and "v < 32"
  shows "drop_bit 5 (push_bit 5 m OR v) = m" and "(push_bit 5 m OR v) AND 0x1F = v"
proof -
  have m: "take_bit 3 m = m" using less_mask_eq [of m 3] assms(1)
    by (simp add: take_bit_eq_mask)
  have v: "take_bit 5 v = v" using less_mask_eq [of v 5] assms(2)
    by (simp add: take_bit_eq_mask)
  have bm: "n < 3" if "bit m n" for n
    using that m by (metis bit_take_bit_iff)
  have bv: "n < 5" if "bit v n" for n
    using that v by (metis bit_take_bit_iff)
  show "drop_bit 5 (push_bit 5 m OR v) = m"
    by (rule bit_word_eqI) (auto simp: bit_simps dest: bm bv)
  have "(push_bit 5 m OR v) AND mask 5 = v"
    by (rule bit_word_eqI) (auto simp: bit_simps dest: bv)
  moreover have "mask 5 = (0x1F :: byte)" by (simp add: mask_eq_exp_minus_1)
  ultimately show "(push_bit 5 m OR v) AND 0x1F = v" by simp
qed

text \<open>The additional information and the argument bytes of the shortest header.\<close>

definition hdr_ai :: "u64 \<Rightarrow> byte" where
  "hdr_ai v = (if v \<le> 23 then ucast v else if v \<le> 255 then AI_ONE_BYTE
     else if v \<le> 65535 then AI_TWO_BYTES else if v \<le> 0xFFFFFFFF then AI_FOUR_BYTES
     else AI_EIGHT_BYTES)"

definition hdr_args :: "u64 \<Rightarrow> bytes" where
  "hdr_args v = (if v \<le> 23 then [] else if v \<le> 255 then [ucast v]
     else if v \<le> 65535 then be_bytes 2 (unat v) else if v \<le> 0xFFFFFFFF then be_bytes 4 (unat v)
     else be_bytes 8 (unat v))"

lemma unat_ucast_small:
  "unat (v :: 'b::len word) < 2 ^ LENGTH('a) \<Longrightarrow> unat (ucast v :: 'a::len word) = unat v"
  by (simp add: unsigned_ucast_eq take_bit_nat_eq_self)

lemma u64_size_cases:
  obtains (imm) "unat (v :: u64) \<le> 23" | (one) "\<not> unat v \<le> 23" "unat v \<le> 255"
    | (two) "\<not> unat v \<le> 255" "unat v \<le> 65535"
    | (four) "\<not> unat v \<le> 65535" "unat v \<le> 4294967295"
    | (eight) "\<not> unat v \<le> 4294967295" "unat v < 2 ^ 64"
  using unat_less [of v] by force

lemma hdr_eq: "hdr major v = (push_bit 5 major OR hdr_ai v) # hdr_args v"
  by (cases v rule: u64_size_cases)
    (simp_all add: encode_header_def hdr_def hdr_ai_def hdr_args_def unat_ucast_small
      word_le_nat_alt)

lemma hdr_ai_less: "hdr_ai v < 32"
  by (cases v rule: u64_size_cases)
    (simp_all add: hdr_ai_def word_less_nat_alt word_le_nat_alt unat_ucast_small)

lemma read_argument_hdr:
  "read_argument (pre @ hdr_args v @ rest) (length pre) (hdr_ai v) =
     Inr (v, length pre + length (hdr_args v))"
proof (cases v rule: u64_size_cases)
  case imm
  then have "unat (ucast v :: byte) \<le> 23" "ucast (ucast v :: byte) = v"
    by (simp_all add: word_unat_eq_iff unat_ucast_small)
  with imm show ?thesis
    by (simp add: read_argument_def hdr_ai_def hdr_args_def word_le_nat_alt)
next
  case one
  then have "ucast (ucast v :: byte) = v"
    by (simp add: word_unat_eq_iff unat_ucast_small)
  with one show ?thesis
    by (simp add: read_argument_def hdr_ai_def hdr_args_def word_le_nat_alt nth_append)
next
  case two
  then show ?thesis
    by (simp add: read_argument_def hdr_ai_def hdr_args_def word_le_nat_alt subslice_middle)
next
  case four
  then show ?thesis
    by (simp add: read_argument_def hdr_ai_def hdr_args_def word_le_nat_alt subslice_middle)
next
  case eight
  then show ?thesis
    by (simp add: read_argument_def hdr_ai_def hdr_args_def word_le_nat_alt subslice_middle)
qed


section \<open>The encoder as a function of the value\<close>

text \<open>The reference encoding: no buffer, no error.\<close>

fun cbor_bytes :: "Value \<Rightarrow> bytes"
  and items_bytes :: "Value list \<Rightarrow> bytes"
  and int_entries_bytes :: "(i64 \<times> Value) list \<Rightarrow> bytes"
  and str_entries_bytes :: "(ustring \<times> Value) list \<Rightarrow> bytes"
where
  "cbor_bytes (Unsigned n) = hdr MT_UNSIGNED n"
| "cbor_bytes (Negative n) = hdr MT_NEGATIVE (- 1 - n)"
| "cbor_bytes (ByteString b) = hdr MT_BYTE_STRING (word_of_nat (length b)) @ b"
| "cbor_bytes (TextString s) = hdr MT_TEXT_STRING (word_of_nat (length s)) @ s"
| "cbor_bytes (Array arr) = hdr MT_ARRAY (word_of_nat (length arr)) @ items_bytes arr"
| "cbor_bytes (IntMap es) =
     hdr MT_MAP (word_of_nat (length es)) @ int_entries_bytes (sort_int_keys es)"
| "cbor_bytes (StrMap es) =
     hdr MT_MAP (word_of_nat (length es)) @ str_entries_bytes (sort_str_keys es)"
| "cbor_bytes (Bool b) = hdr MT_SIMPLE (if b then 21 else 20)"
| "cbor_bytes Null = hdr MT_SIMPLE 22"
| "items_bytes [] = []"
| "items_bytes (v # vs) = cbor_bytes v @ items_bytes vs"
| "int_entries_bytes [] = []"
| "int_entries_bytes ((k, v) # es) = int_key_encoding k @ cbor_bytes v @ int_entries_bytes es"
| "str_entries_bytes [] = []"
| "str_entries_bytes ((k, v) # es) = text_key_encoding k @ cbor_bytes v @ str_entries_bytes es"

lemma items_bytes_concat: "items_bytes vs = concat (map cbor_bytes vs)"
  by (induction vs) auto

lemma int_entries_bytes_concat:
  "int_entries_bytes es = concat (map (\<lambda>(k, v). int_key_encoding k @ cbor_bytes v) es)"
  by (induction es) auto

lemma str_entries_bytes_concat:
  "str_entries_bytes es = concat (map (\<lambda>(k, v). text_key_encoding k @ cbor_bytes v) es)"
  by (induction es) auto

lemma length_sort_keys [simp]:
  "length (sort_int_keys es) = length es" "length (sort_str_keys fs) = length fs"
  by (simp_all add: sort_int_keys_eq sort_str_keys_eq)

lemma set_sort_keys [simp]:
  "set (sort_int_keys es) = set es" "set (sort_str_keys fs) = set fs"
  by (simp_all add: sort_int_keys_eq sort_str_keys_eq)

lemma encode_int_key_append: "encode_int_key buf k = buf @ int_key_encoding k"
  by (simp add: encode_int_key_def int_key_encoding_def encode_header_append)

lemma hdr_simple:
  "hdr 7 20 = [push_bit 5 7 OR SIMPLE_FALSE]"
  "hdr 7 21 = [push_bit 5 7 OR SIMPLE_TRUE]"
  "hdr 7 22 = [push_bit 5 7 OR SIMPLE_NULL]"
  by (simp_all add: hdr_eq hdr_ai_def hdr_args_def)

lemma encode_value_append:
  "encode_value buf v = Inr (buf @ cbor_bytes v)"
  "encode_items buf vs = Inr (buf @ items_bytes vs)"
  "encode_int_entries buf es = Inr (buf @ int_entries_bytes es)"
  "encode_str_entries buf fs = Inr (buf @ str_entries_bytes fs)"
proof (induction buf v and buf vs and buf es and buf fs
    rule: encode_value_encode_items_encode_int_entries_encode_str_entries.induct)
qed (simp_all add: encode_header_append encode_int_key_append
      text_key_encoding_def hdr_simple)


section \<open>The accepted language\<close>

text \<open>
  \<open>cbor_item d bs v\<close>: the byte string \<open>bs\<close> is an item of value \<open>v\<close> that the decoder
  accepts at nesting depth \<open>d\<close>. Every header is \<open>hdr\<close>, the shortest form; map keys are
  pairwise distinct items; \<open>0xF7\<close> (undefined) is read as null.
\<close>

inductive cbor_item :: "nat \<Rightarrow> bytes \<Rightarrow> Value \<Rightarrow> bool"
  and cbor_items :: "nat \<Rightarrow> bytes \<Rightarrow> Value list \<Rightarrow> bool"
  and cbor_entries :: "nat \<Rightarrow> bytes \<Rightarrow> (Value \<times> Value) list \<Rightarrow> bool"
where
  item_unsigned: "d < MAX_DECODE_DEPTH \<Longrightarrow> cbor_item d (hdr MT_UNSIGNED n) (Unsigned n)"
| item_negative: "d < MAX_DECODE_DEPTH \<Longrightarrow> unat n < 2 ^ 63 \<Longrightarrow>
    cbor_item d (hdr MT_NEGATIVE n) (Negative (- 1 - n))"
| item_bytes: "d < MAX_DECODE_DEPTH \<Longrightarrow> unat n = length b \<Longrightarrow>
    cbor_item d (hdr MT_BYTE_STRING n @ b) (ByteString b)"
| item_text: "d < MAX_DECODE_DEPTH \<Longrightarrow> unat n = length s \<Longrightarrow> utf8_valid s \<Longrightarrow>
    cbor_item d (hdr MT_TEXT_STRING n @ s) (TextString s)"
| item_array: "d < MAX_DECODE_DEPTH \<Longrightarrow> unat n = length vs \<Longrightarrow> cbor_items (Suc d) bs vs \<Longrightarrow>
    cbor_item d (hdr MT_ARRAY n @ bs) (Array vs)"
| item_map: "d < MAX_DECODE_DEPTH \<Longrightarrow> unat n = length es \<Longrightarrow> cbor_entries (Suc d) bs es \<Longrightarrow>
    distinct (map fst es) \<Longrightarrow> classify_map 0 es = Inr m \<Longrightarrow>
    cbor_item d (hdr MT_MAP n @ bs) m"
| item_bool: "d < MAX_DECODE_DEPTH \<Longrightarrow> cbor_item d (hdr MT_SIMPLE (if b then 21 else 20)) (Bool b)"
| item_null: "d < MAX_DECODE_DEPTH \<Longrightarrow> n = 22 \<or> n = 23 \<Longrightarrow> cbor_item d (hdr MT_SIMPLE n) Null"
| items_Nil: "cbor_items d [] []"
| items_Cons: "cbor_item d b v \<Longrightarrow> cbor_items d bs vs \<Longrightarrow> cbor_items d (b @ bs) (v # vs)"
| entries_Nil: "cbor_entries d [] []"
| entries_Cons: "cbor_item d kb k \<Longrightarrow> cbor_item d vb v \<Longrightarrow> cbor_entries d bs es \<Longrightarrow>
    cbor_entries d (kb @ vb @ bs) ((k, v) # es)"

lemma classify_map_pos: "classify_map p es = Inr m \<longleftrightarrow> classify_map 0 es = Inr m"
  by (simp add: classify_map_def)

lemma decode_value_hdr:
  assumes "d < MAX_DECODE_DEPTH" and "m < 8"
    and data: "data = pre @ hdr m n @ rest" and pos: "pos = length pre + length (hdr m n)"
  shows "decode_value data (length pre) d =
    (if m = MT_UNSIGNED then Inr (Unsigned n, pos)
     else if m = MT_NEGATIVE then
       (if n > 0x7FFFFFFFFFFFFFFF then Inl (Invalid pos (NegativeOutOfRange n))
        else Inr (Negative (- 1 - n), pos))
     else if m = MT_BYTE_STRING then decode_byte_string data pos n
     else if m = MT_TEXT_STRING then decode_text_string data pos n
     else if m = MT_ARRAY then
       (if length data < unat n then Inl (UnexpectedEof pos)
        else bind_result (decode_items data pos (d + 1) (unat n) []) (\<lambda>(arr, pos). Inr (Array arr, pos)))
     else if m = MT_MAP then
       (if length data < unat n then Inl (UnexpectedEof pos)
        else bind_result (decode_entries data pos (d + 1) (unat n) [])
          (\<lambda>(entries, pos). bind_result (classify_map pos entries) (\<lambda>m. Inr (m, pos))))
     else if m = MT_SIMPLE then decode_simple pos (hdr_ai n)
     else if m = MT_TAG then Inl (Unsupported pos (TagValue n))
     else Inl (Unsupported pos (MajorType m)))"
proof -
  let ?b = "push_bit 5 m OR hdr_ai n"
  have b: "data ! length pre = ?b" "length pre < length data"
    by (simp_all add: data hdr_eq)
  have "read_argument data (length pre + 1) (hdr_ai n) = Inr (n, pos)"
    using read_argument_hdr [of "pre @ [?b]" n rest] by (simp add: data pos hdr_eq)
  moreover have "drop_bit 5 (data ! length pre) = m" "(data ! length pre) AND 0x1F = hdr_ai n"
    unfolding b(1) by (rule major_ai_byte [OF assms(2) hdr_ai_less])+
  ultimately show ?thesis
    using b(2) assms(1) by (simp add: decode_value.simps [of data])
qed


subsection \<open>Completeness: every item of the language is decoded\<close>

lemma length_hdr: "length (hdr m n) = Suc (length (hdr_args n))"
  by (simp add: hdr_eq)

lemma cbor_item_length:
  "cbor_item d bs v \<Longrightarrow> Suc 0 \<le> length bs"
  "cbor_items d bs vs \<Longrightarrow> length vs \<le> length bs"
  "cbor_entries d bs es \<Longrightarrow> length es \<le> length bs"
  by (induction rule: cbor_item_cbor_items_cbor_entries.inducts) (simp_all add: length_hdr add_mono)

lemma decode_byte_string_exact:
  assumes "data = pre @ b @ rest" and "unat n = length b" and "fits data"
  shows "decode_byte_string data (length pre) n = Inr (ByteString b, length pre + length b)"
  using assms by (simp add: decode_byte_string_def subslice_def)

lemma decode_text_string_exact:
  assumes "data = pre @ s @ rest" and "unat n = length s" and "fits data" and "utf8_valid s"
  shows "decode_text_string data (length pre) n = Inr (TextString s, length pre + length s)"
  using assms by (simp add: decode_text_string_def subslice_def)

lemma decode_complete:
  "cbor_item d bs v \<Longrightarrow> fits (pre @ bs @ rest) \<Longrightarrow>
     decode_value (pre @ bs @ rest) (length pre) d = Inr (v, length pre + length bs)"
  "cbor_items d bs vs \<Longrightarrow> fits (pre @ bs @ rest) \<Longrightarrow>
     decode_items (pre @ bs @ rest) (length pre) d (length vs) acc =
       Inr (acc @ vs, length pre + length bs)"
  "cbor_entries d bs es \<Longrightarrow> fits (pre @ bs @ rest) \<Longrightarrow> distinct (map fst (eacc @ es)) \<Longrightarrow>
     decode_entries (pre @ bs @ rest) (length pre) d (length es) eacc =
       Inr (eacc @ es, length pre + length bs)"
proof (induction arbitrary: pre rest and pre rest acc and pre rest eacc
    rule: cbor_item_cbor_items_cbor_entries.inducts)
  case (item_bytes d n b)
  then show ?case
    using decode_value_hdr [of d 2 "pre @ (hdr 2 n @ b) @ rest" pre n "b @ rest", OF _ _ _ refl]
      decode_byte_string_exact [of "pre @ (hdr 2 n @ b) @ rest" "pre @ hdr 2 n" b rest n]
    by simp
next
  case (item_text d n s)
  then show ?case
    using decode_value_hdr [of d 3 "pre @ (hdr 3 n @ s) @ rest" pre n "s @ rest", OF _ _ _ refl]
      decode_text_string_exact [of "pre @ (hdr 3 n @ s) @ rest" "pre @ hdr 3 n" s rest n]
    by simp
next
  case (item_array d n vs bs)
  have "length vs \<le> length bs" using item_array.hyps(3) by (rule cbor_item_length)
  moreover have "decode_items (pre @ (hdr 4 n @ bs) @ rest) (length (pre @ hdr 4 n)) (Suc d) (length vs) [] =
      Inr (vs, length pre + length (hdr 4 n @ bs))"
    using item_array.IH [of "pre @ hdr 4 n" rest "[]"] item_array.prems by simp
  ultimately show ?case
    using decode_value_hdr [of d 4 "pre @ (hdr 4 n @ bs) @ rest" pre n "bs @ rest", OF _ _ _ refl]
      item_array.hyps(1,2) by simp
next
  case (item_map d n es bs m)
  have "length es \<le> length bs" using item_map.hyps(3) by (rule cbor_item_length)
  moreover have "decode_entries (pre @ (hdr 5 n @ bs) @ rest) (length (pre @ hdr 5 n)) (Suc d) (length es) [] =
      Inr (es, length pre + length (hdr 5 n @ bs))"
    using item_map.IH [of "pre @ hdr 5 n" rest "[]"] item_map.prems item_map.hyps(4) by simp
  ultimately show ?case
    using decode_value_hdr [of d 5 "pre @ (hdr 5 n @ bs) @ rest" pre n "bs @ rest", OF _ _ _ refl]
      item_map.hyps(1,2) classify_map_pos [THEN iffD2, OF item_map.hyps(5)] by simp
next
  case (items_Cons d b v bs vs)
  then show ?case
    using items_Cons.IH(1) [of pre "bs @ rest"] items_Cons.IH(2) [of "pre @ b" rest "acc @ [v]"]
    by simp
next
  case (entries_Cons d kb k vb v bs es)
  have "\<not> list_ex (\<lambda>(k', v'). k' = k) eacc"
    using entries_Cons.prems(2) by (force simp: list_ex_iff)
  then show ?case
    using entries_Cons.IH(1) [of pre "vb @ bs @ rest"]
      entries_Cons.IH(2) [of "pre @ kb" "bs @ rest"]
      entries_Cons.IH(3) [of "pre @ kb @ vb" rest "eacc @ [(k, v)]"] entries_Cons.prems
    by (simp add: add.assoc)
next
  case (item_unsigned d n)
  then show ?case by (simp add: decode_value_hdr [of d 0 _ pre n rest])
next
  case (item_negative d n)
  then show ?case by (simp add: decode_value_hdr [of d 1 _ pre n rest] word_less_nat_alt)
next
  case (item_bool d b)
  then show ?case
    by (cases b) (simp_all add: decode_value_hdr [of d 7 _ pre _ rest] decode_simple_def hdr_ai_def)
next
  case (item_null d n)
  then show ?case
    by (auto simp: decode_value_hdr [of d 7 _ pre _ rest] decode_simple_def hdr_ai_def)
qed simp_all


subsection \<open>Soundness: whatever is decoded is an item of the language\<close>

lemma byte_split: "push_bit 5 (drop_bit 5 b) OR (b AND 0x1F) = (b :: byte)"
proof -
  have "push_bit 5 (drop_bit 5 b) OR (b AND mask 5) = b"
    by (rule bit_word_eqI) (auto simp: bit_simps)
  moreover have "mask 5 = (0x1F :: byte)" by (simp add: mask_eq_exp_minus_1)
  ultimately show ?thesis by simp
qed

text \<open>\<open>bs\<close> stands at position \<open>pos\<close> of \<open>data\<close> and ends at \<open>p\<close>.\<close>

definition at_pos :: "bytes \<Rightarrow> nat \<Rightarrow> bytes \<Rightarrow> nat \<Rightarrow> bool" where
  "at_pos data pos bs p \<longleftrightarrow>
     p = pos + length bs \<and> p \<le> length data \<and> take (length bs) (drop pos data) = bs"

lemma at_pos_subslice: "a \<le> b \<Longrightarrow> b \<le> length data \<Longrightarrow> at_pos data a (subslice data a b) b"
  by (simp add: at_pos_def subslice_def)

lemma at_pos_append:
  "at_pos data pos bs p \<Longrightarrow> at_pos data p cs q \<Longrightarrow> at_pos data pos (bs @ cs) q"
  by (auto simp: at_pos_def take_add add.commute)

lemma at_pos_Nil: "pos \<le> length data \<Longrightarrow> at_pos data pos [] pos"
  by (simp add: at_pos_def)

lemma at_pos_nth: "pos < length data \<Longrightarrow> at_pos data pos [data ! pos] (pos + 1)"
  by (simp add: at_pos_def take_Suc_conv_app_nth Cons_nth_drop_Suc [symmetric])

lemma at_pos_le: "at_pos data pos bs p \<Longrightarrow> p \<le> length data"
  by (simp add: at_pos_def)

lemma be_slice:
  fixes data :: bytes and pos k :: nat
  defines "sl \<equiv> subslice data pos (pos + k)"
  assumes "pos + k \<le> length data" and "k \<le> 8"
  shows "unat (word_of_nat (be_val sl) :: u64) < 256 ^ k"
    and "be_bytes k (unat (word_of_nat (be_val sl) :: u64)) = sl"
proof -
  have len: "length sl = k" using assms by simp
  have "be_val sl < 256 ^ k" using be_val_bound [of sl] len by simp
  moreover have "(256 :: nat) ^ k \<le> 256 ^ 8" using assms(3) by (intro power_increasing) auto
  ultimately have u: "unat (word_of_nat (be_val sl) :: u64) = be_val sl"
    by (simp add: unsigned_of_nat take_bit_nat_eq_self)
  then show "unat (word_of_nat (be_val sl) :: u64) < 256 ^ k"
    using \<open>be_val sl < 256 ^ k\<close> by simp
  show "be_bytes k (unat (word_of_nat (be_val sl) :: u64)) = sl"
    using u len be_bytes_be_val [of sl] by simp
qed

lemma read_argument_sound:
  assumes "read_argument data pos ai = Inr (n, p)" and "pos \<le> length data"
  shows "ai = hdr_ai n \<and> at_pos data pos (hdr_args n) p"
proof -
  consider (imm) "unat ai \<le> 23" | (one) "ai = 24" | (two) "ai = 25" | (four) "ai = 26"
    | (eight) "ai = 27"
    using assms(1) by (auto simp: read_argument_def word_le_nat_alt split: if_splits)
  then show ?thesis
  proof cases
    case imm
    with assms show ?thesis
      by (auto simp: read_argument_def hdr_ai_def hdr_args_def word_le_nat_alt unat_ucast_small
          word_unat_eq_iff at_pos_Nil)
  next
    case one
    with assms(1) have n: "n = ucast (data ! pos)" "\<not> unat n \<le> 23" "p = pos + 1" "pos < length data"
      by (auto simp: read_argument_def Let_def word_le_nat_alt split: if_splits)
    have un: "unat n = unat (data ! pos)" "unat n \<le> 255"
      using unat_less [of "data ! pos"] n(1) by (simp_all add: unat_ucast_small)
    moreover have "ucast n = data ! pos" using un by (simp add: word_unat_eq_iff unat_ucast_small)
    ultimately show ?thesis
      using n one at_pos_nth [OF n(4)] by (simp add: hdr_ai_def hdr_args_def word_le_nat_alt)
  next
    case two
    with assms(1) have n: "n = word_of_nat (be_val (subslice data pos (pos + 2)))"
      "\<not> unat n \<le> 255" "p = pos + 2" "pos + 2 \<le> length data"
      by (auto simp: read_argument_def Let_def word_le_nat_alt split: if_splits)
    with two at_pos_subslice [of pos "pos + 2" data] be_slice [OF n(4)] show ?thesis
      by (simp add: hdr_ai_def hdr_args_def word_le_nat_alt)
  next
    case four
    with assms(1) have n: "n = word_of_nat (be_val (subslice data pos (pos + 4)))"
      "\<not> unat n \<le> 65535" "p = pos + 4" "pos + 4 \<le> length data"
      by (auto simp: read_argument_def Let_def word_le_nat_alt split: if_splits)
    with four at_pos_subslice [of pos "pos + 4" data] be_slice [OF n(4)] show ?thesis
      by (simp add: hdr_ai_def hdr_args_def word_le_nat_alt)
  next
    case eight
    with assms(1) have n: "n = word_of_nat (be_val (subslice data pos (pos + 8)))"
      "\<not> unat n \<le> 4294967295" "p = pos + 8" "pos + 8 \<le> length data"
      by (auto simp: read_argument_def Let_def word_le_nat_alt split: if_splits)
    with eight at_pos_subslice [of pos "pos + 8" data] be_slice [OF n(4)] show ?thesis
      by (simp add: hdr_ai_def hdr_args_def word_le_nat_alt)
  qed
qed


lemma decode_items_sound:
  assumes val: "\<And>pos v p. decode_value data pos d = Inr (v, p) \<Longrightarrow>
      \<exists>bs. cbor_item d bs v \<and> at_pos data pos bs p"
    and "decode_items data pos d n acc = Inr (vs, p)" and "pos \<le> length data"
  shows "\<exists>bs ws. cbor_items d bs ws \<and> at_pos data pos bs p \<and> vs = acc @ ws \<and> length ws = n"
  using assms(2,3)
proof (induction n arbitrary: pos acc)
  case 0
  then show ?case using items_Nil at_pos_Nil by fastforce
next
  case (Suc n)
  then obtain v q where v: "decode_value data pos d = Inr (v, q)"
    and r: "decode_items data q d n (acc @ [v]) = Inr (vs, p)"
    by (auto simp: bind_result_Inr_iff)
  from val [OF v] obtain b where b: "cbor_item d b v" "at_pos data pos b q" by blast
  from Suc.IH [OF r at_pos_le [OF b(2)]] obtain bs ws
    where "cbor_items d bs ws" "at_pos data q bs p" "vs = (acc @ [v]) @ ws" "length ws = n"
    by blast
  then show ?case
    using items_Cons [OF b(1)] at_pos_append [OF b(2)]
    by (intro exI [of _ "b @ bs"] exI [of _ "v # ws"]) simp
qed

lemma decode_entries_sound:
  assumes val: "\<And>pos v p. decode_value data pos d = Inr (v, p) \<Longrightarrow>
      \<exists>bs. cbor_item d bs v \<and> at_pos data pos bs p"
    and "decode_entries data pos d n acc = Inr (es, p)" and "pos \<le> length data"
    and "distinct (map fst acc)"
  shows "\<exists>bs fs. cbor_entries d bs fs \<and> at_pos data pos bs p \<and> es = acc @ fs \<and> length fs = n
    \<and> distinct (map fst es)"
  using assms(2-)
proof (induction n arbitrary: pos acc)
  case 0
  then show ?case using entries_Nil at_pos_Nil by fastforce
next
  case (Suc n)
  then obtain k q v q' where k: "decode_value data pos d = Inr (k, q)"
    and v: "decode_value data q d = Inr (v, q')"
    and fresh: "\<not> list_ex (\<lambda>(k', v'). k' = k) acc"
    and r: "decode_entries data q' d n (acc @ [(k, v)]) = Inr (es, p)"
    by (auto simp: bind_result_Inr_iff split: if_splits)
  from val [OF k] obtain kb where kb: "cbor_item d kb k" "at_pos data pos kb q" by blast
  from val [OF v] obtain vb where vb: "cbor_item d vb v" "at_pos data q vb q'" by blast
  have "distinct (map fst (acc @ [(k, v)]))"
    using Suc.prems(3) fresh by (force simp: list_ex_iff)
  from Suc.IH [OF r at_pos_le [OF vb(2)] this] obtain bs fs
    where "cbor_entries d bs fs" "at_pos data q' bs p" "es = (acc @ [(k, v)]) @ fs"
      "length fs = n" "distinct (map fst es)"
    by blast
  then show ?case
    using entries_Cons [OF kb(1) vb(1)] at_pos_append [OF kb(2) at_pos_append [OF vb(2)]]
    by (intro exI [of _ "kb @ vb @ bs"] exI [of _ "(k, v) # fs"]) simp
qed


lemma at_pos_split:
  "at_pos data pos bs p \<Longrightarrow> data = take pos data @ bs @ drop p data \<and> pos = length (take pos data)"
  by (metis (no_types, lifting) append_take_drop_id at_pos_def drop_drop add.commute
      le_add1 length_take min_absorb2 order_trans)

lemma decode_header_sound:
  assumes "decode_value data pos d = Inr (v, p)"
  obtains m n q where "d < MAX_DECODE_DEPTH" "m < 8" "at_pos data pos (hdr m n) q"
proof -
  from assms have pos: "pos < length data" and d: "d < MAX_DECODE_DEPTH"
    by (simp_all add: decode_value.simps [of data] split: if_splits)
  let ?b = "data ! pos"
  from assms pos d obtain n q where "read_argument data (pos + 1) (?b AND 0x1F) = Inr (n, q)"
    by (auto simp: decode_value.simps [of data] Let_def bind_result_Inr_iff)
  then have n: "?b AND 0x1F = hdr_ai n" "at_pos data (pos + 1) (hdr_args n) q"
    using read_argument_sound pos by fastforce+
  have "hdr (drop_bit 5 ?b) n = ?b # hdr_args n"
    using byte_split [of ?b] by (simp add: hdr_eq n(1))
  then have "at_pos data pos (hdr (drop_bit 5 ?b) n) q"
    using at_pos_append [OF at_pos_nth [OF pos] n(2)] by simp
  moreover have "drop_bit 5 ?b < 8"
    using unat_less [of ?b] by (simp add: word_less_nat_alt drop_bit_eq_div unat_div_distrib)
  ultimately show ?thesis using that d by blast
qed

lemma decode_string_sound:
  "decode_byte_string data q n = Inr (v, p) \<Longrightarrow> q \<le> length data \<Longrightarrow>
     \<exists>b. v = ByteString b \<and> unat n = length b \<and> at_pos data q b p"
  "decode_text_string data q n = Inr (v, p) \<Longrightarrow> q \<le> length data \<Longrightarrow>
     \<exists>b. v = TextString b \<and> unat n = length b \<and> utf8_valid b \<and> at_pos data q b p"
  by (auto simp: decode_byte_string_def decode_text_string_def at_pos_subslice
      split: option.splits if_splits)

lemma hdr_ai_imm:
  assumes "unat (hdr_ai n) \<le> 23"
  shows "unat n = unat (hdr_ai n)"
  using assms by (cases n rule: u64_size_cases) (simp_all add: hdr_ai_def word_le_nat_alt unat_ucast_small)

lemma decode_simple_sound:
  assumes "decode_simple q (hdr_ai n) = Inr (v, p)"
  shows "p = q \<and> (v = Bool False \<and> n = 20 \<or> v = Bool True \<and> n = 21 \<or> v = Null \<and> (n = 22 \<or> n = 23))"
proof -
  from assms have ai: "hdr_ai n = 20 \<or> hdr_ai n = 21 \<or> hdr_ai n = 22 \<or> hdr_ai n = 23"
    by (auto simp: decode_simple_def split: if_splits)
  then have "unat n = unat (hdr_ai n)" by (intro hdr_ai_imm) auto
  with ai assms show ?thesis
    by (auto simp: decode_simple_def word_unat_eq_iff)
qed

lemma decode_value_sound:
  "decode_value data pos d = Inr (v, p) \<Longrightarrow> \<exists>bs. cbor_item d bs v \<and> at_pos data pos bs p"
proof (induction "MAX_DECODE_DEPTH - d" arbitrary: d pos v p rule: less_induct)
  case less
  from less.prems obtain m n q where h: "d < MAX_DECODE_DEPTH" "m < 8" "at_pos data pos (hdr m n) q"
    by (rule decode_header_sound)
  have "decode_value data (length (take pos data)) d = Inr (v, p)"
    using less.prems at_pos_split [OF h(3)] by simp
  note body = this [unfolded decode_value_hdr [OF h(1,2) conjunct1 [OF at_pos_split [OF h(3)]] refl]]
  have q: "q = length (take pos data) + length (hdr m n)" "q \<le> length data"
    using h(3) at_pos_split [OF h(3)] by (simp_all add: at_pos_def)
  have m: "m = 0 \<or> m = 1 \<or> m = 2 \<or> m = 3 \<or> m = 4 \<or> m = 5 \<or> m = 6 \<or> m = 7"
    using h(2) by (auto simp: word_less_nat_alt word_unat_eq_iff)
  have val: "\<exists>bs. cbor_item (Suc d) bs v \<and> at_pos data pos bs p"
    if "decode_value data pos (Suc d) = Inr (v, p)" for pos v p
    using less.hyps [of "Suc d" pos v p] h(1) that by simp
  note items = decode_items_sound [OF val _ q(2), of "unat n" "[]"]
  note entries = decode_entries_sound [OF val _ q(2), of "unat n" "[]"]
  from m show ?case
  proof (elim disjE)
    assume "m = 4"
    with body q(1) obtain vs where "decode_items data q (Suc d) (unat n) [] = Inr (vs, p)" "v = Array vs"
      by (auto simp: bind_result_Inr_iff split: if_splits)
    with items [of vs p] obtain bs where "cbor_items (Suc d) bs vs" "at_pos data q bs p" "unat n = length vs"
      by auto
    with \<open>m = 4\<close> \<open>v = Array vs\<close> item_array [OF h(1)] at_pos_append [OF h(3)] show ?thesis
      by metis
  next
    assume "m = 5"
    with body q(1) obtain es where "decode_entries data q (Suc d) (unat n) [] = Inr (es, p)"
      "classify_map p es = Inr v"
      by (auto simp: bind_result_Inr_iff split: if_splits)
    with entries [of es p] obtain bs where "cbor_entries (Suc d) bs es" "at_pos data q bs p"
      "unat n = length es" "distinct (map fst es)"
      by auto
    with \<open>m = 5\<close> \<open>classify_map p es = Inr v\<close> item_map [OF h(1)] at_pos_append [OF h(3)] show ?thesis
      by (metis classify_map_pos)
  next
    assume "m = 7"
    with body q(1) have "decode_simple q (hdr_ai n) = Inr (v, p)" by simp
    with \<open>m = 7\<close> h item_bool [OF h(1), of True] item_bool [OF h(1), of False] show ?thesis
      by (auto dest!: decode_simple_sound intro: item_null)
  next
    assume "m = 1"
    with body q(1) have "unat n < 2 ^ 63" "v = Negative (- 1 - n)" "p = q"
      by (auto simp: word_less_nat_alt split: if_splits)
    with \<open>m = 1\<close> h show ?thesis by (blast intro: item_negative)
  next
    assume "m = 2"
    with body q(1) have "decode_byte_string data q n = Inr (v, p)" by simp
    from decode_string_sound(1) [OF this q(2)] obtain b
      where "v = ByteString b" "unat n = length b" "at_pos data q b p" by blast
    with \<open>m = 2\<close> h item_bytes [OF h(1)] at_pos_append [OF h(3)] show ?thesis by metis
  next
    assume "m = 3"
    with body q(1) have "decode_text_string data q n = Inr (v, p)" by simp
    from decode_string_sound(2) [OF this q(2)] obtain b
      where "v = TextString b" "unat n = length b" "utf8_valid b" "at_pos data q b p" by blast
    with \<open>m = 3\<close> h item_text [OF h(1)] at_pos_append [OF h(3)] show ?thesis by metis
  qed (use body q h in \<open>auto intro: item_unsigned\<close>)
qed


end
