(* ===== verification/Cbor_Roundtrip.thy ===== *)
theory Cbor_Roundtrip
  imports Cbor_Codec
begin

text \<open>
  Encoding followed by decoding. Every value that satisfies \<open>value_ok\<close> is encoded to an
  item of the accepted language, so the decoder returns it, with the entries of its maps
  in canonical order; the CBOR codec implements the interface \<open>prefix_codec\<close>.
\<close>

section \<open>Encoded values are items of the language\<close>

text \<open>
  The values the encoder represents faithfully: a \<open>Negative\<close> is negative, strings are
  UTF-8, map keys are distinct, a string map is not empty (the empty map decodes as an
  integer map) and the nesting stays below the decoder's limit.
\<close>

fun value_ok :: "nat \<Rightarrow> Value \<Rightarrow> bool" where
  "value_ok d (Negative n) \<longleftrightarrow> d < MAX_DECODE_DEPTH \<and> sint n < 0"
| "value_ok d (TextString s) \<longleftrightarrow> d < MAX_DECODE_DEPTH \<and> utf8_valid s"
| "value_ok d (Array vs) \<longleftrightarrow> d < MAX_DECODE_DEPTH \<and> (\<forall>v \<in> set vs. value_ok (Suc d) v)"
| "value_ok d (IntMap es) \<longleftrightarrow> d < MAX_DECODE_DEPTH \<and> distinct (map fst es) \<and>
     (\<forall>(k, v) \<in> set es. value_ok (Suc d) v)"
| "value_ok d (StrMap es) \<longleftrightarrow> d < MAX_DECODE_DEPTH \<and> es \<noteq> [] \<and> distinct (map fst es) \<and>
     (\<forall>(k, v) \<in> set es. utf8_valid k \<and> value_ok (Suc d) v)"
| "value_ok d _ \<longleftrightarrow> d < MAX_DECODE_DEPTH"

text \<open>The value with the entries of every map in canonical key order.\<close>

fun canon :: "Value \<Rightarrow> Value" where
  "canon (Array vs) = Array (map canon vs)"
| "canon (IntMap es) = IntMap (sort_int_keys (map (\<lambda>(k, v). (k, canon v)) es))"
| "canon (StrMap es) = StrMap (sort_str_keys (map (\<lambda>(k, v). (k, canon v)) es))"
| "canon v = v"

lemma value_ok_depth: "value_ok d v \<Longrightarrow> d < MAX_DECODE_DEPTH"
  by (cases v) auto

lemma sort_keys_map_snd:
  "sort_int_keys (map (\<lambda>(k, v). (k, f v)) es) = map (\<lambda>(k, v). (k, f v)) (sort_int_keys es)"
  "sort_str_keys (map (\<lambda>(k, v). (k, f v)) fs) = map (\<lambda>(k, v). (k, f v)) (sort_str_keys fs)"
  by (simp_all add: sort_int_keys_eq sort_str_keys_eq sort_key_map split_beta)

definition key_value :: "i64 \<Rightarrow> Value" where
  "key_value k = (if 0 \<le> sint k then Unsigned k else Negative k)"

lemma key_value_inj: "key_value k = key_value l \<longleftrightarrow> k = l"
  by (auto simp: key_value_def)

lemma unat_neg_lt: "sint (k :: i64) < 0 \<Longrightarrow> unat (- 1 - k) < 2 ^ 63"
  by (simp add: sint_neg_iff unat_neg)

lemma item_int_key: "d < MAX_DECODE_DEPTH \<Longrightarrow> cbor_item d (int_key_encoding k) (key_value k)"
  using item_negative [of d "- 1 - k"] unat_neg_lt [of k]
  by (simp add: int_key_encoding_def encode_int_key_def encode_header_append key_value_def
      item_unsigned)

lemma unat_length: "n \<le> USIZE_MAX \<Longrightarrow> unat (word_of_nat n :: u64) = n"
  by (simp add: unsigned_of_nat take_bit_nat_eq_self)

lemma item_str_key:
  "d < MAX_DECODE_DEPTH \<Longrightarrow> utf8_valid s \<Longrightarrow> fits (text_key_encoding s) \<Longrightarrow>
     cbor_item d (text_key_encoding s) (TextString s)"
  by (simp add: text_key_encoding_def encode_header_append item_text unat_length)


lemma cbor_items_bytes:
  "\<forall>v \<in> set vs. cbor_item d (cbor_bytes v) (f v) \<Longrightarrow> cbor_items d (items_bytes vs) (map f vs)"
  by (induction vs) (auto intro: items_Nil items_Cons)

lemma cbor_int_entries_bytes:
  "\<forall>(k, v) \<in> set es. d < MAX_DECODE_DEPTH \<and> cbor_item d (cbor_bytes v) (f v) \<Longrightarrow>
     cbor_entries d (int_entries_bytes es) (map (\<lambda>(k, v). (key_value k, f v)) es)"
  by (induction es) (auto intro!: entries_Nil entries_Cons item_int_key)

lemma cbor_str_entries_bytes:
  "\<forall>(k, v) \<in> set es. cbor_item d (text_key_encoding k) (TextString k) \<and>
       cbor_item d (cbor_bytes v) (f v) \<Longrightarrow>
     cbor_entries d (str_entries_bytes es) (map (\<lambda>(k, v). (TextString k, f v)) es)"
  by (induction es) (auto intro: entries_Nil entries_Cons)

lemma classify_int:
  "classify_map 0 (map (\<lambda>(k, v). (key_value k, f v)) es) = Inr (IntMap (map (\<lambda>(k, v). (k, f v)) es))"
  by (auto simp: classify_map_def list_all_iff key_value_def)

lemma classify_str:
  "es \<noteq> [] \<Longrightarrow> classify_map 0 (map (\<lambda>(k, v). (TextString k, f v)) es) =
     Inr (StrMap (map (\<lambda>(k, v). (k, f v)) es))"
  by (cases es) (auto simp: classify_map_def list_all_iff)

lemma distinct_keys:
  "distinct (map fst es) \<Longrightarrow> distinct (map fst (map (\<lambda>(k, v). (key_value k, f v)) es))"
  "distinct (map fst fs) \<Longrightarrow> distinct (map fst (map (\<lambda>(k, v). (TextString k, g v)) fs))"
  by (auto simp: distinct_map inj_on_def key_value_inj comp_def split_beta)

lemma distinct_map_sort_key: "distinct (map f (sort_key g xs)) \<longleftrightarrow> distinct (map f xs)"
  by (rule mset_eq_imp_distinct_iff) simp

lemma distinct_sort_keys:
  "distinct (map fst (sort_int_keys es)) \<longleftrightarrow> distinct (map fst es)"
  "distinct (map fst (sort_str_keys fs)) \<longleftrightarrow> distinct (map fst fs)"
  by (simp_all only: sort_int_keys_eq sort_str_keys_eq distinct_map_sort_key)

lemma sublist_fits:
  "fits (a @ concat (map f xs)) \<Longrightarrow> x \<in> set xs \<Longrightarrow> fits (f x)"
  by (induction xs) auto

lemma cbor_bytes_item: "value_ok d v \<Longrightarrow> fits (cbor_bytes v) \<Longrightarrow> cbor_item d (cbor_bytes v) (canon v)"
proof (induction v arbitrary: d)
  case (Negative n)
  then show ?case using item_negative [of d "- 1 - n"] unat_neg_lt [of n] by simp
next
  case (Array vs)
  have "\<forall>v \<in> set vs. cbor_item (Suc d) (cbor_bytes v) (canon v)"
    using Array sublist_fits [of "hdr 4 (word_of_nat (length vs))" cbor_bytes vs]
    by (simp add: items_bytes_concat)
  then have "cbor_items (Suc d) (items_bytes vs) (map canon vs)" by (rule cbor_items_bytes)
  moreover from cbor_item_length(2) [OF this] Array.prems(2)
  have "unat (word_of_nat (length vs) :: u64) = length (map canon vs)"
    by (simp add: unat_length)
  ultimately show ?case using Array.prems(1) by (simp add: item_array)
next
  case (IntMap es)
  let ?s = "sort_int_keys es"
  have "Suc d < MAX_DECODE_DEPTH \<and> cbor_item (Suc d) (cbor_bytes v) (canon v)" if "(k, v) \<in> set ?s" for k v
    using IntMap.IH [of "(k, v)" v "Suc d"] IntMap.prems that value_ok_depth [of "Suc d" v]
      sublist_fits [of "hdr 5 (word_of_nat (length es))" "\<lambda>(k, v). int_key_encoding k @ cbor_bytes v" ?s "(k, v)"]
    by (auto simp: int_entries_bytes_concat)
  then have e: "cbor_entries (Suc d) (int_entries_bytes ?s) (map (\<lambda>(k, v). (key_value k, canon v)) ?s)"
    by (intro cbor_int_entries_bytes) auto
  from cbor_item_length(3) [OF this] IntMap.prems(2)
  have "unat (word_of_nat (length es) :: u64) = length (map (\<lambda>(k, v). (key_value k, canon v)) ?s)"
    by (simp add: unat_length)
  from item_map [OF _ this e distinct_keys(1) classify_int] IntMap.prems(1) show ?case
    by (simp add: sort_keys_map_snd distinct_sort_keys)
next
  case (StrMap es)
  let ?s = "sort_str_keys es"
  have "cbor_item (Suc d) (text_key_encoding k) (TextString k) \<and> cbor_item (Suc d) (cbor_bytes v) (canon v)"
    if "(k, v) \<in> set ?s" for k v
    using StrMap.IH [of "(k, v)" v "Suc d"] StrMap.prems that value_ok_depth [of "Suc d" v]
      sublist_fits [of "hdr 5 (word_of_nat (length es))" "\<lambda>(k, v). text_key_encoding k @ cbor_bytes v" ?s "(k, v)"]
    by (auto simp: str_entries_bytes_concat intro!: item_str_key)
  then have e: "cbor_entries (Suc d) (str_entries_bytes ?s) (map (\<lambda>(k, v). (TextString k, canon v)) ?s)"
    by (intro cbor_str_entries_bytes) auto
  from cbor_item_length(3) [OF this] StrMap.prems(2)
  have "unat (word_of_nat (length es) :: u64) = length (map (\<lambda>(k, v). (TextString k, canon v)) ?s)"
    by (simp add: unat_length)
  moreover have "?s \<noteq> []" using StrMap.prems(1) by (metis length_sort_keys(2) length_0_conv value_ok.simps(5))
  ultimately show ?case
    using item_map [OF _ _ e distinct_keys(2) classify_str] StrMap.prems(1)
    by (simp add: sort_keys_map_snd distinct_sort_keys)
next
  case (Bool b)
  then show ?case using item_bool [of d b] by simp
qed (auto intro: item_unsigned item_bytes item_text item_null simp: unat_length)


section \<open>Round trip\<close>

lemma encode_eq: "encode v = Inr (cbor_bytes v)"
  by (simp add: encode_def encode_value_append)

lemma decode_item: "cbor_item 0 bs v \<Longrightarrow> fits (bs @ rest) \<Longrightarrow> decode (bs @ rest) = Inr (v, length bs)"
  using decode_complete(1) [of 0 bs v "[]" rest] by (simp add: decode_def)

lemma decode_cbor_bytes:
  "value_ok 0 v \<Longrightarrow> fits (cbor_bytes v @ rest) \<Longrightarrow>
     decode (cbor_bytes v @ rest) = Inr (canon v, length (cbor_bytes v))"
  by (rule decode_item [OF cbor_bytes_item]) simp_all

text \<open>
  C1. Round trip of the CBOR codec: encoding a well-formed value (nested less deep than the limit, negative numbers that are negative, UTF-8 texts,
  distinct keys in every map, no empty string map, whose encoding is that of the empty integer map) succeeds, and decoding any
  buffer of the address space that starts with the encoding returns the value, with map entries in canonical
  order, and the exact number of bytes of the encoding.
\<close>

theorem cbor_roundtrip:
  assumes "value_ok 0 v"
  shows "\<exists>bs. encode v = Inr bs \<and> (\<forall>rest. fits (bs @ rest) \<longrightarrow> decode (bs @ rest) = Inr (canon v, length bs))"
  using decode_cbor_bytes [OF assms] by (simp add: encode_eq)

theorem cbor_roundtrip_witness:
  "encode (IntMap [(2, Unsigned 500), (1, TextString [0x68, 0x69])]) = Inr [0xA2, 1, 0x62, 0x68, 0x69, 2, 0x19, 1, 0xF4] \<and>
   decode ([0xA2, 1, 0x62, 0x68, 0x69, 2, 0x19, 1, 0xF4] @ [0xFF]) =
     Inr (IntMap [(1, TextString [0x68, 0x69]), (2, Unsigned 500)], 9)"
proof -
  let ?v = "IntMap [(2, Unsigned 500), (1, TextString [0x68, 0x69])]"
  have a: "value_ok 0 ?v" by code_simp
  have b: "encode ?v = Inr [0xA2, 1, 0x62, 0x68, 0x69, 2, 0x19, 1, 0xF4]" by code_simp
  have c: "canon ?v = IntMap [(1, TextString [0x68, 0x69]), (2, Unsigned 500)]" by code_simp
  obtain bs where bs: "encode ?v = Inr bs" "\<forall>rest. fits (bs @ rest) \<longrightarrow> decode (bs @ rest) = Inr (canon ?v, length bs)"
    using cbor_roundtrip [OF a] by blast
  have "bs = [0xA2, 1, 0x62, 0x68, 0x69, 2, 0x19, 1, 0xF4]" using bs(1) b by simp
  then show ?thesis using b c spec [OF bs(2), of "[0xFF]"] by simp
qed

text \<open>
  C2. The decoder accepts exactly the language of \<open>cbor_item\<close>: it returns a value and a
  length if and only if that prefix of the input is an item of that value (shortest-form
  headers, definite lengths, UTF-8 text, distinct map keys, nesting below 100).
\<close>

theorem decode_accepts_exactly:
  "fits data \<Longrightarrow>
     decode data = Inr (v, n) \<longleftrightarrow> n \<le> length data \<and> cbor_item 0 (take n data) v"
proof
  assume "decode data = Inr (v, n)"
  then obtain bs where "cbor_item 0 bs v" "at_pos data 0 bs n"
    unfolding decode_def using decode_value_sound by blast
  then show "n \<le> length data \<and> cbor_item 0 (take n data) v"
    by (auto simp: at_pos_def)
next
  assume "fits data" and "n \<le> length data \<and> cbor_item 0 (take n data) v"
  then show "decode data = Inr (v, n)"
    using decode_item [of "take n data" v "drop n data"] by simp
qed

theorem decode_accepts_exactly_witness:
  "cbor_item 0 [0x82, 0, 0xF5] (Array [Unsigned 0, Bool True])"
proof -
  have "decode [0x82, 0, 0xF5, 9] = Inr (Array [Unsigned 0, Bool True], 3)" by code_simp
  then show ?thesis
    using decode_accepts_exactly [of "[0x82, 0, 0xF5, 9]" "Array [Unsigned 0, Bool True]" 3]
    by (simp add: numeral_3_eq_3)
qed

end
