(* ===== verification/Cbor_Order.thy ===== *)
theory Cbor_Order
  imports Cbor_Roundtrip
begin

text \<open>
  Deterministic encoding. The bytewise order in which the encoder sorts text keys is the
  length-first order of the keys themselves, the entries of an encoded map are strictly
  increasing, and two values have the same encoding exactly when they agree up to the
  order of their map entries.
\<close>

section \<open>Lexicographic order of encoded keys\<close>

lemma list_less_append_same_length:
  "length xs = length ys \<Longrightarrow>
     xs @ us < ys @ vs \<longleftrightarrow> xs < ys \<or> xs = ys \<and> us < (vs :: 'a :: linorder list)"
  by (induction xs ys rule: list_induct2) auto

lemma word_of_nat_less_byte:
  "m < 256 \<Longrightarrow> n < 256 \<Longrightarrow> (word_of_nat m :: byte) < word_of_nat n \<longleftrightarrow> m < n"
  by (simp add: word_less_nat_alt unsigned_of_nat take_bit_nat_eq_self)

lemma div_mod_less:
  "(m :: nat) < n \<longleftrightarrow> m div 256 < n div 256 \<or> m div 256 = n div 256 \<and> m mod 256 < n mod 256"
proof -
  define a b c d where "a = m div 256" "b = m mod 256" "c = n div 256" "d = n mod 256"
  then have "m = 256 * a + b" "n = 256 * c + d" "b < 256" "d < 256" by simp_all
  then show ?thesis unfolding a_b_c_d_def [symmetric] by linarith
qed

lemma be_bytes_less:
  "m < 256 ^ k \<Longrightarrow> n < 256 ^ k \<Longrightarrow> be_bytes k m < be_bytes k n \<longleftrightarrow> m < n"
proof (induction k arbitrary: m n)
  case (Suc k)
  have d: "m div 256 < 256 ^ k" "n div 256 < 256 ^ k"
    using Suc.prems by (auto intro: less_mult_imp_div_less)
  show ?case
    using Suc.IH [OF d] be_bytes_inj [OF d]
    by (simp add: list_less_append_same_length word_of_nat_less_byte div_mod_less [of m n])
qed simp

lemma unat_major_ai:
  fixes m v :: byte
  assumes "m < 8" and "v < 32"
  shows "unat (push_bit 5 m OR v) = 32 * unat m + unat v"
proof -
  let ?x = "push_bit 5 m OR v"
  have "unat (drop_bit 5 ?x) = unat ?x div 2 ^ 5"
    by (simp add: drop_bit_eq_div unat_div_distrib)
  moreover have "unat (take_bit 5 ?x) = unat ?x mod 2 ^ 5"
    by (simp add: take_bit_eq_mod unat_mod_distrib)
  moreover have "take_bit 5 ?x = v"
    using major_ai_byte(2) [OF assms] by (simp add: take_bit_eq_mask mask_eq_exp_minus_1)
  ultimately show ?thesis
    using major_ai_byte(1) [OF assms] div_mult_mod_eq [of "unat ?x" 32] by simp
qed

lemma hdr_ai_args_less:
  "hdr_ai m < hdr_ai n \<or> hdr_ai m = hdr_ai n \<and> hdr_args m < hdr_args n \<longleftrightarrow> m < n"
  by (cases m rule: u64_size_cases; cases n rule: u64_size_cases;
      simp add: hdr_ai_def hdr_args_def word_le_nat_alt word_less_nat_alt unat_ucast_small
        word_unat_eq_iff be_bytes_less)

lemma hdr_ai_args_eq: "hdr_ai m = hdr_ai n \<and> hdr_args m = hdr_args n \<longleftrightarrow> m = n"
  by (cases m rule: u64_size_cases; cases n rule: u64_size_cases;
      simp add: hdr_ai_def hdr_args_def word_le_nat_alt word_less_nat_alt unat_ucast_small
        word_unat_eq_iff be_bytes_inj)

lemma hdr_ai_args_length: "hdr_ai m = hdr_ai n \<Longrightarrow> length (hdr_args m) = length (hdr_args n)"
  by (cases m rule: u64_size_cases; cases n rule: u64_size_cases;
      simp add: hdr_ai_def hdr_args_def word_le_nat_alt unat_ucast_small word_unat_eq_iff)

lemma hdr_less:
  assumes "major < 8"
  shows "hdr major m @ xs < hdr major n @ ys \<longleftrightarrow> m < n \<or> m = n \<and> xs < ys"
proof -
  have "push_bit 5 major OR hdr_ai m < push_bit 5 major OR hdr_ai n \<longleftrightarrow> hdr_ai m < hdr_ai n"
    "push_bit 5 major OR hdr_ai m = push_bit 5 major OR hdr_ai n \<longleftrightarrow> hdr_ai m = hdr_ai n"
    using assms hdr_ai_less
    by (simp_all add: word_less_nat_alt [of "_ OR _"] word_less_nat_alt [of "hdr_ai _" "hdr_ai _"]
        word_unat_eq_iff unat_major_ai)
  moreover have "hdr_args m @ xs < hdr_args n @ ys \<longleftrightarrow>
      hdr_args m < hdr_args n \<or> hdr_args m = hdr_args n \<and> xs < ys" if "hdr_ai m = hdr_ai n"
    using hdr_ai_args_length [OF that] by (rule list_less_append_same_length)
  ultimately show ?thesis
    using hdr_ai_args_less [of m n] hdr_ai_args_eq [of m n] by (auto simp: hdr_eq)
qed

lemma text_key_encoding_less:
  assumes "length s \<le> USIZE_MAX" and "length t \<le> USIZE_MAX"
  shows "text_key_encoding s < text_key_encoding t \<longleftrightarrow> (length s, s) < (length t, t)"
proof -
  have "(word_of_nat (length s) :: u64) = word_of_nat (length t) \<longleftrightarrow> length s = length t"
    using unat_length [OF assms(1)] unat_length [OF assms(2)] by metis
  then show ?thesis
    using unat_length [OF assms(1)] unat_length [OF assms(2)]
    by (auto simp: text_key_encoding_def encode_header_append hdr_less
        word_less_nat_alt [of "word_of_nat _ :: u64"])
qed

section \<open>The canonical form\<close>

lemma sort_keys_idem [simp]:
  "sort_int_keys (sort_int_keys es) = sort_int_keys es"
  "sort_str_keys (sort_str_keys fs) = sort_str_keys fs"
  by (simp_all add: sort_int_keys_eq sort_str_keys_eq sort_key_id_if_sorted)

lemma cbor_bytes_canon: "cbor_bytes (canon v) = cbor_bytes v"
proof (induction v)
  case (Array vs)
  then show ?case by (simp add: items_bytes_concat comp_def cong: map_cong)
next
  case (IntMap es)
  then show ?case
    by (auto simp: int_entries_bytes_concat sort_keys_map_snd comp_def split_beta
        intro!: arg_cong [where f = concat] map_cong)
next
  case (StrMap es)
  then show ?case
    by (auto simp: str_entries_bytes_concat sort_keys_map_snd comp_def split_beta
        intro!: arg_cong [where f = concat] map_cong)
qed simp_all

lemma value_ok_canon: "value_ok d (canon v) \<longleftrightarrow> value_ok d v"
proof (induction v arbitrary: d)
  case (IntMap es)
  have "distinct (map fst (map (\<lambda>(k, v). (k, canon v)) es)) = distinct (map fst es)"
    by (simp add: comp_def split_beta)
  with IntMap show ?case by (auto simp: distinct_sort_keys simp del: map_map)
next
  case (StrMap es)
  have "distinct (map fst (map (\<lambda>(k, v). (k, canon v)) es)) = distinct (map fst es)"
    by (simp add: comp_def split_beta)
  moreover have "sort_str_keys (map (\<lambda>(k, v). (k, canon v)) es) = [] \<longleftrightarrow> es = []"
    by (metis length_0_conv length_map length_sort_keys(2))
  ultimately show ?case using StrMap by (auto simp: distinct_sort_keys simp del: map_map)
qed simp_all

lemma canon_idem [simp]: "canon (canon v) = canon v"
proof (induction v)
  case (IntMap es)
  then show ?case by (auto simp: sort_keys_map_snd simp del: map_map intro!: map_idI)
next
  case (StrMap es)
  then show ?case by (auto simp: sort_keys_map_snd simp del: map_map intro!: map_idI)
qed simp_all

interpretation cbor_codec: prefix_codec cbor_bytes decode "\<lambda>v. value_ok 0 v \<and> canon v = v"
  by unfold_locales (auto simp: decode_cbor_bytes)

lemma cbor_bytes_inj:
  assumes "value_ok 0 v" and "value_ok 0 w" and "fits (cbor_bytes v)" and "cbor_bytes v = cbor_bytes w"
  shows "canon v = canon w"
  using assms by (intro cbor_codec.enc_inj) (simp_all add: value_ok_canon cbor_bytes_canon)

text \<open>
  Deterministic encoding: two well-formed values have the same encoding if and only if
  they are equal up to the order of the entries of their maps. The order in which an
  application builds a map never reaches the wire, and the wire never confuses two values.
\<close>

lemma encode_deterministic:
  assumes "value_ok 0 v" and "value_ok 0 w" and "encode v = Inr bs" and "fits bs"
  shows "encode w = Inr bs \<longleftrightarrow> canon v = canon w"
proof
  assume "encode w = Inr bs"
  then show "canon v = canon w" using assms by (intro cbor_bytes_inj) (simp_all add: encode_eq)
next
  assume "canon v = canon w"
  then have "cbor_bytes v = cbor_bytes w" by (metis cbor_bytes_canon)
  then show "encode w = Inr bs" using assms(3) by (simp add: encode_eq)
qed

lemma encode_deterministic_example:
  "encode (IntMap [(2, Null), (1, Bool True)]) = Inr [0xA2, 1, 0xF5, 2, 0xF6] \<and>
   encode (IntMap [(1, Bool True), (2, Null)]) = Inr [0xA2, 1, 0xF5, 2, 0xF6]"
proof -
  have "value_ok 0 (IntMap [(2, Null), (1, Bool True)])" by code_simp
  moreover have "value_ok 0 (IntMap [(1, Bool True), (2, Null)])" by code_simp
  moreover have e: "encode (IntMap [(2, Null), (1, Bool True)]) = Inr [0xA2, 1, 0xF5, 2, 0xF6]"
    by code_simp
  moreover have "canon (IntMap [(2, Null), (1, Bool True)]) = canon (IntMap [(1, Bool True), (2, Null)])"
    by code_simp
  ultimately show ?thesis
    using encode_deterministic [of "IntMap [(2, Null), (1, Bool True)]"
        "IntMap [(1, Bool True), (2, Null)]" "[0xA2, 1, 0xF5, 2, 0xF6]"] by simp
qed

section \<open>Key order on the wire\<close>

text \<open>Every map inside the value has strictly increasing keys, shorter keys first.\<close>

fun keys_increasing :: "Value \<Rightarrow> bool" where
  "keys_increasing (Array vs) \<longleftrightarrow> (\<forall>v \<in> set vs. keys_increasing v)"
| "keys_increasing (IntMap es) \<longleftrightarrow>
     sorted_wrt (\<lambda>k l. int_key_rank k < int_key_rank l) (map fst es) \<and>
     (\<forall>(k, v) \<in> set es. keys_increasing v)"
| "keys_increasing (StrMap es) \<longleftrightarrow>
     sorted_wrt (\<lambda>k l. (length k, k) < (length l, l)) (map fst es) \<and>
     (\<forall>(k, v) \<in> set es. keys_increasing v)"
| "keys_increasing _ \<longleftrightarrow> True"

lemma length_hdr_args: "length (hdr_args n) \<le> 8"
  by (simp add: hdr_args_def)

lemma int_key_encoding_inj: "int_key_encoding k = int_key_encoding l \<Longrightarrow> k = l"
proof -
  have "fits (int_key_encoding k)" for k
    using length_hdr_args [of k] length_hdr_args [of "- 1 - k"]
    by (simp add: int_key_encoding_def encode_int_key_def encode_header_append length_hdr)
  then have "decode (int_key_encoding k) = Inr (key_value k, length (int_key_encoding k))" for k
    using decode_item [OF item_int_key, of k "[]"] by simp
  then show "k = l" if "int_key_encoding k = int_key_encoding l"
    using that by (metis Inr_inject Pair_inject key_value_inj)
qed

lemma sorted_distinct_strict:
  assumes "distinct (map f xs)" and "inj_on g (f ` set xs)"
  shows "sorted_wrt (\<lambda>a b. g a < g b) (map f (sort_key (\<lambda>x. g (f x)) xs))"
proof -
  let ?ys = "sort_key (\<lambda>x. g (f x)) xs"
  have "distinct (map g (map f ?ys))"
    using assms distinct_map_sort_key [of f "\<lambda>x. g (f x)" xs]
    by (subst distinct_map) simp
  moreover have "sorted (map g (map f ?ys))" using sorted_sort_key [of "\<lambda>x. g (f x)" xs] by (simp add: comp_def)
  ultimately have "sorted_wrt (<) (map g (map f ?ys))" by (simp only: strict_sorted_iff)
  then show ?thesis by (simp only: sorted_wrt_map)
qed

lemma sort_int_keys_strict:
  "distinct (map fst es) \<Longrightarrow>
     sorted_wrt (\<lambda>k l. int_key_rank k < int_key_rank l) (map fst (sort_int_keys es))"
  unfolding sort_int_keys_eq
  by (rule sorted_distinct_strict) (auto intro!: inj_onI dest: int_key_encoding_inj)

lemma text_key_encoding_inj:
  "length s \<le> USIZE_MAX \<Longrightarrow> length t \<le> USIZE_MAX \<Longrightarrow>
     text_key_encoding s = text_key_encoding t \<Longrightarrow> s = t"
  using text_key_encoding_less [of s t] text_key_encoding_less [of t s] by auto

lemma sort_str_keys_strict:
  assumes "distinct (map fst es)" and "\<forall>k \<in> fst ` set es. length k \<le> USIZE_MAX"
  shows "sorted_wrt (\<lambda>k l. (length k, k) < (length l, l)) (map fst (sort_str_keys es))"
proof -
  have inj: "inj_on text_key_encoding (fst ` set es)"
    using assms(2) text_key_encoding_inj unfolding inj_on_def by blast
  from sorted_distinct_strict [OF assms(1) inj]
  have "sorted_wrt (\<lambda>k l. text_key_encoding k < text_key_encoding l) (map fst (sort_str_keys es))"
    unfolding sort_str_keys_eq .
  then show ?thesis
  proof (rule sorted_wrt_mono_rel [rotated])
    fix k l
    assume "k \<in> set (map fst (sort_str_keys es))" "l \<in> set (map fst (sort_str_keys es))"
    then have "length k \<le> USIZE_MAX" "length l \<le> USIZE_MAX"
      using assms(2) unfolding set_map set_sort_keys by blast+
    then show "text_key_encoding k < text_key_encoding l \<Longrightarrow> (length k, k) < (length l, l)"
      by (simp only: text_key_encoding_less)
  qed
qed

lemma keys_increasing_canon:
  "value_ok d v \<Longrightarrow> fits (cbor_bytes v) \<Longrightarrow> keys_increasing (canon v)"
proof (induction v arbitrary: d)
  case (Array vs)
  then show ?case
    using sublist_fits [of "hdr 4 (word_of_nat (length vs))" cbor_bytes vs]
    by (auto simp: items_bytes_concat)
next
  case (IntMap es)
  let ?s = "sort_int_keys es"
  have "keys_increasing (canon v)" if "(k, v) \<in> set es" for k v
    using IntMap.IH [of "(k, v)" v "Suc d"] IntMap.prems that
      sublist_fits [of "hdr 5 (word_of_nat (length es))" "\<lambda>(k, v). int_key_encoding k @ cbor_bytes v" ?s "(k, v)"]
    by (auto simp: int_entries_bytes_concat)
  then show ?case
    using sort_int_keys_strict [of es] IntMap.prems(1)
    by (auto simp: sort_keys_map_snd comp_def split_beta)
next
  case (StrMap es)
  let ?s = "sort_str_keys es"
  have *: "keys_increasing (canon v) \<and> length k \<le> USIZE_MAX" if "(k, v) \<in> set es" for k v
    using StrMap.IH [of "(k, v)" v "Suc d"] StrMap.prems that
      sublist_fits [of "hdr 5 (word_of_nat (length es))" "\<lambda>(k, v). text_key_encoding k @ cbor_bytes v" ?s "(k, v)"]
    by (auto simp: str_entries_bytes_concat text_key_encoding_def)
  then have "\<forall>k \<in> fst ` set es. length k \<le> USIZE_MAX" by auto
  from sort_str_keys_strict [OF _ this] * StrMap.prems(1) show ?case
    by (auto simp: sort_keys_map_snd comp_def split_beta)
qed simp_all

text \<open>
  Canonical key order: in the encoding of a well-formed value, the keys of every map, at
  every nesting level, appear in strictly increasing length-first order. For integer keys
  the length and bytes are those of the encoded key; for text keys they are those of the
  string, although the encoder compares the encoded keys bytewise.
\<close>

lemma encode_keys_increasing:
  assumes "value_ok 0 v" and "encode v = Inr bs" and "fits bs"
  shows "\<exists>w. decode bs = Inr (w, length bs) \<and> keys_increasing w"
  using assms decode_cbor_bytes [of v "[]"] keys_increasing_canon [of 0 v]
  by (simp add: encode_eq)

lemma encode_keys_increasing_example:
  "\<exists>w. decode [0xA2, 0x61, 0x62, 0, 0x62, 0x61, 0x61, 1] =
     Inr (w, length [0xA2, 0x61, 0x62, 0, 0x62, 0x61, 0x61, 1 :: byte]) \<and> keys_increasing w"
proof -
  let ?v = "StrMap [([0x61, 0x61], Unsigned 1), ([0x62], Unsigned 0)]"
  have "value_ok 0 ?v" by code_simp
  moreover have "encode ?v = Inr [0xA2, 0x61, 0x62, 0, 0x62, 0x61, 0x61, 1]" by code_simp
  ultimately show ?thesis
    using encode_keys_increasing [of ?v "[0xA2, 0x61, 0x62, 0, 0x62, 0x61, 0x61, 1]"] by simp
qed

section \<open>Resource bounds of the decoder\<close>

text \<open>Nesting depth of a value and the number of values it holds, map keys included.\<close>

fun nesting :: "Value \<Rightarrow> nat" where
  "nesting (Array vs) = Suc (foldr max (map nesting vs) 0)"
| "nesting (IntMap es) = Suc (foldr max (map (\<lambda>(k, v). nesting v) es) 0)"
| "nesting (StrMap es) = Suc (foldr max (map (\<lambda>(k, v). nesting v) es) 0)"
| "nesting _ = 1"

fun nodes :: "Value \<Rightarrow> nat" where
  "nodes (Array vs) = Suc (sum_list (map nodes vs))"
| "nodes (IntMap es) = Suc (sum_list (map (\<lambda>(k, v). Suc (nodes v)) es))"
| "nodes (StrMap es) = Suc (sum_list (map (\<lambda>(k, v). Suc (nodes v)) es))"
| "nodes _ = 1"

definition entries_nesting :: "(Value \<times> Value) list \<Rightarrow> nat" where
  "entries_nesting es = foldr max (map (\<lambda>(k, v). nesting v) es) 0"

definition entries_nodes :: "(Value \<times> Value) list \<Rightarrow> nat" where
  "entries_nodes es = sum_list (map (\<lambda>(k, v). Suc (nodes v)) es)"

lemma classify_map_bounds:
  assumes "classify_map p es = Inr m"
  shows "nesting m = Suc (entries_nesting es)" and "nodes m = Suc (entries_nodes es)"
  using assms
  by (auto simp: classify_map_def entries_nesting_def entries_nodes_def comp_def case_prod_unfold
      split: if_splits)

lemma cbor_item_bounds:
  "cbor_item d bs v \<Longrightarrow> d + nesting v \<le> MAX_DECODE_DEPTH \<and> nodes v \<le> length bs"
  "cbor_items d bs vs \<Longrightarrow> d \<le> MAX_DECODE_DEPTH \<Longrightarrow>
     d + foldr max (map nesting vs) 0 \<le> MAX_DECODE_DEPTH \<and> sum_list (map nodes vs) \<le> length bs"
  "cbor_entries d bs es \<Longrightarrow> d \<le> MAX_DECODE_DEPTH \<Longrightarrow>
     d + entries_nesting es \<le> MAX_DECODE_DEPTH \<and> entries_nodes es \<le> length bs"
proof (induction rule: cbor_item_cbor_items_cbor_entries.inducts)
  case (item_map d n es bs m)
  then show ?case by (simp add: classify_map_bounds length_hdr)
next
  case (entries_Cons d kb k vb v bs es)
  then show ?case
    using cbor_item_length(1) [of d kb k]
    by (auto simp: entries_nesting_def entries_nodes_def)
qed (auto simp: length_hdr entries_nesting_def entries_nodes_def)

text \<open>
  Resource bounds: whatever the input, a value the decoder returns is nested at most 100
  levels deep, the bytes it consumed are bytes of the input, and it holds at most as many
  values (map keys included) as the bytes consumed, so a small message cannot make the
  decoder build a large tree.
\<close>

lemma decode_bounds:
  assumes "decode data = Inr (v, n)"
  shows "nesting v \<le> MAX_DECODE_DEPTH \<and> nodes v \<le> n \<and> n \<le> length data"
proof -
  from assms obtain bs where "cbor_item 0 bs v" "at_pos data 0 bs n"
    unfolding decode_def using decode_value_sound by blast
  then show ?thesis
    using cbor_item_bounds(1) [of 0 bs v] by (auto simp: at_pos_def)
qed

lemma decode_bounds_example:
  "decode [0x82, 0x80, 0xF6, 7] = Inr (Array [Array [], Null], 3) \<and>
   nodes (Array [Array [], Null]) \<le> 3"
proof -
  have d: "decode [0x82, 0x80, 0xF6, 7] = Inr (Array [Array [], Null], 3)" by code_simp
  then show ?thesis using decode_bounds [OF d] by simp
qed

lemma decode_nested_arrays:
  assumes "\<forall>i \<le> 100. data ! i = 0x81" and "100 < length data" and "depth \<le> 100"
  shows "decode_value data depth depth = Inl (DepthExceeded 100 100)"
  using assms(3)
proof (induction "100 - depth" arbitrary: depth)
  case 0
  then show ?case using assms(2) by (simp add: decode_value.simps)
next
  case (Suc m)
  then have "decode_value data (Suc depth) (Suc depth) = Inl (DepthExceeded 100 100)" by simp
  then have "decode_items data (Suc depth) (Suc depth) (Suc 0) [] = Inl (DepthExceeded 100 100)"
    by simp
  moreover have "data ! depth = 0x81" using Suc.prems assms(1) by simp
  moreover have "drop_bit 5 (0x81 :: byte) = 4" "0x81 AND 0x1F = (1 :: byte)"
    by (simp_all add: drop_bit_eq_div)
  ultimately show ?case
    using Suc.hyps(2) assms(2)
    by (cases data) (auto simp: decode_value.simps [of _ depth] read_argument_def)
qed

text \<open>
  Nesting limit: an input that opens more than 100 nested one-element arrays is refused
  with \<open>DepthExceeded\<close> at offset 100, whatever follows.
\<close>

lemma decode_depth_exceeded:
  "decode (replicate (101 + n) 0x81 @ rest) = Inl (DepthExceeded 100 100)"
  unfolding decode_def by (rule decode_nested_arrays) (simp_all add: nth_append)

text \<open>
  Keys are compared before the conversion of an unsigned key to \<open>i64\<close>, so the keys
  \<open>2^64 - 1\<close> and \<open>-1\<close> are accepted together and become the same key.
\<close>

lemma decode_u64_key_collision:
  "decode [0xA2, 0x1B, 0xFF, 0xFF, 0xFF, 0xFF, 0xFF, 0xFF, 0xFF, 0xFF, 0, 0x20, 1] =
     Inr (IntMap [(- 1, Unsigned 0), (- 1, Unsigned 1)], 13)"
  by code_simp

text \<open>\<open>check_canonical\<close> does not check the order of map keys, and accepts \<open>undefined\<close>.\<close>

lemma check_canonical_unsorted: "check_canonical [0xA2, 2, 0, 1, 0] = Inr ()"
  by code_simp

lemma check_canonical_undefined: "check_canonical [0xF7] = Inr ()"
  by code_simp

end
