(* ===== verification/Framing.thy ===== *)
theory Framing
  imports Prelude
begin

text \<open>
  The frame layer, \<open>crates/aafp-messaging/src/framing.rs\<close>: the 28-byte header, the
  allocating codec (\<open>encode_frame\<close>, \<open>decode_frame\<close>), the in-place variants on a growing
  buffer (\<open>encode_frame_into\<close>, \<open>encode_header_into\<close> with \<open>backpatch_payload_len\<close>,
  \<open>decode_frame_from\<close>) and the streaming codec \<open>FrameCodec\<close>. An operation on a
  \<open>BytesMut\<close> takes the contents of the buffer and returns its result with the contents
  afterwards; reserved capacity is not observable and is left out. The in-place and the
  streaming variants are shown to refine the allocating ones.
\<close>

section \<open>Frames\<close>

abbreviation (input) AAFP_VERSION :: byte where "AAFP_VERSION \<equiv> 1"
abbreviation (input) MAX_PAYLOAD_SIZE :: nat where "MAX_PAYLOAD_SIZE \<equiv> 1048576"
abbreviation (input) MAX_EXTENSION_SIZE :: nat where "MAX_EXTENSION_SIZE \<equiv> 65536"
abbreviation (input) FRAME_HEADER_SIZE :: nat where "FRAME_HEADER_SIZE \<equiv> 28"

abbreviation (input) FLAG_MORE :: byte where "FLAG_MORE \<equiv> 0x01"
abbreviation (input) FLAG_CRITICAL :: byte where "FLAG_CRITICAL \<equiv> 0x80"

datatype FrameType =
    FtData
  | FtHandshake
  | FtRpcRequest
  | FtRpcResponse
  | FtClose
  | FtError
  | FtPing
  | FtPong
  | FtUnknown byte

definition FrameType_from_u8 :: "byte \<Rightarrow> FrameType" where
  "FrameType_from_u8 val =
     (if val = 0x01 then FtData
      else if val = 0x02 then FtHandshake
      else if val = 0x03 then FtRpcRequest
      else if val = 0x04 then FtRpcResponse
      else if val = 0x05 then FtClose
      else if val = 0x06 then FtError
      else if val = 0x07 then FtPing
      else if val = 0x08 then FtPong
      else FtUnknown val)"

fun FrameType_to_u8 :: "FrameType \<Rightarrow> byte" where
  "FrameType_to_u8 FtData = 0x01"
| "FrameType_to_u8 FtHandshake = 0x02"
| "FrameType_to_u8 FtRpcRequest = 0x03"
| "FrameType_to_u8 FtRpcResponse = 0x04"
| "FrameType_to_u8 FtClose = 0x05"
| "FrameType_to_u8 FtError = 0x06"
| "FrameType_to_u8 FtPing = 0x07"
| "FrameType_to_u8 FtPong = 0x08"
| "FrameType_to_u8 (FtUnknown raw) = raw"

definition FrameType_is_known :: "FrameType \<Rightarrow> bool" where
  "FrameType_is_known t \<longleftrightarrow>
     t \<in> {FtData, FtHandshake, FtRpcRequest, FtRpcResponse, FtClose, FtError, FtPing, FtPong}"

fun FrameType_is_unknown :: "FrameType \<Rightarrow> bool" where
  "FrameType_is_unknown (FtUnknown _) = True"
| "FrameType_is_unknown _ = False"

record Frame =
  frame_type :: FrameType
  fr_flags :: byte
  fr_stream_id :: u64
  fr_extensions :: bytes
  fr_payload :: bytes

definition Frame_data :: "u64 \<Rightarrow> bytes \<Rightarrow> Frame" where
  "Frame_data sid p = \<lparr>frame_type = FtData, fr_flags = 0, fr_stream_id = sid,
     fr_extensions = [], fr_payload = p\<rparr>"

definition Frame_handshake :: "bytes \<Rightarrow> Frame" where
  "Frame_handshake p = \<lparr>frame_type = FtHandshake, fr_flags = 0, fr_stream_id = 0,
     fr_extensions = [], fr_payload = p\<rparr>"

definition Frame_ping :: "u64 \<Rightarrow> Frame" where
  "Frame_ping sid = \<lparr>frame_type = FtPing, fr_flags = 0, fr_stream_id = sid,
     fr_extensions = [], fr_payload = []\<rparr>"

definition Frame_pong :: "u64 \<Rightarrow> Frame" where
  "Frame_pong sid = \<lparr>frame_type = FtPong, fr_flags = 0, fr_stream_id = sid,
     fr_extensions = [], fr_payload = []\<rparr>"

definition with_more :: "Frame \<Rightarrow> Frame" where
  "with_more f = f\<lparr>fr_flags := fr_flags f OR FLAG_MORE\<rparr>"

definition has_more :: "Frame \<Rightarrow> bool" where
  "has_more f \<longleftrightarrow> fr_flags f AND FLAG_MORE \<noteq> 0"

definition wire_size :: "Frame \<Rightarrow> nat" where
  "wire_size f = FRAME_HEADER_SIZE + length (fr_extensions f) + length (fr_payload f)"

datatype FrameError =
    PayloadTooLarge nat nat
  | ExtensionTooLarge nat nat
  | Incomplete nat nat
  | UnknownFrameType byte
  | InvalidVersion byte byte

section \<open>Encoding and decoding a frame\<close>

definition encode_frame :: "Frame \<Rightarrow> FrameError + bytes" where
  "encode_frame f =
     (if length (fr_payload f) > MAX_PAYLOAD_SIZE
      then Inl (PayloadTooLarge (length (fr_payload f)) MAX_PAYLOAD_SIZE)
      else if length (fr_extensions f) > MAX_EXTENSION_SIZE
      then Inl (ExtensionTooLarge (length (fr_extensions f)) MAX_EXTENSION_SIZE)
      else
        let ext_len = word_of_nat (length (fr_extensions f)) :: u64;
            payload_len = word_of_nat (length (fr_payload f)) :: u64
        in Inr ([AAFP_VERSION] @ [FrameType_to_u8 (frame_type f)] @ [fr_flags f] @ [0] @
             u64_to_be_bytes (fr_stream_id f) @ u64_to_be_bytes payload_len @
             u64_to_be_bytes ext_len @ fr_extensions f @ fr_payload f))"

text \<open>\<open>u64::from_be_bytes(data[a..a + 8])\<close>.\<close>

definition u64_at :: "bytes \<Rightarrow> nat \<Rightarrow> u64" where
  "u64_at data a = word_of_nat (be_val (subslice data a (a + 8)))"

definition decode_frame :: "bytes \<Rightarrow> FrameError + (Frame \<times> nat)" where
  "decode_frame data =
     (if length data < FRAME_HEADER_SIZE
      then Inl (Incomplete FRAME_HEADER_SIZE (length data))
      else
        let version = data ! 0;
            frame_type_raw = data ! 1;
            flags = data ! 2;
            sid = u64_at data 4;
            payload_len = unat (u64_at data 12);
            ext_len = unat (u64_at data 20)
        in
          if version \<noteq> AAFP_VERSION then Inl (InvalidVersion version AAFP_VERSION)
          else if payload_len > MAX_PAYLOAD_SIZE
          then Inl (PayloadTooLarge payload_len MAX_PAYLOAD_SIZE)
          else if ext_len > MAX_EXTENSION_SIZE
          then Inl (ExtensionTooLarge ext_len MAX_EXTENSION_SIZE)
          else case checked_add ext_len payload_len of
            None \<Rightarrow> Inl (PayloadTooLarge USIZE_MAX MAX_PAYLOAD_SIZE)
          | Some total_body \<Rightarrow>
              (case checked_add FRAME_HEADER_SIZE total_body of
                 None \<Rightarrow> Inl (PayloadTooLarge USIZE_MAX MAX_PAYLOAD_SIZE)
               | Some total_frame \<Rightarrow>
                   if length data < total_frame
                   then Inl (Incomplete total_frame (length data))
                   else
                     let ft = FrameType_from_u8 frame_type_raw in
                     if FrameType_is_unknown ft \<and> flags AND FLAG_CRITICAL \<noteq> 0
                     then Inl (UnknownFrameType frame_type_raw)
                     else Inr (\<lparr>frame_type = ft, fr_flags = flags, fr_stream_id = sid,
                       fr_extensions = subslice data FRAME_HEADER_SIZE (FRAME_HEADER_SIZE + ext_len),
                       fr_payload = subslice data (FRAME_HEADER_SIZE + ext_len) total_frame\<rparr>,
                       total_frame)))"

section \<open>In-place variants\<close>

definition encode_frame_into :: "bytes \<Rightarrow> Frame \<Rightarrow> (FrameError + unit) \<times> bytes" where
  "encode_frame_into buf f =
     (if length (fr_payload f) > MAX_PAYLOAD_SIZE
      then (Inl (PayloadTooLarge (length (fr_payload f)) MAX_PAYLOAD_SIZE), buf)
      else if length (fr_extensions f) > MAX_EXTENSION_SIZE
      then (Inl (ExtensionTooLarge (length (fr_extensions f)) MAX_EXTENSION_SIZE), buf)
      else
        let ext_len = word_of_nat (length (fr_extensions f)) :: u64;
            payload_len = word_of_nat (length (fr_payload f)) :: u64;
            buf = buf @ [AAFP_VERSION];
            buf = buf @ [FrameType_to_u8 (frame_type f)];
            buf = buf @ [fr_flags f];
            buf = buf @ [0];
            buf = buf @ u64_to_be_bytes (fr_stream_id f);
            buf = buf @ u64_to_be_bytes payload_len;
            buf = buf @ u64_to_be_bytes ext_len;
            buf = buf @ fr_extensions f;
            buf = buf @ fr_payload f
        in (Inr (), buf))"

definition encode_header_into ::
    "bytes \<Rightarrow> FrameType \<Rightarrow> byte \<Rightarrow> u64 \<Rightarrow> bytes \<Rightarrow> (FrameError + unit) \<times> bytes" where
  "encode_header_into buf ft flags sid exts =
     (if length exts > MAX_EXTENSION_SIZE
      then (Inl (ExtensionTooLarge (length exts) MAX_EXTENSION_SIZE), buf)
      else
        let ext_len = word_of_nat (length exts) :: u64;
            buf = buf @ [AAFP_VERSION];
            buf = buf @ [FrameType_to_u8 ft];
            buf = buf @ [flags];
            buf = buf @ [0];
            buf = buf @ u64_to_be_bytes sid;
            buf = buf @ u64_to_be_bytes 0;
            buf = buf @ u64_to_be_bytes ext_len;
            buf = buf @ exts
        in (Inr (), buf))"

definition backpatch_payload_len :: "bytes \<Rightarrow> nat \<Rightarrow> (FrameError + unit) \<times> bytes" where
  "backpatch_payload_len buf payload_len =
     (if payload_len > MAX_PAYLOAD_SIZE
      then (Inl (PayloadTooLarge payload_len MAX_PAYLOAD_SIZE), buf)
      else if length buf < 20 then (Inl (Incomplete 20 (length buf)), buf)
      else (Inr (), take 12 buf @ u64_to_be_bytes (word_of_nat payload_len) @ drop 20 buf))"

record DecodedFrame =
  df_frame_type :: FrameType
  df_flags :: byte
  df_stream_id :: u64
  df_extensions :: bytes
  df_payload :: bytes

definition decode_frame_from :: "bytes \<Rightarrow> (FrameError + DecodedFrame option) \<times> bytes" where
  "decode_frame_from buf =
     (if length buf < FRAME_HEADER_SIZE then (Inr None, buf)
      else
        let version = buf ! 0;
            frame_type_raw = buf ! 1;
            flags = buf ! 2;
            sid = u64_at buf 4;
            payload_len = unat (u64_at buf 12);
            ext_len = unat (u64_at buf 20)
        in
          if version \<noteq> AAFP_VERSION then (Inl (InvalidVersion version AAFP_VERSION), buf)
          else if payload_len > MAX_PAYLOAD_SIZE
          then (Inl (PayloadTooLarge payload_len MAX_PAYLOAD_SIZE), buf)
          else if ext_len > MAX_EXTENSION_SIZE
          then (Inl (ExtensionTooLarge ext_len MAX_EXTENSION_SIZE), buf)
          else case checked_add ext_len payload_len of
            None \<Rightarrow> (Inl (PayloadTooLarge USIZE_MAX MAX_PAYLOAD_SIZE), buf)
          | Some total_body \<Rightarrow>
              (case checked_add FRAME_HEADER_SIZE total_body of
                 None \<Rightarrow> (Inl (PayloadTooLarge USIZE_MAX MAX_PAYLOAD_SIZE), buf)
               | Some total_frame \<Rightarrow>
                   if length buf < total_frame then (Inr None, buf)
                   else
                     let ft = FrameType_from_u8 frame_type_raw in
                     if FrameType_is_unknown ft \<and> flags AND FLAG_CRITICAL \<noteq> 0
                     then (Inl (UnknownFrameType frame_type_raw), buf)
                     else
                       let buf = drop FRAME_HEADER_SIZE buf;
                           (exts, buf) =
                             (if ext_len > 0 then (take ext_len buf, drop ext_len buf) else ([], buf));
                           (payload, buf) =
                             (if payload_len > 0 then (take payload_len buf, drop payload_len buf)
                              else ([], buf))
                       in (Inr (Some \<lparr>df_frame_type = ft, df_flags = flags, df_stream_id = sid,
                            df_extensions = exts, df_payload = payload\<rparr>), buf)))"

section \<open>The streaming codec\<close>

record FrameCodec =
  max_payload :: nat

definition FrameCodec_new :: FrameCodec where
  "FrameCodec_new = \<lparr>max_payload = MAX_PAYLOAD_SIZE\<rparr>"

definition FrameCodec_default :: FrameCodec where
  "FrameCodec_default = FrameCodec_new"

definition FrameCodec_with_max_payload :: "nat \<Rightarrow> FrameCodec" where
  "FrameCodec_with_max_payload m = \<lparr>max_payload = m\<rparr>"

definition FrameCodec_decode :: "FrameCodec \<Rightarrow> bytes \<Rightarrow> (FrameError + Frame option) \<times> bytes" where
  "FrameCodec_decode c buf =
     (if length buf < FRAME_HEADER_SIZE then (Inr None, buf)
      else
        let payload_len = unat (u64_at buf 12);
            ext_len = unat (u64_at buf 20)
        in
          if payload_len > max_payload c
          then (Inl (PayloadTooLarge payload_len (max_payload c)), buf)
          else if ext_len > MAX_EXTENSION_SIZE
          then (Inl (ExtensionTooLarge ext_len MAX_EXTENSION_SIZE), buf)
          else case Option.bind (checked_add FRAME_HEADER_SIZE ext_len)
                      (\<lambda>n. checked_add n payload_len) of
            None \<Rightarrow> (Inl (PayloadTooLarge USIZE_MAX (max_payload c)), buf)
          | Some total_len \<Rightarrow>
              if length buf < total_len then (Inr None, buf)
              else
                let data = take total_len buf; buf = drop total_len buf
                in case decode_frame data of
                     Inl e \<Rightarrow> (Inl e, buf)
                   | Inr (f, _) \<Rightarrow> (Inr (Some f), buf))"

definition FrameCodec_encode :: "FrameCodec \<Rightarrow> Frame \<Rightarrow> bytes \<Rightarrow> (FrameError + unit) \<times> bytes" where
  "FrameCodec_encode c f buf =
     (if length (fr_payload f) > max_payload c
      then (Inl (PayloadTooLarge (length (fr_payload f)) (max_payload c)), buf)
      else if length (fr_extensions f) > MAX_EXTENSION_SIZE
      then (Inl (ExtensionTooLarge (length (fr_extensions f)) MAX_EXTENSION_SIZE), buf)
      else
        let ext_len = word_of_nat (length (fr_extensions f)) :: u64;
            payload_len = word_of_nat (length (fr_payload f)) :: u64;
            buf = buf @ [AAFP_VERSION];
            buf = buf @ [FrameType_to_u8 (frame_type f)];
            buf = buf @ [fr_flags f];
            buf = buf @ [0];
            buf = buf @ u64_to_be_bytes (fr_stream_id f);
            buf = buf @ u64_to_be_bytes payload_len;
            buf = buf @ u64_to_be_bytes ext_len;
            buf = buf @ fr_extensions f;
            buf = buf @ fr_payload f
        in (Inr (), buf))"

section \<open>Header layout\<close>

text \<open>Header of a frame with the given version, type, flags and reserved byte.\<close>

definition frame_header :: "byte \<Rightarrow> byte \<Rightarrow> byte \<Rightarrow> byte \<Rightarrow> u64 \<Rightarrow> u64 \<Rightarrow> u64 \<Rightarrow> bytes" where
  "frame_header v t fl r sid plen elen =
     [v, t, fl, r] @ u64_to_be_bytes sid @ u64_to_be_bytes plen @ u64_to_be_bytes elen"

lemma length_frame_header [simp]: "length (frame_header v t fl r sid plen elen) = 28"
  by (simp add: frame_header_def)

lemma u64_at_middle: "length pre = a \<Longrightarrow> u64_at (pre @ u64_to_be_bytes w @ rest) a = w"
  by (simp add: u64_at_def subslice_middle)

lemma frame_header_fields [simp]:
  "(frame_header v t fl r sid plen elen @ rest) ! 0 = v"
  "(frame_header v t fl r sid plen elen @ rest) ! Suc 0 = t"
  "(frame_header v t fl r sid plen elen @ rest) ! 2 = fl"
  "u64_at (frame_header v t fl r sid plen elen @ rest) 4 = sid"
  "u64_at (frame_header v t fl r sid plen elen @ rest) 12 = plen"
  "u64_at (frame_header v t fl r sid plen elen @ rest) 20 = elen"
  using u64_at_middle [of "[v, t, fl, r]" 4 sid "u64_to_be_bytes plen @ u64_to_be_bytes elen @ rest"]
    u64_at_middle [of "[v, t, fl, r] @ u64_to_be_bytes sid" 12 plen "u64_to_be_bytes elen @ rest"]
    u64_at_middle [of "[v, t, fl, r] @ u64_to_be_bytes sid @ u64_to_be_bytes plen" 20 elen rest]
  by (simp_all add: frame_header_def)

lemma u64_bytes_exhaust: "length bs = 8 \<Longrightarrow> \<exists>w :: u64. bs = u64_to_be_bytes w"
proof
  assume "length bs = 8"
  then show "bs = u64_to_be_bytes (word_of_nat (be_val bs))"
    using be_val_bound [of bs] be_bytes_be_val [of bs]
    by (simp add: unsigned_of_nat take_bit_nat_eq_self)
qed

lemma frame_header_exhaust:
  assumes "28 \<le> length data"
  obtains v t fl r sid plen elen rest
  where "data = frame_header v t fl r sid plen elen @ rest"
proof -
  from assms have "Suc (Suc (Suc (Suc 0))) \<le> length data" by simp
  then obtain v t fl r tl where tl: "data = v # t # fl # r # tl"
    by (auto simp: Suc_le_length_iff)
  then have len: "24 \<le> length tl" using assms by simp
  let ?a = "take 8 tl" and ?b = "take 8 (drop 8 tl)" and ?c = "take 8 (drop 16 tl)"
  obtain sid plen elen where "?a = u64_to_be_bytes sid" "?b = u64_to_be_bytes plen"
    "?c = u64_to_be_bytes elen"
    using len u64_bytes_exhaust [of ?a] u64_bytes_exhaust [of ?b] u64_bytes_exhaust [of ?c] by auto
  moreover have "tl = ?a @ ?b @ ?c @ drop 24 tl"
    by (simp flip: take_add add: append_assoc [symmetric] del: append_assoc)
  ultimately have "data = frame_header v t fl r sid plen elen @ drop 24 tl"
    using tl by (simp add: frame_header_def)
  then show ?thesis by (rule that)
qed

lemma decode_frame_header:
  "decode_frame (frame_header v t fl r sid plen elen @ rest) =
     (if v \<noteq> AAFP_VERSION then Inl (InvalidVersion v AAFP_VERSION)
      else if unat plen > MAX_PAYLOAD_SIZE then Inl (PayloadTooLarge (unat plen) MAX_PAYLOAD_SIZE)
      else if unat elen > MAX_EXTENSION_SIZE then Inl (ExtensionTooLarge (unat elen) MAX_EXTENSION_SIZE)
      else if length rest < unat elen + unat plen
      then Inl (Incomplete (28 + (unat elen + unat plen)) (28 + length rest))
      else if FrameType_is_unknown (FrameType_from_u8 t) \<and> fl AND FLAG_CRITICAL \<noteq> 0
      then Inl (UnknownFrameType t)
      else Inr (\<lparr>frame_type = FrameType_from_u8 t, fr_flags = fl, fr_stream_id = sid,
        fr_extensions = take (unat elen) rest,
        fr_payload = take (unat plen) (drop (unat elen) rest)\<rparr>, 28 + (unat elen + unat plen)))"
  by (simp add: decode_frame_def Let_def subslice_def)

lemma decode_frame_from_header:
  "decode_frame_from (frame_header v t fl r sid plen elen @ rest) =
     (let buf = frame_header v t fl r sid plen elen @ rest in
      if v \<noteq> AAFP_VERSION then (Inl (InvalidVersion v AAFP_VERSION), buf)
      else if unat plen > MAX_PAYLOAD_SIZE then (Inl (PayloadTooLarge (unat plen) MAX_PAYLOAD_SIZE), buf)
      else if unat elen > MAX_EXTENSION_SIZE then (Inl (ExtensionTooLarge (unat elen) MAX_EXTENSION_SIZE), buf)
      else if length rest < unat elen + unat plen then (Inr None, buf)
      else if FrameType_is_unknown (FrameType_from_u8 t) \<and> fl AND FLAG_CRITICAL \<noteq> 0
      then (Inl (UnknownFrameType t), buf)
      else (Inr (Some \<lparr>df_frame_type = FrameType_from_u8 t, df_flags = fl, df_stream_id = sid,
        df_extensions = take (unat elen) rest,
        df_payload = take (unat plen) (drop (unat elen) rest)\<rparr>), drop (unat elen + unat plen) rest))"
  by (simp add: decode_frame_from_def Let_def add.commute)

lemma FrameCodec_decode_header:
  "FrameCodec_decode c (frame_header v t fl r sid plen elen @ rest) =
     (let buf = frame_header v t fl r sid plen elen @ rest in
      if unat plen > max_payload c then (Inl (PayloadTooLarge (unat plen) (max_payload c)), buf)
      else if unat elen > MAX_EXTENSION_SIZE then (Inl (ExtensionTooLarge (unat elen) MAX_EXTENSION_SIZE), buf)
      else if 28 + unat elen + unat plen > USIZE_MAX
      then (Inl (PayloadTooLarge USIZE_MAX (max_payload c)), buf)
      else if length rest < unat elen + unat plen then (Inr None, buf)
      else (case decode_frame (frame_header v t fl r sid plen elen @ take (unat elen + unat plen) rest) of
              Inl e \<Rightarrow> (Inl e, drop (unat elen + unat plen) rest)
            | Inr (f, n) \<Rightarrow> (Inr (Some f), drop (unat elen + unat plen) rest)))"
  by (simp add: FrameCodec_decode_def Let_def checked_add_def)

lemma encode_frame_header:
  "encode_frame f =
     (if length (fr_payload f) > MAX_PAYLOAD_SIZE
      then Inl (PayloadTooLarge (length (fr_payload f)) MAX_PAYLOAD_SIZE)
      else if length (fr_extensions f) > MAX_EXTENSION_SIZE
      then Inl (ExtensionTooLarge (length (fr_extensions f)) MAX_EXTENSION_SIZE)
      else Inr (frame_header 1 (FrameType_to_u8 (frame_type f)) (fr_flags f) 0 (fr_stream_id f)
        (word_of_nat (length (fr_payload f))) (word_of_nat (length (fr_extensions f))) @
        fr_extensions f @ fr_payload f))"
  by (simp add: encode_frame_def frame_header_def Let_def)

section \<open>Round trips\<close>

text \<open>The frames a peer can send: sizes within the limits, an unknown type carries a byte
  outside the registry and is not marked critical.\<close>

definition frame_ok :: "Frame \<Rightarrow> bool" where
  "frame_ok f \<longleftrightarrow> length (fr_payload f) \<le> MAX_PAYLOAD_SIZE \<and>
     length (fr_extensions f) \<le> MAX_EXTENSION_SIZE \<and>
     (case frame_type f of FtUnknown raw \<Rightarrow> (raw = 0 \<or> 8 < raw) \<and> fr_flags f AND FLAG_CRITICAL = 0 | _ \<Rightarrow> True)"

lemma FrameType_from_to_u8: "FrameType_from_u8 (FrameType_to_u8 t) = t \<longleftrightarrow> (case t of FtUnknown raw \<Rightarrow> raw = 0 \<or> 8 < raw | _ \<Rightarrow> True)"
proof (cases t)
  case (FtUnknown raw)
  have "raw = n \<longleftrightarrow> unat raw = unat n" for n by (rule word_unat_eq_iff)
  then have "raw \<notin> {1, 2, 3, 4, 5, 6, 7, 8} \<longleftrightarrow> raw = 0 \<or> 8 < raw"
    by (simp add: word_less_nat_alt) linarith
  then show ?thesis by (auto simp: FtUnknown FrameType_from_u8_def)
qed (simp_all add: FrameType_from_u8_def)

lemma frame_ok_type:
  "frame_ok f \<longleftrightarrow> length (fr_payload f) \<le> MAX_PAYLOAD_SIZE \<and> length (fr_extensions f) \<le> MAX_EXTENSION_SIZE \<and>
     FrameType_from_u8 (FrameType_to_u8 (frame_type f)) = frame_type f \<and>
     \<not> (FrameType_is_unknown (frame_type f) \<and> fr_flags f AND FLAG_CRITICAL \<noteq> 0)"
  unfolding frame_ok_def FrameType_from_to_u8 by (cases "frame_type f") auto

definition frame_bytes :: "Frame \<Rightarrow> bytes" where
  "frame_bytes f =
     frame_header 1 (FrameType_to_u8 (frame_type f)) (fr_flags f) 0 (fr_stream_id f)
       (word_of_nat (length (fr_payload f))) (word_of_nat (length (fr_extensions f))) @
     fr_extensions f @ fr_payload f"

lemma encode_frame_ok: "frame_ok f \<Longrightarrow> encode_frame f = Inr (frame_bytes f)"
  by (simp add: encode_frame_header frame_ok_type frame_bytes_def)

lemma encode_frame_Inr:
  "encode_frame f = Inr bs \<longleftrightarrow> bs = frame_bytes f \<and>
     length (fr_payload f) \<le> MAX_PAYLOAD_SIZE \<and> length (fr_extensions f) \<le> MAX_EXTENSION_SIZE"
  by (auto simp: encode_frame_header frame_bytes_def)

lemma unat_small_length: "n \<le> MAX_PAYLOAD_SIZE \<Longrightarrow> unat (word_of_nat n :: u64) = n"
  by (simp add: unsigned_of_nat take_bit_nat_eq_self)

lemma decode_frame_bytes: "frame_ok f \<Longrightarrow> decode_frame (frame_bytes f @ rest) = Inr (f, length (frame_bytes f))"
  by (simp add: frame_bytes_def decode_frame_header frame_ok_type unat_small_length)

interpretation frame_codec: prefix_codec frame_bytes decode_frame frame_ok
  by unfold_locales (rule decode_frame_bytes)



lemma FrameType_to_from_u8 [simp]: "FrameType_to_u8 (FrameType_from_u8 b) = b"
  by (simp add: FrameType_from_u8_def)

lemma frame_header_clear_reserved:
  "(frame_header v t fl r sid plen elen @ rest)[3 := 0] = frame_header v t fl 0 sid plen elen @ rest"
  by (simp add: frame_header_def numeral_3_eq_3)

text \<open>
  What the decoder accepts: an accepted frame lies inside the buffer and within the size
  limits, is not an unknown critical frame, and encoding it gives back the bytes it was
  decoded from with the reserved byte cleared.
\<close>

lemma decode_frame_inverse:
  assumes "decode_frame data = Inr (f, n)"
  shows "n \<le> length data \<and> n = wire_size f \<and> frame_ok f \<and>
    encode_frame f = Inr ((take n data)[3 := 0])"
proof -
  have "28 \<le> length data"
    using assms by (auto simp: decode_frame_def split: if_splits)
  then obtain v t fl r sid plen elen rest
    where d: "data = frame_header v t fl r sid plen elen @ rest"
    by (rule frame_header_exhaust)
  have fs: "v = 1" "unat plen \<le> MAX_PAYLOAD_SIZE" "unat elen \<le> MAX_EXTENSION_SIZE"
    "unat elen + unat plen \<le> length rest"
    "\<not> (FrameType_is_unknown (FrameType_from_u8 t) \<and> fl AND FLAG_CRITICAL \<noteq> 0)"
    "f = \<lparr>frame_type = FrameType_from_u8 t, fr_flags = fl, fr_stream_id = sid,
        fr_extensions = take (unat elen) rest,
        fr_payload = take (unat plen) (drop (unat elen) rest)\<rparr>"
    "n = 28 + (unat elen + unat plen)"
    using assms by (auto simp: d decode_frame_header split: if_splits)
  then have ok: "frame_ok f" by (simp add: frame_ok_type)
  moreover have "n \<le> length data" "n = wire_size f" using fs by (simp_all add: d wire_size_def)
  moreover have "frame_bytes f = (take n data)[3 := 0]"
    using fs by (simp add: d frame_bytes_def frame_header_clear_reserved take_add)
  ultimately show ?thesis by (simp add: encode_frame_ok)
qed

lemma decode_frame_inverse_example:
  "encode_frame \<lparr>frame_type = FtUnknown 9, fr_flags = 1, fr_stream_id = 7, fr_extensions = [],
       fr_payload = [0xBB]\<rparr> =
     Inr ((take 29 [1, 9, 1, 0xFF, 0, 0, 0, 0, 0, 0, 0, 7, 0, 0, 0, 0, 0, 0, 0, 1, 0, 0, 0, 0, 0, 0,
       0, 0, 0xBB, 0xCC])[3 := 0])"
proof -
  have d: "decode_frame [1, 9, 1, 0xFF, 0, 0, 0, 0, 0, 0, 0, 7, 0, 0, 0, 0, 0, 0, 0, 1, 0, 0, 0, 0,
      0, 0, 0, 0, 0xBB, 0xCC] =
    Inr (\<lparr>frame_type = FtUnknown 9, fr_flags = 1, fr_stream_id = 7, fr_extensions = [],
       fr_payload = [0xBB]\<rparr>, 29)" by code_simp
  show ?thesis using decode_frame_inverse [OF d] by blast
qed

section \<open>The in-place variants refine the allocating codec\<close>

text \<open>The path that serialises the payload in place, from an empty buffer.\<close>

definition stream_encode :: "Frame \<Rightarrow> (FrameError + unit) \<times> bytes" where
  "stream_encode f =
     (case encode_header_into [] (frame_type f) (fr_flags f) (fr_stream_id f) (fr_extensions f) of
        (Inl e, buf) \<Rightarrow> (Inl e, buf)
      | (Inr _, buf) \<Rightarrow> backpatch_payload_len (buf @ fr_payload f) (length (fr_payload f)))"

text \<open>
  Writing a frame into a buffer, in one step, through the codec, or as a header followed by
  the payload and the back-patched length, appends exactly the bytes of \<open>encode_frame\<close>, and
  fails with the same error leaving the buffer unchanged. The back-patched variant needs an
  empty buffer: the length is written at the absolute offset 12.
\<close>

lemma encode_into_equivalence:
  "encode_frame_into buf f =
     (case encode_frame f of Inl e \<Rightarrow> (Inl e, buf) | Inr bs \<Rightarrow> (Inr (), buf @ bs)) \<and>
   FrameCodec_encode FrameCodec_new f buf = encode_frame_into buf f \<and>
   (encode_frame f = Inr bs \<longrightarrow> stream_encode f = (Inr (), bs))"
proof (intro conjI impI)
  show "encode_frame_into buf f =
     (case encode_frame f of Inl e \<Rightarrow> (Inl e, buf) | Inr bs \<Rightarrow> (Inr (), buf @ bs))"
    by (simp add: encode_frame_into_def encode_frame_def Let_def)
  show "FrameCodec_encode FrameCodec_new f buf = encode_frame_into buf f"
    by (simp add: encode_frame_into_def FrameCodec_encode_def FrameCodec_new_def Let_def)
  assume "encode_frame f = Inr bs"
  then show "stream_encode f = (Inr (), bs)"
    by (auto simp: stream_encode_def encode_header_into_def backpatch_payload_len_def
        encode_frame_Inr frame_bytes_def frame_header_def Let_def)
qed

lemma encode_into_equivalence_example:
  "stream_encode (Frame_ping 1) =
     (Inr (), [1, 7, 0, 0, 0, 0, 0, 0, 0, 0, 0, 1, 0, 0, 0, 0, 0, 0, 0, 0, 0, 0, 0, 0, 0, 0, 0, 0])"
proof -
  have "encode_frame (Frame_ping 1) =
      Inr [1, 7, 0, 0, 0, 0, 0, 0, 0, 0, 0, 1, 0, 0, 0, 0, 0, 0, 0, 0, 0, 0, 0, 0, 0, 0, 0, 0]"
    by code_simp
  then show ?thesis using encode_into_equivalence [of _ "Frame_ping 1"] by blast
qed

text \<open>The zero-copy result of a decoded frame.\<close>

definition decoded_of :: "Frame \<Rightarrow> DecodedFrame" where
  "decoded_of f = \<lparr>df_frame_type = frame_type f, df_flags = fr_flags f,
     df_stream_id = fr_stream_id f, df_extensions = fr_extensions f, df_payload = fr_payload f\<rparr>"

text \<open>
  C4. Zero-copy decoding refines \<open>decode_frame\<close>: it returns the same frame and drops its bytes
  from the buffer, reports the same errors, and turns \<open>Incomplete\<close> into "no frame yet", where its
  documentation announces the error \<open>Incomplete\<close>; in the last two cases the buffer is left as it was.
\<close>

theorem decode_frame_from_refines:
  "decode_frame_from buf =
     (case decode_frame buf of
        Inl (Incomplete _ _) \<Rightarrow> (Inr None, buf)
      | Inl e \<Rightarrow> (Inl e, buf)
      | Inr (f, n) \<Rightarrow> (Inr (Some (decoded_of f)), drop n buf))"
proof (cases "length buf < 28")
  case True
  then show ?thesis by (simp add: decode_frame_from_def decode_frame_def)
next
  case False
  then obtain v t fl r sid plen elen rest
    where d: "buf = frame_header v t fl r sid plen elen @ rest"
    using frame_header_exhaust [of buf] by (metis not_less)
  show ?thesis
    by (simp add: d decode_frame_header decode_frame_from_header decoded_of_def Let_def)
qed

text \<open>
  The streaming codec yields a frame exactly when \<open>decode_frame\<close> accepts the front of the
  buffer and the payload is within the configured maximum, and it then drops exactly the
  bytes of that frame.
\<close>

lemma FrameCodec_decode_frame:
  "FrameCodec_decode c buf = (Inr (Some f), buf') \<longleftrightarrow>
     (\<exists>n. decode_frame buf = Inr (f, n) \<and> buf' = drop n buf \<and> length (fr_payload f) \<le> max_payload c)"
proof (cases "length buf < 28")
  case True
  then show ?thesis by (simp add: FrameCodec_decode_def decode_frame_def)
next
  case False
  then obtain v t fl r sid plen elen rest
    where d: "buf = frame_header v t fl r sid plen elen @ rest"
    using frame_header_exhaust [of buf] by (metis not_less)
  show ?thesis
    by (auto simp: d decode_frame_header FrameCodec_decode_header Let_def min_def drop_take
        split: if_splits)
qed

text \<open>
  Partial input: as long as a frame has not arrived completely, the zero-copy decoder and
  the streaming codec ask for more input and keep the buffer; they never report an error for
  a proper prefix of a frame.
\<close>

lemma decode_partial_frame:
  assumes "frame_ok f" and "k < length (frame_bytes f)"
    and "length (fr_payload f) \<le> max_payload c"
  shows "decode_frame_from (take k (frame_bytes f)) = (Inr None, take k (frame_bytes f)) \<and>
    FrameCodec_decode c (take k (frame_bytes f)) = (Inr None, take k (frame_bytes f))"
proof (cases "k < 28")
  case True
  then have "length (take k (frame_bytes f)) < 28" by simp
  then show ?thesis unfolding decode_frame_from_def FrameCodec_decode_def by (simp only: if_True)
next
  case False
  let ?h = "frame_header 1 (FrameType_to_u8 (frame_type f)) (fr_flags f) 0 (fr_stream_id f)
       (word_of_nat (length (fr_payload f))) (word_of_nat (length (fr_extensions f)))"
  obtain rest where "take k (frame_bytes f) = ?h @ rest"
    and "length rest < length (fr_extensions f) + length (fr_payload f)"
  proof
    show "take k (frame_bytes f) = ?h @ take (k - 28) (fr_extensions f @ fr_payload f)"
      using False by (simp add: frame_bytes_def)
    show "length (take (k - 28) (fr_extensions f @ fr_payload f)) <
        length (fr_extensions f) + length (fr_payload f)"
      using False assms(2) by (simp add: frame_bytes_def del: take_append)
  qed
  then show ?thesis
    using assms by (simp add: decode_frame_from_header FrameCodec_decode_header frame_ok_type
        unat_small_length Let_def)
qed

lemma decode_partial_frame_example:
  "decode_frame_from (take 20 (frame_bytes (Frame_data 5 [1, 2, 3]))) =
     (Inr None, take 20 (frame_bytes (Frame_data 5 [1, 2, 3])))"
proof -
  have "frame_ok (Frame_data 5 [1, 2, 3])" by code_simp
  then show ?thesis
    using decode_partial_frame [of "Frame_data 5 [1, 2, 3]" 20 FrameCodec_new]
    by (simp add: FrameCodec_new_def Frame_data_def frame_bytes_def)
qed

text \<open>
  A codec configured with a larger maximum than \<open>MAX_PAYLOAD_SIZE\<close> consumes a frame that
  \<open>decode_frame\<close> then refuses, although its own encoder produced it.
\<close>

lemma FrameCodec_large_payload:
  assumes "length p = 1048577" and "c = FrameCodec_with_max_payload 2000000"
  shows "\<exists>bs. FrameCodec_encode c (Frame_data 1 p) [] = (Inr (), bs) \<and>
    FrameCodec_decode c bs = (Inl (PayloadTooLarge 1048577 MAX_PAYLOAD_SIZE), [])"
proof -
  have "FrameCodec_encode c (Frame_data 1 p) [] =
      (Inr (), frame_header 1 1 0 0 1 (word_of_nat 1048577) 0 @ p)"
    using assms by (simp add: FrameCodec_encode_def FrameCodec_with_max_payload_def Frame_data_def
        frame_header_def Let_def)
  moreover have "FrameCodec_decode c (frame_header 1 1 0 0 1 (word_of_nat 1048577) 0 @ p) =
      (Inl (PayloadTooLarge 1048577 MAX_PAYLOAD_SIZE), [])"
    using assms by (simp add: FrameCodec_decode_header decode_frame_header
        FrameCodec_with_max_payload_def Let_def)
  ultimately show ?thesis by blast
qed

end
