(* ===== verification/Extensions.thy ===== *)
theory Extensions
  imports Prelude
begin

text \<open>
  Frame-level extensions, \<open>crates/aafp-messaging/src/extensions.rs\<close>: the self-delimiting
  binary entries of the extension section of a frame.
\<close>

section \<open>Model\<close>

abbreviation (input) EXT_HEADER_SIZE :: nat where "EXT_HEADER_SIZE \<equiv> 8"
abbreviation (input) U32_MAX :: nat where "U32_MAX \<equiv> 4294967295"

record Extension =
  ext_type :: u16
  ext_critical :: bool
  ext_data :: bytes

datatype ExtensionError =
    ExtDataTooLarge nat nat
  | ExtIncompleteHeader nat nat
  | ExtIncompleteData nat nat
  | ExtLengthMismatch nat nat

text \<open>The loop of \<open>encode_extensions\<close>, with the bytes written so far.\<close>

fun encode_extensions_loop :: "bytes \<Rightarrow> Extension list \<Rightarrow> ExtensionError + bytes" where
  "encode_extensions_loop buf [] = Inr buf"
| "encode_extensions_loop buf (ext # exts) =
     (if length (ext_data ext) > U32_MAX
      then Inl (ExtDataTooLarge (length (ext_data ext)) U32_MAX)
      else encode_extensions_loop
        (buf @ u16_to_be_bytes (ext_type ext) @ [if ext_critical ext then 0x01 else 0x00] @ [0] @
         u32_to_be_bytes (word_of_nat (length (ext_data ext))) @ ext_data ext) exts)"

definition encode_extensions :: "Extension list \<Rightarrow> ExtensionError + bytes" where
  "encode_extensions exts = encode_extensions_loop [] exts"

text \<open>One iteration of the loop of \<open>decode_extensions\<close>: the extension and the new position.\<close>

definition decode_extension :: "bytes \<Rightarrow> nat \<Rightarrow> ExtensionError + (Extension \<times> nat)" where
  "decode_extension data pos =
     (if length data - pos < EXT_HEADER_SIZE
      then Inl (ExtIncompleteHeader EXT_HEADER_SIZE (length data - pos))
      else
        let ty = word_of_nat (be_val (subslice data pos (pos + 2))) :: u16;
            critical = (data ! (pos + 2) = 0x01);
            data_len = unat (word_of_nat (be_val (subslice data (pos + 4) (pos + 8))) :: u32);
            pos = pos + EXT_HEADER_SIZE
        in
          if length data - pos < data_len
          then Inl (ExtIncompleteData data_len (length data - pos))
          else Inr (\<lparr>ext_type = ty, ext_critical = critical,
            ext_data = subslice data pos (pos + data_len)\<rparr>, pos + data_len))"

function decode_extensions_loop ::
    "bytes \<Rightarrow> nat \<Rightarrow> Extension list \<Rightarrow> ExtensionError + Extension list" where
  "decode_extensions_loop data pos exts =
     (if pos < length data
      then bind_result (decode_extension data pos)
        (\<lambda>(ext, pos). decode_extensions_loop data pos (exts @ [ext]))
      else Inr exts)"
  by pat_completeness auto
termination
  by (relation "measure (\<lambda>(data, pos, exts). length data - pos)")
    (auto simp: decode_extension_def Let_def split: if_splits)

declare decode_extensions_loop.simps [simp del]

definition decode_extensions :: "bytes \<Rightarrow> ExtensionError + Extension list" where
  "decode_extensions data = decode_extensions_loop data 0 []"

definition find_extension :: "Extension list \<Rightarrow> u16 \<Rightarrow> Extension option" where
  "find_extension exts ty = find (\<lambda>e. ext_type e = ty) exts"

definition find_unknown_critical :: "Extension list \<Rightarrow> u16 list \<Rightarrow> u16 option" where
  "find_unknown_critical exts known_types =
     map_option ext_type (find (\<lambda>e. ext_critical e \<and> ext_type e \<notin> set known_types) exts)"

section \<open>Round trip\<close>

definition ext_ok :: "Extension \<Rightarrow> bool" where
  "ext_ok ext \<longleftrightarrow> length (ext_data ext) \<le> U32_MAX"

definition ext_bytes :: "Extension \<Rightarrow> bytes" where
  "ext_bytes ext = u16_to_be_bytes (ext_type ext) @ [if ext_critical ext then 1 else 0, 0] @
     u32_to_be_bytes (word_of_nat (length (ext_data ext))) @ ext_data ext"

lemma length_ext_bytes: "length (ext_bytes ext) = 8 + length (ext_data ext)"
  by (simp add: ext_bytes_def)

lemma encode_extensions_step:
  "encode_extensions_loop buf (ext # exts) =
     (if ext_ok ext then encode_extensions_loop (buf @ ext_bytes ext) exts
      else Inl (ExtDataTooLarge (length (ext_data ext)) U32_MAX))"
  by (simp add: ext_bytes_def ext_ok_def)

lemma encode_extensions_loop_Inr:
  "encode_extensions_loop buf exts = Inr bs \<longleftrightarrow>
     bs = buf @ concat (map ext_bytes exts) \<and> (\<forall>e \<in> set exts. ext_ok e)"
  by (induction exts arbitrary: buf)
    (auto simp: encode_extensions_step simp del: encode_extensions_loop.simps(2))

lemma decode_extension_bytes:
  assumes "ext_ok ext"
  shows "decode_extension (pre @ ext_bytes ext @ rest) (length pre) =
    Inr (ext, length pre + length (ext_bytes ext))"
proof -
  let ?n = "word_of_nat (length (ext_data ext)) :: u32" and ?c = "if ext_critical ext then 1 else 0 :: byte"
  let ?data = "pre @ ext_bytes ext @ rest"
  have n: "unat ?n = length (ext_data ext)"
    using assms by (simp add: ext_ok_def unsigned_of_nat take_bit_nat_eq_self)
  have t: "subslice ?data (length pre) (length pre + 2) = u16_to_be_bytes (ext_type ext)"
    by (simp add: ext_bytes_def subslice_middle)
  have "?data = (pre @ u16_to_be_bytes (ext_type ext) @ [?c, 0]) @ u32_to_be_bytes ?n @ ext_data ext @ rest"
    by (simp add: ext_bytes_def)
  then have "subslice ?data (length pre + 4) (length pre + 8) = u32_to_be_bytes ?n"
    by (simp only:) (rule subslice_middle; simp)
  then have l: "word_of_nat (be_val (subslice ?data (length pre + 4) (length pre + 8))) = ?n"
    by (simp only: be_val_u32) simp
  have c: "?data ! (length pre + 2) = ?c"
    by (simp add: ext_bytes_def nth_append)
  have d: "subslice ?data (length pre + 8) (length pre + 8 + length (ext_data ext)) = ext_data ext"
    by (simp add: ext_bytes_def subslice_def)
  show ?thesis
    by (simp add: decode_extension_def Let_def t l c d n length_ext_bytes
        del: add_2_eq_Suc' nth_append_length_plus)
qed

interpretation ext_codec: prefix_codec ext_bytes "\<lambda>data. decode_extension data 0" ext_ok
  using decode_extension_bytes [of _ "[]"] by unfold_locales simp

lemma decode_extensions_loop_bytes:
  "\<forall>e \<in> set exts. ext_ok e \<Longrightarrow>
     decode_extensions_loop (pre @ concat (map ext_bytes exts)) (length pre) acc = Inr (acc @ exts)"
proof (induction exts arbitrary: pre acc)
  case Nil
  then show ?case by (simp add: decode_extensions_loop.simps)
next
  case (Cons e exts)
  then show ?case
    using Cons.IH [of "pre @ ext_bytes e" "acc @ [e]"]
      decode_extension_bytes [of e pre "concat (map ext_bytes exts)"]
    by (simp add: decode_extensions_loop.simps [of _ "length pre"] length_ext_bytes)
qed

lemma decode_encoded_extensions:
  assumes "encode_extensions exts = Inr bs"
  shows "decode_extensions bs = Inr exts"
proof -
  from assms have "bs = concat (map ext_bytes exts)" "\<forall>e \<in> set exts. ext_ok e"
    by (simp_all add: encode_extensions_def encode_extensions_loop_Inr)
  then show ?thesis
    using decode_extensions_loop_bytes [of exts "[]" "[]"] by (simp add: decode_extensions_def)
qed

text \<open>
  Round trip of the extension section: encoding a list of extensions fails only on data of
  more than \<open>u32::MAX\<close> bytes, and decoding the section returns the list.
\<close>

lemma extensions_roundtrip:
  "(case encode_extensions exts of
      Inl e \<Rightarrow> \<exists>ext \<in> set exts. e = ExtDataTooLarge (length (ext_data ext)) U32_MAX \<and>
        U32_MAX < length (ext_data ext)
    | Inr bs \<Rightarrow> decode_extensions bs = Inr exts)"
proof (cases "encode_extensions exts")
  case (Inr bs)
  then show ?thesis by (simp add: decode_encoded_extensions)
next
  case (Inl e)
  have "\<exists>ext \<in> set exts. e = ExtDataTooLarge (length (ext_data ext)) U32_MAX \<and> \<not> ext_ok ext"
    if "encode_extensions_loop buf exts = Inl e" for buf
    using that by (induction exts arbitrary: buf)
      (auto simp: encode_extensions_step simp del: encode_extensions_loop.simps(2) split: if_splits)
  with Inl show ?thesis by (simp add: encode_extensions_def ext_ok_def not_le)
qed

lemma decode_extension_pos:
  "decode_extension data pos = Inr (ext, pos') \<Longrightarrow>
     pos' = pos + length (ext_bytes ext) \<and> pos' \<le> length data \<and> ext_ok ext"
  using unat_less [of "word_of_nat (be_val (subslice data (pos + 4) (pos + 8))) :: u32"]
  by (auto simp: decode_extension_def Let_def length_ext_bytes ext_ok_def split: if_splits)

lemma decode_extensions_loop_sound:
  "decode_extensions_loop data pos acc = Inr exts \<Longrightarrow> pos \<le> length data \<Longrightarrow>
     \<exists>es. exts = acc @ es \<and> (\<forall>e \<in> set es. ext_ok e) \<and>
       pos + length (concat (map ext_bytes es)) = length data"
proof (induction data pos acc rule: decode_extensions_loop.induct)
  case (1 data pos acc)
  show ?case
  proof (cases "pos < length data")
    case False
    then have "exts = acc" "pos = length data"
      using "1.prems" by (simp_all add: decode_extensions_loop.simps [of data "length data"])
    then show ?thesis by (intro exI [of _ "[]"]) simp
  next
    case True
    then obtain ext pos' where d: "decode_extension data pos = Inr (ext, pos')"
      and r: "decode_extensions_loop data pos' (acc @ [ext]) = Inr exts"
      using "1.prems"(1) by (auto simp: decode_extensions_loop.simps [of data pos] bind_result_Inr_iff)
    note p = decode_extension_pos [OF d]
    from "1.IH" [OF True d refl r] p obtain es where "exts = acc @ ext # es" "\<forall>e \<in> set es. ext_ok e"
      "pos' + length (concat (map ext_bytes es)) = length data" by auto
    with p show ?thesis by (intro exI [of _ "ext # es"]) auto
  qed
qed

text \<open>
  The decoder of extensions accounts for every byte: a section it accepts re-encodes to a
  section of the same length, so nothing of the section is skipped and nothing beyond it read.
\<close>

theorem decode_extensions_length:
  assumes "decode_extensions data = Inr exts"
  shows "\<exists>bs. encode_extensions exts = Inr bs \<and> length bs = length data"
  using decode_extensions_loop_sound [of data 0 "[]" exts] assms
  by (simp add: decode_extensions_def encode_extensions_def encode_extensions_loop_Inr)

theorem decode_extensions_length_witness:
  "\<exists>bs. encode_extensions [\<lparr>ext_type = 1, ext_critical = True, ext_data = [7]\<rparr>] = Inr bs \<and>
     length bs = length [0, 1, 1, 9, 0, 0, 0, 1, 7 :: byte]"
proof -
  have "decode_extensions [0, 1, 1, 9, 0, 0, 0, 1, 7] =
      Inr [\<lparr>ext_type = 1, ext_critical = True, ext_data = [7]\<rparr>]" by code_simp
  then show ?thesis by (rule decode_extensions_length)
qed

lemma find_unknown_critical_None:
  "find_unknown_critical exts known = None \<longleftrightarrow>
     (\<forall>e \<in> set exts. ext_critical e \<longrightarrow> ext_type e \<in> set known)"
  by (auto simp: find_unknown_critical_def find_None_iff)

lemma find_unknown_critical_Some:
  "find_unknown_critical exts known = Some ty \<Longrightarrow>
     ty \<notin> set known \<and> (\<exists>e \<in> set exts. ext_critical e \<and> ext_type e = ty)"
  by (auto simp: find_unknown_critical_def find_Some_iff)

end
