(* ===== verification/Errors.thy ===== *)
theory Errors
  imports Utf8
begin

text \<open>
  Wire-protocol errors, \<open>crates/aafp-core/src/error.rs\<close>: the error code registry and its
  categories, the always-fatal codes, the \<open>ProtocolError\<close> builder and the conversion of
  internal errors. The payload of \<open>std::io::Error\<close> is never inspected and is left out.
\<close>

section \<open>Codes and categories\<close>

datatype ErrorCategory =
    CatSuccess
  | CatTransport
  | CatAuthentication
  | CatAuthorization
  | CatDiscovery
  | CatMessaging
  | CatCapability
  | CatResource
  | CatProtocol
  | CatApplication

definition ErrorCategory_from_code :: "u32 \<Rightarrow> ErrorCategory" where
  "ErrorCategory_from_code code =
     (let k = code div 1000 in
      if k = 0 then CatSuccess
      else if k = 1 then CatTransport
      else if k = 2 then CatAuthentication
      else if k = 3 then CatAuthorization
      else if k = 4 then CatDiscovery
      else if k = 5 then CatMessaging
      else if k = 6 then CatCapability
      else if k = 7 then CatResource
      else if k = 8 then CatProtocol
      else if k = 9 then CatApplication
      else CatProtocol)"

abbreviation (input) OK :: u32 where "OK \<equiv> 0"
abbreviation (input) PARTIAL :: u32 where "PARTIAL \<equiv> 1"
abbreviation (input) NOT_FOUND :: u32 where "NOT_FOUND \<equiv> 2"
abbreviation (input) CONNECTION_RESET :: u32 where "CONNECTION_RESET \<equiv> 1001"
abbreviation (input) CONNECTION_TIMEOUT :: u32 where "CONNECTION_TIMEOUT \<equiv> 1002"
abbreviation (input) STREAM_CLOSED :: u32 where "STREAM_CLOSED \<equiv> 1003"
abbreviation (input) STREAM_RESET :: u32 where "STREAM_RESET \<equiv> 1004"
abbreviation (input) FLOW_CONTROL_ERROR :: u32 where "FLOW_CONTROL_ERROR \<equiv> 1005"
abbreviation (input) TRANSPORT_UNREACHABLE :: u32 where "TRANSPORT_UNREACHABLE \<equiv> 1006"
abbreviation (input) TRANSPORT_REFUSED :: u32 where "TRANSPORT_REFUSED \<equiv> 1007"
abbreviation (input) INVALID_SIGNATURE :: u32 where "INVALID_SIGNATURE \<equiv> 2001"
abbreviation (input) IDENTITY_EXPIRED :: u32 where "IDENTITY_EXPIRED \<equiv> 2002"
abbreviation (input) UNKNOWN_AGENT :: u32 where "UNKNOWN_AGENT \<equiv> 2003"
abbreviation (input) VERSION_MISMATCH :: u32 where "VERSION_MISMATCH \<equiv> 2004"
abbreviation (input) UNSUPPORTED_EXTENSIONS :: u32 where "UNSUPPORTED_EXTENSIONS \<equiv> 2005"
abbreviation (input) HANDSHAKE_FAILED :: u32 where "HANDSHAKE_FAILED \<equiv> 2006"
abbreviation (input) INVALID_AGENT_ID :: u32 where "INVALID_AGENT_ID \<equiv> 2007"
abbreviation (input) NONCE_REUSE :: u32 where "NONCE_REUSE \<equiv> 2008"
abbreviation (input) RECEIVER_MAC_INVALID :: u32 where "RECEIVER_MAC_INVALID \<equiv> 2009"
abbreviation (input) UNSUPPORTED_ALGORITHM :: u32 where "UNSUPPORTED_ALGORITHM \<equiv> 2010"
abbreviation (input) UNAUTHORIZED :: u32 where "UNAUTHORIZED \<equiv> 3001"
abbreviation (input) INSUFFICIENT_CAPABILITY :: u32 where "INSUFFICIENT_CAPABILITY \<equiv> 3002"
abbreviation (input) DELEGATION_CHAIN_INVALID :: u32 where "DELEGATION_CHAIN_INVALID \<equiv> 3003"
abbreviation (input) TOKEN_EXPIRED :: u32 where "TOKEN_EXPIRED \<equiv> 3004"
abbreviation (input) TOKEN_REVOKED :: u32 where "TOKEN_REVOKED \<equiv> 3005"
abbreviation (input) DELEGATION_DEPTH_EXCEEDED :: u32 where "DELEGATION_DEPTH_EXCEEDED \<equiv> 3006"
abbreviation (input) DHT_ERROR :: u32 where "DHT_ERROR \<equiv> 4001"
abbreviation (input) BOOTSTRAP_FAILED :: u32 where "BOOTSTRAP_FAILED \<equiv> 4002"
abbreviation (input) RECORD_INVALID :: u32 where "RECORD_INVALID \<equiv> 4003"
abbreviation (input) RECORD_EXPIRED :: u32 where "RECORD_EXPIRED \<equiv> 4004"
abbreviation (input) CAPABILITY_NOT_FOUND :: u32 where "CAPABILITY_NOT_FOUND \<equiv> 4005"
abbreviation (input) ANNOUNCEMENT_REJECTED :: u32 where "ANNOUNCEMENT_REJECTED \<equiv> 4006"
abbreviation (input) MALFORMED_FRAME :: u32 where "MALFORMED_FRAME \<equiv> 5001"
abbreviation (input) UNKNOWN_METHOD :: u32 where "UNKNOWN_METHOD \<equiv> 5002"
abbreviation (input) SERIALIZATION_ERROR :: u32 where "SERIALIZATION_ERROR \<equiv> 5003"
abbreviation (input) METHOD_PARAMS_INVALID :: u32 where "METHOD_PARAMS_INVALID \<equiv> 5004"
abbreviation (input) MESSAGE_TOO_LARGE :: u32 where "MESSAGE_TOO_LARGE \<equiv> 5005"
abbreviation (input) STREAM_NOT_FOUND :: u32 where "STREAM_NOT_FOUND \<equiv> 5006"
abbreviation (input) NEGOTIATION_FAILED :: u32 where "NEGOTIATION_FAILED \<equiv> 6001"
abbreviation (input) INCOMPATIBLE :: u32 where "INCOMPATIBLE \<equiv> 6002"
abbreviation (input) UNSUPPORTED_CAPABILITY :: u32 where "UNSUPPORTED_CAPABILITY \<equiv> 6003"
abbreviation (input) CAPABILITY_OVERLOADED :: u32 where "CAPABILITY_OVERLOADED \<equiv> 6004"
abbreviation (input) FRAME_TOO_LARGE :: u32 where "FRAME_TOO_LARGE \<equiv> 8001"
abbreviation (input) UNEXPECTED_COMPRESSION :: u32 where "UNEXPECTED_COMPRESSION \<equiv> 8002"
abbreviation (input) HANDSHAKE_ON_WRONG_STREAM :: u32 where "HANDSHAKE_ON_WRONG_STREAM \<equiv> 8003"
abbreviation (input) UNKNOWN_CRITICAL_FRAME_TYPE :: u32 where "UNKNOWN_CRITICAL_FRAME_TYPE \<equiv> 8004"
abbreviation (input) UNKNOWN_CRITICAL_EXTENSION :: u32 where "UNKNOWN_CRITICAL_EXTENSION \<equiv> 8005"
abbreviation (input) INVALID_VERSION :: u32 where "INVALID_VERSION \<equiv> 8006"
abbreviation (input) INVALID_FLAGS :: u32 where "INVALID_FLAGS \<equiv> 8007"
abbreviation (input) RESERVED_FIELD_NONZERO :: u32 where "RESERVED_FIELD_NONZERO \<equiv> 8008"
abbreviation (input) PROTOCOL_VIOLATION :: u32 where "PROTOCOL_VIOLATION \<equiv> 8009"

definition is_always_fatal :: "u32 \<Rightarrow> bool" where
  "is_always_fatal code =
     (case ErrorCategory_from_code code of
        CatAuthentication \<Rightarrow> True
      | CatProtocol \<Rightarrow> code \<in> {UNKNOWN_CRITICAL_FRAME_TYPE, UNKNOWN_CRITICAL_EXTENSION,
          INVALID_VERSION, PROTOCOL_VIOLATION}
      | _ \<Rightarrow> False)"

section \<open>Protocol errors\<close>

record ProtocolError =
  pe_code :: u32
  pe_message :: ustring
  pe_data :: "bytes option"
  pe_fatal :: bool

definition ProtocolError_new :: "u32 \<Rightarrow> ustring \<Rightarrow> ProtocolError" where
  "ProtocolError_new code message =
     (let fatal = is_always_fatal code
      in \<lparr>pe_code = code, pe_message = message, pe_data = None, pe_fatal = fatal\<rparr>)"

definition with_data :: "ProtocolError \<Rightarrow> bytes \<Rightarrow> ProtocolError" where
  "with_data e d =
     (if length d > 4096 then e\<lparr>pe_data := Some (take 4096 d)\<rparr> else e\<lparr>pe_data := Some d\<rparr>)"

definition with_fatal :: "ProtocolError \<Rightarrow> bool \<Rightarrow> ProtocolError" where
  "with_fatal e fatal = e\<lparr>pe_fatal := fatal \<or> is_always_fatal (pe_code e)\<rparr>"

definition ProtocolError_category :: "ProtocolError \<Rightarrow> ErrorCategory" where
  "ProtocolError_category e = ErrorCategory_from_code (pe_code e)"

definition ProtocolError_is_fatal :: "ProtocolError \<Rightarrow> bool" where
  "ProtocolError_is_fatal e = pe_fatal e"

datatype Error =
    ErrTransport ustring
  | ErrConnection ustring
  | ErrStream ustring
  | ErrDial ustring
  | ErrListen ustring
  | ErrNotConnected
  | ErrConnectionClosed
  | ErrProtocol ProtocolError
  | ErrIo

fun ProtocolError_from :: "Error \<Rightarrow> ProtocolError" where
  "ProtocolError_from (ErrProtocol pe) = pe"
| "ProtocolError_from ErrIo = ProtocolError_new PROTOCOL_VIOLATION (str ''I/O error'')"
| "ProtocolError_from ErrConnectionClosed = ProtocolError_new CONNECTION_RESET (str ''connection closed'')"
| "ProtocolError_from ErrNotConnected = ProtocolError_new TRANSPORT_UNREACHABLE (str ''not connected'')"
| "ProtocolError_from (ErrTransport s) = ProtocolError_new CONNECTION_RESET s"
| "ProtocolError_from (ErrConnection s) = ProtocolError_new CONNECTION_RESET s"
| "ProtocolError_from (ErrDial s) = ProtocolError_new CONNECTION_RESET s"
| "ProtocolError_from (ErrListen s) = ProtocolError_new CONNECTION_RESET s"
| "ProtocolError_from (ErrStream s) = ProtocolError_new STREAM_CLOSED s"

section \<open>Properties\<close>

lemma code_div: "j < 10 \<Longrightarrow> (code :: u32) div 1000 = word_of_nat j \<longleftrightarrow> unat code div 1000 = j"
  by (simp add: word_unat_eq_iff unat_div_distrib unsigned_of_nat take_bit_nat_eq_self)

lemma ErrorCategory_nat:
  "ErrorCategory_from_code code =
     (let k = unat code div 1000 in
      if k = 0 then CatSuccess else if k = 1 then CatTransport
      else if k = 2 then CatAuthentication else if k = 3 then CatAuthorization
      else if k = 4 then CatDiscovery else if k = 5 then CatMessaging
      else if k = 6 then CatCapability else if k = 7 then CatResource
      else if k = 8 then CatProtocol else if k = 9 then CatApplication else CatProtocol)"
  using code_div [of 0 code] code_div [of 1 code] code_div [of 2 code] code_div [of 3 code]
    code_div [of 4 code] code_div [of 5 code] code_div [of 6 code] code_div [of 7 code]
    code_div [of 8 code] code_div [of 9 code]
  by (simp add: ErrorCategory_from_code_def Let_def)

lemma is_always_fatal_iff:
  "is_always_fatal code \<longleftrightarrow> 2000 \<le> unat code \<and> unat code < 3000 \<or> code \<in> {8004, 8005, 8006, 8009}"
proof -
  have "is_always_fatal code \<longleftrightarrow> unat code div 1000 = 2 \<or> code \<in> {8004, 8005, 8006, 8009}"
    by (auto simp: is_always_fatal_def ErrorCategory_nat Let_def)
  moreover have "unat code div 1000 = 2 \<longleftrightarrow> 2000 \<le> unat code \<and> unat code < 3000"
    by linarith
  ultimately show ?thesis by simp
qed

text \<open>Every way the code builds a \<open>ProtocolError\<close>.\<close>

inductive built_error :: "ProtocolError \<Rightarrow> bool" where
  built_new: "built_error (ProtocolError_new code message)"
| built_data: "built_error e \<Longrightarrow> built_error (with_data e d)"
| built_fatal: "built_error e \<Longrightarrow> built_error (with_fatal e b)"
| built_from: "(\<And>pe. err = ErrProtocol pe \<Longrightarrow> built_error pe) \<Longrightarrow> built_error (ProtocolError_from err)"

definition error_ok :: "ProtocolError \<Rightarrow> bool" where
  "error_ok e \<longleftrightarrow> (is_always_fatal (pe_code e) \<longrightarrow> pe_fatal e) \<and>
     (case pe_data e of None \<Rightarrow> True | Some d \<Rightarrow> length d \<le> 4096)"

lemma error_ok_new: "error_ok (ProtocolError_new code message)"
  by (simp add: error_ok_def ProtocolError_new_def)

lemma built_error_ok: "built_error e \<Longrightarrow> error_ok e"
proof (induction rule: built_error.induct)
  case (built_from err)
  then show ?case by (cases err) (simp_all add: error_ok_new)
next
  case (built_new code message)
  then show ?case by (rule error_ok_new)
qed (auto simp: error_ok_def with_data_def with_fatal_def split: option.splits)

text \<open>
  Fatal errors cannot be downgraded: however a \<open>ProtocolError\<close> is built (\<open>new\<close>,
  \<open>with_data\<close>, \<open>with_fatal\<close>, conversion of an internal error), an authentication code
  (2000 to 2999) and the codes 8004, 8005, 8006 and 8009 leave the fatal flag set, and the
  attached data is at most 4096 bytes.
\<close>

lemma built_error_invariant:
  assumes "built_error e"
  shows "(2000 \<le> unat (pe_code e) \<and> unat (pe_code e) < 3000 \<longrightarrow> ProtocolError_is_fatal e) \<and>
    (pe_code e \<in> {8004, 8005, 8006, 8009} \<longrightarrow> ProtocolError_is_fatal e) \<and>
    (\<forall>d. pe_data e = Some d \<longrightarrow> length d \<le> 4096)"
  using built_error_ok [OF assms]
  by (auto simp: error_ok_def is_always_fatal_iff ProtocolError_is_fatal_def)

lemma built_error_invariant_example:
  "ProtocolError_is_fatal (with_fatal (ProtocolError_new VERSION_MISMATCH []) False)"
proof -
  have "built_error (with_fatal (ProtocolError_new VERSION_MISMATCH []) False)"
    by (intro built_error.intros)
  moreover have "unat (pe_code (with_fatal (ProtocolError_new VERSION_MISMATCH []) False)) = 2004"
    by (simp add: with_fatal_def ProtocolError_new_def)
  ultimately show ?thesis
    using built_error_invariant [of "with_fatal (ProtocolError_new VERSION_MISMATCH []) False"] by simp
qed

end
