(* ===== verification/Cbor_Message.thy ===== *)
theory Cbor_Message
  imports Cbor_Order
begin

text \<open>
  Messages that travel as CBOR maps with integer keys. The interface \<open>cbor_message\<close> states what a
  message type has to provide; the round trip through bytes, and that different messages have
  different encodings, are proved once from it and the CBOR codec. The RPC messages and the
  handshake messages are its instances.
\<close>

section \<open>The interface of a message\<close>

text \<open>
  A message type provides conversions to and from \<open>Value\<close>. For a well-formed message the
  value is one the codec represents, and reading it back, its map entries reordered by the
  codec, gives the message with the values it carries in canonical form.
\<close>

locale cbor_message =
  fixes to_cbor :: "'m \<Rightarrow> Value"
    and from_cbor :: "Value \<Rightarrow> 'e + 'm"
    and wf :: "'m \<Rightarrow> bool"
    and norm :: "'m \<Rightarrow> 'm"
  assumes to_cbor_ok: "wf m \<Longrightarrow> value_ok 0 (to_cbor m)"
    and from_to_cbor: "wf m \<Longrightarrow> from_cbor (canon (to_cbor m)) = Inr (norm m)"
begin

lemma decode_encoded:
  assumes "wf m" and "encode (to_cbor m) = Inr bs" and "fits (bs @ rest)"
  shows "decode (bs @ rest) = Inr (canon (to_cbor m), length bs)"
  using assms decode_cbor_bytes [OF to_cbor_ok [OF assms(1)], of rest] by (simp add: encode_eq)

lemma bytes_roundtrip:
  assumes "wf m" and "map_err wrap (encode (to_cbor m)) = Inr bs" and "fits (bs @ rest)"
  shows "bind_result (map_err wrap (decode (bs @ rest))) (\<lambda>(val, _). from_cbor val) = Inr (norm m)"
  using assms decode_encoded [of m bs rest] by (simp add: from_to_cbor)

lemma encode_inj:
  assumes "wf m" and "wf n" and "encode (to_cbor m) = Inr bs" and "encode (to_cbor n) = Inr bs"
    and "fits bs"
  shows "norm m = norm n"
proof -
  have "canon (to_cbor m) = canon (to_cbor n)"
    using assms decode_encoded [of m bs "[]"] decode_encoded [of n bs "[]"] by simp
  then have "Inr (norm m) = (Inr (norm n) :: 'e + 'm)"
    using assms(1,2) by (simp flip: from_to_cbor)
  then show ?thesis by simp
qed

end

section \<open>Reading fields\<close>

lemma int_map_get_IntMap: "int_map_get (IntMap es) k = map_of es k"
  by (induction es) (auto simp: int_map_get_def)

lemma map_of_sort_int_keys:
  assumes "distinct (map fst es)"
  shows "map_of (sort_int_keys es) = map_of es"
  using assms by (simp add: map_of_inject_set distinct_sort_keys)

lemma map_of_map_canon: "map_of (map (\<lambda>(k, v). (k, f v)) es) k = map_option f (map_of es k)"
  by (induction es) auto

lemma int_map_get_canon:
  assumes "distinct (map fst es)"
  shows "int_map_get (canon (int_map es)) k = map_option canon (map_of es k)"
  using assms
  by (simp add: int_map_def int_map_get_IntMap sort_keys_map_snd map_of_map_canon map_of_sort_int_keys)

lemma canon_eq_Null [simp]: "canon v = Null \<longleftrightarrow> v = Null"
  by (cases v) simp_all

lemma value_ok_mono: "value_ok e v \<Longrightarrow> d \<le> e \<Longrightarrow> value_ok d v"
  by (induction d v arbitrary: e rule: value_ok.induct) fastforce+

section \<open>Reading lists\<close>

text \<open>The loop that decodes the items of an array and stops at the first error.\<close>

primrec decode_all :: "('v \<Rightarrow> 'e + 'a) \<Rightarrow> 'v list \<Rightarrow> 'e + 'a list" where
  "decode_all f [] = Inr []"
| "decode_all f (v # vs) = bind_result (f v) (\<lambda>x. bind_result (decode_all f vs) (\<lambda>xs. Inr (x # xs)))"

lemma decode_all_maps:
  "(\<And>x. x \<in> set xs \<Longrightarrow> f (g x) = Inr (h x)) \<Longrightarrow> decode_all f (map g xs) = Inr (map h xs)"
  by (induction xs) simp_all

lemma decode_all_map:
  "(\<And>x. x \<in> set xs \<Longrightarrow> f (g x) = Inr x) \<Longrightarrow> decode_all f (map g xs) = Inr xs"
  using decode_all_maps [of xs f g "\<lambda>x. x"] by simp

section \<open>Integers of 32 bits in a value\<close>

lemma unat_u32_u64 [simp]: "unat (ucast (c :: u32) :: u64) = unat c"
  using unat_less [of c] by (intro unat_ucast_small) simp

lemma ucast_u32_u64 [simp]: "ucast (ucast (c :: u32) :: u64) = c"
  using unat_less [of c] by (intro word_unat_eq_iff [THEN iffD2]) (subst unat_ucast_small; simp)

lemma unat_u32_le: "unat (c :: u32) \<le> 4294967295"
  using unat_less [of c] by simp

section \<open>Texts in decoded values\<close>

fun texts_ok :: "Value \<Rightarrow> bool" where
  "texts_ok (TextString s) = utf8_valid s"
| "texts_ok (Array vs) = (\<forall>v \<in> set vs. texts_ok v)"
| "texts_ok (IntMap es) = (\<forall>(k, v) \<in> set es. texts_ok v)"
| "texts_ok (StrMap es) = (\<forall>(k, v) \<in> set es. texts_ok v)"
| "texts_ok _ = True"

lemma classify_map_texts:
  "classify_map p es = Inr m \<Longrightarrow> (\<forall>(k, v) \<in> set es. texts_ok v) \<Longrightarrow> texts_ok m"
  by (auto simp: classify_map_def split: if_splits)

lemma cbor_item_texts:
  "cbor_item d bs v \<Longrightarrow> texts_ok v"
  "cbor_items d bs vs \<Longrightarrow> \<forall>v \<in> set vs. texts_ok v"
  "cbor_entries d bs es \<Longrightarrow> \<forall>(k, v) \<in> set es. texts_ok v"
  by (induction rule: cbor_item_cbor_items_cbor_entries.inducts) (auto intro: classify_map_texts)

lemma decode_texts: "decode data = Inr (v, n) \<Longrightarrow> texts_ok v"
  unfolding decode_def using decode_value_sound cbor_item_texts(1) by blast

lemma int_map_get_texts: "int_map_get m k = Some v \<Longrightarrow> texts_ok m \<Longrightarrow> texts_ok v"
  by (cases m) (auto simp: int_map_get_def find_Some_iff dest!: nth_mem)

section \<open>Size of encodings\<close>

text \<open>A bound on the length of an encoding: nine bytes for every header and every integer key.\<close>

fun size_bound :: "Value \<Rightarrow> nat" where
  "size_bound (ByteString b) = 9 + length b"
| "size_bound (TextString s) = 9 + length s"
| "size_bound (Array vs) = 9 + sum_list (map size_bound vs)"
| "size_bound (IntMap es) = 9 + sum_list (map (\<lambda>(k, v). 9 + size_bound v) es)"
| "size_bound (StrMap es) = 9 + sum_list (map (\<lambda>(k, v). 9 + length k + size_bound v) es)"
| "size_bound _ = 9"

lemma length_hdr_le: "length (hdr m n) \<le> 9"
  by (simp add: length_hdr hdr_args_def)

lemma sum_list_sort_key: "sum_list (map f (sort_key g xs)) = (sum_list (map f xs) :: nat)"
  by (metis mset_map mset_sort sum_mset_sum_list)

lemma length_key_encoding: "length (int_key_encoding k) \<le> 9" "length (text_key_encoding s) \<le> 9 + length s"
  by (simp_all add: int_key_encoding_def text_key_encoding_def encode_int_key_def encode_header_append length_hdr_le)

lemma cbor_bytes_length:
  "length (cbor_bytes v) \<le> size_bound v"
  "length (items_bytes vs) \<le> sum_list (map size_bound vs)"
  "length (int_entries_bytes es) \<le> sum_list (map (\<lambda>(k, v). 9 + size_bound v) es)"
  "length (str_entries_bytes fs) \<le> sum_list (map (\<lambda>(k, v). 9 + length k + size_bound v) fs)"
proof (induction v and vs and es and fs rule: cbor_bytes_items_bytes_int_entries_bytes_str_entries_bytes.induct)
  case (6 es)
  then show ?case
    using length_hdr_le [of MT_MAP "word_of_nat (length es)"] by (simp add: sort_int_keys_eq sum_list_sort_key)
next
  case (7 es)
  then show ?case
    using length_hdr_le [of MT_MAP "word_of_nat (length es)"] by (simp add: sort_str_keys_eq sum_list_sort_key)
next
  case (13 k v es)
  then show ?case using length_key_encoding(1) [of k] by simp
next
  case (15 k v es)
  then show ?case using length_key_encoding(2) [of k] by simp
qed (simp_all add: length_hdr_le add_mono)

lemma fits_small: "size_bound v + length rest \<le> USIZE_MAX \<Longrightarrow> fits (cbor_bytes v @ rest)"
  using cbor_bytes_length(1) [of v] by simp

end
