(* ===== verification/Rpc.thy ===== *)
theory Rpc
  imports Cbor_Message
begin

text \<open>
  The messages carried by RPC, CLOSE and ERROR frames, \<open>crates/aafp-messaging/src/rpc_v1.rs\<close>:
  each is a CBOR map with integer keys, with a conversion to and from \<open>Value\<close> and to and from
  bytes. Each is an instance of the interface \<open>cbor_message\<close>, which gives the round trip through
  bytes. The description in an
  \<open>InvalidField\<close> error is the expected type and the offending value, or that null was given.
\<close>

section \<open>Errors and field access\<close>

datatype rpc_field_error =
    ExpectedType string Value
  | NullNotValid

datatype RpcError =
    MissingField string
  | InvalidField string rpc_field_error
  | RpcCbor CborError

text \<open>The \<open>match get(k)\<close> blocks of the decoders, by the type of the field.\<close>

definition field_uint :: "string \<Rightarrow> Value \<Rightarrow> i64 \<Rightarrow> RpcError + u64" where
  "field_uint field val k =
     (case int_map_get val k of
        Some (Unsigned n) \<Rightarrow> Inr n
      | Some other \<Rightarrow> Inl (InvalidField field (ExpectedType ''uint'' other))
      | None \<Rightarrow> Inl (MissingField field))"

definition field_tstr :: "string \<Rightarrow> Value \<Rightarrow> i64 \<Rightarrow> RpcError + ustring" where
  "field_tstr field val k =
     (case int_map_get val k of
        Some (TextString s) \<Rightarrow> Inr s
      | Some other \<Rightarrow> Inl (InvalidField field (ExpectedType ''tstr'' other))
      | None \<Rightarrow> Inl (MissingField field))"

definition field_opt_bstr :: "string \<Rightarrow> Value \<Rightarrow> i64 \<Rightarrow> RpcError + bytes option" where
  "field_opt_bstr field val k =
     (case int_map_get val k of
        Some (ByteString b) \<Rightarrow> Inr (Some b)
      | None \<Rightarrow> Inr None
      | Some Null \<Rightarrow> Inl (InvalidField field NullNotValid)
      | Some other \<Rightarrow> Inl (InvalidField field (ExpectedType ''bstr'' other)))"

section \<open>Requests\<close>

record RpcRequest =
  rq_id :: u64
  rq_method :: ustring
  rq_params :: Value

definition RpcRequest_new :: "u64 \<Rightarrow> ustring \<Rightarrow> RpcRequest" where
  "RpcRequest_new i m = \<lparr>rq_id = i, rq_method = m, rq_params = IntMap []\<rparr>"

definition RpcRequest_with_params :: "RpcRequest \<Rightarrow> Value \<Rightarrow> RpcRequest" where
  "RpcRequest_with_params r p = r\<lparr>rq_params := p\<rparr>"

definition RpcRequest_to_cbor :: "RpcRequest \<Rightarrow> Value" where
  "RpcRequest_to_cbor r =
     int_map [(1, Unsigned (rq_id r)), (2, TextString (rq_method r)), (3, rq_params r)]"

definition RpcRequest_from_cbor :: "Value \<Rightarrow> RpcError + RpcRequest" where
  "RpcRequest_from_cbor val =
     bind_result (field_uint ''id'' val 1) (\<lambda>i.
     bind_result (field_tstr ''method'' val 2) (\<lambda>m.
     bind_result
       (case int_map_get val 3 of
          Some Null \<Rightarrow> Inl (InvalidField ''params'' NullNotValid)
        | Some v \<Rightarrow> Inr v
        | None \<Rightarrow> Inl (MissingField ''params'')) (\<lambda>p.
     Inr \<lparr>rq_id = i, rq_method = m, rq_params = p\<rparr>)))"

definition RpcRequest_encode :: "RpcRequest \<Rightarrow> RpcError + bytes" where
  "RpcRequest_encode r = map_err RpcCbor (encode (RpcRequest_to_cbor r))"

definition RpcRequest_decode :: "bytes \<Rightarrow> RpcError + RpcRequest" where
  "RpcRequest_decode data =
     bind_result (map_err RpcCbor (decode data)) (\<lambda>(val, _). RpcRequest_from_cbor val)"

section \<open>Responses\<close>

record RpcErrorObject =
  eo_code :: u32
  eo_message :: ustring
  eo_data :: "bytes option"

definition RpcErrorObject_new :: "u32 \<Rightarrow> ustring \<Rightarrow> RpcErrorObject" where
  "RpcErrorObject_new c m = \<lparr>eo_code = c, eo_message = m, eo_data = None\<rparr>"

definition RpcErrorObject_with_data :: "RpcErrorObject \<Rightarrow> bytes \<Rightarrow> RpcErrorObject" where
  "RpcErrorObject_with_data e d = e\<lparr>eo_data := Some d\<rparr>"

definition RpcErrorObject_to_cbor :: "RpcErrorObject \<Rightarrow> Value" where
  "RpcErrorObject_to_cbor e =
     (let entries = [(1, Unsigned (ucast (eo_code e))), (2, TextString (eo_message e))];
          entries = (case eo_data e of Some d \<Rightarrow> entries @ [(3, ByteString d)] | None \<Rightarrow> entries)
      in int_map entries)"

definition RpcErrorObject_from_cbor :: "Value \<Rightarrow> RpcError + RpcErrorObject" where
  "RpcErrorObject_from_cbor val =
     bind_result (field_uint ''error.code'' val 1) (\<lambda>n.
     bind_result (field_tstr ''error.message'' val 2) (\<lambda>m.
     bind_result (field_opt_bstr ''error.data'' val 3) (\<lambda>d.
     Inr \<lparr>eo_code = ucast n, eo_message = m, eo_data = d\<rparr>)))"

record RpcResponse =
  rs_id :: u64
  rs_result :: "Value option"
  rs_error :: "RpcErrorObject option"

definition RpcResponse_success :: "u64 \<Rightarrow> Value \<Rightarrow> RpcResponse" where
  "RpcResponse_success i v = \<lparr>rs_id = i, rs_result = Some v, rs_error = None\<rparr>"

definition RpcResponse_error :: "u64 \<Rightarrow> RpcErrorObject \<Rightarrow> RpcResponse" where
  "RpcResponse_error i e = \<lparr>rs_id = i, rs_result = None, rs_error = Some e\<rparr>"

definition RpcResponse_is_success :: "RpcResponse \<Rightarrow> bool" where
  "RpcResponse_is_success r \<longleftrightarrow> rs_error r = None"

definition RpcResponse_to_cbor :: "RpcResponse \<Rightarrow> Value" where
  "RpcResponse_to_cbor r =
     (let entries = [(1, Unsigned (rs_id r))];
          entries = (case rs_result r of Some v \<Rightarrow> entries @ [(2, v)] | None \<Rightarrow> entries);
          entries = (case rs_error r of Some e \<Rightarrow> entries @ [(3, RpcErrorObject_to_cbor e)]
                     | None \<Rightarrow> entries)
      in int_map entries)"

definition RpcResponse_from_cbor :: "Value \<Rightarrow> RpcError + RpcResponse" where
  "RpcResponse_from_cbor val =
     bind_result (field_uint ''id'' val 1) (\<lambda>i.
     bind_result
       (case int_map_get val 2 of
          None \<Rightarrow> Inr None
        | Some Null \<Rightarrow> Inl (InvalidField ''result'' NullNotValid)
        | Some other \<Rightarrow> Inr (Some other)) (\<lambda>res.
     bind_result
       (case int_map_get val 3 of
          None \<Rightarrow> Inr None
        | Some Null \<Rightarrow> Inl (InvalidField ''error'' NullNotValid)
        | Some e_val \<Rightarrow> bind_result (RpcErrorObject_from_cbor e_val) (\<lambda>e. Inr (Some e))) (\<lambda>err.
     Inr \<lparr>rs_id = i, rs_result = res, rs_error = err\<rparr>)))"

definition RpcResponse_encode :: "RpcResponse \<Rightarrow> RpcError + bytes" where
  "RpcResponse_encode r = map_err RpcCbor (encode (RpcResponse_to_cbor r))"

definition RpcResponse_decode :: "bytes \<Rightarrow> RpcError + RpcResponse" where
  "RpcResponse_decode data =
     bind_result (map_err RpcCbor (decode data)) (\<lambda>(val, _). RpcResponse_from_cbor val)"

section \<open>CLOSE and ERROR messages\<close>

record CloseMessage =
  cl_code :: u32
  cl_message :: ustring

definition CloseMessage_new :: "u32 \<Rightarrow> ustring \<Rightarrow> CloseMessage" where
  "CloseMessage_new c m = \<lparr>cl_code = c, cl_message = m\<rparr>"

definition CloseMessage_to_cbor :: "CloseMessage \<Rightarrow> Value" where
  "CloseMessage_to_cbor m = int_map [(1, Unsigned (ucast (cl_code m))), (2, TextString (cl_message m))]"

definition CloseMessage_from_cbor :: "Value \<Rightarrow> RpcError + CloseMessage" where
  "CloseMessage_from_cbor val =
     bind_result (field_uint ''code'' val 1) (\<lambda>n.
     bind_result (field_tstr ''message'' val 2) (\<lambda>m.
     Inr \<lparr>cl_code = ucast n, cl_message = m\<rparr>))"

definition CloseMessage_encode :: "CloseMessage \<Rightarrow> RpcError + bytes" where
  "CloseMessage_encode m = map_err RpcCbor (encode (CloseMessage_to_cbor m))"

definition CloseMessage_decode :: "bytes \<Rightarrow> RpcError + CloseMessage" where
  "CloseMessage_decode data =
     bind_result (map_err RpcCbor (decode data)) (\<lambda>(val, _). CloseMessage_from_cbor val)"

record ErrorMessage =
  em_code :: u32
  em_message :: ustring
  em_data :: "bytes option"
  em_fatal :: bool

definition ErrorMessage_new :: "u32 \<Rightarrow> ustring \<Rightarrow> bool \<Rightarrow> ErrorMessage" where
  "ErrorMessage_new c m f = \<lparr>em_code = c, em_message = m, em_data = None, em_fatal = f\<rparr>"

definition ErrorMessage_with_data :: "ErrorMessage \<Rightarrow> bytes \<Rightarrow> ErrorMessage" where
  "ErrorMessage_with_data m d = m\<lparr>em_data := Some d\<rparr>"

definition ErrorMessage_to_cbor :: "ErrorMessage \<Rightarrow> Value" where
  "ErrorMessage_to_cbor m =
     (let entries = [(1, Unsigned (ucast (em_code m))), (2, TextString (em_message m))];
          entries = (case em_data m of Some d \<Rightarrow> entries @ [(3, ByteString d)] | None \<Rightarrow> entries);
          entries = entries @ [(4, Bool (em_fatal m))]
      in int_map entries)"

definition ErrorMessage_from_cbor :: "Value \<Rightarrow> RpcError + ErrorMessage" where
  "ErrorMessage_from_cbor val =
     bind_result (field_uint ''code'' val 1) (\<lambda>n.
     bind_result (field_tstr ''message'' val 2) (\<lambda>m.
     bind_result (field_opt_bstr ''data'' val 3) (\<lambda>d.
     bind_result
       (case int_map_get val 4 of
          Some (Bool b) \<Rightarrow> Inr b
        | Some other \<Rightarrow> Inl (InvalidField ''fatal'' (ExpectedType ''bool'' other))
        | None \<Rightarrow> Inr False) (\<lambda>f.
     Inr \<lparr>em_code = ucast n, em_message = m, em_data = d, em_fatal = f\<rparr>))))"

definition ErrorMessage_encode :: "ErrorMessage \<Rightarrow> RpcError + bytes" where
  "ErrorMessage_encode m = map_err RpcCbor (encode (ErrorMessage_to_cbor m))"

definition ErrorMessage_decode :: "bytes \<Rightarrow> RpcError + ErrorMessage" where
  "ErrorMessage_decode data =
     bind_result (map_err RpcCbor (decode data)) (\<lambda>(val, _). ErrorMessage_from_cbor val)"

section \<open>Round trips\<close>

definition RpcRequest_ok :: "RpcRequest \<Rightarrow> bool" where
  "RpcRequest_ok r \<longleftrightarrow> utf8_valid (rq_method r) \<and> value_ok 1 (rq_params r) \<and> rq_params r \<noteq> Null"

definition RpcRequest_norm :: "RpcRequest \<Rightarrow> RpcRequest" where
  "RpcRequest_norm r = r\<lparr>rq_params := canon (rq_params r)\<rparr>"

lemmas field_defs = field_uint_def field_tstr_def field_opt_bstr_def

interpretation request_message: cbor_message RpcRequest_to_cbor RpcRequest_from_cbor RpcRequest_ok RpcRequest_norm
proof
  fix r
  assume r: "RpcRequest_ok r"
  then show "value_ok 0 (RpcRequest_to_cbor r)"
    by (simp add: RpcRequest_to_cbor_def RpcRequest_ok_def int_map_def)
  have "distinct (map fst [(1, Unsigned (rq_id r)), (2, TextString (rq_method r)), (3 :: i64, rq_params r)])"
    by simp
  with r show "RpcRequest_from_cbor (canon (RpcRequest_to_cbor r)) = Inr (RpcRequest_norm r)"
    by (simp add: RpcRequest_from_cbor_def RpcRequest_to_cbor_def field_defs int_map_get_canon
        RpcRequest_ok_def RpcRequest_norm_def split: Value.splits)
qed

definition RpcErrorObject_ok :: "RpcErrorObject \<Rightarrow> bool" where
  "RpcErrorObject_ok e \<longleftrightarrow> utf8_valid (eo_message e)"

lemma RpcErrorObject_value_ok: "RpcErrorObject_ok e \<Longrightarrow> d < 99 \<Longrightarrow> value_ok d (RpcErrorObject_to_cbor e)"
  by (cases "eo_data e") (simp_all add: RpcErrorObject_to_cbor_def RpcErrorObject_ok_def int_map_def)

lemma RpcErrorObject_from_to:
  "RpcErrorObject_from_cbor (canon (RpcErrorObject_to_cbor e)) = Inr e"
  by (cases "eo_data e")
    (simp_all add: RpcErrorObject_from_cbor_def RpcErrorObject_to_cbor_def field_defs int_map_get_canon)

lemma RpcErrorObject_not_Null: "canon (RpcErrorObject_to_cbor e) \<noteq> Null"
  by (simp add: RpcErrorObject_to_cbor_def int_map_def Let_def)

interpretation error_object: cbor_message RpcErrorObject_to_cbor RpcErrorObject_from_cbor RpcErrorObject_ok id
  by unfold_locales (simp_all add: RpcErrorObject_value_ok RpcErrorObject_from_to)

definition RpcResponse_ok :: "RpcResponse \<Rightarrow> bool" where
  "RpcResponse_ok r \<longleftrightarrow>
     (case rs_result r of None \<Rightarrow> True | Some v \<Rightarrow> value_ok 1 v \<and> v \<noteq> Null) \<and>
     (case rs_error r of None \<Rightarrow> True | Some e \<Rightarrow> RpcErrorObject_ok e)"

definition RpcResponse_norm :: "RpcResponse \<Rightarrow> RpcResponse" where
  "RpcResponse_norm r = r\<lparr>rs_result := map_option canon (rs_result r)\<rparr>"

lemma case_not_Null:
  "v \<noteq> Null \<Longrightarrow>
     (case v of Null \<Rightarrow> g | Unsigned n \<Rightarrow> f (Unsigned n) | Negative n \<Rightarrow> f (Negative n)
      | ByteString b \<Rightarrow> f (ByteString b) | TextString s \<Rightarrow> f (TextString s) | Array a \<Rightarrow> f (Array a)
      | IntMap m \<Rightarrow> f (IntMap m) | StrMap m' \<Rightarrow> f (StrMap m') | Bool c \<Rightarrow> f (Bool c)) = f v"
  by (cases v) simp_all

interpretation response_message: cbor_message RpcResponse_to_cbor RpcResponse_from_cbor RpcResponse_ok RpcResponse_norm
proof
  fix r
  assume r: "RpcResponse_ok r"
  then show "value_ok 0 (RpcResponse_to_cbor r)"
    by (cases "rs_result r"; cases "rs_error r")
      (simp_all add: RpcResponse_to_cbor_def RpcResponse_ok_def int_map_def RpcErrorObject_value_ok)
  show "RpcResponse_from_cbor (canon (RpcResponse_to_cbor r)) = Inr (RpcResponse_norm r)"
    using r RpcErrorObject_not_Null
    by (cases "rs_result r"; cases "rs_error r")
      (simp_all add: RpcResponse_from_cbor_def RpcResponse_to_cbor_def field_uint_def
        int_map_get_canon RpcResponse_ok_def RpcResponse_norm_def RpcErrorObject_from_to
        case_not_Null [where f = "\<lambda>v. Inr (Some v)"]
        case_not_Null [where f = "\<lambda>v. bind_result (RpcErrorObject_from_cbor v) (\<lambda>e. Inr (Some e))"])
qed

definition CloseMessage_ok :: "CloseMessage \<Rightarrow> bool" where
  "CloseMessage_ok m \<longleftrightarrow> utf8_valid (cl_message m)"

interpretation close_message: cbor_message CloseMessage_to_cbor CloseMessage_from_cbor CloseMessage_ok id
  by unfold_locales (simp_all add: CloseMessage_to_cbor_def CloseMessage_from_cbor_def
      CloseMessage_ok_def field_defs int_map_get_canon, simp add: int_map_def)

definition ErrorMessage_ok :: "ErrorMessage \<Rightarrow> bool" where
  "ErrorMessage_ok m \<longleftrightarrow> utf8_valid (em_message m)"

interpretation error_message: cbor_message ErrorMessage_to_cbor ErrorMessage_from_cbor ErrorMessage_ok id
proof
  fix m
  assume "ErrorMessage_ok m"
  then show "value_ok 0 (ErrorMessage_to_cbor m)"
    by (cases "em_data m") (simp_all add: ErrorMessage_to_cbor_def ErrorMessage_ok_def int_map_def)
  show "ErrorMessage_from_cbor (canon (ErrorMessage_to_cbor m)) = Inr (id m)"
    by (cases "em_data m")
      (simp_all add: ErrorMessage_to_cbor_def ErrorMessage_from_cbor_def field_defs int_map_get_canon)
qed

text \<open>
  RPC requests survive the wire: encoding a request with a UTF-8 method name and non-null
  parameters succeeds, and decoding the bytes, with anything appended, returns the request
  with its parameters in canonical form.
\<close>

lemma RpcRequest_roundtrip:
  assumes "RpcRequest_ok r" and "RpcRequest_encode r = Inr bs" and "fits (bs @ rest)"
  shows "RpcRequest_decode (bs @ rest) = Inr (RpcRequest_norm r)"
  using assms unfolding RpcRequest_encode_def RpcRequest_decode_def
  by (rule request_message.bytes_roundtrip)

lemma RpcRequest_roundtrip_example:
  "RpcRequest_decode ([0xA3, 1, 7, 2, 0x61, 0x6D, 3, 0xA0] @ [0]) = Inr (RpcRequest_new 7 (str ''m''))"
proof -
  have a: "RpcRequest_ok (RpcRequest_new 7 (str ''m''))" by code_simp
  have b: "RpcRequest_encode (RpcRequest_new 7 (str ''m'')) = Inr [0xA3, 1, 7, 2, 0x61, 0x6D, 3, 0xA0]"
    by code_simp
  have c: "RpcRequest_norm (RpcRequest_new 7 (str ''m'')) = RpcRequest_new 7 (str ''m'')" by code_simp
  show ?thesis using RpcRequest_roundtrip [OF a b, of "[0]"] by (simp only: c) simp
qed

text \<open>
  RPC responses survive the wire: a response with a non-null result or an error object, or
  both, or neither, is encoded and decoded to itself, its result in canonical form.
\<close>

lemma RpcResponse_roundtrip:
  assumes "RpcResponse_ok r" and "RpcResponse_encode r = Inr bs" and "fits (bs @ rest)"
  shows "RpcResponse_decode (bs @ rest) = Inr (RpcResponse_norm r)"
  using assms unfolding RpcResponse_encode_def RpcResponse_decode_def
  by (rule response_message.bytes_roundtrip)

lemma RpcResponse_roundtrip_example:
  "RpcResponse_decode ([0xA2, 1, 7, 3, 0xA2, 1, 0x19, 0x13, 0x8A, 2, 0x61, 0x65] @ []) =
     Inr (RpcResponse_error 7 (RpcErrorObject_new 5002 (str ''e'')))"
proof -
  let ?r = "RpcResponse_error 7 (RpcErrorObject_new 5002 (str ''e''))"
  have a: "RpcResponse_ok ?r" by code_simp
  have b: "RpcResponse_encode ?r = Inr [0xA2, 1, 7, 3, 0xA2, 1, 0x19, 0x13, 0x8A, 2, 0x61, 0x65]"
    by code_simp
  have c: "RpcResponse_norm ?r = ?r" by code_simp
  show ?thesis using RpcResponse_roundtrip [OF a b, of "[]"] by (simp only: c) simp
qed

text \<open>
  CLOSE and ERROR messages survive the wire: both are decoded to exactly the message that
  was encoded, for every 32-bit code, optional data and fatal flag.
\<close>

lemma control_message_roundtrip:
  "(utf8_valid (cl_message c) \<and> CloseMessage_encode c = Inr bs \<and> fits (bs @ rest) \<longrightarrow>
      CloseMessage_decode (bs @ rest) = Inr c) \<and>
   (utf8_valid (em_message e) \<and> ErrorMessage_encode e = Inr bs \<and> fits (bs @ rest) \<longrightarrow>
      ErrorMessage_decode (bs @ rest) = Inr e)"
  using close_message.bytes_roundtrip [of c RpcCbor bs rest] error_message.bytes_roundtrip [of e RpcCbor bs rest]
  unfolding CloseMessage_encode_def CloseMessage_decode_def ErrorMessage_encode_def
    ErrorMessage_decode_def CloseMessage_ok_def ErrorMessage_ok_def by simp

lemma control_message_roundtrip_example:
  "CloseMessage_decode ([0xA2, 1, 0x19, 0x1F, 0x49, 2, 0x60] @ [1]) = Inr (CloseMessage_new 8009 [])"
proof -
  have "CloseMessage_encode (CloseMessage_new 8009 []) = Inr [0xA2, 1, 0x19, 0x1F, 0x49, 2, 0x60]"
    by code_simp
  then show ?thesis
    using control_message_roundtrip [of "CloseMessage_new 8009 []" "[0xA2, 1, 0x19, 0x1F, 0x49, 2, 0x60]" "[1]"]
    by (simp add: CloseMessage_new_def)
qed

lemma RpcRequest_from_cbor_params: "RpcRequest_from_cbor val = Inr r \<Longrightarrow> rq_params r \<noteq> Null"
  unfolding RpcRequest_from_cbor_def bind_result_Inr_iff
  by (elim exE conjE) (auto split: option.splits Value.splits)

lemma RpcResponse_from_cbor_result: "RpcResponse_from_cbor val = Inr r \<Longrightarrow> rs_result r \<noteq> Some Null"
  unfolding RpcResponse_from_cbor_def bind_result_Inr_iff
proof (elim exE conjE)
  fix i res err
  assume "(case int_map_get val 2 of None \<Rightarrow> Inr None
      | Some Null \<Rightarrow> Inl (InvalidField ''result'' NullNotValid) | Some other \<Rightarrow> Inr (Some other)) =
    (Inr res :: RpcError + _)"
    and "Inr \<lparr>rs_id = i, rs_result = res, rs_error = err\<rparr> = (Inr r :: RpcError + _)"
  then show ?thesis by (auto split: option.splits Value.splits)
qed

text \<open>
  No null on the wire: a request accepted by the decoder never has null parameters, and an
  accepted response never has a null result; absent optional fields are omitted.
\<close>

theorem decoded_rpc_not_null:
  "(RpcRequest_decode data = Inr r \<longrightarrow> rq_params r \<noteq> Null) \<and>
   (RpcResponse_decode data = Inr s \<longrightarrow> rs_result s \<noteq> Some Null)"
  unfolding RpcRequest_decode_def RpcResponse_decode_def bind_result_Inr_iff
  by (auto dest: RpcRequest_from_cbor_params RpcResponse_from_cbor_result)

theorem decoded_rpc_not_null_witness:
  "rq_params (RpcRequest_new 7 (str ''m'')) \<noteq> Null"
proof -
  have "RpcRequest_decode [0xA3, 1, 7, 2, 0x61, 0x6D, 3, 0xA0] = Inr (RpcRequest_new 7 (str ''m''))"
    by code_simp
  then show ?thesis
    by (rule decoded_rpc_not_null [THEN conjunct1, THEN mp])
qed

text \<open>
  The success response with a null result is encoded, and then refused by the decoder; a code
  that does not fit \<open>u32\<close> is truncated instead of refused.
\<close>

lemma success_null_refused:
  "RpcResponse_encode (RpcResponse_success 1 Null) = Inr [0xA2, 1, 1, 2, 0xF6] \<and>
   RpcResponse_decode [0xA2, 1, 1, 2, 0xF6] = Inl (InvalidField ''result'' NullNotValid)"
  by code_simp

lemma close_code_truncated:
  "CloseMessage_from_cbor (IntMap [(1, Unsigned 4294967296), (2, TextString [])]) =
     Inr (CloseMessage_new 0 [])"
  by code_simp

end
