(* ===== verification/Lifecycle.thy ===== *)
theory Lifecycle
  imports Prelude
begin

text \<open>
  Interfaces of the protocol's state machines. \<open>transition_table\<close> is the contract of a table of
  legal transitions that only moves forward (session, handshakes, graceful close);
  \<open>event_system\<close> is the contract of a component driven by a sequence of events that keeps an
  invariant, and \<open>staged_system\<close> that of one whose events move a stage along such a table.
  Each component interprets them on its own operations.
\<close>

section \<open>Tables of legal transitions\<close>

locale transition_table =
  fixes can :: "'s \<Rightarrow> 's \<Rightarrow> bool"
    and rank :: "'s \<Rightarrow> nat"
    and bound :: nat
  assumes can_rank: "can s t \<Longrightarrow> rank s < rank t"
    and rank_bound: "rank s \<le> bound"
begin

lemma terminal: "rank s = bound \<Longrightarrow> \<not> can s t"
  using can_rank [of s t] rank_bound [of t] by auto

lemma irreflexive: "\<not> can s s"
  using can_rank [of s s] by auto

lemma path_rank: "can\<^sup>+\<^sup>+ s t \<Longrightarrow> rank s < rank t"
  by (induction rule: tranclp_induct) (auto dest: can_rank)

lemma no_cycle: "\<not> can\<^sup>+\<^sup>+ s s"
  using path_rank [of s s] by auto

lemma successively_rank: "successively can (s # ss) \<Longrightarrow> t \<in> set ss \<Longrightarrow> rank s < rank t"
proof (induction ss arbitrary: s)
  case (Cons u us)
  then show ?case using can_rank [of s u] by (auto dest: less_trans)
qed simp

lemma path_distinct: "successively can ss \<Longrightarrow> distinct ss"
proof (induction ss)
  case (Cons s ss)
  then show ?case using successively_rank [of s ss] by (cases ss) auto
qed simp

lemma path_length_rank: "successively can (s # ss) \<Longrightarrow> length ss + rank s \<le> bound"
proof (induction ss arbitrary: s)
  case Nil
  then show ?case by (simp add: rank_bound)
next
  case (Cons t ts)
  then have "length ts + rank t \<le> bound" by simp
  moreover have "rank s < rank t" using Cons.prems can_rank by simp
  ultimately show ?case by simp
qed

lemma path_length: "successively can ss \<Longrightarrow> length ss \<le> Suc bound"
  using path_length_rank by (cases ss) force+

text \<open>
  A path that starts at the first state of a chain in which every state has only its
  predecessor as a way in, and that ends in the chain, is the chain up to that point.
\<close>

lemma chain_path:
  assumes "distinct L" and "\<And>j s. Suc j < length L \<Longrightarrow> can s (L ! Suc j) \<Longrightarrow> s = L ! j"
  shows "i < length L \<Longrightarrow> successively can xs \<Longrightarrow> xs \<noteq> [] \<Longrightarrow> hd xs = L ! 0 \<Longrightarrow> last xs = L ! i \<Longrightarrow>
    xs = take (Suc i) L"
proof (induction i arbitrary: xs)
  case 0
  then obtain ys where xs: "xs = L ! 0 # ys" by (cases xs) auto
  have "distinct xs" using 0 path_distinct by simp
  then have "ys = []" using xs 0(5) by (metis distinct.simps(2) last_ConsR last_in_set)
  then show ?case using xs 0 by (simp add: take_Suc_conv_app_nth)
next
  case (Suc i)
  define ys where "ys = butlast xs"
  have xs: "xs = ys @ [L ! Suc i]" using Suc.prems append_butlast_last_id [of xs] by (simp add: ys_def)
  have "ys \<noteq> []"
    using Suc.prems xs nth_eq_iff_index_eq [OF assms(1), of "Suc i" 0]
    by (cases L) auto
  with Suc.prems xs have "successively can ys" "hd ys = L ! 0" "can (last ys) (L ! Suc i)"
    by (simp_all add: successively_append_iff)
  then have "ys = take (Suc i) L"
    using Suc.prems \<open>ys \<noteq> []\<close> assms(2) [of i "last ys"] by (intro Suc.IH) simp_all
  then show ?case using xs Suc.prems(1) by (simp add: take_Suc_conv_app_nth)
qed

end

section \<open>Components driven by events\<close>

locale event_system =
  fixes step :: "'e \<Rightarrow> 's \<Rightarrow> 's"
    and start :: "'s \<Rightarrow> bool"
    and inv :: "'s \<Rightarrow> bool"
  assumes inv_start: "start s \<Longrightarrow> inv s"
    and inv_step: "inv s \<Longrightarrow> inv (step e s)"
begin

lemma inv_steps: "inv s \<Longrightarrow> inv (fold step es s)"
  by (induction es arbitrary: s) (auto intro: inv_step)

lemma inv_run: "start s \<Longrightarrow> inv (fold step es s)"
  by (intro inv_steps inv_start)

end

text \<open>The stages a component goes through while it handles events, without repetition.\<close>

primrec visited :: "('e \<Rightarrow> 's \<Rightarrow> 's) \<Rightarrow> ('s \<Rightarrow> 'q) \<Rightarrow> 'e list \<Rightarrow> 's \<Rightarrow> 'q list" where
  "visited step stage [] s = [stage s]"
| "visited step stage (e # es) s =
     (let r = visited step stage es (step e s) in if hd r = stage s then r else stage s # r)"

lemma hd_visited [simp]: "hd (visited step stage es s) = stage s"
  by (induction es arbitrary: s) (auto simp: Let_def)

lemma visited_not_Nil [simp]: "visited step stage es s \<noteq> []"
  by (induction es arbitrary: s) (auto simp: Let_def)

lemma last_visited [simp]: "last (visited step stage es s) = stage (fold step es s)"
  by (induction es arbitrary: s) (auto simp: Let_def)

locale staged_system = transition_table can rank bound
  for can :: "'q \<Rightarrow> 'q \<Rightarrow> bool" and rank :: "'q \<Rightarrow> nat" and bound :: nat +
  fixes step :: "'e \<Rightarrow> 's \<Rightarrow> 's"
    and stage :: "'s \<Rightarrow> 'q"
  assumes step_can: "stage (step e s) = stage s \<or> can (stage s) (stage (step e s))"
begin

lemma visited_path: "successively can (visited step stage es s)"
proof (induction es arbitrary: s)
  case (Cons e es)
  obtain r where r: "visited step stage es (step e s) = stage (step e s) # r"
    by (metis hd_visited list.collapse visited_not_Nil)
  then show ?case using Cons [of "step e s"] step_can [of e s] by (auto simp: Let_def)
qed simp

lemma visited_distinct: "distinct (visited step stage es s)"
  by (rule path_distinct [OF visited_path])

lemma visited_length: "length (visited step stage es s) \<le> Suc bound"
  by (rule path_length [OF visited_path])

lemma rank_mono: "rank (stage s) \<le> rank (stage (fold step es s))"
proof (induction es arbitrary: s)
  case (Cons e es)
  have "rank (stage s) \<le> rank (stage (step e s))"
    using step_can [of e s] can_rank [of "stage s" "stage (step e s)"] by auto
  with Cons [of "step e s"] show ?case by simp
qed simp

lemma absorbing: "rank (stage s) = bound \<Longrightarrow> stage (fold step es s) = stage s"
proof (induction es arbitrary: s)
  case (Cons e es)
  then have "stage (step e s) = stage s" using step_can [of e s] terminal by auto
  with Cons show ?case by simp
qed simp

end

end
