(* ===== verification/Session.thy ===== *)
theory Session
  imports Lifecycle Utf8
begin

text \<open>
  The session object, \<open>crates/aafp-core/src/session.rs\<close>: its lifecycle states and the table of
  legal transitions, the operations that move it forward, and the authorization providers.
  The trait object \<open>AuthorizationContext\<close> wraps its only method, a predicate on capabilities, and
  \<open>AuthorizationProvider\<close> the function \<open>authorize\<close>. Operations that read the clock take the
  time as their first argument. An operation returns its result with the session afterwards.
\<close>

section \<open>Authorization\<close>

type_synonym AgentId = bytes
type_synonym SessionId = bytes

datatype AuthorizationContext = AuthorizationContext (ctx_is_authorized: "ustring \<Rightarrow> bool")

record NegotiatedFeatures =
  nf_protocol_version :: byte
  nf_extensions :: "u16 list"

record TransportHandle =
  th_remote_addr :: ustring
  th_is_closed :: bool

datatype AuthorizationError =
    AuthDenied ustring
  | AuthExpired
  | AuthRevoked
  | AuthInsufficientCapability ustring
  | AuthDelegationChainInvalid ustring
  | AuthProvider ustring

definition AllowAllAuthContext_is_authorized :: "ustring \<Rightarrow> bool" where
  "AllowAllAuthContext_is_authorized capability = True"

definition TestingAuthProvider_authorize ::
    "AgentId \<Rightarrow> bytes \<Rightarrow> AuthorizationError + AuthorizationContext" where
  "TestingAuthProvider_authorize peer key =
     Inr (AuthorizationContext AllowAllAuthContext_is_authorized)"

definition DenyAllAuthContext_is_authorized :: "ustring \<Rightarrow> bool" where
  "DenyAllAuthContext_is_authorized capability = False"

definition TestingDenyProvider_authorize ::
    "AgentId \<Rightarrow> bytes \<Rightarrow> AuthorizationError + AuthorizationContext" where
  "TestingDenyProvider_authorize peer key =
     Inr (AuthorizationContext DenyAllAuthContext_is_authorized)"

record TestingCapabilityProvider =
  tcp_allowed :: "ustring list"

definition TestingCapabilityProvider_new :: "ustring list \<Rightarrow> TestingCapabilityProvider" where
  "TestingCapabilityProvider_new a = \<lparr>tcp_allowed = a\<rparr>"

definition AllowedCapsAuthContext_is_authorized :: "ustring list \<Rightarrow> ustring \<Rightarrow> bool" where
  "AllowedCapsAuthContext_is_authorized allowed capability = list_ex (\<lambda>c. c = capability) allowed"

definition TestingCapabilityProvider_authorize ::
    "TestingCapabilityProvider \<Rightarrow> AgentId \<Rightarrow> bytes \<Rightarrow> AuthorizationError + AuthorizationContext" where
  "TestingCapabilityProvider_authorize p peer key =
     Inr (AuthorizationContext (AllowedCapsAuthContext_is_authorized (tcp_allowed p)))"

section \<open>Lifecycle states\<close>

datatype SessionState =
    Connecting
  | TransportEstablished
  | IdentityVerified
  | AuthorizationVerified
  | Authenticated
  | MessagingEnabled
  | SessionClosing
  | SessionClosed

definition SessionState_is_terminal :: "SessionState \<Rightarrow> bool" where
  "SessionState_is_terminal s \<longleftrightarrow> s = SessionClosed"

definition SessionState_is_messaging_active :: "SessionState \<Rightarrow> bool" where
  "SessionState_is_messaging_active s \<longleftrightarrow> s = MessagingEnabled"

definition SessionState_is_identity_verified :: "SessionState \<Rightarrow> bool" where
  "SessionState_is_identity_verified s \<longleftrightarrow> \<not> (s = Connecting \<or> s = TransportEstablished)"

definition SessionState_is_authenticated :: "SessionState \<Rightarrow> bool" where
  "SessionState_is_authenticated s \<longleftrightarrow>
     s = Authenticated \<or> s = MessagingEnabled \<or> s = SessionClosing"

fun SessionState_can_transition_to :: "SessionState \<Rightarrow> SessionState \<Rightarrow> bool" where
  "SessionState_can_transition_to Connecting TransportEstablished = True"
| "SessionState_can_transition_to TransportEstablished IdentityVerified = True"
| "SessionState_can_transition_to IdentityVerified AuthorizationVerified = True"
| "SessionState_can_transition_to AuthorizationVerified Authenticated = True"
| "SessionState_can_transition_to Authenticated MessagingEnabled = True"
| "SessionState_can_transition_to MessagingEnabled SessionClosing = True"
| "SessionState_can_transition_to SessionClosing SessionClosed = True"
| "SessionState_can_transition_to s SessionClosing =
     (s \<in> {TransportEstablished, IdentityVerified, AuthorizationVerified, Authenticated})"
| "SessionState_can_transition_to s SessionClosed =
     (s \<in> {Connecting, TransportEstablished, IdentityVerified, AuthorizationVerified,
        Authenticated, MessagingEnabled})"
| "SessionState_can_transition_to _ _ = False"

section \<open>The session\<close>

datatype SessionStateError = SessionStateError (sse_from: SessionState) (sse_to: SessionState)

record Session =
  se_state :: SessionState
  se_session_id :: "SessionId option"
  se_peer_agent_id :: "AgentId option"
  se_negotiated_features :: "NegotiatedFeatures option"
  se_created_at :: instant
  se_last_activity :: instant
  se_transport_handle :: "TransportHandle option"
  se_authorization_context :: "AuthorizationContext option"

definition Session_new :: "instant \<Rightarrow> Session" where
  "Session_new now = \<lparr>se_state = Connecting, se_session_id = None, se_peer_agent_id = None,
     se_negotiated_features = None, se_created_at = now, se_last_activity = now,
     se_transport_handle = None, se_authorization_context = None\<rparr>"

definition Session_touch :: "instant \<Rightarrow> Session \<Rightarrow> Session" where
  "Session_touch now s = s\<lparr>se_last_activity := now\<rparr>"

definition Session_transition_to :: "SessionState \<Rightarrow> Session \<Rightarrow> (SessionStateError + unit) \<times> Session" where
  "Session_transition_to new_state s =
     (if \<not> SessionState_can_transition_to (se_state s) new_state
      then (Inl (SessionStateError (se_state s) new_state), s)
      else (Inr (), s\<lparr>se_state := new_state\<rparr>))"

text \<open>The \<open>?\<close> after \<open>transition_to\<close>: on success the rest of the operation runs.\<close>

definition and_then :: "(SessionStateError + unit) \<times> Session \<Rightarrow> (Session \<Rightarrow> Session) \<Rightarrow>
    (SessionStateError + unit) \<times> Session" where
  "and_then r f = (case r of (Inl e, s) \<Rightarrow> (Inl e, s) | (Inr u, s) \<Rightarrow> (Inr u, f s))"

definition on_transport_established :: "instant \<Rightarrow> TransportHandle \<Rightarrow> NegotiatedFeatures \<Rightarrow> Session \<Rightarrow>
    (SessionStateError + unit) \<times> Session" where
  "on_transport_established now handle features s =
     and_then (Session_transition_to TransportEstablished s)
       (\<lambda>s. Session_touch now
         (s\<lparr>se_transport_handle := Some handle, se_negotiated_features := Some features\<rparr>))"

definition on_identity_verified :: "instant \<Rightarrow> AgentId \<Rightarrow> SessionId \<Rightarrow> Session \<Rightarrow>
    (SessionStateError + unit) \<times> Session" where
  "on_identity_verified now peer sid s =
     and_then (Session_transition_to IdentityVerified s)
       (\<lambda>s. Session_touch now (s\<lparr>se_peer_agent_id := Some peer, se_session_id := Some sid\<rparr>))"

definition on_authorization_verified :: "instant \<Rightarrow> AuthorizationContext \<Rightarrow> Session \<Rightarrow>
    (SessionStateError + unit) \<times> Session" where
  "on_authorization_verified now ctx s =
     and_then (Session_transition_to AuthorizationVerified s)
       (\<lambda>s. Session_touch now (s\<lparr>se_authorization_context := Some ctx\<rparr>))"

definition on_authenticated :: "instant \<Rightarrow> Session \<Rightarrow> (SessionStateError + unit) \<times> Session" where
  "on_authenticated now s = and_then (Session_transition_to Authenticated s) (Session_touch now)"

definition on_messaging_enabled :: "instant \<Rightarrow> Session \<Rightarrow> (SessionStateError + unit) \<times> Session" where
  "on_messaging_enabled now s =
     and_then (Session_transition_to MessagingEnabled s) (Session_touch now)"

definition begin_close :: "instant \<Rightarrow> Session \<Rightarrow> (SessionStateError + unit) \<times> Session" where
  "begin_close now s = and_then (Session_transition_to SessionClosing s) (Session_touch now)"

definition Session_close :: "Session \<Rightarrow> (SessionStateError + unit) \<times> Session" where
  "Session_close s = Session_transition_to SessionClosed s"

definition Session_is_authorized :: "Session \<Rightarrow> ustring \<Rightarrow> bool" where
  "Session_is_authorized s capability =
     (case se_authorization_context s of None \<Rightarrow> False | Some ctx \<Rightarrow> ctx_is_authorized ctx capability)"

section \<open>The table of transitions\<close>

fun session_rank :: "SessionState \<Rightarrow> nat" where
  "session_rank Connecting = 0"
| "session_rank TransportEstablished = 1"
| "session_rank IdentityVerified = 2"
| "session_rank AuthorizationVerified = 3"
| "session_rank Authenticated = 4"
| "session_rank MessagingEnabled = 5"
| "session_rank SessionClosing = 6"
| "session_rank SessionClosed = 7"

interpretation session_table: transition_table SessionState_can_transition_to session_rank 7
proof
  show "SessionState_can_transition_to s t \<Longrightarrow> session_rank s < session_rank t" for s t
    by (cases s; cases t) simp_all
  show "session_rank s \<le> 7" for s by (cases s) simp_all
qed

text \<open>Between the working states the only legal step is to the next one.\<close>

lemma session_forward_step:
  "SessionState_can_transition_to s t \<Longrightarrow> t \<noteq> SessionClosing \<Longrightarrow> t \<noteq> SessionClosed \<Longrightarrow>
     session_rank t = Suc (session_rank s)"
  by (cases s; cases t) simp_all

section \<open>Runs of a session\<close>

datatype session_event =
    EvTransport TransportHandle NegotiatedFeatures
  | EvIdentity AgentId SessionId
  | EvAuthorization AuthorizationContext
  | EvAuthenticated
  | EvMessaging
  | EvBeginClose
  | EvClose
  | EvTouch

text \<open>One call on the session at a time; an illegal call returns an error and is dropped.\<close>

fun session_step :: "instant \<times> session_event \<Rightarrow> Session \<Rightarrow> Session" where
  "session_step (now, EvTransport h f) s = snd (on_transport_established now h f s)"
| "session_step (now, EvIdentity a i) s = snd (on_identity_verified now a i s)"
| "session_step (now, EvAuthorization c) s = snd (on_authorization_verified now c s)"
| "session_step (now, EvAuthenticated) s = snd (on_authenticated now s)"
| "session_step (now, EvMessaging) s = snd (on_messaging_enabled now s)"
| "session_step (now, EvBeginClose) s = snd (begin_close now s)"
| "session_step (now, EvClose) s = snd (Session_close s)"
| "session_step (now, EvTouch) s = Session_touch now s"

lemmas session_ops = on_transport_established_def on_identity_verified_def
  on_authorization_verified_def on_authenticated_def on_messaging_enabled_def begin_close_def
  Session_close_def Session_transition_to_def and_then_def Session_touch_def

definition session_inv :: "Session \<Rightarrow> bool" where
  "session_inv s \<longleftrightarrow>
     (se_state s \<in> {TransportEstablished, IdentityVerified, AuthorizationVerified, Authenticated,
        MessagingEnabled} \<longrightarrow> se_transport_handle s \<noteq> None \<and> se_negotiated_features s \<noteq> None) \<and>
     (se_state s \<in> {IdentityVerified, AuthorizationVerified, Authenticated, MessagingEnabled} \<longrightarrow>
        se_peer_agent_id s \<noteq> None \<and> se_session_id s \<noteq> None) \<and>
     (se_state s \<in> {AuthorizationVerified, Authenticated, MessagingEnabled} \<longrightarrow>
        se_authorization_context s \<noteq> None) \<and>
     (se_state s \<in> {Connecting, TransportEstablished} \<longrightarrow>
        se_peer_agent_id s = None \<and> se_session_id s = None) \<and>
     (se_state s \<in> {Connecting, TransportEstablished, IdentityVerified} \<longrightarrow>
        se_authorization_context s = None) \<and>
     (se_authorization_context s \<noteq> None \<longrightarrow> se_peer_agent_id s \<noteq> None)"

lemma session_step_cases:
  "session_step e s = s \<or>
   session_step e s = s\<lparr>se_last_activity := fst e\<rparr> \<or>
   SessionState_can_transition_to (se_state s) (se_state (session_step e s))"
proof (cases e rule: prod.exhaust)
  case (Pair now ev)
  then show ?thesis by (cases ev) (simp_all add: session_ops)
qed

lemma session_step_inv: "session_inv s \<Longrightarrow> session_inv (session_step e s)"
proof (cases e rule: prod.exhaust)
  case (Pair now ev)
  assume "session_inv s"
  then show ?thesis unfolding Pair
    by (cases "se_state s"; cases ev; simp add: session_ops session_inv_def)
qed

interpretation session_system: event_system session_step "\<lambda>s. \<exists>now. s = Session_new now" session_inv
proof
  show "\<exists>now. s = Session_new now \<Longrightarrow> session_inv s" for s
    by (auto simp: session_inv_def Session_new_def)
qed (simp add: session_step_inv)

interpretation session_stages:
  staged_system SessionState_can_transition_to session_rank 7 session_step se_state
proof
  show "se_state (session_step e s) = se_state s \<or>
      SessionState_can_transition_to (se_state s) (se_state (session_step e s))" for e s
    using session_step_cases [of e s] by auto
qed

text \<open>The session after a sequence of calls.\<close>

definition session_run :: "instant \<Rightarrow> (instant \<times> session_event) list \<Rightarrow> Session" where
  "session_run now es = fold session_step es (Session_new now)"

lemma session_run_inv: "session_inv (session_run now es)"
  unfolding session_run_def by (rule session_system.inv_run) blast

lemma session_authorized_peer:
  "session_inv s \<Longrightarrow> se_authorization_context s = Some c \<Longrightarrow> \<exists>a. se_peer_agent_id s = Some a"
  by (simp add: session_inv_def)

lemma session_run_origin:
  "(\<forall>a. se_peer_agent_id (session_run now es) = Some a \<longrightarrow>
      (\<exists>t i. (t, EvIdentity a i) \<in> set es \<and> se_session_id (session_run now es) = Some i)) \<and>
   (\<forall>c. se_authorization_context (session_run now es) = Some c \<longrightarrow> (\<exists>t. (t, EvAuthorization c) \<in> set es))"
proof (induction es rule: rev_induct)
  case Nil
  then show ?case by (simp add: session_run_def Session_new_def)
next
  case (snoc e es)
  obtain t ev where e: "e = (t, ev)" by (cases e)
  have r: "session_run now (es @ [(t, ev)]) = session_step (t, ev) (session_run now es)"
    by (simp add: session_run_def)
  show ?case using snoc unfolding e r
    by (cases ev) (fastforce simp: session_ops split: if_splits)+
qed

text \<open>
  C15. Messaging needs every step of the authentication: in whatever order the session's
  operations are called, when a session is in \<open>MessagingEnabled\<close> it has a transport handle,
  negotiated features, the peer and session identifiers given by an \<open>on_identity_verified\<close>
  call and the authorization context given by an \<open>on_authorization_verified\<close> call.
\<close>

theorem session_messaging_complete:
  assumes "SessionState_is_messaging_active (se_state (session_run now es))"
  shows "\<exists>h f a i c t t'. se_transport_handle (session_run now es) = Some h \<and>
    se_negotiated_features (session_run now es) = Some f \<and>
    se_peer_agent_id (session_run now es) = Some a \<and> se_session_id (session_run now es) = Some i \<and>
    se_authorization_context (session_run now es) = Some c \<and>
    (t, EvIdentity a i) \<in> set es \<and> (t', EvAuthorization c) \<in> set es"
proof -
  let ?s = "session_run now es"
  have "se_state ?s = MessagingEnabled"
    using assms by (simp add: SessionState_is_messaging_active_def)
  then obtain h f a c where "se_transport_handle ?s = Some h" "se_negotiated_features ?s = Some f"
    "se_peer_agent_id ?s = Some a" "se_authorization_context ?s = Some c"
    using session_run_inv [of now es] by (auto simp: session_inv_def)
  moreover obtain t i where "(t, EvIdentity a i) \<in> set es" "se_session_id ?s = Some i"
    using session_run_origin [of now es] \<open>se_peer_agent_id ?s = Some a\<close> by auto
  moreover obtain t' where "(t', EvAuthorization c) \<in> set es"
    using session_run_origin [of now es] \<open>se_authorization_context ?s = Some c\<close> by auto
  ultimately show ?thesis by auto
qed

text \<open>A complete establishment of a session, used to evaluate the properties.\<close>

definition example_events :: "(instant \<times> session_event) list" where
  "example_events =
     [(1, EvTransport \<lparr>th_remote_addr = [], th_is_closed = False\<rparr>
        \<lparr>nf_protocol_version = 1, nf_extensions = []\<rparr>), (2, EvIdentity [7] [9]),
      (3, EvAuthorization (AuthorizationContext (AllowedCapsAuthContext_is_authorized [str ''chat'']))),
      (4, EvAuthenticated), (5, EvMessaging)]"

theorem session_messaging_complete_witness:
  "\<exists>a c t. se_peer_agent_id (session_run 0 example_events) = Some a \<and>
     se_authorization_context (session_run 0 example_events) = Some c \<and>
     (t, EvAuthorization c) \<in> set example_events"
proof -
  have "SessionState_is_messaging_active (se_state (session_run 0 example_events))"
    by (simp add: session_run_def Session_new_def session_ops SessionState_is_messaging_active_def
        example_events_def)
  from session_messaging_complete [OF this] show ?thesis by blast
qed

lemma session_establishment:
  assumes "se_state s = Connecting" and "se_state (fold session_step es s) = MessagingEnabled"
  shows "visited session_step se_state es s =
    [Connecting, TransportEstablished, IdentityVerified, AuthorizationVerified, Authenticated,
      MessagingEnabled]" (is "_ = ?L")
proof -
  have "t = ?L ! j" if "Suc j < length ?L" "SessionState_can_transition_to t (?L ! Suc j)" for j t
    using that by (cases t) (auto simp: less_Suc_eq)
  then show ?thesis
    using session_table.chain_path [of ?L 5 "visited session_step se_state es s"]
      session_stages.visited_path assms by simp
qed

text \<open>
  C16. A session only moves forward: the states it goes through, in any sequence of calls, are
  pairwise distinct and each follows the previous one in the table of legal transitions, so at
  most seven state changes ever happen; nothing leaves \<open>Closed\<close>; and a session that gets from
  \<open>Connecting\<close> to \<open>MessagingEnabled\<close> has gone through every state in between, in order.
\<close>

theorem session_moves_forward:
  "successively SessionState_can_transition_to (visited session_step se_state es s) \<and>
   distinct (visited session_step se_state es s) \<and> length (visited session_step se_state es s) \<le> 8 \<and>
   (se_state s = SessionClosed \<longrightarrow> se_state (fold session_step es s) = SessionClosed) \<and>
   (se_state s = Connecting \<and> se_state (fold session_step es s) = MessagingEnabled \<longrightarrow>
      visited session_step se_state es s = [Connecting, TransportEstablished, IdentityVerified,
        AuthorizationVerified, Authenticated, MessagingEnabled])"
  using session_stages.visited_path [of es s] session_stages.visited_distinct [of es s]
    session_stages.visited_length [of es s] session_stages.absorbing [of s es]
    session_establishment [of s es] by simp

theorem session_moves_forward_witness:
  "length (visited session_step se_state example_events (Session_new 0)) = 6"
proof -
  have "se_state (fold session_step example_events (Session_new 0)) = MessagingEnabled"
    by (simp add: Session_new_def session_ops example_events_def)
  then show ?thesis
    using session_moves_forward [of example_events "Session_new 0"] by (simp add: Session_new_def)
qed

text \<open>
  Capability checks rest on a granted authorization: a session reports a peer as authorized
  for a capability only if some \<open>on_authorization_verified\<close> call supplied a context that
  grants it, and then the peer's identity has been verified.
\<close>

lemma session_is_authorized_granted:
  assumes "Session_is_authorized (session_run now es) cap"
  shows "(\<exists>t ctx. (t, EvAuthorization ctx) \<in> set es \<and> ctx_is_authorized ctx cap) \<and>
    (\<exists>t a i. (t, EvIdentity a i) \<in> set es \<and> se_peer_agent_id (session_run now es) = Some a)"
proof -
  from assms obtain ctx where c: "se_authorization_context (session_run now es) = Some ctx" "ctx_is_authorized ctx cap"
    by (auto simp: Session_is_authorized_def split: option.splits)
  from session_authorized_peer [OF session_run_inv c(1)]
  obtain a where a: "se_peer_agent_id (session_run now es) = Some a" by blast
  obtain t i where "(t, EvIdentity a i) \<in> set es" using session_run_origin [of now es] a by auto
  moreover obtain t' where "(t', EvAuthorization ctx) \<in> set es"
    using session_run_origin [of now es] c(1) by auto
  ultimately show ?thesis using a c(2) by auto
qed

lemma session_is_authorized_granted_example:
  "\<exists>t ctx. (t, EvAuthorization ctx) \<in> set example_events \<and> ctx_is_authorized ctx (str ''chat'')"
proof -
  have "Session_is_authorized (session_run 0 example_events) (str ''chat'')"
    by (simp add: session_run_def Session_new_def session_ops Session_is_authorized_def
        AllowedCapsAuthContext_is_authorized_def example_events_def)
  from session_is_authorized_granted [OF this] show ?thesis by blast
qed

text \<open>
  Every operation succeeds exactly when its transition is legal, and a refused operation
  reports the two states and leaves the session unchanged.
\<close>

lemma session_operation_outcome:
  "on_transport_established now h f s = r \<and> t = TransportEstablished \<or>
   on_identity_verified now a i s = r \<and> t = IdentityVerified \<or>
   on_authorization_verified now c s = r \<and> t = AuthorizationVerified \<or>
   on_authenticated now s = r \<and> t = Authenticated \<or>
   on_messaging_enabled now s = r \<and> t = MessagingEnabled \<or>
   begin_close now s = r \<and> t = SessionClosing \<or> Session_close s = r \<and> t = SessionClosed \<Longrightarrow>
   (if SessionState_can_transition_to (se_state s) t
    then fst r = Inr () \<and> se_state (snd r) = t
    else r = (Inl (SessionStateError (se_state s) t), s))"
  by (elim disjE conjE) (auto simp: session_ops)

lemma session_operation_outcome_example:
  "on_messaging_enabled 5 (Session_new 0) =
     (Inl (SessionStateError Connecting MessagingEnabled), Session_new 0)"
  using session_operation_outcome [of 5 _ _ "Session_new 0" "on_messaging_enabled 5 (Session_new 0)"
      MessagingEnabled]
  by (simp add: Session_new_def)

text \<open>
  The predicates that ask how far a session got do not know how it closed: a session closed
  before the handshake counts as identity verified and authenticated.
\<close>

lemma closing_counts_as_authenticated:
  "let s = session_run 0 [(1, EvTransport h f), (2, EvBeginClose)] in
   SessionState_is_authenticated (se_state s) \<and> SessionState_is_identity_verified (se_state s) \<and>
   se_peer_agent_id s = None"
  by (simp add: session_run_def Session_new_def session_ops SessionState_is_authenticated_def
      SessionState_is_identity_verified_def)

end
