(* ===== verification/Handshake_State.thy ===== *)
theory Handshake_State
  imports Lifecycle Utf8
begin

text \<open>
  The normative handshake state machines of client and server,
  \<open>crates/aafp-core/src/handshake_state.rs\<close>: states and legal transitions, the frame types
  each state admits, deadlines and the detection of duplicate handshake messages. Durations
  and instants are in nanoseconds; an operation that reads the clock takes the time as an
  argument (\<open>check_timeout\<close> reads it twice). The two builder methods that assert a minimum
  return \<open>None\<close> where the source panics.
\<close>

section \<open>States\<close>

abbreviation (input) SECS :: "nat \<Rightarrow> duration" where "SECS n \<equiv> n * 1000000000"
abbreviation (input) DEFAULT_HANDSHAKE_TIMEOUT :: duration where "DEFAULT_HANDSHAKE_TIMEOUT \<equiv> SECS 30"
abbreviation (input) DEFAULT_CLOSE_TIMEOUT :: duration where "DEFAULT_CLOSE_TIMEOUT \<equiv> SECS 5"
abbreviation (input) MIN_HANDSHAKE_TIMEOUT :: duration where "MIN_HANDSHAKE_TIMEOUT \<equiv> SECS 10"
abbreviation (input) MIN_CLOSE_TIMEOUT :: duration where "MIN_CLOSE_TIMEOUT \<equiv> SECS 1"

datatype ClientHandshakeState =
    C_Idle
  | C_Connecting
  | C_ChSent
  | C_ShVerified
  | C_CfSent
  | C_Authorized
  | C_Messaging
  | C_Closing
  | C_Closed

definition ClientHandshakeState_is_terminal :: "ClientHandshakeState \<Rightarrow> bool" where
  "ClientHandshakeState_is_terminal s \<longleftrightarrow> s = C_Closed"

definition ClientHandshakeState_is_handshake_complete :: "ClientHandshakeState \<Rightarrow> bool" where
  "ClientHandshakeState_is_handshake_complete s \<longleftrightarrow>
     s \<in> {C_CfSent, C_Authorized, C_Messaging, C_Closing}"

definition ClientHandshakeState_is_messaging_active :: "ClientHandshakeState \<Rightarrow> bool" where
  "ClientHandshakeState_is_messaging_active s \<longleftrightarrow> s = C_Messaging"

definition ClientHandshakeState_is_identity_verified :: "ClientHandshakeState \<Rightarrow> bool" where
  "ClientHandshakeState_is_identity_verified s \<longleftrightarrow>
     s \<in> {C_ShVerified, C_CfSent, C_Authorized, C_Messaging, C_Closing}"

fun ClientHandshakeState_can_transition_to :: "ClientHandshakeState \<Rightarrow> ClientHandshakeState \<Rightarrow> bool" where
  "ClientHandshakeState_can_transition_to C_Idle C_Connecting = True"
| "ClientHandshakeState_can_transition_to C_Connecting C_ChSent = True"
| "ClientHandshakeState_can_transition_to C_ChSent C_ShVerified = True"
| "ClientHandshakeState_can_transition_to C_ShVerified C_CfSent = True"
| "ClientHandshakeState_can_transition_to C_CfSent C_Authorized = True"
| "ClientHandshakeState_can_transition_to C_Authorized C_Messaging = True"
| "ClientHandshakeState_can_transition_to C_Messaging C_Closing = True"
| "ClientHandshakeState_can_transition_to C_Closing C_Closed = True"
| "ClientHandshakeState_can_transition_to s C_Closing =
     (s \<in> {C_Connecting, C_ChSent, C_ShVerified, C_CfSent, C_Authorized})"
| "ClientHandshakeState_can_transition_to s C_Closed =
     (s \<in> {C_Idle, C_Connecting, C_ChSent, C_ShVerified, C_CfSent, C_Authorized, C_Messaging})"
| "ClientHandshakeState_can_transition_to _ _ = False"

fun ClientHandshakeState_allowed_frame_types :: "ClientHandshakeState \<Rightarrow> byte list" where
  "ClientHandshakeState_allowed_frame_types C_Idle = []"
| "ClientHandshakeState_allowed_frame_types C_Connecting = []"
| "ClientHandshakeState_allowed_frame_types C_ChSent = [0x02, 0x06]"
| "ClientHandshakeState_allowed_frame_types C_ShVerified = [0x06]"
| "ClientHandshakeState_allowed_frame_types C_CfSent = [0x06]"
| "ClientHandshakeState_allowed_frame_types C_Authorized = [0x01, 0x03, 0x04, 0x05, 0x06, 0x07, 0x08]"
| "ClientHandshakeState_allowed_frame_types C_Messaging = [0x01, 0x03, 0x04, 0x05, 0x06, 0x07, 0x08]"
| "ClientHandshakeState_allowed_frame_types C_Closing = [0x05]"
| "ClientHandshakeState_allowed_frame_types C_Closed = []"

fun ClientHandshakeState_to_string :: "ClientHandshakeState \<Rightarrow> ustring" where
  "ClientHandshakeState_to_string C_Idle = str ''C_IDLE''"
| "ClientHandshakeState_to_string C_Connecting = str ''C_CONNECTING''"
| "ClientHandshakeState_to_string C_ChSent = str ''C_CH_SENT''"
| "ClientHandshakeState_to_string C_ShVerified = str ''C_SH_VERIFIED''"
| "ClientHandshakeState_to_string C_CfSent = str ''C_CF_SENT''"
| "ClientHandshakeState_to_string C_Authorized = str ''C_AUTHORIZED''"
| "ClientHandshakeState_to_string C_Messaging = str ''C_MESSAGING''"
| "ClientHandshakeState_to_string C_Closing = str ''C_CLOSING''"
| "ClientHandshakeState_to_string C_Closed = str ''C_CLOSED''"

datatype ServerHandshakeState =
    S_Listening
  | S_TransportReady
  | S_ChVerified
  | S_ShSent
  | S_CfVerified
  | S_Authorized
  | S_Messaging
  | S_Closing
  | S_Closed

definition ServerHandshakeState_is_terminal :: "ServerHandshakeState \<Rightarrow> bool" where
  "ServerHandshakeState_is_terminal s \<longleftrightarrow> s = S_Closed"

definition ServerHandshakeState_is_handshake_complete :: "ServerHandshakeState \<Rightarrow> bool" where
  "ServerHandshakeState_is_handshake_complete s \<longleftrightarrow>
     s \<in> {S_CfVerified, S_Authorized, S_Messaging, S_Closing}"

definition ServerHandshakeState_is_messaging_active :: "ServerHandshakeState \<Rightarrow> bool" where
  "ServerHandshakeState_is_messaging_active s \<longleftrightarrow> s = S_Messaging"

definition ServerHandshakeState_is_identity_verified :: "ServerHandshakeState \<Rightarrow> bool" where
  "ServerHandshakeState_is_identity_verified s \<longleftrightarrow>
     s \<in> {S_ChVerified, S_ShSent, S_CfVerified, S_Authorized, S_Messaging, S_Closing}"

fun ServerHandshakeState_can_transition_to :: "ServerHandshakeState \<Rightarrow> ServerHandshakeState \<Rightarrow> bool" where
  "ServerHandshakeState_can_transition_to S_Listening S_TransportReady = True"
| "ServerHandshakeState_can_transition_to S_TransportReady S_ChVerified = True"
| "ServerHandshakeState_can_transition_to S_ChVerified S_ShSent = True"
| "ServerHandshakeState_can_transition_to S_ShSent S_CfVerified = True"
| "ServerHandshakeState_can_transition_to S_CfVerified S_Authorized = True"
| "ServerHandshakeState_can_transition_to S_Authorized S_Messaging = True"
| "ServerHandshakeState_can_transition_to S_Messaging S_Closing = True"
| "ServerHandshakeState_can_transition_to S_Closing S_Closed = True"
| "ServerHandshakeState_can_transition_to s S_Closing =
     (s \<in> {S_TransportReady, S_ChVerified, S_ShSent, S_CfVerified, S_Authorized})"
| "ServerHandshakeState_can_transition_to s S_Closed =
     (s \<in> {S_Listening, S_TransportReady, S_ChVerified, S_ShSent, S_CfVerified, S_Authorized, S_Messaging})"
| "ServerHandshakeState_can_transition_to _ _ = False"

fun ServerHandshakeState_allowed_frame_types :: "ServerHandshakeState \<Rightarrow> byte list" where
  "ServerHandshakeState_allowed_frame_types S_Listening = []"
| "ServerHandshakeState_allowed_frame_types S_TransportReady = [0x02, 0x06]"
| "ServerHandshakeState_allowed_frame_types S_ChVerified = [0x02, 0x06]"
| "ServerHandshakeState_allowed_frame_types S_ShSent = [0x02, 0x06]"
| "ServerHandshakeState_allowed_frame_types S_CfVerified = [0x06]"
| "ServerHandshakeState_allowed_frame_types S_Authorized = [0x06]"
| "ServerHandshakeState_allowed_frame_types S_Messaging = [0x01, 0x03, 0x04, 0x05, 0x06, 0x07, 0x08]"
| "ServerHandshakeState_allowed_frame_types S_Closing = [0x05]"
| "ServerHandshakeState_allowed_frame_types S_Closed = []"

fun ServerHandshakeState_to_string :: "ServerHandshakeState \<Rightarrow> ustring" where
  "ServerHandshakeState_to_string S_Listening = str ''S_LISTENING''"
| "ServerHandshakeState_to_string S_TransportReady = str ''S_TRANSPORT_READY''"
| "ServerHandshakeState_to_string S_ChVerified = str ''S_CH_VERIFIED''"
| "ServerHandshakeState_to_string S_ShSent = str ''S_SH_SENT''"
| "ServerHandshakeState_to_string S_CfVerified = str ''S_CF_VERIFIED''"
| "ServerHandshakeState_to_string S_Authorized = str ''S_AUTHORIZED''"
| "ServerHandshakeState_to_string S_Messaging = str ''S_MESSAGING''"
| "ServerHandshakeState_to_string S_Closing = str ''S_CLOSING''"
| "ServerHandshakeState_to_string S_Closed = str ''S_CLOSED''"

section \<open>Roles, dispositions and errors\<close>

datatype HandshakeRole = HsClient | HsServer

datatype FrameDisposition = Accept | RejectWithError | DiscardSilently

record HandshakeStateError =
  hse_role :: HandshakeRole
  hse_from_state :: ustring
  hse_to_state :: ustring
  hse_reason :: ustring

record UnexpectedFrameError =
  ufe_current_state :: ustring
  ufe_frame_type :: byte
  ufe_allowed :: "byte list"

record HandshakeTimeoutError =
  hte_state :: ustring
  hte_elapsed :: duration
  hte_limit :: duration

record DuplicateHandshakeMessageError =
  dhe_state :: ustring
  dhe_message_type :: string

section \<open>The client machine\<close>

record ClientHandshakeMachine =
  cm_state :: ClientHandshakeState
  cm_deadline :: "instant option"
  cm_handshake_timeout :: duration
  cm_close_timeout :: duration
  cm_server_hello_received :: bool

definition ClientHandshakeMachine_new :: ClientHandshakeMachine where
  "ClientHandshakeMachine_new = \<lparr>cm_state = C_Idle, cm_deadline = None,
     cm_handshake_timeout = DEFAULT_HANDSHAKE_TIMEOUT, cm_close_timeout = DEFAULT_CLOSE_TIMEOUT,
     cm_server_hello_received = False\<rparr>"

definition ClientHandshakeMachine_with_handshake_timeout :: "ClientHandshakeMachine \<Rightarrow> duration \<Rightarrow> ClientHandshakeMachine option" where
  "ClientHandshakeMachine_with_handshake_timeout m timeout =
     (if MIN_HANDSHAKE_TIMEOUT \<le> timeout then Some (m\<lparr>cm_handshake_timeout := timeout\<rparr>) else None)"

definition ClientHandshakeMachine_with_close_timeout :: "ClientHandshakeMachine \<Rightarrow> duration \<Rightarrow> ClientHandshakeMachine option" where
  "ClientHandshakeMachine_with_close_timeout m timeout =
     (if MIN_CLOSE_TIMEOUT \<le> timeout then Some (m\<lparr>cm_close_timeout := timeout\<rparr>) else None)"

definition ClientHandshakeMachine_set_handshake_timeout_for_test :: "duration \<Rightarrow> ClientHandshakeMachine \<Rightarrow> ClientHandshakeMachine" where
  "ClientHandshakeMachine_set_handshake_timeout_for_test timeout m = m\<lparr>cm_handshake_timeout := timeout\<rparr>"

definition ClientHandshakeMachine_is_terminal :: "ClientHandshakeMachine \<Rightarrow> bool" where
  "ClientHandshakeMachine_is_terminal m = ClientHandshakeState_is_terminal (cm_state m)"

definition ClientHandshakeMachine_transition_to ::
    "instant \<Rightarrow> ClientHandshakeState \<Rightarrow> ClientHandshakeMachine \<Rightarrow> (HandshakeStateError + unit) \<times> ClientHandshakeMachine" where
  "ClientHandshakeMachine_transition_to now next m =
     (if \<not> ClientHandshakeState_can_transition_to (cm_state m) next
      then (Inl \<lparr>hse_role = HsClient, hse_from_state = ClientHandshakeState_to_string (cm_state m),
        hse_to_state = ClientHandshakeState_to_string next, hse_reason = str ''transition not allowed''\<rparr>, m)
      else
        let m = (case next of
                   C_Connecting \<Rightarrow> m\<lparr>cm_deadline := Some (now + cm_handshake_timeout m)\<rparr>
                 | C_ChSent \<Rightarrow> m\<lparr>cm_deadline := Some (now + cm_handshake_timeout m)\<rparr>
                 | C_Closing \<Rightarrow> m\<lparr>cm_deadline := Some (now + cm_close_timeout m)\<rparr>
                 | C_Closed \<Rightarrow> m\<lparr>cm_deadline := None\<rparr>
                 | _ \<Rightarrow> m);
            m = (if next = C_ChSent then m\<lparr>cm_server_hello_received := False\<rparr> else m)
        in (Inr (), m\<lparr>cm_state := next\<rparr>))"

definition ClientHandshakeMachine_check_timeout :: "instant \<Rightarrow> instant \<Rightarrow> ClientHandshakeMachine \<Rightarrow> HandshakeTimeoutError + unit" where
  "ClientHandshakeMachine_check_timeout now now' m =
     (case cm_deadline m of
        Some deadline \<Rightarrow>
          if deadline < now
          then Inl \<lparr>hte_state = ClientHandshakeState_to_string (cm_state m), hte_elapsed = now' - deadline,
            hte_limit = (case cm_state m of C_Closing \<Rightarrow> cm_close_timeout m | _ \<Rightarrow> cm_handshake_timeout m)\<rparr>
          else Inr ()
      | None \<Rightarrow> Inr ())"

definition ClientHandshakeMachine_check_frame_type :: "ClientHandshakeMachine \<Rightarrow> byte \<Rightarrow> UnexpectedFrameError + unit" where
  "ClientHandshakeMachine_check_frame_type m ft =
     (let allowed = ClientHandshakeState_allowed_frame_types (cm_state m) in
      if allowed = []
      then Inl \<lparr>ufe_current_state = ClientHandshakeState_to_string (cm_state m), ufe_frame_type = ft, ufe_allowed = allowed\<rparr>
      else if ft \<notin> set allowed
      then Inl \<lparr>ufe_current_state = ClientHandshakeState_to_string (cm_state m), ufe_frame_type = ft, ufe_allowed = allowed\<rparr>
      else Inr ())"

definition ClientHandshakeMachine_frame_disposition :: "ClientHandshakeMachine \<Rightarrow> byte \<Rightarrow> FrameDisposition" where
  "ClientHandshakeMachine_frame_disposition m ft =
     (if cm_state m = C_Closing
      then (if ft = 0x05 then Accept else DiscardSilently)
      else if cm_state m = C_Closed then DiscardSilently
      else
        let allowed = ClientHandshakeState_allowed_frame_types (cm_state m)
        in if ft \<in> set allowed then Accept else RejectWithError)"

definition ClientHandshakeMachine_on_server_hello_received ::
    "ClientHandshakeMachine \<Rightarrow> (DuplicateHandshakeMessageError + unit) \<times> ClientHandshakeMachine" where
  "ClientHandshakeMachine_on_server_hello_received m =
     (if cm_server_hello_received m
      then (Inl \<lparr>dhe_state = ClientHandshakeState_to_string (cm_state m), dhe_message_type = ''ServerHello''\<rparr>, m)
      else (Inr (), m\<lparr>cm_server_hello_received := True\<rparr>))"

definition ClientHandshakeMachine_abort :: "instant \<Rightarrow> ClientHandshakeMachine \<Rightarrow> (HandshakeStateError + unit) \<times> ClientHandshakeMachine" where
  "ClientHandshakeMachine_abort now m = ClientHandshakeMachine_transition_to now C_Closed m"

section \<open>The server machine\<close>

record ServerHandshakeMachine =
  sm_state :: ServerHandshakeState
  sm_deadline :: "instant option"
  sm_handshake_timeout :: duration
  sm_close_timeout :: duration
  sm_client_hello_received :: bool
  sm_client_finished_received :: bool

definition ServerHandshakeMachine_new :: ServerHandshakeMachine where
  "ServerHandshakeMachine_new = \<lparr>sm_state = S_Listening, sm_deadline = None,
     sm_handshake_timeout = DEFAULT_HANDSHAKE_TIMEOUT, sm_close_timeout = DEFAULT_CLOSE_TIMEOUT,
     sm_client_hello_received = False, sm_client_finished_received = False\<rparr>"

definition ServerHandshakeMachine_with_handshake_timeout :: "ServerHandshakeMachine \<Rightarrow> duration \<Rightarrow> ServerHandshakeMachine option" where
  "ServerHandshakeMachine_with_handshake_timeout m timeout =
     (if MIN_HANDSHAKE_TIMEOUT \<le> timeout then Some (m\<lparr>sm_handshake_timeout := timeout\<rparr>) else None)"

definition ServerHandshakeMachine_with_close_timeout :: "ServerHandshakeMachine \<Rightarrow> duration \<Rightarrow> ServerHandshakeMachine option" where
  "ServerHandshakeMachine_with_close_timeout m timeout =
     (if MIN_CLOSE_TIMEOUT \<le> timeout then Some (m\<lparr>sm_close_timeout := timeout\<rparr>) else None)"

definition ServerHandshakeMachine_set_handshake_timeout_for_test :: "duration \<Rightarrow> ServerHandshakeMachine \<Rightarrow> ServerHandshakeMachine" where
  "ServerHandshakeMachine_set_handshake_timeout_for_test timeout m = m\<lparr>sm_handshake_timeout := timeout\<rparr>"

definition ServerHandshakeMachine_is_terminal :: "ServerHandshakeMachine \<Rightarrow> bool" where
  "ServerHandshakeMachine_is_terminal m = ServerHandshakeState_is_terminal (sm_state m)"

definition ServerHandshakeMachine_transition_to ::
    "instant \<Rightarrow> ServerHandshakeState \<Rightarrow> ServerHandshakeMachine \<Rightarrow> (HandshakeStateError + unit) \<times> ServerHandshakeMachine" where
  "ServerHandshakeMachine_transition_to now next m =
     (if \<not> ServerHandshakeState_can_transition_to (sm_state m) next
      then (Inl \<lparr>hse_role = HsServer, hse_from_state = ServerHandshakeState_to_string (sm_state m),
        hse_to_state = ServerHandshakeState_to_string next, hse_reason = str ''transition not allowed''\<rparr>, m)
      else
        let m = (case next of
                   S_TransportReady \<Rightarrow> m\<lparr>sm_deadline := Some (now + sm_handshake_timeout m)\<rparr>
                 | S_ShSent \<Rightarrow> m\<lparr>sm_deadline := Some (now + sm_handshake_timeout m)\<rparr>
                 | S_Closing \<Rightarrow> m\<lparr>sm_deadline := Some (now + sm_close_timeout m)\<rparr>
                 | S_Closed \<Rightarrow> m\<lparr>sm_deadline := None\<rparr>
                 | _ \<Rightarrow> m);
            m = (if next = S_TransportReady then m\<lparr>sm_client_hello_received := False, sm_client_finished_received := False\<rparr> else m)
        in (Inr (), m\<lparr>sm_state := next\<rparr>))"

definition ServerHandshakeMachine_check_timeout :: "instant \<Rightarrow> instant \<Rightarrow> ServerHandshakeMachine \<Rightarrow> HandshakeTimeoutError + unit" where
  "ServerHandshakeMachine_check_timeout now now' m =
     (case sm_deadline m of
        Some deadline \<Rightarrow>
          if deadline < now
          then Inl \<lparr>hte_state = ServerHandshakeState_to_string (sm_state m), hte_elapsed = now' - deadline,
            hte_limit = (case sm_state m of S_Closing \<Rightarrow> sm_close_timeout m | _ \<Rightarrow> sm_handshake_timeout m)\<rparr>
          else Inr ()
      | None \<Rightarrow> Inr ())"

definition ServerHandshakeMachine_check_frame_type :: "ServerHandshakeMachine \<Rightarrow> byte \<Rightarrow> UnexpectedFrameError + unit" where
  "ServerHandshakeMachine_check_frame_type m ft =
     (let allowed = ServerHandshakeState_allowed_frame_types (sm_state m) in
      if allowed = []
      then Inl \<lparr>ufe_current_state = ServerHandshakeState_to_string (sm_state m), ufe_frame_type = ft, ufe_allowed = allowed\<rparr>
      else if ft \<notin> set allowed
      then Inl \<lparr>ufe_current_state = ServerHandshakeState_to_string (sm_state m), ufe_frame_type = ft, ufe_allowed = allowed\<rparr>
      else Inr ())"

definition ServerHandshakeMachine_frame_disposition :: "ServerHandshakeMachine \<Rightarrow> byte \<Rightarrow> FrameDisposition" where
  "ServerHandshakeMachine_frame_disposition m ft =
     (if sm_state m = S_Closing
      then (if ft = 0x05 then Accept else DiscardSilently)
      else if sm_state m = S_Closed then DiscardSilently
      else
        let allowed = ServerHandshakeState_allowed_frame_types (sm_state m)
        in if ft \<in> set allowed then Accept else RejectWithError)"

definition ServerHandshakeMachine_on_client_hello_received ::
    "ServerHandshakeMachine \<Rightarrow> (DuplicateHandshakeMessageError + unit) \<times> ServerHandshakeMachine" where
  "ServerHandshakeMachine_on_client_hello_received m =
     (if sm_client_hello_received m
      then (Inl \<lparr>dhe_state = ServerHandshakeState_to_string (sm_state m), dhe_message_type = ''ClientHello''\<rparr>, m)
      else (Inr (), m\<lparr>sm_client_hello_received := True\<rparr>))"

definition ServerHandshakeMachine_on_client_finished_received ::
    "ServerHandshakeMachine \<Rightarrow> (DuplicateHandshakeMessageError + unit) \<times> ServerHandshakeMachine" where
  "ServerHandshakeMachine_on_client_finished_received m =
     (if sm_client_finished_received m
      then (Inl \<lparr>dhe_state = ServerHandshakeState_to_string (sm_state m), dhe_message_type = ''ClientFinished''\<rparr>, m)
      else (Inr (), m\<lparr>sm_client_finished_received := True\<rparr>))"

definition ServerHandshakeMachine_abort :: "instant \<Rightarrow> ServerHandshakeMachine \<Rightarrow> (HandshakeStateError + unit) \<times> ServerHandshakeMachine" where
  "ServerHandshakeMachine_abort now m = ServerHandshakeMachine_transition_to now S_Closed m"

end
