(* ===== verification/Handshake_Runs.thy ===== *)
theory Handshake_Runs
  imports Handshake_State
begin

text \<open>
  Properties of the handshake machines: they move forward only and skip no step on the way
  to messaging, they accept each handshake message once, every waiting state has a
  deadline, and the frame types they admit agree with the disposition they report.
\<close>

section \<open>Tables of transitions\<close>

fun client_rank :: "ClientHandshakeState \<Rightarrow> nat" where
  "client_rank C_Idle = 0"
| "client_rank C_Connecting = 1"
| "client_rank C_ChSent = 2"
| "client_rank C_ShVerified = 3"
| "client_rank C_CfSent = 4"
| "client_rank C_Authorized = 5"
| "client_rank C_Messaging = 6"
| "client_rank C_Closing = 7"
| "client_rank C_Closed = 8"

fun server_rank :: "ServerHandshakeState \<Rightarrow> nat" where
  "server_rank S_Listening = 0"
| "server_rank S_TransportReady = 1"
| "server_rank S_ChVerified = 2"
| "server_rank S_ShSent = 3"
| "server_rank S_CfVerified = 4"
| "server_rank S_Authorized = 5"
| "server_rank S_Messaging = 6"
| "server_rank S_Closing = 7"
| "server_rank S_Closed = 8"

interpretation client_table: transition_table ClientHandshakeState_can_transition_to client_rank 8
proof
  show "ClientHandshakeState_can_transition_to s t \<Longrightarrow> client_rank s < client_rank t" for s t
    by (cases s; cases t) simp_all
  show "client_rank s \<le> 8" for s by (cases s) simp_all
qed

interpretation server_table: transition_table ServerHandshakeState_can_transition_to server_rank 8
proof
  show "ServerHandshakeState_can_transition_to s t \<Longrightarrow> server_rank s < server_rank t" for s t
    by (cases s; cases t) simp_all
  show "server_rank s \<le> 8" for s by (cases s) simp_all
qed

section \<open>Runs\<close>

datatype client_event =
    CTransition ClientHandshakeState
  | CServerHello
  | CAbort

datatype server_event =
    STransition ServerHandshakeState
  | SClientHello
  | SClientFinished
  | SAbort

fun client_step :: "instant \<times> client_event \<Rightarrow> ClientHandshakeMachine \<Rightarrow> ClientHandshakeMachine" where
  "client_step (now, CTransition t) m = snd (ClientHandshakeMachine_transition_to now t m)"
| "client_step (now, CServerHello) m = snd (ClientHandshakeMachine_on_server_hello_received m)"
| "client_step (now, CAbort) m = snd (ClientHandshakeMachine_abort now m)"

fun server_step :: "instant \<times> server_event \<Rightarrow> ServerHandshakeMachine \<Rightarrow> ServerHandshakeMachine" where
  "server_step (now, STransition t) m = snd (ServerHandshakeMachine_transition_to now t m)"
| "server_step (now, SClientHello) m = snd (ServerHandshakeMachine_on_client_hello_received m)"
| "server_step (now, SClientFinished) m = snd (ServerHandshakeMachine_on_client_finished_received m)"
| "server_step (now, SAbort) m = snd (ServerHandshakeMachine_abort now m)"

lemma client_transition_state:
  "cm_state (snd (ClientHandshakeMachine_transition_to now t m)) =
     (if ClientHandshakeState_can_transition_to (cm_state m) t then t else cm_state m)"
  by (simp add: ClientHandshakeMachine_transition_to_def Let_def)

lemma server_transition_state:
  "sm_state (snd (ServerHandshakeMachine_transition_to now t m)) =
     (if ServerHandshakeState_can_transition_to (sm_state m) t then t else sm_state m)"
  by (simp add: ServerHandshakeMachine_transition_to_def Let_def)

lemma client_hello_state [simp]:
  "cm_state (snd (ClientHandshakeMachine_on_server_hello_received m)) = cm_state m"
  by (simp add: ClientHandshakeMachine_on_server_hello_received_def)

lemma server_hello_state [simp]:
  "sm_state (snd (ServerHandshakeMachine_on_client_hello_received m)) = sm_state m"
  "sm_state (snd (ServerHandshakeMachine_on_client_finished_received m)) = sm_state m"
  by (simp_all add: ServerHandshakeMachine_on_client_hello_received_def
      ServerHandshakeMachine_on_client_finished_received_def)

interpretation client_stages:
  staged_system ClientHandshakeState_can_transition_to client_rank 8 client_step cm_state
proof
  fix e m
  show "cm_state (client_step e m) = cm_state m \<or>
      ClientHandshakeState_can_transition_to (cm_state m) (cm_state (client_step e m))"
    by (cases "(e, m)" rule: client_step.cases)
      (auto simp: ClientHandshakeMachine_abort_def client_transition_state)
qed

interpretation server_stages:
  staged_system ServerHandshakeState_can_transition_to server_rank 8 server_step sm_state
proof
  fix e m
  show "sm_state (server_step e m) = sm_state m \<or>
      ServerHandshakeState_can_transition_to (sm_state m) (sm_state (server_step e m))"
    by (cases "(e, m)" rule: server_step.cases)
      (auto simp: ServerHandshakeMachine_abort_def server_transition_state)
qed

abbreviation client_chain :: "ClientHandshakeState list" where
  "client_chain \<equiv> [C_Idle, C_Connecting, C_ChSent, C_ShVerified, C_CfSent, C_Authorized, C_Messaging]"

abbreviation server_chain :: "ServerHandshakeState list" where
  "server_chain \<equiv> [S_Listening, S_TransportReady, S_ChVerified, S_ShSent, S_CfVerified, S_Authorized, S_Messaging]"

lemma client_establishment:
  assumes "cm_state m = C_Idle" and "cm_state (fold client_step es m) = C_Messaging"
  shows "visited client_step cm_state es m = client_chain"
proof -
  have "t = client_chain ! j"
    if "Suc j < length client_chain" "ClientHandshakeState_can_transition_to t (client_chain ! Suc j)" for j t
    using that by (cases t) (auto simp: less_Suc_eq)
  then show ?thesis
    using client_table.chain_path [of client_chain 6 "visited client_step cm_state es m"]
      client_stages.visited_path assms by simp
qed

lemma server_establishment:
  assumes "sm_state m = S_Listening" and "sm_state (fold server_step es m) = S_Messaging"
  shows "visited server_step sm_state es m = server_chain"
proof -
  have "t = server_chain ! j"
    if "Suc j < length server_chain" "ServerHandshakeState_can_transition_to t (server_chain ! Suc j)" for j t
    using that by (cases t) (auto simp: less_Suc_eq)
  then show ?thesis
    using server_table.chain_path [of server_chain 6 "visited server_step sm_state es m"]
      server_stages.visited_path assms by simp
qed

text \<open>
  No shortcut through the handshake: whatever sequence of transitions, handshake messages
  and aborts is applied, a client that reaches messaging from \<open>Idle\<close>, and a server that
  reaches it from \<open>Listening\<close>, has gone through every handshake state in order.
\<close>

lemma handshake_no_shortcut:
  "(cm_state m = C_Idle \<and> ClientHandshakeState_is_messaging_active (cm_state (fold client_step es m)) \<longrightarrow>
      visited client_step cm_state es m =
        [C_Idle, C_Connecting, C_ChSent, C_ShVerified, C_CfSent, C_Authorized, C_Messaging]) \<and>
   (sm_state n = S_Listening \<and> ServerHandshakeState_is_messaging_active (sm_state (fold server_step fs n)) \<longrightarrow>
      visited server_step sm_state fs n =
        [S_Listening, S_TransportReady, S_ChVerified, S_ShSent, S_CfVerified, S_Authorized, S_Messaging])"
  using client_establishment [of m es] server_establishment [of n fs]
  by (simp add: ClientHandshakeState_is_messaging_active_def ServerHandshakeState_is_messaging_active_def)

lemma handshake_no_shortcut_example:
  "length (visited client_step cm_state (map (\<lambda>t. (0, CTransition t)) (tl client_chain))
     ClientHandshakeMachine_new) = 7"
proof -
  have "ClientHandshakeState_is_messaging_active (cm_state (fold client_step
      (map (\<lambda>t. (0, CTransition t)) (tl client_chain)) ClientHandshakeMachine_new))"
    by (simp add: ClientHandshakeState_is_messaging_active_def client_transition_state
        ClientHandshakeMachine_new_def)
  then show ?thesis
    using handshake_no_shortcut [of ClientHandshakeMachine_new
        "map (\<lambda>t. (0, CTransition t)) (tl client_chain)"]
    by (simp add: ClientHandshakeMachine_new_def)
qed

text \<open>
  The handshake machines are forward-only: in any run at most nine states are visited, none
  twice, and the terminal state \<open>Closed\<close> is never left.
\<close>

lemma handshake_forward_only:
  "distinct (visited client_step cm_state es m) \<and> length (visited client_step cm_state es m) \<le> 9 \<and>
   distinct (visited server_step sm_state fs n) \<and> length (visited server_step sm_state fs n) \<le> 9 \<and>
   (ClientHandshakeMachine_is_terminal m \<longrightarrow> ClientHandshakeMachine_is_terminal (fold client_step es m)) \<and>
   (ServerHandshakeMachine_is_terminal n \<longrightarrow> ServerHandshakeMachine_is_terminal (fold server_step fs n))"
  using client_stages.visited_distinct [of es m] client_stages.visited_length [of es m]
    server_stages.visited_distinct [of fs n] server_stages.visited_length [of fs n]
    client_stages.absorbing [of m es] server_stages.absorbing [of n fs]
  by (simp add: ClientHandshakeMachine_is_terminal_def ServerHandshakeMachine_is_terminal_def
      ClientHandshakeState_is_terminal_def ServerHandshakeState_is_terminal_def)

lemma handshake_forward_only_example:
  "ClientHandshakeMachine_is_terminal (fold client_step [(5, CTransition C_Connecting)]
     (snd (ClientHandshakeMachine_abort 1 ClientHandshakeMachine_new)))"
proof -
  have "ClientHandshakeMachine_is_terminal (snd (ClientHandshakeMachine_abort 1 ClientHandshakeMachine_new))"
    by (simp add: ClientHandshakeMachine_is_terminal_def ClientHandshakeState_is_terminal_def
        ClientHandshakeMachine_abort_def client_transition_state ClientHandshakeMachine_new_def)
  then show ?thesis
    using handshake_forward_only [of "[(5, CTransition C_Connecting)]"
        "snd (ClientHandshakeMachine_abort 1 ClientHandshakeMachine_new)"] by blast
qed

section \<open>Duplicate handshake messages\<close>

text \<open>The number of handshake messages of each kind that a run accepts.\<close>

fun server_hellos :: "(instant \<times> client_event) list \<Rightarrow> ClientHandshakeMachine \<Rightarrow> nat" where
  "server_hellos [] m = 0"
| "server_hellos ((now, ev) # es) m =
     (if ev = CServerHello \<and> fst (ClientHandshakeMachine_on_server_hello_received m) = Inr () then 1 else 0) +
     server_hellos es (client_step (now, ev) m)"

fun client_hellos :: "(instant \<times> server_event) list \<Rightarrow> ServerHandshakeMachine \<Rightarrow> nat" where
  "client_hellos [] m = 0"
| "client_hellos ((now, ev) # es) m =
     (if ev = SClientHello \<and> fst (ServerHandshakeMachine_on_client_hello_received m) = Inr () then 1 else 0) +
     client_hellos es (server_step (now, ev) m)"

fun client_finisheds :: "(instant \<times> server_event) list \<Rightarrow> ServerHandshakeMachine \<Rightarrow> nat" where
  "client_finisheds [] m = 0"
| "client_finisheds ((now, ev) # es) m =
     (if ev = SClientFinished \<and> fst (ServerHandshakeMachine_on_client_finished_received m) = Inr () then 1 else 0) +
     client_finisheds es (server_step (now, ev) m)"

lemma client_step_flag:
  assumes "2 \<le> client_rank (cm_state m)"
  shows "cm_server_hello_received (client_step (now, ev) m) \<longleftrightarrow>
    cm_server_hello_received m \<or> ev = CServerHello"
proof -
  have "\<not> ClientHandshakeState_can_transition_to (cm_state m) C_ChSent"
    using assms client_table.can_rank [of "cm_state m" C_ChSent] by auto
  then show ?thesis
    by (cases ev) (auto simp: ClientHandshakeMachine_transition_to_def ClientHandshakeMachine_abort_def
        ClientHandshakeMachine_on_server_hello_received_def Let_def split: ClientHandshakeState.splits)
qed

lemma server_step_flags:
  assumes "1 \<le> server_rank (sm_state m)"
  shows "(sm_client_hello_received (server_step (now, ev) m) \<longleftrightarrow>
      sm_client_hello_received m \<or> ev = SClientHello) \<and>
    (sm_client_finished_received (server_step (now, ev) m) \<longleftrightarrow>
      sm_client_finished_received m \<or> ev = SClientFinished)"
proof -
  have "\<not> ServerHandshakeState_can_transition_to (sm_state m) S_TransportReady"
    using assms server_table.can_rank [of "sm_state m" S_TransportReady] by auto
  then show ?thesis
    by (cases ev) (auto simp: ServerHandshakeMachine_transition_to_def ServerHandshakeMachine_abort_def
        ServerHandshakeMachine_on_client_hello_received_def
        ServerHandshakeMachine_on_client_finished_received_def Let_def
        split: ServerHandshakeState.splits)
qed

lemma client_rank_step: "client_rank (cm_state m) \<le> client_rank (cm_state (client_step e m))"
  using client_stages.rank_mono [of m "[e]"] by simp

lemma server_rank_step: "server_rank (sm_state m) \<le> server_rank (sm_state (server_step e m))"
  using server_stages.rank_mono [of m "[e]"] by simp

lemma server_hellos_bound:
  "2 \<le> client_rank (cm_state m) \<Longrightarrow>
     server_hellos es m \<le> (if cm_server_hello_received m then 0 else 1)"
proof (induction es m rule: server_hellos.induct)
  case (2 now ev es m)
  have "2 \<le> client_rank (cm_state (client_step (now, ev) m))"
    using client_rank_step [of m "(now, ev)"] "2.prems" by linarith
  from "2.IH" [OF this] show ?case
    using client_step_flag [OF "2.prems", of now ev]
    by (auto simp: ClientHandshakeMachine_on_server_hello_received_def split: if_splits)
qed simp

lemma client_hellos_bound:
  "1 \<le> server_rank (sm_state m) \<Longrightarrow>
     client_hellos es m \<le> (if sm_client_hello_received m then 0 else 1)"
proof (induction es m rule: client_hellos.induct)
  case (2 now ev es m)
  have "1 \<le> server_rank (sm_state (server_step (now, ev) m))"
    using server_rank_step [of m "(now, ev)"] "2.prems" by linarith
  from "2.IH" [OF this] show ?case
    using server_step_flags [OF "2.prems", of now ev]
    by (auto simp: ServerHandshakeMachine_on_client_hello_received_def split: if_splits)
qed simp

lemma client_finisheds_bound:
  "1 \<le> server_rank (sm_state m) \<Longrightarrow>
     client_finisheds es m \<le> (if sm_client_finished_received m then 0 else 1)"
proof (induction es m rule: client_finisheds.induct)
  case (2 now ev es m)
  have "1 \<le> server_rank (sm_state (server_step (now, ev) m))"
    using server_rank_step [of m "(now, ev)"] "2.prems" by linarith
  from "2.IH" [OF this] show ?case
    using server_step_flags [OF "2.prems", of now ev]
    by (auto simp: ServerHandshakeMachine_on_client_finished_received_def split: if_splits)
qed simp

text \<open>
  Each handshake message is accepted at most once: from the moment a client has sent its
  ClientHello, any continuation accepts at most one ServerHello; from the moment a server's
  transport is ready, any continuation accepts at most one ClientHello and one
  ClientFinished.
\<close>

lemma handshake_messages_once:
  "(cm_state m = C_ChSent \<longrightarrow> server_hellos es m \<le> 1) \<and>
   (sm_state n = S_TransportReady \<longrightarrow> client_hellos fs n \<le> 1 \<and> client_finisheds fs n \<le> 1)"
  using server_hellos_bound [of m es] client_hellos_bound [of n fs] client_finisheds_bound [of n fs]
  by (auto split: if_splits)

lemma handshake_messages_once_example:
  "server_hellos [(1, CServerHello), (2, CTransition C_ShVerified), (3, CServerHello)]
     (ClientHandshakeMachine_new\<lparr>cm_state := C_ChSent\<rparr>) \<le> 1"
  using handshake_messages_once [of "ClientHandshakeMachine_new\<lparr>cm_state := C_ChSent\<rparr>"
      "[(1, CServerHello), (2, CTransition C_ShVerified), (3, CServerHello)]"]
  by simp

section \<open>Frames and deadlines\<close>

text \<open>
  Frame admission: \<open>frame_disposition\<close> accepts a frame exactly when \<open>check_frame_type\<close> does;
  frames that are discarded silently are those refused while closing or closed; a handshake
  frame is admitted only while the handshake is incomplete; DATA, RPC, PING and PONG frames
  are admitted only after authorization, by a server only in messaging.
\<close>

lemma frame_admission:
  "(ClientHandshakeMachine_frame_disposition m ft = Accept \<longleftrightarrow>
      ClientHandshakeMachine_check_frame_type m ft = Inr ()) \<and>
   (ServerHandshakeMachine_frame_disposition n ft = Accept \<longleftrightarrow>
      ServerHandshakeMachine_check_frame_type n ft = Inr ()) \<and>
   (ClientHandshakeMachine_frame_disposition m ft = DiscardSilently \<longleftrightarrow>
      cm_state m = C_Closing \<and> ft \<noteq> 5 \<or> cm_state m = C_Closed) \<and>
   (ServerHandshakeMachine_frame_disposition n ft = DiscardSilently \<longleftrightarrow>
      sm_state n = S_Closing \<and> ft \<noteq> 5 \<or> sm_state n = S_Closed) \<and>
   (ClientHandshakeMachine_frame_disposition m 2 = Accept \<longleftrightarrow> cm_state m = C_ChSent) \<and>
   (ServerHandshakeMachine_frame_disposition n 2 = Accept \<longleftrightarrow>
      sm_state n \<in> {S_TransportReady, S_ChVerified, S_ShSent}) \<and>
   (\<forall>a \<in> {1, 3, 4, 7, 8}.
      (ClientHandshakeMachine_frame_disposition m a = Accept \<longleftrightarrow>
         cm_state m \<in> {C_Authorized, C_Messaging}) \<and>
      (ServerHandshakeMachine_frame_disposition n a = Accept \<longleftrightarrow> sm_state n = S_Messaging))"
  by (cases "cm_state m"; cases "sm_state n")
    (simp_all add: ClientHandshakeMachine_frame_disposition_def ServerHandshakeMachine_frame_disposition_def
      ClientHandshakeMachine_check_frame_type_def ServerHandshakeMachine_check_frame_type_def Let_def)

lemma frame_admission_example:
  "ClientHandshakeMachine_frame_disposition ClientHandshakeMachine_new 1 \<noteq> Accept"
proof -
  have "cm_state ClientHandshakeMachine_new = C_Idle" by (simp add: ClientHandshakeMachine_new_def)
  moreover have "ClientHandshakeMachine_frame_disposition ClientHandshakeMachine_new 1 = Accept \<longleftrightarrow>
      cm_state ClientHandshakeMachine_new \<in> {C_Authorized, C_Messaging}"
    using frame_admission by blast
  ultimately show ?thesis by simp
qed

lemma client_deadline_origin:
  fixes m0 es
  defines "m \<equiv> fold client_step es m0"
  assumes "cm_state m0 = C_Idle"
  shows "cm_handshake_timeout m = cm_handshake_timeout m0 \<and> cm_close_timeout m = cm_close_timeout m0 \<and>
    (cm_state m \<in> {C_Connecting, C_ChSent} \<longrightarrow>
       (\<exists>t \<in> fst ` set es. cm_deadline m = Some (t + cm_handshake_timeout m0))) \<and>
    (cm_state m = C_Closing \<longrightarrow>
       (\<exists>t \<in> fst ` set es. cm_deadline m = Some (t + cm_close_timeout m0))) \<and>
    (cm_state m = C_Closed \<longrightarrow> cm_deadline m = None)"
  unfolding m_def
proof (induction es rule: rev_induct)
  case Nil
  then show ?case using assms(2) by simp
next
  case (snoc e es)
  obtain t ev where e: "e = (t, ev)" by (cases e)
  show ?case using snoc unfolding e
    by (cases ev) (auto simp: ClientHandshakeMachine_transition_to_def ClientHandshakeMachine_abort_def
        ClientHandshakeMachine_on_server_hello_received_def Let_def split: ClientHandshakeState.splits)
qed

lemma server_deadline_origin:
  fixes m0 es
  defines "m \<equiv> fold server_step es m0"
  assumes "sm_state m0 = S_Listening"
  shows "sm_handshake_timeout m = sm_handshake_timeout m0 \<and> sm_close_timeout m = sm_close_timeout m0 \<and>
    (sm_state m \<in> {S_TransportReady, S_ShSent} \<longrightarrow>
       (\<exists>t \<in> fst ` set es. sm_deadline m = Some (t + sm_handshake_timeout m0))) \<and>
    (sm_state m = S_Closing \<longrightarrow>
       (\<exists>t \<in> fst ` set es. sm_deadline m = Some (t + sm_close_timeout m0))) \<and>
    (sm_state m = S_Closed \<longrightarrow> sm_deadline m = None)"
  unfolding m_def
proof (induction es rule: rev_induct)
  case Nil
  then show ?case using assms(2) by simp
next
  case (snoc e es)
  obtain t ev where e: "e = (t, ev)" by (cases e)
  show ?case using snoc unfolding e
    by (cases ev) (auto simp: ServerHandshakeMachine_transition_to_def ServerHandshakeMachine_abort_def
        ServerHandshakeMachine_on_client_hello_received_def
        ServerHandshakeMachine_on_client_finished_received_def Let_def split: ServerHandshakeState.splits)
qed

text \<open>
  No waiting state is entered without a deadline: in every run of a client or a server,
  while it waits for the peer (\<open>Connecting\<close>, \<open>ChSent\<close>; \<open>TransportReady\<close>, \<open>ShSent\<close>) the
  timeout check starts failing exactly one handshake timeout after some event of the run,
  and while closing exactly one close timeout after; a closed machine never times out.
\<close>

lemma handshake_deadlines:
  fixes m0 n0 es fs
  assumes "cm_state m0 = C_Idle" and "sm_state n0 = S_Listening"
  defines "m \<equiv> fold client_step es m0" and "n \<equiv> fold server_step fs n0"
  shows "(cm_state m \<in> {C_Connecting, C_ChSent} \<longrightarrow> (\<exists>t \<in> fst ` set es. \<forall>now now'.
      ClientHandshakeMachine_check_timeout now now' m = Inr () \<longleftrightarrow> now \<le> t + cm_handshake_timeout m0)) \<and>
    (cm_state m = C_Closing \<longrightarrow> (\<exists>t \<in> fst ` set es. \<forall>now now'.
      ClientHandshakeMachine_check_timeout now now' m = Inr () \<longleftrightarrow> now \<le> t + cm_close_timeout m0)) \<and>
    (cm_state m = C_Closed \<longrightarrow> (\<forall>now now'. ClientHandshakeMachine_check_timeout now now' m = Inr ())) \<and>
    (sm_state n \<in> {S_TransportReady, S_ShSent} \<longrightarrow> (\<exists>t \<in> fst ` set fs. \<forall>now now'.
      ServerHandshakeMachine_check_timeout now now' n = Inr () \<longleftrightarrow> now \<le> t + sm_handshake_timeout n0)) \<and>
    (sm_state n = S_Closing \<longrightarrow> (\<exists>t \<in> fst ` set fs. \<forall>now now'.
      ServerHandshakeMachine_check_timeout now now' n = Inr () \<longleftrightarrow> now \<le> t + sm_close_timeout n0)) \<and>
    (sm_state n = S_Closed \<longrightarrow> (\<forall>now now'. ServerHandshakeMachine_check_timeout now now' n = Inr ()))"
proof -
  have c: "\<exists>t \<in> T. \<forall>now now'. ClientHandshakeMachine_check_timeout now now' m = Inr () \<longleftrightarrow> now \<le> t + k"
    if "\<exists>t \<in> T. cm_deadline m = Some (t + k)" for T k
  proof -
    from that obtain t where "t \<in> T" "cm_deadline m = Some (t + k)" by blast
    then show ?thesis
      by (intro bexI [of _ t]) (auto simp: ClientHandshakeMachine_check_timeout_def not_less)
  qed
  have s: "\<exists>t \<in> T. \<forall>now now'. ServerHandshakeMachine_check_timeout now now' n = Inr () \<longleftrightarrow> now \<le> t + k"
    if "\<exists>t \<in> T. sm_deadline n = Some (t + k)" for T k
  proof -
    from that obtain t where "t \<in> T" "sm_deadline n = Some (t + k)" by blast
    then show ?thesis
      by (intro bexI [of _ t]) (auto simp: ServerHandshakeMachine_check_timeout_def not_less)
  qed
  note co = client_deadline_origin [OF assms(1), of es, folded m_def]
  note so = server_deadline_origin [OF assms(2), of fs, folded n_def]
  have cc: "cm_state m = C_Closed \<Longrightarrow> ClientHandshakeMachine_check_timeout now now' m = Inr ()" for now now'
    using co by (simp add: ClientHandshakeMachine_check_timeout_def)
  have sc: "sm_state n = S_Closed \<Longrightarrow> ServerHandshakeMachine_check_timeout now now' n = Inr ()" for now now'
    using so by (simp add: ServerHandshakeMachine_check_timeout_def)
  show ?thesis
    by (intro conjI impI; (rule c | rule s | intro allI); use co so cc sc in blast)
qed

lemma handshake_deadlines_example:
  "\<exists>t \<in> {7}. \<forall>now now'. ClientHandshakeMachine_check_timeout now now'
     (client_step (7, CTransition C_Connecting) ClientHandshakeMachine_new) = Inr () \<longleftrightarrow>
     now \<le> t + cm_handshake_timeout ClientHandshakeMachine_new"
proof -
  have a: "cm_state ClientHandshakeMachine_new = C_Idle"
    and b: "sm_state ServerHandshakeMachine_new = S_Listening"
    by (simp_all add: ClientHandshakeMachine_new_def ServerHandshakeMachine_new_def)
  have "cm_state (client_step (7, CTransition C_Connecting) ClientHandshakeMachine_new) = C_Connecting"
    by (simp add: client_transition_state a)
  then show ?thesis
    using handshake_deadlines [OF a b, of "[(7, CTransition C_Connecting)]" "[]"] by simp
qed

text \<open>
  The deadline of the handshake is not cleared when the handshake completes: in messaging the
  timeout check still fails 30 seconds after the ClientHello was sent.
\<close>

lemma handshake_deadline_survives:
  assumes "m = fold client_step (map (\<lambda>t. (0, CTransition t)) (tl client_chain)) ClientHandshakeMachine_new"
    and "SECS 30 < now"
  shows "cm_state m = C_Messaging \<and> ClientHandshakeMachine_check_timeout now now m \<noteq> Inr ()"
  using assms
  by (simp add: ClientHandshakeMachine_transition_to_def ClientHandshakeMachine_new_def Let_def
      ClientHandshakeMachine_check_timeout_def)

end
