(* ===== verification/Close_Manager.thy ===== *)
theory Close_Manager
  imports Lifecycle Utf8 "HOL-Library.Sublist"
begin

text \<open>
  Graceful close, \<open>crates/aafp-messaging/src/close_manager.rs\<close>: the states of the close
  handshake, the commands and events that drive it and the actions it asks its caller to
  take. A command that reads the clock takes the time as its first argument and every
  command returns its action with the manager afterwards. The events of a connection are
  shown to send at most one CLOSE frame and to end in \<open>Closed\<close> once the timer is polled.
\<close>

section \<open>States and actions\<close>

abbreviation (input) DEFAULT_CLOSE_TIMEOUT :: duration where "DEFAULT_CLOSE_TIMEOUT \<equiv> 5000000000"
abbreviation (input) MIN_CLOSE_TIMEOUT :: duration where "MIN_CLOSE_TIMEOUT \<equiv> 1000000000"
abbreviation (input) MAX_CLOSE_MESSAGE_LEN :: nat where "MAX_CLOSE_MESSAGE_LEN \<equiv> 256"

datatype CloseState =
    CloseOpen
  | LocalCloseSent
  | RemoteCloseReceived
  | CloseReceived
  | CloseClosed

definition CloseState_is_terminal :: "CloseState \<Rightarrow> bool" where
  "CloseState_is_terminal s \<longleftrightarrow> s = CloseClosed"

definition CloseState_is_closing :: "CloseState \<Rightarrow> bool" where
  "CloseState_is_closing s \<longleftrightarrow> s = LocalCloseSent \<or> s = RemoteCloseReceived \<or> s = CloseReceived"

fun CloseState_as_str :: "CloseState \<Rightarrow> ustring" where
  "CloseState_as_str CloseOpen = str ''Open''"
| "CloseState_as_str LocalCloseSent = str ''LocalCloseSent''"
| "CloseState_as_str RemoteCloseReceived = str ''RemoteCloseReceived''"
| "CloseState_as_str CloseReceived = str ''CloseReceived''"
| "CloseState_as_str CloseClosed = str ''Closed''"

datatype CloseAction =
    SendCloseFrame u32 ustring
  | CloseQuic
  | CloseNone

datatype CloseManagerError = TimeoutTooShort duration

datatype CloseFrameDisposition =
    CloseAccept
  | CloseDiscardSilently

text \<open>The \<open>while\<close> loop of \<open>truncate_message\<close>: the largest character boundary up to \<open>n\<close>.\<close>

fun boundary_below :: "ustring \<Rightarrow> nat \<Rightarrow> nat" where
  "boundary_below s 0 = 0"
| "boundary_below s (Suc n) = (if is_char_boundary s (Suc n) then Suc n else boundary_below s n)"

definition truncate_message :: "ustring \<Rightarrow> ustring" where
  "truncate_message s =
     (if length s \<le> MAX_CLOSE_MESSAGE_LEN then s
      else take (boundary_below s MAX_CLOSE_MESSAGE_LEN) s)"

section \<open>The manager\<close>

record CloseManager =
  clm_state :: CloseState
  clm_remote_code :: "u32 option"
  clm_remote_message :: "ustring option"
  clm_close_timeout :: duration
  clm_deadline :: "instant option"

definition CloseManager_new :: CloseManager where
  "CloseManager_new = \<lparr>clm_state = CloseOpen, clm_remote_code = None, clm_remote_message = None,
     clm_close_timeout = DEFAULT_CLOSE_TIMEOUT, clm_deadline = None\<rparr>"

definition CloseManager_with_timeout :: "duration \<Rightarrow> CloseManagerError + CloseManager" where
  "CloseManager_with_timeout timeout =
     (if timeout < MIN_CLOSE_TIMEOUT then Inl (TimeoutTooShort timeout)
      else Inr \<lparr>clm_state = CloseOpen, clm_remote_code = None, clm_remote_message = None,
        clm_close_timeout = timeout, clm_deadline = None\<rparr>)"

definition CloseManager_is_closed :: "CloseManager \<Rightarrow> bool" where
  "CloseManager_is_closed m \<longleftrightarrow> clm_state m = CloseClosed"

definition CloseManager_is_closing :: "CloseManager \<Rightarrow> bool" where
  "CloseManager_is_closing m = CloseState_is_closing (clm_state m)"

definition timer_active :: "CloseManager \<Rightarrow> bool" where
  "timer_active m \<longleftrightarrow> clm_deadline m \<noteq> None"

definition can_send :: "CloseManager \<Rightarrow> byte \<Rightarrow> bool" where
  "can_send m ft =
     (case clm_state m of
        CloseOpen \<Rightarrow> True
      | LocalCloseSent \<Rightarrow> ft = 0x06
      | RemoteCloseReceived \<Rightarrow> ft = 0x05 \<or> ft = 0x06
      | CloseReceived \<Rightarrow> False
      | CloseClosed \<Rightarrow> False)"

definition CloseManager_frame_disposition :: "CloseManager \<Rightarrow> byte \<Rightarrow> CloseFrameDisposition" where
  "CloseManager_frame_disposition m ft =
     (case clm_state m of
        CloseOpen \<Rightarrow> CloseAccept
      | LocalCloseSent \<Rightarrow> if ft = 0x05 then CloseAccept else CloseDiscardSilently
      | RemoteCloseReceived \<Rightarrow> CloseDiscardSilently
      | CloseReceived \<Rightarrow> CloseDiscardSilently
      | CloseClosed \<Rightarrow> CloseDiscardSilently)"

definition initiate_close :: "instant \<Rightarrow> u32 \<Rightarrow> ustring \<Rightarrow> CloseManager \<Rightarrow> CloseAction \<times> CloseManager" where
  "initiate_close now code message m =
     (case clm_state m of
        CloseOpen \<Rightarrow>
          (SendCloseFrame code (truncate_message message),
           m\<lparr>clm_state := LocalCloseSent, clm_deadline := Some (now + clm_close_timeout m)\<rparr>)
      | _ \<Rightarrow> (CloseNone, m))"

definition on_close_received :: "instant \<Rightarrow> u32 \<Rightarrow> ustring \<Rightarrow> CloseManager \<Rightarrow> CloseAction \<times> CloseManager" where
  "on_close_received now code message m =
     (let msg = truncate_message message in
      case clm_state m of
        CloseOpen \<Rightarrow>
          (CloseNone, m\<lparr>clm_remote_code := Some code, clm_remote_message := Some msg,
             clm_state := RemoteCloseReceived, clm_deadline := Some (now + clm_close_timeout m)\<rparr>)
      | LocalCloseSent \<Rightarrow>
          (CloseQuic, m\<lparr>clm_remote_code := Some code, clm_remote_message := Some msg,
             clm_deadline := None, clm_state := CloseClosed\<rparr>)
      | RemoteCloseReceived \<Rightarrow> (CloseNone, m)
      | CloseReceived \<Rightarrow> (CloseNone, m)
      | CloseClosed \<Rightarrow> (CloseNone, m))"

definition respond_close :: "u32 \<Rightarrow> ustring \<Rightarrow> CloseManager \<Rightarrow> CloseAction \<times> CloseManager" where
  "respond_close code message m =
     (case clm_state m of
        RemoteCloseReceived \<Rightarrow>
          (SendCloseFrame code (truncate_message message),
           m\<lparr>clm_deadline := None, clm_state := CloseClosed\<rparr>)
      | _ \<Rightarrow> (CloseNone, m))"

definition on_fatal_error_received :: "CloseManager \<Rightarrow> CloseAction \<times> CloseManager" where
  "on_fatal_error_received m =
     (case clm_state m of
        CloseClosed \<Rightarrow> (CloseNone, m)
      | _ \<Rightarrow> (CloseQuic, m\<lparr>clm_deadline := None, clm_state := CloseClosed\<rparr>))"

definition on_transport_reset :: "CloseManager \<Rightarrow> CloseAction \<times> CloseManager" where
  "on_transport_reset m =
     (case clm_state m of
        CloseClosed \<Rightarrow> (CloseNone, m)
      | _ \<Rightarrow> (CloseQuic, m\<lparr>clm_deadline := None, clm_state := CloseClosed\<rparr>))"

definition on_timeout :: "CloseManager \<Rightarrow> CloseAction \<times> CloseManager" where
  "on_timeout m =
     (if clm_state m = LocalCloseSent \<or> clm_state m = RemoteCloseReceived
      then (CloseQuic, m\<lparr>clm_deadline := None, clm_state := CloseClosed\<rparr>)
      else (CloseNone, m))"

definition CloseManager_abort :: "CloseManager \<Rightarrow> CloseAction \<times> CloseManager" where
  "CloseManager_abort m =
     (case clm_state m of
        CloseClosed \<Rightarrow> (CloseNone, m)
      | _ \<Rightarrow> (CloseQuic, m\<lparr>clm_deadline := None, clm_state := CloseClosed\<rparr>))"

definition check_timer :: "instant \<Rightarrow> CloseManager \<Rightarrow> CloseAction \<times> CloseManager" where
  "check_timer now m =
     (case clm_deadline m of
        Some deadline \<Rightarrow> if deadline \<le> now then on_timeout m else (CloseNone, m)
      | None \<Rightarrow> (CloseNone, m))"

section \<open>Truncation of close messages\<close>

lemma boundary_below_spec:
  "boundary_below s n \<le> n \<and> is_char_boundary s (boundary_below s n) \<and>
     (\<forall>i \<le> n. is_char_boundary s i \<longrightarrow> i \<le> boundary_below s n)"
proof (induction n)
  case 0
  then show ?case by (simp add: is_char_boundary_def)
next
  case (Suc n)
  then show ?case by (auto simp: le_Suc_eq)
qed

lemma truncate_message_length: "length (truncate_message s) \<le> MAX_CLOSE_MESSAGE_LEN"
  using boundary_below_spec [of s 256] by (auto simp: truncate_message_def)

lemma truncate_message_valid: "utf8_valid s \<Longrightarrow> utf8_valid (truncate_message s)"
  using boundary_below_spec [of s 256] by (simp add: truncate_message_def utf8_valid_take_boundary)

lemma truncate_message_idem [simp]: "truncate_message (truncate_message s) = truncate_message s"
  unfolding truncate_message_def [of "truncate_message s"] by (simp add: truncate_message_length)

text \<open>
  Truncation of close messages: the result is a prefix of at most 256 bytes, is UTF-8 when
  the message is, and is the longest such prefix that ends at a character boundary; a message
  of at most 256 bytes is unchanged.
\<close>

lemma truncate_message_correct:
  assumes "utf8_valid s"
  shows "prefix (truncate_message s) s \<and> length (truncate_message s) \<le> 256 \<and>
    utf8_valid (truncate_message s) \<and> (length s \<le> 256 \<longrightarrow> truncate_message s = s) \<and>
    (\<forall>i \<le> 256. is_char_boundary s i \<and> i \<le> length s \<longrightarrow> i \<le> length (truncate_message s))"
proof -
  have "prefix (truncate_message s) s" by (simp add: truncate_message_def take_is_prefix)
  moreover have "\<forall>i \<le> 256. is_char_boundary s i \<and> i \<le> length s \<longrightarrow> i \<le> length (truncate_message s)"
    using boundary_below_spec [of s 256] by (simp add: truncate_message_def)
  ultimately show ?thesis
    using truncate_message_length [of s] truncate_message_valid [OF assms]
    by (simp add: truncate_message_def)
qed

lemma truncate_message_correct_example:
  "length (truncate_message (concat (replicate 86 [0xE2, 0x82, 0xAC]))) = 255"
proof -
  define s :: bytes where "s = concat (replicate 86 [0xE2, 0x82, 0xAC])"
  have a: "utf8_valid s" unfolding s_def by code_simp
  have l: "length s = 258" unfolding s_def by code_simp
  have b: "is_char_boundary s 255" and c: "\<not> is_char_boundary s 256" unfolding s_def by code_simp+
  have "boundary_below s 256 \<noteq> 256" using c boundary_below_spec [of s 256] by metis
  then have "boundary_below s 256 \<le> 255" using boundary_below_spec [of s 256] by linarith
  then have "length (truncate_message s) \<le> 255" by (simp add: truncate_message_def l)
  moreover have "255 \<le> length (truncate_message s)"
    using truncate_message_correct [OF a] b l by simp
  ultimately show ?thesis unfolding s_def by linarith
qed

section \<open>Runs of a close manager\<close>

datatype close_event =
    EvInitiate u32 ustring
  | EvCloseReceived u32 ustring
  | EvRespond u32 ustring
  | EvFatalError
  | EvTransportReset
  | EvTimeout
  | EvAbort
  | EvPoll

fun close_handle :: "instant \<times> close_event \<Rightarrow> CloseManager \<Rightarrow> CloseAction \<times> CloseManager" where
  "close_handle (now, EvInitiate c msg) m = initiate_close now c msg m"
| "close_handle (now, EvCloseReceived c msg) m = on_close_received now c msg m"
| "close_handle (now, EvRespond c msg) m = respond_close c msg m"
| "close_handle (now, EvFatalError) m = on_fatal_error_received m"
| "close_handle (now, EvTransportReset) m = on_transport_reset m"
| "close_handle (now, EvTimeout) m = on_timeout m"
| "close_handle (now, EvAbort) m = CloseManager_abort m"
| "close_handle (now, EvPoll) m = check_timer now m"

definition close_step :: "instant \<times> close_event \<Rightarrow> CloseManager \<Rightarrow> CloseManager" where
  "close_step e m = snd (close_handle e m)"

text \<open>The actions a caller is asked to take in a sequence of events.\<close>

fun close_actions :: "(instant \<times> close_event) list \<Rightarrow> CloseManager \<Rightarrow> CloseAction list" where
  "close_actions [] m = []"
| "close_actions (e # es) m = fst (close_handle e m) # close_actions es (close_step e m)"

lemmas close_ops = initiate_close_def on_close_received_def respond_close_def
  on_fatal_error_received_def on_transport_reset_def on_timeout_def CloseManager_abort_def
  check_timer_def

text \<open>The graph of the close handshake; \<open>CloseReceived\<close> is passed through inside an event.\<close>

fun close_can :: "CloseState \<Rightarrow> CloseState \<Rightarrow> bool" where
  "close_can CloseOpen LocalCloseSent = True"
| "close_can CloseOpen RemoteCloseReceived = True"
| "close_can s CloseClosed = (s \<noteq> CloseClosed)"
| "close_can _ _ = False"

fun close_rank :: "CloseState \<Rightarrow> nat" where
  "close_rank CloseOpen = 0"
| "close_rank LocalCloseSent = 1"
| "close_rank RemoteCloseReceived = 1"
| "close_rank CloseReceived = 1"
| "close_rank CloseClosed = 2"

lemma close_step_can:
  "clm_state (close_step e m) = clm_state m \<or> close_can (clm_state m) (clm_state (close_step e m))"
  by (cases e; cases "snd e"; cases "clm_state m")
    (auto simp: close_step_def close_ops Let_def split: option.splits)

interpretation close_stages: staged_system close_can close_rank 2 close_step clm_state
proof
  show "close_can s t \<Longrightarrow> close_rank s < close_rank t" for s t by (cases s; cases t) simp_all
  show "close_rank s \<le> 2" for s by (cases s) simp_all
qed (rule close_step_can)

definition close_inv :: "CloseManager \<Rightarrow> bool" where
  "close_inv m \<longleftrightarrow>
     clm_state m \<noteq> CloseReceived \<and>
     (timer_active m \<longleftrightarrow> clm_state m = LocalCloseSent \<or> clm_state m = RemoteCloseReceived) \<and>
     (clm_state m = CloseOpen \<or> clm_state m = LocalCloseSent \<longrightarrow> clm_remote_code m = None) \<and>
     (clm_state m = RemoteCloseReceived \<longrightarrow> clm_remote_code m \<noteq> None) \<and>
     (clm_remote_code m = None \<longleftrightarrow> clm_remote_message m = None) \<and>
     (\<forall>s. clm_remote_message m = Some s \<longrightarrow> length s \<le> MAX_CLOSE_MESSAGE_LEN)"

lemma close_step_inv: "close_inv m \<Longrightarrow> close_inv (close_step e m)"
  using truncate_message_length
  by (cases e; cases "snd e"; cases "clm_state m")
    (auto simp: close_step_def close_ops close_inv_def timer_active_def Let_def split: option.splits)

definition close_start :: "CloseManager \<Rightarrow> bool" where
  "close_start m \<longleftrightarrow> m = CloseManager_new \<or> (\<exists>t. CloseManager_with_timeout t = Inr m)"

interpretation close_system: event_system close_step close_start close_inv
proof
  show "close_start m \<Longrightarrow> close_inv m" for m
    by (auto simp: close_start_def close_inv_def timer_active_def CloseManager_new_def
        CloseManager_with_timeout_def split: if_splits)
qed (rule close_step_inv)

section \<open>What a connection is asked to do\<close>

definition sends :: "CloseAction list \<Rightarrow> nat" where
  "sends as = length (filter (\<lambda>a. case a of SendCloseFrame _ _ \<Rightarrow> True | _ \<Rightarrow> False) as)"

definition quic_closes :: "CloseAction list \<Rightarrow> nat" where
  "quic_closes as = length (filter (\<lambda>a. a = CloseQuic) as)"

text \<open>How many CLOSE frames, and how many QUIC closes, a state can still lead to.\<close>

fun send_budget :: "CloseState \<Rightarrow> nat" where
  "send_budget CloseOpen = 1"
| "send_budget RemoteCloseReceived = 1"
| "send_budget _ = 0"

lemma close_handle_budget:
  "(case fst (close_handle e m) of SendCloseFrame _ _ \<Rightarrow> 1 | _ \<Rightarrow> 0) +
     send_budget (clm_state (close_step e m)) \<le> send_budget (clm_state m)"
  "(if fst (close_handle e m) = CloseQuic then 1 else 0) +
     (if clm_state (close_step e m) = CloseClosed then 0 else 1) \<le>
     (if clm_state m = CloseClosed then 0 else 1 :: nat)"
  "fst (close_handle e m) = SendCloseFrame c msg \<Longrightarrow> length msg \<le> 256"
proof -
  show "(case fst (close_handle e m) of SendCloseFrame _ _ \<Rightarrow> 1 | _ \<Rightarrow> 0) +
     send_budget (clm_state (close_step e m)) \<le> send_budget (clm_state m)"
    by (cases e; cases "snd e"; cases "clm_state m")
      (simp_all add: close_step_def close_ops Let_def split: option.splits)
  show "(if fst (close_handle e m) = CloseQuic then 1 else 0) +
     (if clm_state (close_step e m) = CloseClosed then 0 else 1) \<le>
     (if clm_state m = CloseClosed then 0 else 1 :: nat)"
    by (cases e; cases "snd e"; cases "clm_state m")
      (simp_all add: close_step_def close_ops Let_def split: option.splits)
  show "fst (close_handle e m) = SendCloseFrame c msg \<Longrightarrow> length msg \<le> 256"
    by (cases e; cases "snd e"; cases "clm_state m")
      (auto simp: close_ops Let_def truncate_message_length split: option.splits if_splits)
qed

lemma close_actions_sends: "sends (close_actions es m) \<le> send_budget (clm_state m)"
proof (induction es arbitrary: m)
  case (Cons e es)
  show ?case
    using Cons [of "close_step e m"] close_handle_budget(1) [of e m]
    by (cases "fst (close_handle e m)") (simp_all add: sends_def)
qed (simp add: sends_def)

lemma close_actions_quic:
  "quic_closes (close_actions es m) \<le> (if clm_state m = CloseClosed then 0 else 1)"
proof (induction es arbitrary: m)
  case (Cons e es)
  show ?case
    using Cons [of "close_step e m"] close_handle_budget(2) [of e m]
    by (cases "fst (close_handle e m)") (auto simp: quic_closes_def split: if_splits)
qed (simp add: quic_closes_def)

text \<open>
  C18. A connection sends at most one CLOSE frame and closes its transport at most once, in
  whatever order local commands, frames of the peer, errors and timer events arrive; the
  message of the CLOSE frame is at most 256 bytes; and after \<open>Closed\<close> nothing is sent or closed.
\<close>

theorem close_at_most_once:
  "sends (close_actions es m) \<le> 1 \<and> quic_closes (close_actions es m) \<le> 1 \<and>
   (\<forall>c msg. SendCloseFrame c msg \<in> set (close_actions es m) \<longrightarrow> length msg \<le> 256) \<and>
   (CloseManager_is_closed m \<longrightarrow>
      sends (close_actions es m) = 0 \<and> quic_closes (close_actions es m) = 0)"
proof -
  have "length msg \<le> 256" if "SendCloseFrame c msg \<in> set (close_actions es m)" for c msg
    using that by (induction es arbitrary: m) (auto intro: close_handle_budget(3) [OF sym])
  moreover have "send_budget s \<le> 1" for s by (cases s) simp_all
  ultimately show ?thesis
    using close_actions_sends [of es m] close_actions_quic [of es m]
      order.trans [OF close_actions_sends [of es m], of 1]
    by (auto simp: CloseManager_is_closed_def split: if_splits)
qed

theorem close_at_most_once_witness:
  "SendCloseFrame 0 [] \<in> set (close_actions [(1, EvInitiate 0 []), (2, EvInitiate 7 [])] CloseManager_new) \<and>
   sends (close_actions [(1, EvInitiate 0 []), (2, EvInitiate 7 [])] CloseManager_new) \<le> 1 \<and>
   sends (close_actions [(1, EvInitiate 0 [])] (CloseManager_new\<lparr>clm_state := CloseClosed\<rparr>)) = 0"
  using close_at_most_once [of "[(1, EvInitiate 0 []), (2, EvInitiate 7 [])]" CloseManager_new]
    close_at_most_once [of "[(1, EvInitiate 0 [])]" "CloseManager_new\<lparr>clm_state := CloseClosed\<rparr>"]
  by (simp add: CloseManager_is_closed_def)
    (simp add: CloseManager_new_def initiate_close_def truncate_message_def)

lemma sent_state:
  "(\<exists>c msg. SendCloseFrame c msg \<in> set (close_actions es m)) \<or>
     clm_state m = LocalCloseSent \<or> clm_state m = CloseClosed \<Longrightarrow>
   clm_state (fold close_step es m) = LocalCloseSent \<or> clm_state (fold close_step es m) = CloseClosed"
proof (induction es arbitrary: m)
  case (Cons e es)
  have "clm_state (close_step e m) = LocalCloseSent \<or> clm_state (close_step e m) = CloseClosed"
    if "(\<exists>c msg. fst (close_handle e m) = SendCloseFrame c msg) \<or> clm_state m = LocalCloseSent \<or>
      clm_state m = CloseClosed"
    using that by (cases e; cases "snd e"; cases "clm_state m")
      (auto simp: close_step_def close_ops Let_def split: option.splits if_splits)
  moreover have "(\<exists>c msg. fst (close_handle e m) = SendCloseFrame c msg) \<or>
      (\<exists>c msg. SendCloseFrame c msg \<in> set (close_actions es (close_step e m))) \<or>
      clm_state m = LocalCloseSent \<or> clm_state m = CloseClosed"
    using Cons.prems by (simp del: ex_simps) metis
  ultimately show ?case using Cons.IH [of "close_step e m"] by (simp del: ex_simps) metis
qed simp

text \<open>
  No data after CLOSE: once a connection has sent its CLOSE frame, or is closed, it admits no
  outgoing frame but ERROR, and once closed none at all, whatever events follow.
\<close>

lemma no_data_after_close:
  assumes "SendCloseFrame c msg \<in> set (close_actions es m)"
    and "can_send (fold close_step es m) ft"
  shows "ft = 0x06 \<and> clm_state (fold close_step es m) = LocalCloseSent"
proof -
  have "clm_state (fold close_step es m) = LocalCloseSent \<or> clm_state (fold close_step es m) = CloseClosed"
    using sent_state [of es m] assms(1) by blast
  then show ?thesis using assms(2) by (auto simp: can_send_def)
qed

lemma no_data_after_close_example:
  "clm_state (fold close_step [(1, EvInitiate 0 [])] CloseManager_new) = LocalCloseSent"
proof -
  have "SendCloseFrame 0 [] \<in> set (close_actions [(1, EvInitiate 0 [])] CloseManager_new)"
    "can_send (fold close_step [(1, EvInitiate 0 [])] CloseManager_new) 6"
    by (simp_all add: CloseManager_new_def initiate_close_def truncate_message_def close_step_def can_send_def)
  then show ?thesis using no_data_after_close by blast
qed

lemma close_step_deadline:
  "clm_close_timeout (close_step (t, ev) m) = clm_close_timeout m"
  "clm_deadline (close_step (t, ev) m) = Some d \<Longrightarrow>
     d = t + clm_close_timeout m \<or> clm_deadline m = Some d"
  by (cases ev; cases "clm_state m";
      auto simp: close_step_def close_ops Let_def split: option.splits if_splits)+

lemma close_deadline_origin:
  assumes "close_start m0"
  shows "clm_close_timeout (fold close_step es m0) = clm_close_timeout m0 \<and>
    (\<forall>d. clm_deadline (fold close_step es m0) = Some d \<longrightarrow>
       (\<exists>t \<in> fst ` set es. d = t + clm_close_timeout m0))"
proof (induction es rule: rev_induct)
  case Nil
  then show ?case using assms
    by (auto simp: close_start_def CloseManager_new_def CloseManager_with_timeout_def split: if_splits)
next
  case (snoc e es)
  obtain t ev where e: "e = (t, ev)" by (cases e)
  show ?case
    using snoc close_step_deadline [of t ev "fold close_step es m0"] by (fastforce simp: e)
qed

text \<open>
  C19. Every close ends: in any run, while a CLOSE has been sent or received and the connection is
  not closed, the timer is running, it expires one close timeout after some event of the run,
  and polling the timer at that time or later closes the transport. The intermediate state
  \<open>CloseReceived\<close> is never visible, and no timer runs in the other states.
\<close>

theorem close_terminates:
  fixes m0 es
  assumes "close_start m0"
  defines "m \<equiv> fold close_step es m0"
  shows "clm_state m \<noteq> CloseReceived \<and>
    (timer_active m \<longleftrightarrow> CloseManager_is_closing m) \<and>
    (CloseManager_is_closing m \<longrightarrow> (\<exists>t \<in> fst ` set es. \<forall>now \<ge> t + clm_close_timeout m0.
       fst (check_timer now m) = CloseQuic \<and> CloseManager_is_closed (snd (check_timer now m))))"
proof -
  have inv: "close_inv m" unfolding m_def by (rule close_system.inv_run [OF assms(1)])
  then have c: "CloseManager_is_closing m \<longleftrightarrow> clm_state m = LocalCloseSent \<or> clm_state m = RemoteCloseReceived"
    by (auto simp: CloseManager_is_closing_def CloseState_is_closing_def close_inv_def)
  have "\<exists>t \<in> fst ` set es. \<forall>now \<ge> t + clm_close_timeout m0.
      fst (check_timer now m) = CloseQuic \<and> CloseManager_is_closed (snd (check_timer now m))"
    if "CloseManager_is_closing m"
  proof -
    from that inv c obtain d where d: "clm_deadline m = Some d"
      by (auto simp: close_inv_def timer_active_def)
    with close_deadline_origin [OF assms(1), of es] obtain t where "t \<in> fst ` set es"
      "d = t + clm_close_timeout m0" unfolding m_def by blast
    then show ?thesis
      using d that c by (intro bexI [of _ t]) (auto simp: check_timer_def on_timeout_def CloseManager_is_closed_def)
  qed
  with inv c show ?thesis by (auto simp: close_inv_def)
qed

theorem close_terminates_witness:
  "\<exists>t \<in> {7}. \<forall>now \<ge> t + 5000000000.
     fst (check_timer now (close_step (7, EvInitiate 0 []) CloseManager_new)) = CloseQuic"
proof -
  have "close_start CloseManager_new" by (simp add: close_start_def)
  moreover have "CloseManager_is_closing (close_step (7, EvInitiate 0 []) CloseManager_new)"
    by (simp add: CloseManager_is_closing_def CloseState_is_closing_def close_step_def
        initiate_close_def CloseManager_new_def)
  moreover have "clm_close_timeout CloseManager_new = 5000000000" by (simp add: CloseManager_new_def)
  ultimately show ?thesis
    using close_terminates [of CloseManager_new "[(7, EvInitiate 0 [])]"] by simp
qed

text \<open>Responding to the peer's CLOSE closes the manager without asking to close the transport.\<close>

lemma respond_close_no_quic:
  "close_actions [(1, EvCloseReceived 0 []), (2, EvRespond 0 [])] CloseManager_new =
     [CloseNone, SendCloseFrame 0 []]"
  by (simp add: CloseManager_new_def close_step_def close_ops truncate_message_def)

end
