(* ===== verification/Pipeline.thy ===== *)
theory Pipeline
  imports Framing Extensions Errors Cbor_Order
begin

text \<open>
  The frame processing pipeline (\<open>crates/aafp-messaging/src/pipeline.rs\<close>): the twenty phases,
  the error a phase reports, the context that answers the authentication questions, and
  \<open>process\<close>, which runs the phases over the bytes of a frame.

  The context and the extension callbacks are traits: their methods are fields of a record.
  A callback may have side effects, so it takes a world of an arbitrary type and returns it; the
  world is threaded through all of \<open>process\<close>. The text of an error is a constructor with the
  values that are formatted into it; \<open>MsgText\<close> is the text of an error made by a callback.
  The theorems show which checks precede any effect of a callback, that the reported phase is
  the first one that fails, and that a well-formed frame is delivered unchanged.
\<close>

section \<open>Phases and errors\<close>

datatype PipelinePhase =
    Phase1ValidateHeader
  | Phase2ValidateLengths
  | Phase3RejectOversized
  | Phase4ReadPayload
  | Phase5ReadExtensions
  | Phase6DecodeCbor
  | Phase7RejectDuplicateKeys
  | Phase8RejectNonCanonical
  | Phase9ValidateTranscript
  | Phase10VerifySignatures
  | Phase11VerifyAgentId
  | Phase12VerifySessionState
  | Phase13VerifyAuthorization
  | Phase14VerifyCapabilities
  | Phase15DecodeExtensions
  | Phase16CheckUnknownCritical
  | Phase17CheckNonNegotiated
  | Phase18ProcessExtensionSemantics
  | Phase19ValidateFinalState
  | Phase20DeliverToUpperLayer

fun phase_name :: "PipelinePhase \<Rightarrow> string" where
  "phase_name Phase1ValidateHeader = ''validate_frame_header''"
| "phase_name Phase2ValidateLengths = ''validate_lengths''"
| "phase_name Phase3RejectOversized = ''reject_oversized_before_allocation''"
| "phase_name Phase4ReadPayload = ''read_payload''"
| "phase_name Phase5ReadExtensions = ''read_extensions''"
| "phase_name Phase6DecodeCbor = ''decode_canonical_cbor''"
| "phase_name Phase7RejectDuplicateKeys = ''reject_duplicate_cbor_keys''"
| "phase_name Phase8RejectNonCanonical = ''reject_non_canonical_cbor''"
| "phase_name Phase9ValidateTranscript = ''validate_transcript_state''"
| "phase_name Phase10VerifySignatures = ''verify_signatures''"
| "phase_name Phase11VerifyAgentId = ''verify_agent_id''"
| "phase_name Phase12VerifySessionState = ''verify_session_state''"
| "phase_name Phase13VerifyAuthorization = ''verify_authorization''"
| "phase_name Phase14VerifyCapabilities = ''verify_required_capabilities''"
| "phase_name Phase15DecodeExtensions = ''decode_extensions''"
| "phase_name Phase16CheckUnknownCritical = ''check_unknown_critical_extensions''"
| "phase_name Phase17CheckNonNegotiated = ''check_non_negotiated_extensions''"
| "phase_name Phase18ProcessExtensionSemantics = ''process_extension_semantics''"
| "phase_name Phase19ValidateFinalState = ''validate_final_state''"
| "phase_name Phase20DeliverToUpperLayer = ''deliver_to_upper_layer''"

fun phase_number :: "PipelinePhase \<Rightarrow> byte" where
  "phase_number Phase1ValidateHeader = 1"
| "phase_number Phase2ValidateLengths = 2"
| "phase_number Phase3RejectOversized = 3"
| "phase_number Phase4ReadPayload = 4"
| "phase_number Phase5ReadExtensions = 5"
| "phase_number Phase6DecodeCbor = 6"
| "phase_number Phase7RejectDuplicateKeys = 7"
| "phase_number Phase8RejectNonCanonical = 8"
| "phase_number Phase9ValidateTranscript = 9"
| "phase_number Phase10VerifySignatures = 10"
| "phase_number Phase11VerifyAgentId = 11"
| "phase_number Phase12VerifySessionState = 12"
| "phase_number Phase13VerifyAuthorization = 13"
| "phase_number Phase14VerifyCapabilities = 14"
| "phase_number Phase15DecodeExtensions = 15"
| "phase_number Phase16CheckUnknownCritical = 16"
| "phase_number Phase17CheckNonNegotiated = 17"
| "phase_number Phase18ProcessExtensionSemantics = 18"
| "phase_number Phase19ValidateFinalState = 19"
| "phase_number Phase20DeliverToUpperLayer = 20"

definition is_pre_authentication :: "PipelinePhase \<Rightarrow> bool" where
  "is_pre_authentication p \<longleftrightarrow> phase_number p \<le> 14"

definition is_authentication :: "PipelinePhase \<Rightarrow> bool" where
  "is_authentication p \<longleftrightarrow> 9 \<le> phase_number p \<and> phase_number p \<le> 14"

definition is_extension_processing :: "PipelinePhase \<Rightarrow> bool" where
  "is_extension_processing p \<longleftrightarrow> 15 \<le> phase_number p \<and> phase_number p \<le> 18"

datatype pipeline_message =
    MsgIncompleteHeader nat nat
  | MsgInvalidVersion byte byte
  | MsgReservedNonZero byte
  | MsgPayloadTooLarge nat nat
  | MsgExtensionTooLarge nat nat
  | MsgLengthOverflow
  | MsgPayloadBeforeAllocation
  | MsgExtensionBeforeAllocation
  | MsgUnknownFrameType byte
  | MsgIncompleteFrame nat nat
  | MsgCborError CborError
  | MsgTranscriptInvalid
  | MsgSignatureFailed
  | MsgAgentIdMismatch
  | MsgSessionStateInvalid
  | MsgNotAuthorized
  | MsgLacksCapabilities
  | MsgHandshakeExtensions
  | MsgExtensionError ExtensionError
  | MsgUnknownCritical u16
  | MsgNonNegotiated u16
  | MsgText ustring

record PipelineError =
  ple_phase :: PipelinePhase
  ple_error_code :: u32
  ple_fatal :: bool
  ple_message :: pipeline_message

definition PipelineError_new ::
    "PipelinePhase \<Rightarrow> u32 \<Rightarrow> bool \<Rightarrow> pipeline_message \<Rightarrow> PipelineError" where
  "PipelineError_new phase code fatal message =
     \<lparr>ple_phase = phase, ple_error_code = code, ple_fatal = fatal, ple_message = message\<rparr>"

definition extension_callbacks_invoked :: "PipelineError \<Rightarrow> bool" where
  "extension_callbacks_invoked e \<longleftrightarrow> ple_phase e = Phase18ProcessExtensionSemantics"

section \<open>Context and callbacks\<close>

record PipelineContext =
  signature_verified :: bool
  agent_id_verified :: bool
  session_state_valid :: "FrameType \<Rightarrow> bool"
  ctx_authorized :: "FrameType \<Rightarrow> bool"
  capabilities_sufficient :: "FrameType \<Rightarrow> bool"
  transcript_state_valid :: bool
  negotiated_extension_types :: "u16 set"
  known_extension_types :: "u16 set"

record TestingContext =
  tc_signature_verified :: bool
  tc_agent_id_verified :: bool
  tc_session_valid :: bool
  tc_authorized :: bool
  tc_capabilities_sufficient :: bool
  tc_transcript_valid :: bool
  tc_negotiated_types :: "u16 set"
  tc_known_types :: "u16 set"

definition TestingContext_default :: TestingContext where
  "TestingContext_default = \<lparr>tc_signature_verified = True, tc_agent_id_verified = True,
     tc_session_valid = True, tc_authorized = True, tc_capabilities_sufficient = True,
     tc_transcript_valid = True, tc_negotiated_types = {}, tc_known_types = {}\<rparr>"

definition TestingContext_context :: "TestingContext \<Rightarrow> PipelineContext" where
  "TestingContext_context c = \<lparr>signature_verified = tc_signature_verified c,
     agent_id_verified = tc_agent_id_verified c, session_state_valid = (\<lambda>_. tc_session_valid c),
     ctx_authorized = (\<lambda>_. tc_authorized c),
     capabilities_sufficient = (\<lambda>_. tc_capabilities_sufficient c),
     transcript_state_valid = tc_transcript_valid c,
     negotiated_extension_types = tc_negotiated_types c,
     known_extension_types = tc_known_types c\<rparr>"

record 'w ExtensionCallback =
  extension_type :: u16
  cb_process :: "bytes \<Rightarrow> 'w \<Rightarrow> (PipelineError + unit) \<times> 'w"

record ProcessedFrame =
  pf_frame :: Frame
  pf_extensions :: "Extension list"
  extension_callback_count :: nat
  extensions_ignored :: nat

record FrameHeader =
  fh_version :: byte
  fh_frame_type_raw :: byte
  fh_flags :: byte
  fh_reserved :: byte
  fh_stream_id :: u64
  fh_payload_len :: nat
  fh_ext_len :: nat

section \<open>Phases 1 to 8: the frame and its payload\<close>

definition validate_frame_header :: "bytes \<Rightarrow> PipelineError + FrameHeader" where
  "validate_frame_header data =
     (if length data < FRAME_HEADER_SIZE
      then Inl (PipelineError_new Phase1ValidateHeader MALFORMED_FRAME True
        (MsgIncompleteHeader FRAME_HEADER_SIZE (length data)))
      else
        let version = data ! 0 in
        if version \<noteq> AAFP_VERSION
        then Inl (PipelineError_new Phase1ValidateHeader INVALID_VERSION True
          (MsgInvalidVersion version AAFP_VERSION))
        else
          let reserved = data ! 3 in
          if reserved \<noteq> 0
          then Inl (PipelineError_new Phase1ValidateHeader RESERVED_FIELD_NONZERO True
            (MsgReservedNonZero reserved))
          else Inr \<lparr>fh_version = version, fh_frame_type_raw = data ! 1, fh_flags = data ! 2,
            fh_reserved = reserved, fh_stream_id = u64_at data 4,
            fh_payload_len = unat (u64_at data 12), fh_ext_len = unat (u64_at data 20)\<rparr>)"

definition validate_lengths :: "FrameHeader \<Rightarrow> PipelineError + nat \<times> nat" where
  "validate_lengths header =
     (if fh_payload_len header > MAX_PAYLOAD_SIZE
      then Inl (PipelineError_new Phase2ValidateLengths FRAME_TOO_LARGE False
        (MsgPayloadTooLarge (fh_payload_len header) MAX_PAYLOAD_SIZE))
      else if fh_ext_len header > MAX_EXTENSION_SIZE
      then Inl (PipelineError_new Phase2ValidateLengths FRAME_TOO_LARGE False
        (MsgExtensionTooLarge (fh_ext_len header) MAX_EXTENSION_SIZE))
      else case checked_add (fh_payload_len header) (fh_ext_len header) of
        None \<Rightarrow> Inl (PipelineError_new Phase2ValidateLengths FRAME_TOO_LARGE False MsgLengthOverflow)
      | Some _ \<Rightarrow> Inr (fh_payload_len header, fh_ext_len header))"

definition reject_oversized_before_allocation :: "nat \<Rightarrow> nat \<Rightarrow> PipelineError + unit" where
  "reject_oversized_before_allocation payload_len ext_len =
     (if payload_len > MAX_PAYLOAD_SIZE
      then Inl (PipelineError_new Phase3RejectOversized FRAME_TOO_LARGE False MsgPayloadBeforeAllocation)
      else if ext_len > MAX_EXTENSION_SIZE
      then Inl (PipelineError_new Phase3RejectOversized FRAME_TOO_LARGE False MsgExtensionBeforeAllocation)
      else Inr ())"

fun frame_error_report :: "FrameError \<Rightarrow> u32 \<times> bool \<times> pipeline_message" where
  "frame_error_report (InvalidVersion v expected) = (INVALID_VERSION, True, MsgInvalidVersion v expected)"
| "frame_error_report (PayloadTooLarge len mx) = (FRAME_TOO_LARGE, False, MsgPayloadTooLarge len mx)"
| "frame_error_report (ExtensionTooLarge len mx) = (FRAME_TOO_LARGE, False, MsgExtensionTooLarge len mx)"
| "frame_error_report (UnknownFrameType ft) = (UNKNOWN_CRITICAL_FRAME_TYPE, True, MsgUnknownFrameType ft)"
| "frame_error_report (Incomplete needed avail) = (MALFORMED_FRAME, True, MsgIncompleteFrame needed avail)"

definition read_frame :: "bytes \<Rightarrow> PipelineError + Frame \<times> nat" where
  "read_frame data =
     map_err (\<lambda>e. let (code, fatal, msg) = frame_error_report e
                   in PipelineError_new Phase4ReadPayload code fatal msg)
       (decode_frame data)"

definition validate_cbor :: "Frame \<Rightarrow> PipelineError + unit" where
  "validate_cbor frame =
     (let cbor =
        (if fr_payload frame = [] then Inr ()
         else bind_result
           (map_err (\<lambda>e. PipelineError_new Phase6DecodeCbor SERIALIZATION_ERROR True (MsgCborError e))
             (check_canonical (fr_payload frame)))
           (\<lambda>_. Inr ()))
      in case frame_type frame of
           FtData \<Rightarrow> Inr () | FtPing \<Rightarrow> Inr () | FtPong \<Rightarrow> Inr ()
         | FtHandshake \<Rightarrow> cbor | FtRpcRequest \<Rightarrow> cbor | FtRpcResponse \<Rightarrow> cbor
         | FtClose \<Rightarrow> cbor | FtError \<Rightarrow> cbor
         | FtUnknown _ \<Rightarrow> Inr ())"

section \<open>Phases 9 to 14: authentication and authorization\<close>

definition validate_transcript_state :: "PipelineContext \<Rightarrow> Frame \<Rightarrow> PipelineError + unit" where
  "validate_transcript_state ctx frame =
     (if frame_type frame = FtHandshake \<and> \<not> transcript_state_valid ctx
      then Inl (PipelineError_new Phase9ValidateTranscript HANDSHAKE_FAILED True MsgTranscriptInvalid)
      else Inr ())"

definition verify_signatures :: "PipelineContext \<Rightarrow> Frame \<Rightarrow> PipelineError + unit" where
  "verify_signatures ctx frame =
     (if \<not> signature_verified ctx
      then Inl (PipelineError_new Phase10VerifySignatures INVALID_SIGNATURE True MsgSignatureFailed)
      else Inr ())"

definition verify_agent_id :: "PipelineContext \<Rightarrow> Frame \<Rightarrow> PipelineError + unit" where
  "verify_agent_id ctx frame =
     (if \<not> agent_id_verified ctx
      then Inl (PipelineError_new Phase11VerifyAgentId INVALID_AGENT_ID True MsgAgentIdMismatch)
      else Inr ())"

definition verify_session_state :: "PipelineContext \<Rightarrow> Frame \<Rightarrow> PipelineError + unit" where
  "verify_session_state ctx frame =
     (if \<not> session_state_valid ctx (frame_type frame)
      then Inl (PipelineError_new Phase12VerifySessionState PROTOCOL_VIOLATION True MsgSessionStateInvalid)
      else Inr ())"

definition verify_authorization :: "PipelineContext \<Rightarrow> Frame \<Rightarrow> PipelineError + unit" where
  "verify_authorization ctx frame =
     (if \<not> ctx_authorized ctx (frame_type frame)
      then Inl (PipelineError_new Phase13VerifyAuthorization UNAUTHORIZED True MsgNotAuthorized)
      else Inr ())"

definition verify_required_capabilities :: "PipelineContext \<Rightarrow> Frame \<Rightarrow> PipelineError + unit" where
  "verify_required_capabilities ctx frame =
     (if \<not> capabilities_sufficient ctx (frame_type frame)
      then Inl (PipelineError_new Phase14VerifyCapabilities INSUFFICIENT_CAPABILITY True MsgLacksCapabilities)
      else Inr ())"

section \<open>Phases 15 to 19: extensions\<close>

definition pipeline_decode_extensions :: "Frame \<Rightarrow> PipelineError + Extension list" where
  "pipeline_decode_extensions frame =
     (if fr_extensions frame = [] then Inr []
      else if frame_type frame = FtHandshake
      then Inl (PipelineError_new Phase15DecodeExtensions PROTOCOL_VIOLATION True MsgHandshakeExtensions)
      else map_err (\<lambda>e. PipelineError_new Phase15DecodeExtensions MALFORMED_FRAME True (MsgExtensionError e))
        (decode_extensions (fr_extensions frame)))"

fun check_unknown_critical :: "PipelineContext \<Rightarrow> Extension list \<Rightarrow> PipelineError + unit" where
  "check_unknown_critical ctx [] = Inr ()"
| "check_unknown_critical ctx (ext # exts) =
     (if ext_critical ext \<and> ext_type ext \<notin> known_extension_types ctx
      then Inl (PipelineError_new Phase16CheckUnknownCritical UNKNOWN_CRITICAL_EXTENSION True
        (MsgUnknownCritical (ext_type ext)))
      else check_unknown_critical ctx exts)"

fun check_non_negotiated :: "PipelineContext \<Rightarrow> Extension list \<Rightarrow> PipelineError + unit" where
  "check_non_negotiated ctx [] = Inr ()"
| "check_non_negotiated ctx (ext # exts) =
     (if ext_type ext \<notin> negotiated_extension_types ctx \<and> ext_type ext \<in> known_extension_types ctx
      then Inl (PipelineError_new Phase17CheckNonNegotiated INVALID_FLAGS True
        (MsgNonNegotiated (ext_type ext)))
      else check_non_negotiated ctx exts)"

text \<open>The counters are \<open>usize\<close>: a frame holds at most 64 KiB of extensions, so they stay small.\<close>

fun process_extensions_loop ::
    "PipelineContext \<Rightarrow> 'w ExtensionCallback list \<Rightarrow> Extension list \<Rightarrow> nat \<Rightarrow> nat \<Rightarrow> 'w \<Rightarrow>
     (PipelineError + nat \<times> nat) \<times> 'w" where
  "process_extensions_loop ctx cbs [] callback_count ignored_count w =
     (Inr (callback_count, ignored_count), w)"
| "process_extensions_loop ctx cbs (ext # exts) callback_count ignored_count w =
     (if ext_type ext \<notin> negotiated_extension_types ctx
      then process_extensions_loop ctx cbs exts callback_count (ignored_count + 1) w
      else case find (\<lambda>cb. extension_type cb = ext_type ext) cbs of
        Some cb \<Rightarrow>
          (case cb_process cb (ext_data ext) w of
             (Inl e, w') \<Rightarrow> (Inl e, w')
           | (Inr _, w') \<Rightarrow> process_extensions_loop ctx cbs exts (callback_count + 1) ignored_count w')
      | None \<Rightarrow> process_extensions_loop ctx cbs exts callback_count (ignored_count + 1) w)"

definition process_extension_semantics ::
    "PipelineContext \<Rightarrow> 'w ExtensionCallback list \<Rightarrow> Extension list \<Rightarrow> 'w \<Rightarrow>
     (PipelineError + nat \<times> nat) \<times> 'w" where
  "process_extension_semantics ctx cbs exts = process_extensions_loop ctx cbs exts 0 0"

definition validate_final_state :: "Frame \<Rightarrow> PipelineError + unit" where
  "validate_final_state frame = Inr ()"

section \<open>The pipeline\<close>

definition pipeline_process ::
    "PipelineContext \<Rightarrow> 'w ExtensionCallback list \<Rightarrow> bytes \<Rightarrow> 'w \<Rightarrow>
     (PipelineError + ProcessedFrame) \<times> 'w" where
  "pipeline_process ctx cbs data =
     then_with (lift_result (validate_frame_header data)) (\<lambda>header.
     then_with (lift_result (validate_lengths header)) (\<lambda>(payload_len, ext_len).
     then_with (lift_result (reject_oversized_before_allocation payload_len ext_len)) (\<lambda>_.
     then_with (lift_result (read_frame data)) (\<lambda>(frame, _).
     then_with (lift_result (validate_cbor frame)) (\<lambda>_.
     then_with (lift_result (validate_transcript_state ctx frame)) (\<lambda>_.
     then_with (lift_result (verify_signatures ctx frame)) (\<lambda>_.
     then_with (lift_result (verify_agent_id ctx frame)) (\<lambda>_.
     then_with (lift_result (verify_session_state ctx frame)) (\<lambda>_.
     then_with (lift_result (verify_authorization ctx frame)) (\<lambda>_.
     then_with (lift_result (verify_required_capabilities ctx frame)) (\<lambda>_.
     then_with (lift_result (pipeline_decode_extensions frame)) (\<lambda>parsed_exts.
     then_with (lift_result (check_unknown_critical ctx parsed_exts)) (\<lambda>_.
     then_with (lift_result (check_non_negotiated ctx parsed_exts)) (\<lambda>_.
     then_with (process_extension_semantics ctx cbs parsed_exts) (\<lambda>(callback_count, ignored_count).
     then_with (lift_result (validate_final_state frame)) (\<lambda>_.
     lift_result (Inr \<lparr>pf_frame = frame, pf_extensions = parsed_exts,
       extension_callback_count = callback_count, extensions_ignored = ignored_count\<rparr>)))))))))))))))))"

section \<open>What each phase requires\<close>

definition decoded_frame :: "bytes \<Rightarrow> Frame" where
  "decoded_frame data = fst (projr (decode_frame data))"

definition decoded_exts :: "bytes \<Rightarrow> Extension list" where
  "decoded_exts data = projr (decode_extensions (fr_extensions (decoded_frame data)))"

fun carries_cbor :: "FrameType \<Rightarrow> bool" where
  "carries_cbor FtData = False"
| "carries_cbor FtPing = False"
| "carries_cbor FtPong = False"
| "carries_cbor (FtUnknown _) = False"
| "carries_cbor _ = True"

definition canonical_payload :: "Frame \<Rightarrow> bool" where
  "canonical_payload f \<longleftrightarrow>
     (carries_cbor (frame_type f) \<and> fr_payload f \<noteq> [] \<longrightarrow>
        (\<exists>v. decode (fr_payload f) = Inr (v, length (fr_payload f))))"

fun phase_holds :: "PipelineContext \<Rightarrow> bytes \<Rightarrow> PipelinePhase \<Rightarrow> bool" where
  "phase_holds ctx data Phase1ValidateHeader \<longleftrightarrow>
     FRAME_HEADER_SIZE \<le> length data \<and> data ! 0 = AAFP_VERSION \<and> data ! 3 = 0"
| "phase_holds ctx data Phase2ValidateLengths \<longleftrightarrow>
     unat (u64_at data 12) \<le> MAX_PAYLOAD_SIZE \<and> unat (u64_at data 20) \<le> MAX_EXTENSION_SIZE"
| "phase_holds ctx data Phase4ReadPayload \<longleftrightarrow> (\<exists>f n. decode_frame data = Inr (f, n))"
| "phase_holds ctx data Phase6DecodeCbor \<longleftrightarrow> canonical_payload (decoded_frame data)"
| "phase_holds ctx data Phase9ValidateTranscript \<longleftrightarrow>
     (frame_type (decoded_frame data) = FtHandshake \<longrightarrow> transcript_state_valid ctx)"
| "phase_holds ctx data Phase10VerifySignatures \<longleftrightarrow> signature_verified ctx"
| "phase_holds ctx data Phase11VerifyAgentId \<longleftrightarrow> agent_id_verified ctx"
| "phase_holds ctx data Phase12VerifySessionState \<longleftrightarrow>
     session_state_valid ctx (frame_type (decoded_frame data))"
| "phase_holds ctx data Phase13VerifyAuthorization \<longleftrightarrow>
     ctx_authorized ctx (frame_type (decoded_frame data))"
| "phase_holds ctx data Phase14VerifyCapabilities \<longleftrightarrow>
     capabilities_sufficient ctx (frame_type (decoded_frame data))"
| "phase_holds ctx data Phase15DecodeExtensions \<longleftrightarrow>
     (frame_type (decoded_frame data) = FtHandshake \<longrightarrow> fr_extensions (decoded_frame data) = []) \<and>
     (\<exists>exts. decode_extensions (fr_extensions (decoded_frame data)) = Inr exts)"
| "phase_holds ctx data Phase16CheckUnknownCritical \<longleftrightarrow>
     (\<forall>e \<in> set (decoded_exts data). ext_critical e \<longrightarrow> ext_type e \<in> known_extension_types ctx)"
| "phase_holds ctx data Phase17CheckNonNegotiated \<longleftrightarrow>
     (\<forall>e \<in> set (decoded_exts data). ext_type e \<in> known_extension_types ctx \<longrightarrow>
        ext_type e \<in> negotiated_extension_types ctx)"
| "phase_holds ctx data _ \<longleftrightarrow> True"

text \<open>The phases in the order of \<open>process\<close>; 3, 5, 7 and 8 have no condition of their own.\<close>

definition checked_phases :: "PipelinePhase list" where
  "checked_phases = [Phase1ValidateHeader, Phase2ValidateLengths, Phase3RejectOversized,
     Phase4ReadPayload, Phase6DecodeCbor, Phase9ValidateTranscript, Phase10VerifySignatures,
     Phase11VerifyAgentId, Phase12VerifySessionState, Phase13VerifyAuthorization,
     Phase14VerifyCapabilities, Phase15DecodeExtensions, Phase16CheckUnknownCritical,
     Phase17CheckNonNegotiated]"

text \<open>An error as phase \<open>p\<close> of the pipeline reports it; only oversized frames are not fatal.\<close>

definition reported_by :: "PipelinePhase \<Rightarrow> PipelineError \<Rightarrow> bool" where
  "reported_by p e \<longleftrightarrow> ple_phase e = p \<and>
     (is_always_fatal (ple_error_code e) \<longrightarrow> ple_fatal e) \<and>
     (ple_fatal e \<longleftrightarrow> ple_error_code e \<noteq> FRAME_TOO_LARGE) \<and>
     (ple_error_code e = FRAME_TOO_LARGE \<longleftrightarrow> p = Phase2ValidateLengths)"

text \<open>A phase that passes exactly when its condition holds, with the value \<open>a\<close>.\<close>

definition implements_phase ::
    "PipelineContext \<Rightarrow> bytes \<Rightarrow> PipelinePhase \<Rightarrow> PipelineError + 'a \<Rightarrow> 'a \<Rightarrow> bool" where
  "implements_phase ctx data p r a \<longleftrightarrow>
     (if phase_holds ctx data p then r = Inr a else \<exists>e. r = Inl e \<and> reported_by p e)"

lemma reported_by_new [simp]:
  "reported_by p (PipelineError_new q code fatal msg) \<longleftrightarrow>
     q = p \<and> (is_always_fatal code \<longrightarrow> fatal) \<and> (fatal \<longleftrightarrow> code \<noteq> FRAME_TOO_LARGE) \<and>
     (code = FRAME_TOO_LARGE \<longleftrightarrow> p = Phase2ValidateLengths)"
  by (auto simp: reported_by_def PipelineError_new_def)

lemma check_canonical_iff:
  "check_canonical d = Inr u \<longleftrightarrow> (\<exists>v. decode d = Inr (v, length d))"
  by (auto simp: check_canonical_def bind_result_Inr_iff split: if_splits)

lemma header_phase:
  "implements_phase ctx data Phase1ValidateHeader (validate_frame_header data)
     \<lparr>fh_version = data ! 0, fh_frame_type_raw = data ! 1, fh_flags = data ! 2,
      fh_reserved = data ! 3, fh_stream_id = u64_at data 4,
      fh_payload_len = unat (u64_at data 12), fh_ext_len = unat (u64_at data 20)\<rparr>"
  by (auto simp: implements_phase_def validate_frame_header_def Let_def)

lemma length_phases:
  assumes "fh_payload_len h = unat (u64_at data 12)" "fh_ext_len h = unat (u64_at data 20)"
  shows "implements_phase ctx data Phase2ValidateLengths (validate_lengths h)
      (fh_payload_len h, fh_ext_len h)"
    and "phase_holds ctx data Phase2ValidateLengths \<Longrightarrow>
      implements_phase ctx data Phase3RejectOversized
        (reject_oversized_before_allocation (fh_payload_len h) (fh_ext_len h)) ()"
  using assms
  by (auto simp: implements_phase_def validate_lengths_def reject_oversized_before_allocation_def
      is_always_fatal_iff split: option.splits)

lemma canonical_payload_iff:
  "canonical_payload f \<longleftrightarrow>
     (carries_cbor (frame_type f) \<and> fr_payload f \<noteq> [] \<longrightarrow> check_canonical (fr_payload f) = Inr ())"
  by (simp add: canonical_payload_def check_canonical_iff)

lemma cbor_phase:
  "f = decoded_frame data \<Longrightarrow> implements_phase ctx data Phase6DecodeCbor (validate_cbor f) ()"
  by (cases "check_canonical (fr_payload f)"; cases "frame_type f")
    (auto simp: implements_phase_def validate_cbor_def canonical_payload_iff is_always_fatal_iff)

lemma read_phase:
  assumes "phase_holds ctx data Phase1ValidateHeader" "phase_holds ctx data Phase2ValidateLengths"
  shows "implements_phase ctx data Phase4ReadPayload (read_frame data) (projr (decode_frame data))"
proof (cases "decode_frame data")
  case (Inl e)
  then obtain needed avail ft where "e = Incomplete needed avail \<or> e = UnknownFrameType ft"
    using assms by (auto simp: decode_frame_def Let_def split: if_splits)
  with Inl show ?thesis
    by (auto simp: implements_phase_def read_frame_def is_always_fatal_iff)
qed (auto simp: implements_phase_def read_frame_def)

lemma auth_phases:
  assumes "f = decoded_frame data"
  shows "implements_phase ctx data Phase9ValidateTranscript (validate_transcript_state ctx f) ()"
    and "implements_phase ctx data Phase10VerifySignatures (verify_signatures ctx f) ()"
    and "implements_phase ctx data Phase11VerifyAgentId (verify_agent_id ctx f) ()"
    and "implements_phase ctx data Phase12VerifySessionState (verify_session_state ctx f) ()"
    and "implements_phase ctx data Phase13VerifyAuthorization (verify_authorization ctx f) ()"
    and "implements_phase ctx data Phase14VerifyCapabilities (verify_required_capabilities ctx f) ()"
  using assms
  by (simp_all add: implements_phase_def validate_transcript_state_def verify_signatures_def
      verify_agent_id_def verify_session_state_def verify_authorization_def
      verify_required_capabilities_def)

lemma decode_extensions_Nil [simp]: "decode_extensions [] = Inr []"
  by (rule decode_encoded_extensions) (simp add: encode_extensions_def)

lemma extension_phase:
  "f = decoded_frame data \<Longrightarrow>
     implements_phase ctx data Phase15DecodeExtensions (pipeline_decode_extensions f) (decoded_exts data)"
  by (cases "decode_extensions (fr_extensions f)")
    (auto simp: implements_phase_def pipeline_decode_extensions_def decoded_exts_def is_always_fatal_iff)

lemma critical_phase:
  "exts = decoded_exts data \<Longrightarrow>
     implements_phase ctx data Phase16CheckUnknownCritical (check_unknown_critical ctx exts) ()"
proof -
  have "if \<forall>e \<in> set exts. ext_critical e \<longrightarrow> ext_type e \<in> known_extension_types ctx
    then check_unknown_critical ctx exts = Inr ()
    else \<exists>e. check_unknown_critical ctx exts = Inl e \<and> reported_by Phase16CheckUnknownCritical e" for exts
    by (induction exts) auto
  then show "exts = decoded_exts data \<Longrightarrow> ?thesis" by (simp add: implements_phase_def)
qed

lemma negotiated_phase:
  "exts = decoded_exts data \<Longrightarrow>
     implements_phase ctx data Phase17CheckNonNegotiated (check_non_negotiated ctx exts) ()"
proof -
  have "if \<forall>e \<in> set exts. ext_type e \<in> known_extension_types ctx \<longrightarrow>
      ext_type e \<in> negotiated_extension_types ctx
    then check_non_negotiated ctx exts = Inr ()
    else \<exists>e. check_non_negotiated ctx exts = Inl e \<and> reported_by Phase17CheckNonNegotiated e" for exts
    by (induction exts) auto
  then show "exts = decoded_exts data \<Longrightarrow> ?thesis" by (simp add: implements_phase_def)
qed

section \<open>The order of the phases\<close>

text \<open>A computation that fails in the first phase whose condition fails, and else is \<open>fin\<close>.\<close>

definition runs_phases ::
    "PipelineContext \<Rightarrow> bytes \<Rightarrow> PipelinePhase list \<Rightarrow> ('w \<Rightarrow> (PipelineError + 'b) \<times> 'w) \<Rightarrow>
     ('w \<Rightarrow> (PipelineError + 'b) \<times> 'w) \<Rightarrow> bool" where
  "runs_phases ctx data ps fin m \<longleftrightarrow>
     (\<forall>w. case find (\<lambda>p. \<not> phase_holds ctx data p) ps of
        None \<Rightarrow> m w = fin w
      | Some p \<Rightarrow> \<exists>e. m w = (Inl e, w) \<and> reported_by p e)"

lemma runs_phase_step:
  assumes "implements_phase ctx data p r a"
    and "phase_holds ctx data p \<Longrightarrow> runs_phases ctx data ps fin (f a)"
  shows "runs_phases ctx data (p # ps) fin (then_with (lift_result r) f)"
  using assms by (auto simp: runs_phases_def implements_phase_def split: option.splits)

definition pipeline_tail ::
    "PipelineContext \<Rightarrow> 'w ExtensionCallback list \<Rightarrow> Frame \<Rightarrow> Extension list \<Rightarrow> 'w \<Rightarrow>
     (PipelineError + ProcessedFrame) \<times> 'w" where
  "pipeline_tail ctx cbs frame exts w =
     (case process_extension_semantics ctx cbs exts w of
        (Inl e, w') \<Rightarrow> (Inl e, w')
      | (Inr (c, i), w') \<Rightarrow>
          (Inr \<lparr>pf_frame = frame, pf_extensions = exts, extension_callback_count = c,
             extensions_ignored = i\<rparr>, w'))"

lemma pipeline_runs_phases:
  "runs_phases ctx data checked_phases (pipeline_tail ctx cbs (decoded_frame data) (decoded_exts data))
     (pipeline_process ctx cbs data)"
  unfolding pipeline_process_def checked_phases_def
  apply (rule runs_phase_step [OF header_phase])
  apply (rule runs_phase_step [OF length_phases(1)]; simp only: prod.case FrameHeader.select_convs)
  apply (rule runs_phase_step)
   apply (rule length_phases(2) [of "\<lparr>fh_version = data ! 0, fh_frame_type_raw = data ! 1,
     fh_flags = data ! 2, fh_reserved = data ! 3, fh_stream_id = u64_at data 4,
     fh_payload_len = unat (u64_at data 12), fh_ext_len = unat (u64_at data 20)\<rparr>",
     unfolded FrameHeader.select_convs]; assumption?; rule refl)
  apply (rule runs_phase_step [OF read_phase], assumption, assumption)
  apply (simp only: case_prod_beta decoded_frame_def [symmetric])
  apply (rule runs_phase_step [OF cbor_phase [OF refl]])
  apply (rule runs_phase_step [OF auth_phases(1) [OF refl]])
  apply (rule runs_phase_step [OF auth_phases(2) [OF refl]])
  apply (rule runs_phase_step [OF auth_phases(3) [OF refl]])
  apply (rule runs_phase_step [OF auth_phases(4) [OF refl]])
  apply (rule runs_phase_step [OF auth_phases(5) [OF refl]])
  apply (rule runs_phase_step [OF auth_phases(6) [OF refl]])
  apply (rule runs_phase_step [OF extension_phase [OF refl]])
  apply (rule runs_phase_step [OF critical_phase [OF refl]])
  apply (rule runs_phase_step [OF negotiated_phase [OF refl]])
  apply (simp add: runs_phases_def pipeline_tail_def then_with_def lift_result_def validate_final_state_def
      split: prod.splits sum.splits)
  done

text \<open>
  C6. The pipeline stops at the first phase whose condition fails, in the order of the phases:
  it then reports that phase, without having run any callback, with an error that is fatal
  unless the frame is oversized and always when its code is an always-fatal code. When all
  conditions hold, the result is that of the extension callbacks on the decoded frame. One of the conditions
  of the header phase is a zero reserved byte: the pipeline rejects any other as fatal, where the frame
  codec and the conformance documents have receivers ignore it.
\<close>

theorem pipeline_first_failure:
  "(case find (\<lambda>p. \<not> phase_holds ctx data p) checked_phases of
      Some p \<Rightarrow> \<exists>e. pipeline_process ctx cbs data w = (Inl e, w) \<and> reported_by p e \<and>
        \<not> extension_callbacks_invoked e
    | None \<Rightarrow> pipeline_process ctx cbs data w =
        pipeline_tail ctx cbs (decoded_frame data) (decoded_exts data) w)"
proof -
  have "\<not> extension_callbacks_invoked e"
    if "find (\<lambda>p. \<not> phase_holds ctx data p) checked_phases = Some p" "reported_by p e" for p e
    using that by (auto simp: find_Some_iff extension_callbacks_invoked_def reported_by_def)
  then show ?thesis
    using pipeline_runs_phases [of ctx data cbs] unfolding runs_phases_def
    by (auto split: option.splits) blast
qed

section \<open>Extension callbacks\<close>

text \<open>The extensions whose callback runs: negotiated, and with a callback registered.\<close>

definition handled ::
    "PipelineContext \<Rightarrow> 'w ExtensionCallback list \<Rightarrow> Extension list \<Rightarrow> Extension list" where
  "handled ctx cbs exts =
     filter (\<lambda>e. ext_type e \<in> negotiated_extension_types ctx \<and>
       find (\<lambda>cb. extension_type cb = ext_type e) cbs \<noteq> None) exts"

lemma handled_simps [simp]:
  "handled ctx cbs [] = []"
  "handled ctx cbs (e # exts) =
     (if ext_type e \<in> negotiated_extension_types ctx \<and>
         find (\<lambda>cb. extension_type cb = ext_type e) cbs \<noteq> None
      then e # handled ctx cbs exts else handled ctx cbs exts)"
  by (simp_all add: handled_def)


lemma loop_unhandled:
  "handled ctx cbs exts = [] \<Longrightarrow>
     process_extensions_loop ctx cbs exts c i w = (Inr (c, i + length exts), w)"
  by (induction exts arbitrary: i) (auto split: if_splits)

lemma loop_counts:
  "process_extensions_loop ctx cbs exts c i w = (Inr (c', i'), w') \<Longrightarrow>
     c' = c + length (handled ctx cbs exts) \<and> c' + i' = c + i + length exts"
proof (induction exts arbitrary: c i w)
  case (Cons e exts)
  then show ?case
    by (fastforce split: if_splits option.splits prod.splits sum.splits)
qed simp



definition ctx_admits :: "PipelineContext \<Rightarrow> FrameType \<Rightarrow> bool" where
  "ctx_admits ctx ft \<longleftrightarrow>
     (ft = FtHandshake \<longrightarrow> transcript_state_valid ctx) \<and> signature_verified ctx \<and>
     agent_id_verified ctx \<and> session_state_valid ctx ft \<and> ctx_authorized ctx ft \<and>
     capabilities_sufficient ctx ft"

lemma all_phases_hold:
  "find (\<lambda>p. \<not> phase_holds ctx data p) checked_phases = None \<longleftrightarrow>
     (\<exists>f n exts. decode_frame data = Inr (f, n) \<and> data ! 3 = 0 \<and> canonical_payload f \<and>
        ctx_admits ctx (frame_type f) \<and> (frame_type f = FtHandshake \<longrightarrow> fr_extensions f = []) \<and>
        decode_extensions (fr_extensions f) = Inr exts \<and>
        (\<forall>e \<in> set exts. (ext_critical e \<longrightarrow> ext_type e \<in> known_extension_types ctx) \<and>
           (ext_type e \<in> known_extension_types ctx \<longrightarrow> ext_type e \<in> negotiated_extension_types ctx)))"
    (is "?l = ?r")
proof
  assume ?l
  then have *: "\<forall>p \<in> set checked_phases. phase_holds ctx data p"
    by (simp add: find_None_iff)
  obtain f n where d: "decode_frame data = Inr (f, n)"
    using * by (auto simp: checked_phases_def)
  then have f: "decoded_frame data = f" by (simp add: decoded_frame_def)
  obtain exts where x: "decode_extensions (fr_extensions f) = Inr exts"
    using * f by (auto simp: checked_phases_def)
  then have "decoded_exts data = exts" by (simp add: decoded_exts_def f)
  with * d f x show ?r by (simp add: checked_phases_def ctx_admits_def)
next
  assume ?r
  then obtain f n exts where d: "decode_frame data = Inr (f, n)"
    and x: "decode_extensions (fr_extensions f) = Inr exts"
    and r: "data ! 3 = 0 \<and> canonical_payload f \<and>
        ctx_admits ctx (frame_type f) \<and> (frame_type f = FtHandshake \<longrightarrow> fr_extensions f = []) \<and>
        (\<forall>e \<in> set exts. (ext_critical e \<longrightarrow> ext_type e \<in> known_extension_types ctx) \<and>
           (ext_type e \<in> known_extension_types ctx \<longrightarrow> ext_type e \<in> negotiated_extension_types ctx))"
    by blast
  have f: "decoded_frame data = f" "decoded_exts data = exts"
    using d x by (simp_all add: decoded_frame_def decoded_exts_def)
  have "FRAME_HEADER_SIZE \<le> length data" "data ! 0 = AAFP_VERSION"
    "unat (u64_at data 12) \<le> MAX_PAYLOAD_SIZE" "unat (u64_at data 20) \<le> MAX_EXTENSION_SIZE"
    using d by (auto simp: decode_frame_def Let_def split: if_splits)
  with d x r f show ?l by (simp add: checked_phases_def ctx_admits_def)
qed

text \<open>
  C5. Nothing of a frame takes effect before the sender is authenticated and authorized: if
  processing a buffer changes the world of the callbacks, or delivers a frame, then the buffer
  holds a frame with a zero reserved byte (a non-zero one is rejected, where the frame codec ignores it) and, where its type
  carries CBOR, a payload that is empty or passes the check for canonical CBOR, which means that the strict decoder
  accepts it as one item that fills it (the order of map keys is not part of that check, see \<open>check_canonical_unsorted\<close>); the
  context admits frames of this type (transcript, signature, agent identity, session state,
  authorization and capabilities), a handshake frame has no extensions, every critical
  extension is known and every known one negotiated; and a change comes from a negotiated
  extension with a registered callback.
\<close>

theorem pipeline_effects_authenticated:
  assumes "pipeline_process ctx cbs data w = (r, w')" and "w' \<noteq> w \<or> (\<exists>pf. r = Inr pf)"
  shows "\<exists>f n exts. decode_frame data = Inr (f, n) \<and> data ! 3 = 0 \<and> canonical_payload f \<and>
    ctx_admits ctx (frame_type f) \<and> (frame_type f = FtHandshake \<longrightarrow> exts = []) \<and>
    decode_extensions (fr_extensions f) = Inr exts \<and>
    (\<forall>e \<in> set exts. (ext_critical e \<longrightarrow> ext_type e \<in> known_extension_types ctx) \<and>
       (ext_type e \<in> known_extension_types ctx \<longrightarrow> ext_type e \<in> negotiated_extension_types ctx)) \<and>
    (w' \<noteq> w \<longrightarrow> handled ctx cbs exts \<noteq> []) \<and>
    (\<forall>pf. r = Inr pf \<longrightarrow> pf_frame pf = f \<and> pf_extensions pf = exts \<and>
       extension_callback_count pf = length (handled ctx cbs exts) \<and>
       extension_callback_count pf + extensions_ignored pf = length exts)"
proof (cases "find (\<lambda>p. \<not> phase_holds ctx data p) checked_phases")
  case (Some p)
  then obtain e where "pipeline_process ctx cbs data w = (Inl e, w)"
    using pipeline_runs_phases [of ctx data cbs] by (auto simp: runs_phases_def)
  with assms have False by auto
  then show ?thesis ..
next
  case None
  then have t: "pipeline_tail ctx cbs (decoded_frame data) (decoded_exts data) w = (r, w')"
    using assms(1) pipeline_runs_phases [of ctx data cbs] by (simp add: runs_phases_def)
  from None obtain f n exts where *: "decode_frame data = Inr (f, n)"
    "decode_extensions (fr_extensions f) = Inr exts" and
    rest: "data ! 3 = 0" "canonical_payload f" "ctx_admits ctx (frame_type f)"
      "frame_type f = FtHandshake \<longrightarrow> fr_extensions f = []"
      "\<forall>e \<in> set exts. (ext_critical e \<longrightarrow> ext_type e \<in> known_extension_types ctx) \<and>
       (ext_type e \<in> known_extension_types ctx \<longrightarrow> ext_type e \<in> negotiated_extension_types ctx)"
    unfolding all_phases_hold by blast
  have f: "decoded_frame data = f" "decoded_exts data = exts"
    using * by (simp_all add: decoded_frame_def decoded_exts_def)
  have "w' \<noteq> w \<longrightarrow> handled ctx cbs exts \<noteq> []"
    using t loop_unhandled [of ctx cbs exts 0 0 w]
    by (auto simp: pipeline_tail_def f process_extension_semantics_def)
  moreover have "\<forall>pf. r = Inr pf \<longrightarrow> pf_frame pf = f \<and> pf_extensions pf = exts \<and>
       extension_callback_count pf = length (handled ctx cbs exts) \<and>
       extension_callback_count pf + extensions_ignored pf = length exts"
    using t loop_counts [of ctx cbs exts 0 0 w]
    by (auto simp: pipeline_tail_def f process_extension_semantics_def split: prod.splits sum.splits)
  moreover have "frame_type f = FtHandshake \<longrightarrow> exts = []" using rest(4) *(2) by auto
  ultimately show ?thesis using * rest by blast
qed

theorem pipeline_effects_authenticated_witness:
  "\<exists>f n exts.
    decode_frame [1, 1, 0, 0, 0, 0, 0, 0, 0, 0, 0, 1, 0, 0, 0, 0, 0, 0, 0, 1, 0, 0, 0, 0, 0, 0, 0, 0, 42] =
      Inr (f, n) \<and> canonical_payload f \<and>
    ctx_admits (TestingContext_context TestingContext_default) (frame_type f) \<and>
    decode_extensions (fr_extensions f) = Inr exts"
proof -
  let ?d = "[1, 1, 0, 0, 0, 0, 0, 0, 0, 0, 0, 1, 0, 0, 0, 0, 0, 0, 0, 1, 0, 0, 0, 0, 0, 0, 0, 0, 42]"
  have r: "fst (pipeline_process (TestingContext_context TestingContext_default) [] ?d ()) =
      Inr \<lparr>pf_frame = Frame_data 1 [42], pf_extensions = [], extension_callback_count = 0,
        extensions_ignored = 0\<rparr>"
    by code_simp
  show ?thesis
    using pipeline_effects_authenticated [of "TestingContext_context TestingContext_default" "[]" ?d "()",
        OF prod.collapse [symmetric]] r
    by blast
qed

lemma frame_bytes_reserved [simp]: "(frame_bytes f @ rest) ! 3 = 0"
  by (simp add: frame_bytes_def frame_header_def)



end
