(* ===== verification/Hash_Map.thy ===== *)
theory Hash_Map
  imports Prelude "HOL-Library.AList"
begin

text \<open>
  \<open>std::collections::HashMap\<close> as the code uses it: an association list with one entry per key.
  The order in which a \<open>HashMap\<close> is iterated is not specified; operations whose result may depend
  on it take the order as an argument \<open>ord\<close>, any function that permutes the entries.

  The interface \<open>keyed_store\<close> states what the clients rely on (what a lookup returns after an
  insertion or a removal, and how the size changes) and proves the facts about removing a list of
  keys that the replay cache and the keep-alive trackers share.
\<close>

section \<open>Operations\<close>

type_synonym ('k, 'v) hash_map = "('k \<times> 'v) list"

definition hm_get :: "('k, 'v) hash_map \<Rightarrow> 'k \<Rightarrow> 'v option" where
  "hm_get m k = map_of m k"

definition hm_insert :: "'k \<Rightarrow> 'v \<Rightarrow> ('k, 'v) hash_map \<Rightarrow> ('k, 'v) hash_map" where
  "hm_insert k v m = AList.update k v m"

definition hm_remove :: "'k \<Rightarrow> ('k, 'v) hash_map \<Rightarrow> ('k, 'v) hash_map" where
  "hm_remove k m = AList.delete k m"

definition hm_retain :: "('k \<Rightarrow> 'v \<Rightarrow> bool) \<Rightarrow> ('k, 'v) hash_map \<Rightarrow> ('k, 'v) hash_map" where
  "hm_retain P m = filter (\<lambda>(k, v). P k v) m"

definition hm_len :: "('k, 'v) hash_map \<Rightarrow> nat" where
  "hm_len m = length m"

definition hm_ok :: "('k, 'v) hash_map \<Rightarrow> bool" where
  "hm_ok m \<longleftrightarrow> distinct (map fst m)"

definition iteration_order :: "(('k, 'v) hash_map \<Rightarrow> ('k \<times> 'v) list) \<Rightarrow> bool" where
  "iteration_order ord \<longleftrightarrow> (\<forall>m. mset (ord m) = mset m)"

section \<open>Interface\<close>

locale keyed_store =
  fixes get :: "'s \<Rightarrow> 'k \<Rightarrow> 'v option"
    and put :: "'k \<Rightarrow> 'v \<Rightarrow> 's \<Rightarrow> 's"
    and del :: "'k \<Rightarrow> 's \<Rightarrow> 's"
    and len :: "'s \<Rightarrow> nat"
    and ok :: "'s \<Rightarrow> bool"
  assumes get_put: "get (put k v s) j = (if j = k then Some v else get s j)"
    and get_del: "get (del k s) j = (if j = k then None else get s j)"
    and put_ok: "ok s \<Longrightarrow> ok (put k v s)"
    and del_ok: "ok s \<Longrightarrow> ok (del k s)"
    and len_put: "ok s \<Longrightarrow> len (put k v s) = (if get s k = None then len s + 1 else len s)"
    and len_del: "ok s \<Longrightarrow> len (del k s) = (if get s k = None then len s else len s - 1)"
    and len_pos: "get s k \<noteq> None \<Longrightarrow> 0 < len s"
begin

lemma get_del_all: "get (fold del ks s) j = (if j \<in> set ks then None else get s j)"
  by (induction ks arbitrary: s) (auto simp: get_del)

lemma del_all_ok: "ok s \<Longrightarrow> ok (fold del ks s)"
  by (induction ks arbitrary: s) (auto simp: del_ok)

lemma len_del_all_le: "ok s \<Longrightarrow> len (fold del ks s) \<le> len s"
proof (induction ks arbitrary: s)
  case (Cons k ks)
  show ?case using Cons.IH [OF del_ok [OF Cons.prems], of k] len_del [OF Cons.prems, of k]
    by (auto split: if_splits)
qed simp

lemma len_del_all:
  "ok s \<Longrightarrow> distinct ks \<Longrightarrow> \<forall>k \<in> set ks. get s k \<noteq> None \<Longrightarrow> len (fold del ks s) + length ks = len s"
proof (induction ks arbitrary: s)
  case (Cons k ks)
  have "len (fold del ks (del k s)) + length ks = len (del k s)"
    using Cons.prems by (intro Cons.IH) (auto simp: del_ok get_del)
  moreover have "len (del k s) + 1 = len s"
    using Cons.prems len_del [of s k] len_pos [of s k] by auto
  ultimately show ?case by simp
qed simp

lemma len_put_le: "ok s \<Longrightarrow> len (put k v s) \<le> len s + 1"
  by (simp add: len_put)

end

lemma length_delete:
  "distinct (map fst m) \<Longrightarrow>
     length (AList.delete k m) = (if map_of m k = None then length m else length m - 1)"
proof (induction m)
  case (Cons e m)
  obtain j v where e: "e = (j, v)" by (cases e)
  show ?case
  proof (cases "j = k")
    case True
    then have "map_of m k = None" using Cons.prems e by (auto simp: map_of_eq_None_iff)
    with True Cons e show ?thesis by (simp add: AList.delete_eq)
  next
    case False
    moreover have "0 < length m" if "map_of m k \<noteq> None" using that by (cases m) auto
    ultimately show ?thesis using Cons e by (auto simp: AList.delete_eq)
  qed
qed (simp add: AList.delete_eq)

interpretation hm: keyed_store hm_get hm_insert hm_remove hm_len hm_ok
proof
  show "hm_get m k \<noteq> None \<Longrightarrow> 0 < hm_len m" for m :: "('k, 'v) hash_map" and k
    by (cases m) (auto simp: hm_get_def hm_len_def)
  show "hm_ok m \<Longrightarrow> hm_len (hm_insert k v m) =
      (if hm_get m k = None then hm_len m + 1 else hm_len m)" for m :: "('k, 'v) hash_map" and k v
    by (induction m) (auto simp: hm_ok_def hm_len_def hm_get_def hm_insert_def)
qed (auto simp: hm_get_def hm_insert_def hm_remove_def hm_ok_def hm_len_def AList.update_conv'
    AList.delete_conv' AList.distinct_update AList.distinct_delete length_delete)

section \<open>Further facts\<close>

lemma hm_get_retain:
  "hm_ok m \<Longrightarrow> hm_get (hm_retain P m) k = (case hm_get m k of None \<Rightarrow> None | Some v \<Rightarrow> if P k v then Some v else None)"
  unfolding hm_ok_def hm_get_def hm_retain_def
  by (induction m) (auto simp: map_of_eq_None_iff rev_image_eqI split: option.splits)

lemma hm_retain_ok: "hm_ok m \<Longrightarrow> hm_ok (hm_retain P m)"
  by (simp add: hm_ok_def hm_retain_def distinct_map_filter)

lemma hm_empty [simp]: "hm_ok []" "hm_len [] = 0" "hm_get [] k = None"
  by (simp_all add: hm_ok_def hm_len_def hm_get_def)

lemma hm_get_iff: "hm_ok m \<Longrightarrow> hm_get m k = Some v \<longleftrightarrow> (k, v) \<in> set m"
  by (simp add: hm_ok_def hm_get_def map_of_eq_Some_iff)

lemma ran_insert: "ran (hm_get (hm_insert k v m)) \<subseteq> insert v (ran (hm_get m))"
  by (auto simp: ran_def hm.get_put split: if_splits)

lemma ran_remove: "ran (hm_get (hm_remove k m)) \<subseteq> ran (hm_get m)"
  by (auto simp: ran_def hm.get_del split: if_splits)

lemma ran_remove_all: "ran (hm_get (fold hm_remove ks m)) \<subseteq> ran (hm_get m)"
  by (auto simp: ran_def hm.get_del_all split: if_splits)

lemma iteration_order_set: "iteration_order ord \<Longrightarrow> set (ord m) = set m"
  by (metis iteration_order_def set_mset_mset)

lemma iteration_order_length: "iteration_order ord \<Longrightarrow> length (ord m) = length m"
  by (metis iteration_order_def size_mset)

lemma iteration_order_distinct:
  "iteration_order ord \<Longrightarrow> hm_ok m \<Longrightarrow> distinct (map fst (ord m))"
  unfolding iteration_order_def hm_ok_def by (metis mset_eq_imp_distinct_iff mset_map)

lemma iterated_map:
  assumes "iteration_order ord" and "hm_ok m"
  shows "hm_ok (ord m)" and "hm_get (ord m) = hm_get m" and "set (ord m) = set m"
proof -
  have m: "mset (ord m) = mset m" using assms(1) by (simp add: iteration_order_def)
  then show s: "set (ord m) = set m" by (rule mset_eq_setD)
  show ok: "hm_ok (ord m)" using assms(2) m unfolding hm_ok_def by (metis mset_eq_imp_distinct_iff mset_map)
  show "hm_get (ord m) = hm_get m" using assms(2) ok s unfolding hm_ok_def hm_get_def by (simp add: map_of_inject_set)
qed

lemma hm_insert_fresh: "k \<notin> fst ` set m \<Longrightarrow> hm_insert k v m = m @ [(k, v)]"
  unfolding hm_insert_def by (induction m) auto

end
