(* ===== verification/Keepalive.thy ===== *)
theory Keepalive
  imports Hash_Map
begin

text \<open>
  PING/PONG keep-alive (\<open>crates/aafp-messaging/src/keepalive.rs\<close>): the configurations,
  \<open>PingTracker\<close> and \<open>AdaptivePingTracker\<close>. Each reading of the clock is an argument
  (\<open>record_ping\<close> reads it twice), as is the order in which the outstanding pings are iterated.
  The counters have the width of the code and wrap around.

  The interface \<open>ping_tracker\<close> is the contract the two trackers share. What is proved in it, for
  every sequence of pings, pongs and timeout checks: each ping is answered at most once and is
  answered, missed or outstanding; the connection is closed exactly when enough pings stayed without an answer
  for longer than the timeout, counted from the events alone; and a peer that stays silent is detected.
\<close>

section \<open>Configuration\<close>

abbreviation (input) DURATION_MAX :: duration where
  "DURATION_MAX \<equiv> (2 ^ 64 - 1) * 1000000000 + 999999999"

record KeepAliveConfig =
  kc_interval :: duration
  kc_timeout :: duration
  kc_max_missed :: u32

definition KeepAliveConfig_default :: KeepAliveConfig where
  "KeepAliveConfig_default =
     \<lparr>kc_interval = 30000000000, kc_timeout = 10000000000, kc_max_missed = 3\<rparr>"

definition KeepAliveConfig_disabled :: KeepAliveConfig where
  "KeepAliveConfig_disabled =
     \<lparr>kc_interval = DURATION_MAX, kc_timeout = DURATION_MAX, kc_max_missed = - 1\<rparr>"

definition KeepAliveConfig_is_enabled :: "KeepAliveConfig \<Rightarrow> bool" where
  "KeepAliveConfig_is_enabled c \<longleftrightarrow> kc_interval c \<noteq> DURATION_MAX"

record AdaptiveKeepAliveConfig =
  ac_base_interval :: duration
  ac_stable_interval :: duration
  ac_unstable_interval :: duration
  ac_timeout :: duration
  ac_stable_threshold :: u32
  ac_max_missed :: u32

definition AdaptiveKeepAliveConfig_default :: AdaptiveKeepAliveConfig where
  "AdaptiveKeepAliveConfig_default =
     \<lparr>ac_base_interval = 30000000000, ac_stable_interval = 60000000000,
      ac_unstable_interval = 10000000000, ac_timeout = 10000000000,
      ac_stable_threshold = 3, ac_max_missed = 3\<rparr>"

datatype KeepAliveState = KaNormal | KaStable | KaUnstable

section \<open>PingTracker\<close>

record PingTracker =
  pt_config :: KeepAliveConfig
  pt_outstanding :: "(u64, instant) hash_map"
  pt_missed_count :: u32
  pt_next_id :: u64
  pt_last_ping_sent :: "instant option"

definition PingTracker_new :: "KeepAliveConfig \<Rightarrow> PingTracker" where
  "PingTracker_new config =
     \<lparr>pt_config = config, pt_outstanding = [], pt_missed_count = 0, pt_next_id = 1,
      pt_last_ping_sent = None\<rparr>"

definition PingTracker_record_ping :: "instant \<Rightarrow> instant \<Rightarrow> PingTracker \<Rightarrow> u64 \<times> PingTracker" where
  "PingTracker_record_ping now now' t =
     (let id = pt_next_id t
      in (id, t\<lparr>pt_next_id := id + 1, pt_outstanding := hm_insert id now (pt_outstanding t),
                pt_last_ping_sent := Some now'\<rparr>))"

definition PingTracker_record_pong :: "u64 \<Rightarrow> PingTracker \<Rightarrow> bool \<times> PingTracker" where
  "PingTracker_record_pong ping_id t =
     (case hm_get (pt_outstanding t) ping_id of
        Some _ \<Rightarrow>
          (True, t\<lparr>pt_outstanding := hm_remove ping_id (pt_outstanding t), pt_missed_count := 0\<rparr>)
      | None \<Rightarrow> (False, t))"

text \<open>\<open>duration_since\<close> is zero for a later instant, as is subtraction on \<open>nat\<close>.\<close>

definition timed_out_ids ::
    "((u64, instant) hash_map \<Rightarrow> (u64 \<times> instant) list) \<Rightarrow> instant \<Rightarrow> duration \<Rightarrow>
     (u64, instant) hash_map \<Rightarrow> u64 list" where
  "timed_out_ids ord now timeout outstanding =
     map fst (filter (\<lambda>(_, sent). now - sent > timeout) (ord outstanding))"

definition PingTracker_check_timeouts ::
    "((u64, instant) hash_map \<Rightarrow> (u64 \<times> instant) list) \<Rightarrow> instant \<Rightarrow> PingTracker \<Rightarrow> bool \<times> PingTracker" where
  "PingTracker_check_timeouts ord now t =
     (let timed_out = timed_out_ids ord now (kc_timeout (pt_config t)) (pt_outstanding t);
          t = fold (\<lambda>id t. t\<lparr>pt_outstanding := hm_remove id (pt_outstanding t),
                pt_missed_count := pt_missed_count t + 1\<rparr>) timed_out t
      in (kc_max_missed (pt_config t) \<le> pt_missed_count t, t))"

definition PingTracker_should_ping :: "instant \<Rightarrow> PingTracker \<Rightarrow> bool" where
  "PingTracker_should_ping now t \<longleftrightarrow>
     (if \<not> KeepAliveConfig_is_enabled (pt_config t) then False
      else case pt_last_ping_sent t of
        None \<Rightarrow> True
      | Some sent \<Rightarrow> kc_interval (pt_config t) \<le> now - sent)"

definition PingTracker_outstanding_count :: "PingTracker \<Rightarrow> nat" where
  "PingTracker_outstanding_count t = hm_len (pt_outstanding t)"

section \<open>AdaptivePingTracker\<close>

record AdaptivePingTracker =
  at_config :: AdaptiveKeepAliveConfig
  at_outstanding :: "(u64, instant) hash_map"
  at_missed_count :: u32
  at_consecutive_pongs :: u32
  at_state :: KeepAliveState
  at_next_id :: u64
  at_last_ping_sent :: "instant option"

definition AdaptivePingTracker_with_config :: "AdaptiveKeepAliveConfig \<Rightarrow> AdaptivePingTracker" where
  "AdaptivePingTracker_with_config config =
     \<lparr>at_config = config, at_outstanding = [], at_missed_count = 0, at_consecutive_pongs = 0,
      at_state = KaNormal, at_next_id = 1, at_last_ping_sent = None\<rparr>"

definition AdaptivePingTracker_new :: AdaptivePingTracker where
  "AdaptivePingTracker_new = AdaptivePingTracker_with_config AdaptiveKeepAliveConfig_default"

definition current_interval :: "AdaptivePingTracker \<Rightarrow> duration" where
  "current_interval t =
     (case at_state t of
        KaNormal \<Rightarrow> ac_base_interval (at_config t)
      | KaStable \<Rightarrow> ac_stable_interval (at_config t)
      | KaUnstable \<Rightarrow> ac_unstable_interval (at_config t))"

definition AdaptivePingTracker_record_ping ::
    "instant \<Rightarrow> instant \<Rightarrow> AdaptivePingTracker \<Rightarrow> u64 \<times> AdaptivePingTracker" where
  "AdaptivePingTracker_record_ping now now' t =
     (let id = at_next_id t
      in (id, t\<lparr>at_next_id := id + 1, at_outstanding := hm_insert id now (at_outstanding t),
                at_last_ping_sent := Some now'\<rparr>))"

definition AdaptivePingTracker_record_pong :: "u64 \<Rightarrow> AdaptivePingTracker \<Rightarrow> bool \<times> AdaptivePingTracker" where
  "AdaptivePingTracker_record_pong ping_id t =
     (case hm_get (at_outstanding t) ping_id of
        Some _ \<Rightarrow>
          let t = t\<lparr>at_outstanding := hm_remove ping_id (at_outstanding t), at_missed_count := 0,
                at_consecutive_pongs := at_consecutive_pongs t + 1\<rparr>;
              t = (if at_state t = KaUnstable then t\<lparr>at_state := KaNormal\<rparr> else t);
              t = (if at_state t = KaNormal \<and> ac_stable_threshold (at_config t) \<le> at_consecutive_pongs t
                   then t\<lparr>at_state := KaStable\<rparr> else t)
          in (True, t)
      | None \<Rightarrow> (False, t))"

definition AdaptivePingTracker_check_timeouts ::
    "((u64, instant) hash_map \<Rightarrow> (u64 \<times> instant) list) \<Rightarrow> instant \<Rightarrow> AdaptivePingTracker \<Rightarrow>
     bool \<times> AdaptivePingTracker" where
  "AdaptivePingTracker_check_timeouts ord now t =
     (let timed_out = timed_out_ids ord now (ac_timeout (at_config t)) (at_outstanding t);
          any_timed_out = (timed_out \<noteq> []);
          t = fold (\<lambda>id t. t\<lparr>at_outstanding := hm_remove id (at_outstanding t),
                at_missed_count := at_missed_count t + 1\<rparr>) timed_out t;
          t = (if any_timed_out then t\<lparr>at_consecutive_pongs := 0, at_state := KaUnstable\<rparr> else t)
      in (ac_max_missed (at_config t) \<le> at_missed_count t, t))"

definition AdaptivePingTracker_should_ping :: "instant \<Rightarrow> AdaptivePingTracker \<Rightarrow> bool" where
  "AdaptivePingTracker_should_ping now t \<longleftrightarrow>
     (case at_last_ping_sent t of
        None \<Rightarrow> True
      | Some sent \<Rightarrow> current_interval t \<le> now - sent)"

definition AdaptivePingTracker_outstanding_count :: "AdaptivePingTracker \<Rightarrow> nat" where
  "AdaptivePingTracker_outstanding_count t = hm_len (at_outstanding t)"

section \<open>Runs and what happens to each ping\<close>

datatype ping_event =
    EvPing instant instant
  | EvPong u64
  | EvCheck "(u64, instant) hash_map \<Rightarrow> (u64 \<times> instant) list" instant

datatype ping_fate = Sent u64 | Answered u64 | Ignored u64 | Missed nat

type_synonym 't ping_ops =
  "(instant \<Rightarrow> instant \<Rightarrow> 't \<Rightarrow> u64 \<times> 't) \<times> (u64 \<Rightarrow> 't \<Rightarrow> bool \<times> 't) \<times>
   (((u64, instant) hash_map \<Rightarrow> (u64 \<times> instant) list) \<Rightarrow> instant \<Rightarrow> 't \<Rightarrow> bool \<times> 't) \<times>
   ('t \<Rightarrow> (u64, instant) hash_map)"

definition PingTracker_ops :: "PingTracker ping_ops" where
  "PingTracker_ops = (PingTracker_record_ping, PingTracker_record_pong, PingTracker_check_timeouts,
     pt_outstanding)"

definition AdaptivePingTracker_ops :: "AdaptivePingTracker ping_ops" where
  "AdaptivePingTracker_ops = (AdaptivePingTracker_record_ping, AdaptivePingTracker_record_pong,
     AdaptivePingTracker_check_timeouts, at_outstanding)"

fun ping_step :: "'t ping_ops \<Rightarrow> ping_event \<Rightarrow> 't \<Rightarrow> 't" where
  "ping_step (ping, pong, check, outst) (EvPing now now') t = snd (ping now now' t)"
| "ping_step (ping, pong, check, outst) (EvPong i) t = snd (pong i t)"
| "ping_step (ping, pong, check, outst) (EvCheck ord now) t = snd (check ord now t)"

fun ping_outcome :: "'t ping_ops \<Rightarrow> ping_event \<Rightarrow> 't \<Rightarrow> ping_fate" where
  "ping_outcome (ping, pong, check, outst) (EvPing now now') t = Sent (fst (ping now now' t))"
| "ping_outcome (ping, pong, check, outst) (EvPong i) t = (if fst (pong i t) then Answered i else Ignored i)"
| "ping_outcome (ping, pong, check, outst) (EvCheck ord now) t =
     Missed (hm_len (outst t) - hm_len (outst (snd (check ord now t))))"

fun ping_log :: "'t ping_ops \<Rightarrow> ping_event list \<Rightarrow> 't \<Rightarrow> ping_fate list" where
  "ping_log ops [] t = []"
| "ping_log ops (e # es) t = ping_outcome ops e t # ping_log ops es (ping_step ops e t)"

definition sent_ids :: "ping_fate list \<Rightarrow> u64 list" where
  "sent_ids l = [i. Sent i \<leftarrow> l]"

definition answered_ids :: "ping_fate list \<Rightarrow> u64 list" where
  "answered_ids l = [i. Answered i \<leftarrow> l]"

definition missed_total :: "ping_fate list \<Rightarrow> nat" where
  "missed_total l = sum_list [n. Missed n \<leftarrow> l]"

text \<open>Misses since the last answer, and answers since the last miss.\<close>

definition missed_since :: "ping_fate list \<Rightarrow> nat" where
  "missed_since l = fold (\<lambda>x n. case x of Answered _ \<Rightarrow> 0 | Missed k \<Rightarrow> n + k | _ \<Rightarrow> n) l 0"

definition answered_since :: "ping_fate list \<Rightarrow> nat" where
  "answered_since l =
     fold (\<lambda>x n. case x of Answered _ \<Rightarrow> n + 1 | Missed k \<Rightarrow> if k = 0 then n else 0 | _ \<Rightarrow> n) l 0"

fun event_ok :: "ping_event \<Rightarrow> bool" where
  "event_ok (EvCheck ord now) = iteration_order ord"
| "event_ok _ = True"

lemma ping_log_append:
  "ping_log ops (es @ fs) t = ping_log ops es t @ ping_log ops fs (fold (ping_step ops) es t)"
  by (induction es arbitrary: t) simp_all

lemma log_snoc [simp]:
  "sent_ids (l @ [x]) = sent_ids l @ (case x of Sent i \<Rightarrow> [i] | _ \<Rightarrow> [])"
  "answered_ids (l @ [x]) = answered_ids l @ (case x of Answered i \<Rightarrow> [i] | _ \<Rightarrow> [])"
  "missed_total (l @ [x]) = missed_total l + (case x of Missed n \<Rightarrow> n | _ \<Rightarrow> 0)"
  "missed_since (l @ [x]) = (case x of Answered _ \<Rightarrow> 0 | Missed k \<Rightarrow> missed_since l + k | _ \<Rightarrow> missed_since l)"
  "answered_since (l @ [x]) = (case x of Answered _ \<Rightarrow> answered_since l + 1
     | Missed k \<Rightarrow> if k = 0 then answered_since l else 0 | _ \<Rightarrow> answered_since l)"
  by (simp_all add: sent_ids_def answered_ids_def missed_total_def missed_since_def answered_since_def
      split: ping_fate.splits)

lemma log_Nil [simp]:
  "sent_ids [] = []" "answered_ids [] = []" "missed_total [] = 0" "missed_since [] = 0"
  "answered_since [] = 0"
  by (simp_all add: sent_ids_def answered_ids_def missed_total_def missed_since_def answered_since_def)

lemma log_append:
  "sent_ids (l @ k) = sent_ids l @ sent_ids k"
  "answered_ids (l @ k) = answered_ids l @ answered_ids k"
  "missed_total (l @ k) = missed_total l + missed_total k"
  by (simp_all add: sent_ids_def answered_ids_def missed_total_def)

lemma missed_since_silent:
  "answered_ids k = [] \<Longrightarrow> missed_since (l @ k) = missed_since l + missed_total k"
proof (induction k rule: rev_induct)
  case (snoc x k)
  then show ?case
    using log_snoc(4) [of "l @ k" x] by (cases x) simp_all
qed simp

text \<open>The ids of the first \<open>n\<close> pings.\<close>

definition issued :: "nat \<Rightarrow> u64 list" where
  "issued n = map of_nat [1..<n + 1]"

lemma issued_simps [simp]: "issued 0 = []" "issued (Suc n) = issued n @ [of_nat (Suc n)]"
  by (simp_all add: issued_def)

text \<open>Accounting of a run with log \<open>l\<close>: outstanding pings \<open>m\<close>, missed counter and next id.\<close>

definition ping_inv :: "(u64, instant) hash_map \<Rightarrow> u32 \<Rightarrow> u64 \<Rightarrow> ping_fate list \<Rightarrow> bool" where
  "ping_inv m mc nid l \<longleftrightarrow>
     hm_ok m \<and> nid = of_nat (Suc (length (sent_ids l))) \<and>
     sent_ids l = issued (length (sent_ids l)) \<and>
     (\<forall>k. hm_get m k \<noteq> None \<longrightarrow> k \<in> set (sent_ids l)) \<and>
     set (answered_ids l) \<subseteq> set (sent_ids l) \<and>
     (\<forall>k \<in> set (answered_ids l). hm_get m k = None) \<and> distinct (answered_ids l) \<and>
     length (answered_ids l) + missed_total l + hm_len m = length (sent_ids l) \<and>
     mc = of_nat (missed_since l)"

lemma fresh_id:
  assumes "n < 2 ^ 64 - 1"
  shows "(of_nat (Suc n) :: u64) \<notin> set (issued n)"
proof
  assume "(of_nat (Suc n) :: u64) \<in> set (issued n)"
  then obtain k where k: "k < Suc n" "(of_nat (Suc n) :: u64) = of_nat k"
    unfolding issued_def set_map set_upt by auto
  then have "unat (of_nat (Suc n) :: u64) = unat (of_nat k :: u64)" by simp
  with k(1) assms show False by (simp add: unat_of_nat del: of_nat_Suc)
qed

lemma ping_inv_ping:
  assumes "ping_inv m mc nid l" "length (sent_ids l) < 2 ^ 64 - 1"
  shows "ping_inv (hm_insert nid a m) mc (nid + 1) (l @ [Sent nid])"
proof -
  have "nid \<notin> set (sent_ids l)"
    using assms fresh_id [of "length (sent_ids l)"] unfolding ping_inv_def by metis
  then have "hm_get m nid = None" "nid \<notin> set (answered_ids l)"
    using assms(1) unfolding ping_inv_def by blast+
  then show ?thesis
    using assms(1) by (auto simp: ping_inv_def hm.get_put hm.put_ok hm.len_put)
qed

lemma ping_inv_pong:
  assumes "ping_inv m mc nid l" "hm_get m i \<noteq> None"
  shows "ping_inv (hm_remove i m) 0 nid (l @ [Answered i])"
proof -
  have "0 < hm_len m" using assms(2) by (rule hm.len_pos)
  then show ?thesis
    using assms by (auto simp: ping_inv_def hm.get_del hm.del_ok hm.len_del)
qed

lemma ping_inv_check:
  assumes "ping_inv m mc nid l" "distinct ks" "\<forall>k \<in> set ks. hm_get m k \<noteq> None"
  shows "ping_inv (fold hm_remove ks m) (mc + of_nat (length ks)) nid (l @ [Missed (length ks)])"
  using assms hm.len_del_all [of m ks]
  by (auto simp: ping_inv_def hm.get_del_all hm.del_all_ok)

lemma ping_inv_ignored: "ping_inv m mc nid l \<Longrightarrow> ping_inv m mc nid (l @ [Ignored i])"
  by (simp add: ping_inv_def)

lemma ping_inv_start: "ping_inv [] 0 1 []"
  by (simp add: ping_inv_def)

lemma hm_remove_filter: "hm_remove i m = filter (\<lambda>(k, _). k \<noteq> i) m"
  by (auto simp: hm_remove_def AList.delete_eq intro!: filter_cong)

lemma remove_all_filter: "fold hm_remove ks m = filter (\<lambda>(k, _). k \<notin> set ks) m"
  by (induction ks arbitrary: m) (auto simp: hm_remove_filter case_prod_beta intro!: filter_cong)

lemma missed_since_le: "missed_since l \<le> missed_total l"
proof (induction l rule: rev_induct)
  case (snoc x l)
  then show ?case by (cases x) simp_all
qed simp

text \<open>
  What it means that pings are missed, from the events alone, without a tracker: how many pings were sent, those that wait for an answer, each
  with its id and the time it was sent, and the number of missed ones. The \<open>n\<close>-th ping has the id \<open>n\<close>. A PONG for a
  waiting ping answers it, and the count starts again from zero; any other PONG is without effect. A check counts as missed
  the waiting pings that were sent more than the timeout \<open>d\<close> ago, and no others.
\<close>

fun spec_step :: "duration \<Rightarrow> ping_event \<Rightarrow> nat \<times> (u64 \<times> instant) list \<times> nat \<Rightarrow> nat \<times> (u64 \<times> instant) list \<times> nat" where
  "spec_step d (EvPing sent _) (n, waiting, missed) = (Suc n, waiting @ [(of_nat (Suc n), sent)], missed)"
| "spec_step d (EvPong i) (n, waiting, missed) =
     (if i \<in> fst ` set waiting then (n, filter (\<lambda>(k, _). k \<noteq> i) waiting, 0) else (n, waiting, missed))"
| "spec_step d (EvCheck _ now) (n, waiting, missed) =
     (n, filter (\<lambda>(_, sent). now \<le> sent + d) waiting, missed + length (filter (\<lambda>(_, sent). sent + d < now) waiting))"

definition missed_pings :: "duration \<Rightarrow> ping_event list \<Rightarrow> nat" where
  "missed_pings d es = snd (snd (fold (spec_step d) es (0, [], 0)))"

text \<open>
  The decision of a timeout check after the events \<open>es\<close> and \<open>fs\<close>: it closes exactly when enough
  pings were missed since the last answer, this check included; and it does close when during
  \<open>fs\<close> enough pings were sent and none answered, and the timeout of all pings is over.
\<close>

fun closes_correctly ::
    "'t ping_ops \<Rightarrow> 't \<Rightarrow> u32 \<Rightarrow> duration \<Rightarrow> ping_event list \<Rightarrow> ping_event list \<Rightarrow>
     ((u64, instant) hash_map \<Rightarrow> (u64 \<times> instant) list) \<Rightarrow> instant \<Rightarrow> bool" where
  "closes_correctly (ping, pong, check, outst) t maxm d es fs ord now \<longleftrightarrow>
     (let ops = (ping, pong, check, outst);
          u = fold (ping_step ops) (es @ fs) t;
          k = ping_log ops fs (fold (ping_step ops) es t)
      in (fst (check ord now u) \<longleftrightarrow> unat maxm \<le> missed_pings d (es @ fs @ [EvCheck ord now])) \<and>
         (answered_ids k = [] \<and> unat maxm \<le> length (sent_ids k) \<and>
            (\<forall>a b. EvPing a b \<in> set (es @ fs) \<longrightarrow> a + d < now) \<longrightarrow> fst (check ord now u)))"

section \<open>The contract of a tracker\<close>

locale ping_tracker =
  fixes ping :: "instant \<Rightarrow> instant \<Rightarrow> 't \<Rightarrow> u64 \<times> 't"
    and pong :: "u64 \<Rightarrow> 't \<Rightarrow> bool \<times> 't"
    and check :: "((u64, instant) hash_map \<Rightarrow> (u64 \<times> instant) list) \<Rightarrow> instant \<Rightarrow> 't \<Rightarrow> bool \<times> 't"
    and outst :: "'t \<Rightarrow> (u64, instant) hash_map"
    and missed :: "'t \<Rightarrow> u32"
    and next_id :: "'t \<Rightarrow> u64"
    and timeout :: "'t \<Rightarrow> duration"
    and max_missed :: "'t \<Rightarrow> u32"
  assumes ping_id: "fst (ping a b t) = next_id t"
    and ping_state:
      "outst (snd (ping a b t)) = hm_insert (next_id t) a (outst t)"
      "next_id (snd (ping a b t)) = next_id t + 1" "missed (snd (ping a b t)) = missed t"
      "timeout (snd (ping a b t)) = timeout t" "max_missed (snd (ping a b t)) = max_missed t"
    and pong_accept: "fst (pong i t) \<longleftrightarrow> hm_get (outst t) i \<noteq> None"
    and pong_state:
      "outst (snd (pong i t)) = (if hm_get (outst t) i = None then outst t else hm_remove i (outst t))"
      "missed (snd (pong i t)) = (if hm_get (outst t) i = None then missed t else 0)"
      "next_id (snd (pong i t)) = next_id t"
      "timeout (snd (pong i t)) = timeout t" "max_missed (snd (pong i t)) = max_missed t"
    and check_state:
      "outst (snd (check ord now t)) = fold hm_remove (timed_out_ids ord now (timeout t) (outst t)) (outst t)"
      "missed (snd (check ord now t)) =
         missed t + of_nat (length (timed_out_ids ord now (timeout t) (outst t)))"
      "next_id (snd (check ord now t)) = next_id t"
      "timeout (snd (check ord now t)) = timeout t" "max_missed (snd (check ord now t)) = max_missed t"
    and check_result: "fst (check ord now t) \<longleftrightarrow> max_missed t \<le> missed (snd (check ord now t))"
begin

lemmas op_states = ping_state pong_state check_state

lemma run_params:
  "timeout (fold (ping_step (ping, pong, check, outst)) es t) = timeout t"
  "max_missed (fold (ping_step (ping, pong, check, outst)) es t) = max_missed t"
proof (induction es arbitrary: t)
  case (Cons e es)
  { case 1 show ?case using Cons by (cases e) (simp_all add: op_states) }
  { case 2 show ?case using Cons by (cases e) (simp_all add: op_states) }
qed simp_all

lemma timed_out_facts:
  assumes "iteration_order ord" "hm_ok m"
  shows "distinct (timed_out_ids ord now d m)" "\<forall>k \<in> set (timed_out_ids ord now d m). hm_get m k \<noteq> None"
    "hm_len (fold hm_remove (timed_out_ids ord now d m) m) + length (timed_out_ids ord now d m) = hm_len m"
proof -
  show d: "distinct (timed_out_ids ord now d m)"
    unfolding timed_out_ids_def
    by (rule distinct_map_filter) (rule iteration_order_distinct [OF assms])
  show k: "\<forall>k \<in> set (timed_out_ids ord now d m). hm_get m k \<noteq> None"
    using assms by (auto simp: timed_out_ids_def iteration_order_set hm_get_iff [symmetric])
  show "hm_len (fold hm_remove (timed_out_ids ord now d m) m) + length (timed_out_ids ord now d m) = hm_len m"
    by (rule hm.len_del_all [OF assms(2) d k])
qed

lemma check_missed:
  assumes "iteration_order ord" "hm_ok (outst t)"
  shows "ping_outcome (ping, pong, check, outst) (EvCheck ord now) t =
    Missed (length (timed_out_ids ord now (timeout t) (outst t)))"
  using timed_out_facts(3) [OF assms, of now "timeout t"] by (simp add: check_state)

lemma inv_step:
  assumes "ping_inv (outst t) (missed t) (next_id t) l" and "event_ok e"
    and "length (sent_ids (l @ [ping_outcome (ping, pong, check, outst) e t])) < 2 ^ 64"
  shows "ping_inv (outst (ping_step (ping, pong, check, outst) e t))
    (missed (ping_step (ping, pong, check, outst) e t)) (next_id (ping_step (ping, pong, check, outst) e t))
    (l @ [ping_outcome (ping, pong, check, outst) e t])"
proof (cases e)
  case (EvPing a b)
  then show ?thesis using ping_inv_ping [OF assms(1)] assms(3) by (simp add: op_states ping_id)
next
  case (EvPong i)
  then show ?thesis using ping_inv_pong [OF assms(1), of i] ping_inv_ignored [OF assms(1), of i]
    by (auto simp: op_states pong_accept)
next
  case (EvCheck ord now)
  then have o: "iteration_order ord" "hm_ok (outst t)" using assms by (simp_all add: ping_inv_def)
  show ?thesis
    using ping_inv_check [OF assms(1) timed_out_facts(1,2) [OF o]] check_missed [OF o, of now]
    by (simp add: EvCheck op_states)
qed

lemma inv_run:
  assumes "outst t = []" "missed t = 0" "next_id t = 1" and "\<forall>e \<in> set es. event_ok e"
    and "length (sent_ids (ping_log (ping, pong, check, outst) es t)) < 2 ^ 64"
  shows "ping_inv (outst (fold (ping_step (ping, pong, check, outst)) es t))
    (missed (fold (ping_step (ping, pong, check, outst)) es t))
    (next_id (fold (ping_step (ping, pong, check, outst)) es t))
    (ping_log (ping, pong, check, outst) es t)"
  using assms(4,5)
proof (induction es rule: rev_induct)
  case Nil
  then show ?case using assms ping_inv_start by simp
next
  case (snoc e es)
  let ?l = "ping_log (ping, pong, check, outst) es t" and ?t = "fold (ping_step (ping, pong, check, outst)) es t"
  have l: "ping_log (ping, pong, check, outst) (es @ [e]) t = ?l @ [ping_outcome (ping, pong, check, outst) e ?t]"
    by (simp add: ping_log_append)
  have inv: "ping_inv (outst ?t) (missed ?t) (next_id ?t) ?l" using snoc by (simp add: l)
  show ?case using inv_step [OF inv, of e] snoc.prems by (simp add: l)
qed

lemma spec_check:
  assumes "iteration_order ord" "hm_ok m"
  shows "fold hm_remove (timed_out_ids ord now d m) m = filter (\<lambda>(_, sent). now \<le> sent + d) m"
    "length (timed_out_ids ord now d m) = length (filter (\<lambda>(_, sent). sent + d < now) m)"
proof -
  have late: "d < now - v \<longleftrightarrow> v + d < now" for v :: nat by linarith
  have "k \<in> set (timed_out_ids ord now d m) \<longleftrightarrow> (\<exists>v. (k, v) \<in> set m \<and> v + d < now)" for k
    unfolding timed_out_ids_def by (force simp: iteration_order_set [OF assms(1)] late)
  moreover have "w = v" if "(k, v) \<in> set m" "(k, w) \<in> set m" for k v w
    using that eq_key_imp_eq_value assms(2) unfolding hm_ok_def by metis
  ultimately have "k \<in> set (timed_out_ids ord now d m) \<longleftrightarrow> v + d < now" if "(k, v) \<in> set m" for k v
    using that by blast
  then show "fold hm_remove (timed_out_ids ord now d m) m = filter (\<lambda>(_, sent). now \<le> sent + d) m"
    unfolding remove_all_filter by (intro filter_cong refl) (auto simp: not_less)
  have "size (filter_mset (\<lambda>(_, sent). sent + d < now) (mset (ord m))) = size (filter_mset (\<lambda>(_, sent). sent + d < now) (mset m))"
    using assms(1) by (simp add: iteration_order_def)
  then show "length (timed_out_ids ord now d m) = length (filter (\<lambda>(_, sent). sent + d < now) m)"
    by (simp add: timed_out_ids_def late flip: mset_filter)
qed

lemma spec_ping_step:
  assumes inv: "ping_inv (outst t) (missed t) (next_id t) l" and "event_ok e"
    and few: "length (sent_ids (l @ [ping_outcome (ping, pong, check, outst) e t])) < 2 ^ 64"
  shows "spec_step (timeout t) e (length (sent_ids l), outst t, missed_since l) =
    (length (sent_ids (l @ [ping_outcome (ping, pong, check, outst) e t])),
     outst (ping_step (ping, pong, check, outst) e t), missed_since (l @ [ping_outcome (ping, pong, check, outst) e t]))"
proof (cases e)
  case (EvPing a b)
  have n: "next_id t = of_nat (Suc (length (sent_ids l)))" using inv by (simp add: ping_inv_def)
  moreover have "length (sent_ids l) < 2 ^ 64 - 1" using few EvPing by simp
  ultimately have "next_id t \<notin> set (sent_ids l)"
    using inv fresh_id [of "length (sent_ids l)"] unfolding ping_inv_def by metis
  then have "hm_get (outst t) (next_id t) = None" using inv unfolding ping_inv_def by blast
  then have "hm_insert (next_id t) a (outst t) = outst t @ [(next_id t, a)]"
    by (intro hm_insert_fresh) (simp add: hm_get_def map_of_eq_None_iff)
  then show ?thesis using EvPing n by (simp add: ping_state)
next
  case (EvPong i)
  then show ?thesis
    by (auto simp: pong_state pong_accept hm_get_def map_of_eq_None_iff hm_remove_filter)
next
  case (EvCheck ord now)
  then have o: "iteration_order ord" "hm_ok (outst t)" using assms by (simp_all add: ping_inv_def)
  show ?thesis
    using check_missed [OF o, of now] spec_check [OF o, of now "timeout t"] EvCheck by (simp add: check_state)
qed

lemma spec_run:
  assumes start: "outst t = []" "missed t = 0" "next_id t = 1" and "\<forall>e \<in> set es. event_ok e"
    and "length (sent_ids (ping_log (ping, pong, check, outst) es t)) < 2 ^ 64"
  shows "fold (spec_step (timeout t)) es (0, [], 0) =
    (length (sent_ids (ping_log (ping, pong, check, outst) es t)), outst (fold (ping_step (ping, pong, check, outst)) es t),
     missed_since (ping_log (ping, pong, check, outst) es t))"
  using assms(4,5)
proof (induction es rule: rev_induct)
  case (snoc e es)
  let ?l = "ping_log (ping, pong, check, outst) es t" and ?t = "fold (ping_step (ping, pong, check, outst)) es t"
  have l: "ping_log (ping, pong, check, outst) (es @ [e]) t = ?l @ [ping_outcome (ping, pong, check, outst) e ?t]"
    by (simp add: ping_log_append)
  have "length (sent_ids ?l) < 2 ^ 64" using snoc.prems(2) by (simp add: l)
  moreover from this have "ping_inv (outst ?t) (missed ?t) (next_id ?t) ?l" using start snoc.prems(1) by (intro inv_run) simp_all
  ultimately show ?case
    using spec_ping_step [of ?t ?l e] snoc run_params(1) [of es t] by (simp add: l del: log_snoc)
qed (simp add: start)

lemma outstanding_times:
  assumes "\<forall>v \<in> ran (hm_get (outst t)). P v" and "\<forall>a b. EvPing a b \<in> set es \<longrightarrow> P a"
  shows "\<forall>v \<in> ran (hm_get (outst (fold (ping_step (ping, pong, check, outst)) es t))). P v"
  using assms
proof (induction es arbitrary: t)
  case (Cons e es)
  have "\<forall>v \<in> ran (hm_get (outst (ping_step (ping, pong, check, outst) e t))). P v"
  proof (cases e)
    case (EvPing a b)
    then have "P a" using Cons.prems(2) by simp
    then show ?thesis using EvPing Cons.prems(1) ran_insert [of "next_id t" a "outst t"]
      by (auto simp: ping_state)
  next
    case (EvPong i)
    then show ?thesis using Cons.prems(1) ran_remove [of i "outst t"] by (auto simp: pong_state)
  next
    case (EvCheck ord now)
    then show ?thesis using Cons.prems(1)
        ran_remove_all [of "timed_out_ids ord now (timeout t) (outst t)" "outst t"]
      by (auto simp: check_state)
  qed
  then show ?case unfolding fold.simps comp_apply by (rule Cons.IH) (use Cons.prems(2) in auto)
qed simp

lemma check_decides:
  assumes "ping_inv (outst t) (missed t) (next_id t) l" and "iteration_order ord"
  shows "fst (check ord now t) \<longleftrightarrow>
    max_missed t \<le> of_nat (missed_since (l @ [ping_outcome (ping, pong, check, outst) (EvCheck ord now) t]))"
proof -
  have "hm_ok (outst t)" "missed t = of_nat (missed_since l)" using assms(1) by (simp_all add: ping_inv_def)
  then show ?thesis
    using check_missed [OF assms(2), of t now] by (simp add: check_result check_state)
qed

lemma all_timed_out:
  assumes "hm_ok (outst t)" "iteration_order ord"
    and "\<forall>v \<in> ran (hm_get (outst t)). v + timeout t < now"
  shows "ping_outcome (ping, pong, check, outst) (EvCheck ord now) t = Missed (hm_len (outst t))"
proof -
  have "timeout t < now - snd e" if "e \<in> set (ord (outst t))" for e
  proof -
    have "hm_get (outst t) (fst e) = Some (snd e)"
      using that assms(1,2) by (simp add: iteration_order_set hm_get_iff)
    then have "snd e + timeout t < now" using assms(3) by (auto simp: ran_def)
    then show ?thesis by linarith
  qed
  then have "timed_out_ids ord now (timeout t) (outst t) = map fst (ord (outst t))"
    unfolding timed_out_ids_def by (auto intro!: arg_cong [where f = "map fst"] simp: filter_id_conv)
  then show ?thesis
    using check_missed [OF assms(2,1), of now] iteration_order_length [OF assms(2)]
    by (simp add: hm_len_def)
qed

lemma silent_detected:
  assumes start: "outst t = []" "missed t = 0" "next_id t = 1"
    and ok: "\<forall>e \<in> set (es @ fs). event_ok e" "iteration_order ord"
    and few: "length (sent_ids (ping_log (ping, pong, check, outst) (es @ fs) t)) < 2 ^ 32"
    and silent: "answered_ids (ping_log (ping, pong, check, outst) fs
      (fold (ping_step (ping, pong, check, outst)) es t)) = []"
    and many: "unat (max_missed t) \<le> length (sent_ids (ping_log (ping, pong, check, outst) fs
      (fold (ping_step (ping, pong, check, outst)) es t)))"
    and times: "\<forall>a b. EvPing a b \<in> set (es @ fs) \<longrightarrow> a + timeout t < now"
  shows "fst (check ord now (fold (ping_step (ping, pong, check, outst)) (es @ fs) t))"
proof -
  define ops where "ops = (ping, pong, check, outst)"
  define s u where "s = fold (ping_step ops) es t" and "u = fold (ping_step ops) (es @ fs) t"
  define l k where "l = ping_log ops es t" and "k = ping_log ops fs s"
  have lk: "ping_log ops (es @ fs) t = l @ k" by (simp add: l_def k_def s_def ping_log_append)
  note unfold = ops_def [symmetric] s_def [symmetric] u_def [symmetric] l_def [symmetric] k_def [symmetric] lk
  have inv: "ping_inv (outst u) (missed u) (next_id u) (l @ k)"
    using inv_run [OF start ok(1)] few unfolding unfold by simp
  have inv0: "ping_inv (outst s) (missed s) (next_id s) l"
    using inv_run [OF start, of es] ok(1) few unfolding unfold by (simp add: log_append)
  have ps: "timeout u = timeout t" "max_missed u = max_missed t"
    unfolding u_def ops_def by (rule run_params)+
  have "\<forall>v \<in> ran (hm_get (outst t)). v + timeout t < now" using start(1) by (simp add: ran_def)
  from outstanding_times [OF this times] have "\<forall>v \<in> ran (hm_get (outst u)). v + timeout t < now"
    unfolding unfold .
  then have o: "ping_outcome ops (EvCheck ord now) u = Missed (hm_len (outst u))"
    using inv ok(2) unfolding ops_def
    by (intro all_timed_out) (simp_all add: ping_inv_def ps)
  let ?m = "missed_since (l @ k) + hm_len (outst u)"
  have q: "answered_ids k = []" using silent unfolding unfold .
  have "missed_since (l @ k) = missed_since l + missed_total k" using q by (rule missed_since_silent)
  moreover have "length (answered_ids l) + (missed_total l + missed_total k) + hm_len (outst u) =
      length (sent_ids l) + length (sent_ids k)"
    "length (answered_ids l) + missed_total l + hm_len (outst s) = length (sent_ids l)"
    using inv inv0 q by (simp_all add: ping_inv_def log_append)
  moreover have "unat (max_missed t) \<le> length (sent_ids k)"
    "length (sent_ids l) + length (sent_ids k) < 2 ^ 32"
    using many few unfolding unfold by (simp_all add: log_append)
  ultimately have "unat (max_missed t) \<le> ?m" "?m < 2 ^ 32"
    using missed_since_le [of l] by linarith+
  then have "max_missed u \<le> of_nat ?m" by (simp add: ps word_le_nat_alt unat_of_nat del: of_nat_add)
  moreover have "missed_since ((l @ k) @ [Missed (hm_len (outst u))]) = ?m"
    by (simp only: log_snoc ping_fate.case)
  ultimately show ?thesis
    using check_decides [OF inv ok(2), of now] unfolding unfold o by simp
qed

lemma closes:
  assumes "outst t = []" "missed t = 0" "next_id t = 1"
    and "\<forall>e \<in> set (es @ fs). event_ok e" "iteration_order ord"
    and "length (sent_ids (ping_log (ping, pong, check, outst) (es @ fs) t)) < 2 ^ 32"
  shows "closes_correctly (ping, pong, check, outst) t (max_missed t) (timeout t) es fs ord now"
proof -
  define ops where "ops = (ping, pong, check, outst)"
  define u where "u = fold (ping_step ops) (es @ fs) t"
  define l where "l = ping_log ops (es @ fs) t"
  note unfold = ops_def [symmetric] u_def [symmetric] l_def [symmetric]
  have inv: "ping_inv (outst u) (missed u) (next_id u) l"
    using inv_run [OF assms(1-4)] assms(6) unfolding unfold by simp
  then have o: "ping_outcome ops (EvCheck ord now) u =
      Missed (length (timed_out_ids ord now (timeout u) (outst u)))" and
    le: "length (timed_out_ids ord now (timeout u) (outst u)) \<le> hm_len (outst u)"
    using check_missed [OF assms(5), of u] timed_out_facts(3) [OF assms(5), of "outst u" now "timeout u"]
    unfolding ops_def by (simp_all add: ping_inv_def)
  have "missed_since (l @ [ping_outcome ops (EvCheck ord now) u]) < 2 ^ 32"
    using inv le missed_since_le [of l] assms(6) unfolding unfold by (simp add: o ping_inv_def)
  then have d: "fst (check ord now u) \<longleftrightarrow>
      unat (max_missed t) \<le> missed_since (l @ [ping_outcome ops (EvCheck ord now) u])"
    using check_decides [OF inv assms(5), of now] run_params(2) [of "es @ fs" t] unfolding unfold
    by (simp add: word_le_nat_alt unat_of_nat del: log_snoc)
  have k: "ping_log ops (es @ fs @ [EvCheck ord now]) t = l @ [ping_outcome ops (EvCheck ord now) u]"
    using ping_log_append [of ops "es @ fs" "[EvCheck ord now]" t] by (simp add: l_def u_def)
  have "length (sent_ids l) < 2 ^ 64" using assms(6) unfolding unfold by simp
  then have "length (sent_ids (ping_log ops (es @ fs @ [EvCheck ord now]) t)) < 2 ^ 64" unfolding k by (simp add: o)
  then have "missed_pings (timeout t) (es @ fs @ [EvCheck ord now]) = missed_since (l @ [ping_outcome ops (EvCheck ord now) u])"
    using spec_run [OF assms(1-3), of "es @ fs @ [EvCheck ord now]"] assms(4,5) k
    unfolding missed_pings_def unfold by simp
  with d have "fst (check ord now u) \<longleftrightarrow> unat (max_missed t) \<le> missed_pings (timeout t) (es @ fs @ [EvCheck ord now])" by simp
  then show ?thesis
    using silent_detected [OF assms] unfolding closes_correctly.simps Let_def
    unfolding unfold by blast
qed

end

section \<open>The two trackers\<close>

lemma PingTracker_expire:
  "pt_outstanding (fold (\<lambda>id t. t\<lparr>pt_outstanding := hm_remove id (pt_outstanding t),
     pt_missed_count := pt_missed_count t + 1\<rparr>) ids t) = fold hm_remove ids (pt_outstanding t)"
  "pt_missed_count (fold (\<lambda>id t. t\<lparr>pt_outstanding := hm_remove id (pt_outstanding t),
     pt_missed_count := pt_missed_count t + 1\<rparr>) ids t) = pt_missed_count t + of_nat (length ids)"
  "pt_next_id (fold (\<lambda>id t. t\<lparr>pt_outstanding := hm_remove id (pt_outstanding t),
     pt_missed_count := pt_missed_count t + 1\<rparr>) ids t) = pt_next_id t"
  "pt_config (fold (\<lambda>id t. t\<lparr>pt_outstanding := hm_remove id (pt_outstanding t),
     pt_missed_count := pt_missed_count t + 1\<rparr>) ids t) = pt_config t"
  by (induction ids arbitrary: t) simp_all

interpretation plain_tracker: ping_tracker PingTracker_record_ping PingTracker_record_pong
  PingTracker_check_timeouts pt_outstanding pt_missed_count pt_next_id
  "\<lambda>t. kc_timeout (pt_config t)" "\<lambda>t. kc_max_missed (pt_config t)"
  by unfold_locales
    (simp_all add: PingTracker_record_ping_def PingTracker_record_pong_def
      PingTracker_check_timeouts_def PingTracker_expire Let_def split: option.split)

lemma AdaptivePingTracker_expire:
  "at_outstanding (fold (\<lambda>id t. t\<lparr>at_outstanding := hm_remove id (at_outstanding t),
     at_missed_count := at_missed_count t + 1\<rparr>) ids t) = fold hm_remove ids (at_outstanding t)"
  "at_missed_count (fold (\<lambda>id t. t\<lparr>at_outstanding := hm_remove id (at_outstanding t),
     at_missed_count := at_missed_count t + 1\<rparr>) ids t) = at_missed_count t + of_nat (length ids)"
  "at_next_id (fold (\<lambda>id t. t\<lparr>at_outstanding := hm_remove id (at_outstanding t),
     at_missed_count := at_missed_count t + 1\<rparr>) ids t) = at_next_id t"
  "at_config (fold (\<lambda>id t. t\<lparr>at_outstanding := hm_remove id (at_outstanding t),
     at_missed_count := at_missed_count t + 1\<rparr>) ids t) = at_config t"
  "at_state (fold (\<lambda>id t. t\<lparr>at_outstanding := hm_remove id (at_outstanding t),
     at_missed_count := at_missed_count t + 1\<rparr>) ids t) = at_state t"
  "at_consecutive_pongs (fold (\<lambda>id t. t\<lparr>at_outstanding := hm_remove id (at_outstanding t),
     at_missed_count := at_missed_count t + 1\<rparr>) ids t) = at_consecutive_pongs t"
  by (induction ids arbitrary: t) simp_all

interpretation adaptive_tracker: ping_tracker AdaptivePingTracker_record_ping
  AdaptivePingTracker_record_pong AdaptivePingTracker_check_timeouts at_outstanding at_missed_count
  at_next_id "\<lambda>t. ac_timeout (at_config t)" "\<lambda>t. ac_max_missed (at_config t)"
  by unfold_locales
    (simp_all add: AdaptivePingTracker_record_ping_def AdaptivePingTracker_record_pong_def
      AdaptivePingTracker_check_timeouts_def AdaptivePingTracker_expire Let_def split: option.split)

lemma plain_start [simp]:
  "pt_outstanding (PingTracker_new c) = []" "pt_missed_count (PingTracker_new c) = 0"
  "pt_next_id (PingTracker_new c) = 1" "pt_config (PingTracker_new c) = c"
  by (simp_all add: PingTracker_new_def)

lemma adaptive_start [simp]:
  "at_outstanding (AdaptivePingTracker_with_config c) = []"
  "at_missed_count (AdaptivePingTracker_with_config c) = 0"
  "at_next_id (AdaptivePingTracker_with_config c) = 1"
  "at_config (AdaptivePingTracker_with_config c) = c"
  by (simp_all add: AdaptivePingTracker_with_config_def)

text \<open>
  Accounting of pings, for both trackers and every sequence of pings, pongs and timeout checks
  with fewer than \<open>2^64\<close> pings: the ids are 1, 2, 3 and so on; a PONG is accepted only for
  an id that was sent, and at most once; every ping sent is answered, missed or outstanding; and
  the missed counter is the number of pings missed since the last answer.
\<close>

lemma ping_accounting:
  assumes "\<forall>e \<in> set es. event_ok e"
    and "length (sent_ids (ping_log PingTracker_ops es (PingTracker_new c))) < 2 ^ 64"
    and "length (sent_ids (ping_log AdaptivePingTracker_ops es (AdaptivePingTracker_with_config a))) < 2 ^ 64"
  shows "(let l = ping_log PingTracker_ops es (PingTracker_new c);
              t = fold (ping_step PingTracker_ops) es (PingTracker_new c)
          in ping_inv (pt_outstanding t) (pt_missed_count t) (pt_next_id t) l) \<and>
         (let l = ping_log AdaptivePingTracker_ops es (AdaptivePingTracker_with_config a);
              t = fold (ping_step AdaptivePingTracker_ops) es (AdaptivePingTracker_with_config a)
          in ping_inv (at_outstanding t) (at_missed_count t) (at_next_id t) l)"
  using assms plain_tracker.inv_run [of "PingTracker_new c" es]
    adaptive_tracker.inv_run [of "AdaptivePingTracker_with_config a" es]
  by (simp add: PingTracker_ops_def AdaptivePingTracker_ops_def Let_def)

lemma ping_accounting_example:
  "answered_ids (ping_log PingTracker_ops [EvPing 0 0, EvPong 1, EvPong 1]
       (PingTracker_new KeepAliveConfig_default)) = [1] \<and>
   distinct (answered_ids (ping_log PingTracker_ops [EvPing 0 0, EvPong 1, EvPong 1]
       (PingTracker_new KeepAliveConfig_default)))"
proof -
  let ?es = "[EvPing 0 0, EvPong 1, EvPong 1]"
  have "ping_inv (pt_outstanding (fold (ping_step PingTracker_ops) ?es (PingTracker_new KeepAliveConfig_default)))
      (pt_missed_count (fold (ping_step PingTracker_ops) ?es (PingTracker_new KeepAliveConfig_default)))
      (pt_next_id (fold (ping_step PingTracker_ops) ?es (PingTracker_new KeepAliveConfig_default)))
      (ping_log PingTracker_ops ?es (PingTracker_new KeepAliveConfig_default))"
    using ping_accounting [of ?es KeepAliveConfig_default AdaptiveKeepAliveConfig_default]
    by (simp add: Let_def sent_ids_def PingTracker_ops_def AdaptivePingTracker_ops_def)
  then have "distinct (answered_ids (ping_log PingTracker_ops ?es (PingTracker_new KeepAliveConfig_default)))"
    unfolding ping_inv_def by blast
  moreover have "answered_ids (ping_log PingTracker_ops ?es (PingTracker_new KeepAliveConfig_default)) = [1]"
    by (simp add: answered_ids_def PingTracker_ops_def PingTracker_record_ping_def
        PingTracker_record_pong_def PingTracker_new_def hm.get_put hm.get_del)
  ultimately show ?thesis by blast
qed

text \<open>
  C17. When keep-alive gives up, for both trackers and any run with fewer than \<open>2^32\<close> pings, with the iteration orders of a hash map: a
  timeout check asks to close the connection if and only if at least \<open>max_missed\<close> pings were missed since a ping was last answered
  (\<open>missed_pings\<close>): pings that at some check, the last one included, had been sent more than the timeout ago and had no answer. A peer that answers none of \<open>max_missed\<close> or more pings is detected
  by any check made when the timeout of all pings is over.
\<close>

theorem keepalive_closes:
  assumes "\<forall>e \<in> set (es @ fs). event_ok e" and "iteration_order ord"
    and "length (sent_ids (ping_log PingTracker_ops (es @ fs) (PingTracker_new c))) < 2 ^ 32"
    and "length (sent_ids (ping_log AdaptivePingTracker_ops (es @ fs) (AdaptivePingTracker_with_config a))) < 2 ^ 32"
  shows "closes_correctly PingTracker_ops (PingTracker_new c) (kc_max_missed c) (kc_timeout c) es fs ord now \<and>
    closes_correctly AdaptivePingTracker_ops (AdaptivePingTracker_with_config a) (ac_max_missed a)
      (ac_timeout a) es fs ord now"
  using assms plain_tracker.closes [of "PingTracker_new c" es fs ord now]
    adaptive_tracker.closes [of "AdaptivePingTracker_with_config a" es fs ord now]
  by (simp add: PingTracker_ops_def AdaptivePingTracker_ops_def del: closes_correctly.simps)

theorem keepalive_closes_witness:
  "fst (PingTracker_check_timeouts id 45000000000
     (fold (ping_step PingTracker_ops) [EvPing 0 0, EvPing 1 1, EvPing 2 2] (PingTracker_new KeepAliveConfig_default)))"
proof -
  let ?es = "[EvPing 0 0, EvPing 1 1, EvPing 2 2]"
  have "closes_correctly PingTracker_ops (PingTracker_new KeepAliveConfig_default)
      (kc_max_missed KeepAliveConfig_default) (kc_timeout KeepAliveConfig_default) [] ?es id 45000000000"
    using keepalive_closes [of "[]" ?es id KeepAliveConfig_default AdaptiveKeepAliveConfig_default]
    by (simp add: iteration_order_def sent_ids_def PingTracker_ops_def AdaptivePingTracker_ops_def
        del: closes_correctly.simps)
  then show ?thesis
    by (simp add: PingTracker_ops_def KeepAliveConfig_default_def sent_ids_def answered_ids_def Let_def)
      blast
qed

section \<open>The adaptive interval\<close>

fun adaptive_state :: "u32 \<Rightarrow> ping_fate list \<Rightarrow> KeepAliveState" where
  "adaptive_state threshold l =
     (if answered_since l = 0 then if missed_total l = 0 then KaNormal else KaUnstable
      else if unat threshold \<le> answered_since l then KaStable else KaNormal)"

lemma threshold_word:
  assumes "p < unat (n :: u32) \<or> p = 0"
  shows "n \<le> of_nat p + 1 \<longleftrightarrow> unat n \<le> p + 1"
proof -
  have "p + 1 < 2 ^ 32" using assms unat_less [of n] by (cases "p = 0") auto
  then have "unat (of_nat (p + 1) :: u32) = p + 1" by (simp add: unat_of_nat del: of_nat_add of_nat_Suc)
  then show ?thesis by (simp add: word_le_nat_alt add.commute)
qed

lemma adaptive_state_step:
  assumes "at_state t = adaptive_state (ac_stable_threshold (at_config t)) l"
    and "at_consecutive_pongs t = of_nat (answered_since l)"
    and "hm_ok (at_outstanding t)" and "event_ok e"
  shows "at_state (ping_step AdaptivePingTracker_ops e t) =
      adaptive_state (ac_stable_threshold (at_config t)) (l @ [ping_outcome AdaptivePingTracker_ops e t]) \<and>
    at_consecutive_pongs (ping_step AdaptivePingTracker_ops e t) =
      of_nat (answered_since (l @ [ping_outcome AdaptivePingTracker_ops e t])) \<and>
    at_config (ping_step AdaptivePingTracker_ops e t) = at_config t"
proof (cases e)
  case (EvPing a b)
  then show ?thesis using assms
    by (simp add: AdaptivePingTracker_ops_def AdaptivePingTracker_record_ping_def Let_def)
next
  case (EvPong i)
  show ?thesis
  proof (cases "hm_get (at_outstanding t) i")
    case (Some v)
    then show ?thesis
      using assms EvPong threshold_word [of "answered_since l" "ac_stable_threshold (at_config t)"]
      by (auto simp: AdaptivePingTracker_ops_def AdaptivePingTracker_record_pong_def Let_def add.commute)
  qed (use assms EvPong in \<open>simp add: AdaptivePingTracker_ops_def AdaptivePingTracker_record_pong_def\<close>)
next
  case (EvCheck ord now)
  then have "ping_outcome AdaptivePingTracker_ops e t =
      Missed (length (timed_out_ids ord now (ac_timeout (at_config t)) (at_outstanding t)))"
    using adaptive_tracker.check_missed [of ord t now] assms by (simp add: AdaptivePingTracker_ops_def)
  then show ?thesis using assms EvCheck
    by (auto simp: AdaptivePingTracker_ops_def AdaptivePingTracker_check_timeouts_def
        AdaptivePingTracker_expire Let_def)
qed

lemma adaptive_state_run:
  assumes "\<forall>e \<in> set es. event_ok e"
    and "length (sent_ids (ping_log AdaptivePingTracker_ops es (AdaptivePingTracker_with_config a))) < 2 ^ 64"
  shows "at_state (fold (ping_step AdaptivePingTracker_ops) es (AdaptivePingTracker_with_config a)) =
      adaptive_state (ac_stable_threshold a)
        (ping_log AdaptivePingTracker_ops es (AdaptivePingTracker_with_config a)) \<and>
    at_consecutive_pongs (fold (ping_step AdaptivePingTracker_ops) es (AdaptivePingTracker_with_config a)) =
      of_nat (answered_since (ping_log AdaptivePingTracker_ops es (AdaptivePingTracker_with_config a))) \<and>
    at_config (fold (ping_step AdaptivePingTracker_ops) es (AdaptivePingTracker_with_config a)) = a"
  using assms
proof (induction es rule: rev_induct)
  case Nil
  then show ?case by (simp add: AdaptivePingTracker_with_config_def)
next
  case (snoc e es)
  let ?t = "fold (ping_step AdaptivePingTracker_ops) es (AdaptivePingTracker_with_config a)"
  let ?l = "ping_log AdaptivePingTracker_ops es (AdaptivePingTracker_with_config a)"
  have few: "length (sent_ids ?l) < 2 ^ 64" using snoc.prems(2) by (simp add: ping_log_append)
  have "hm_ok (at_outstanding ?t)"
    using adaptive_tracker.inv_run [of "AdaptivePingTracker_with_config a" es] few snoc.prems(1)
    by (simp add: AdaptivePingTracker_ops_def ping_inv_def)
  then show ?case
    using snoc few adaptive_state_step [of ?t ?l e] by (simp add: ping_log_append del: log_snoc adaptive_state.simps)
qed

text \<open>
  The adaptive interval: after any run the interval is the unstable one exactly when the last
  thing that happened to a ping is that it was missed, the stable one when at least
  \<open>stable_threshold\<close> (and one) pings were answered since the last miss, and the base interval
  otherwise; wrap-around of the counter of answers does not change this.
\<close>

lemma adaptive_interval:
  assumes "\<forall>e \<in> set es. event_ok e"
    and "length (sent_ids (ping_log AdaptivePingTracker_ops es (AdaptivePingTracker_with_config a))) < 2 ^ 64"
  shows "current_interval (fold (ping_step AdaptivePingTracker_ops) es (AdaptivePingTracker_with_config a)) =
    (let l = ping_log AdaptivePingTracker_ops es (AdaptivePingTracker_with_config a)
     in if answered_since l = 0
        then if missed_total l = 0 then ac_base_interval a else ac_unstable_interval a
        else if unat (ac_stable_threshold a) \<le> answered_since l then ac_stable_interval a
        else ac_base_interval a)"
  using adaptive_state_run [OF assms] by (simp add: current_interval_def Let_def)

lemma adaptive_interval_example:
  "current_interval (fold (ping_step AdaptivePingTracker_ops) [EvPing 0 0, EvCheck id 20000000000]
     AdaptivePingTracker_new) = 10000000000"
proof -
  let ?es = "[EvPing 0 0, EvCheck id 20000000000]"
  have "current_interval (fold (ping_step AdaptivePingTracker_ops) ?es
      (AdaptivePingTracker_with_config AdaptiveKeepAliveConfig_default)) =
    (let l = ping_log AdaptivePingTracker_ops ?es (AdaptivePingTracker_with_config AdaptiveKeepAliveConfig_default)
     in if answered_since l = 0
        then if missed_total l = 0 then ac_base_interval AdaptiveKeepAliveConfig_default
          else ac_unstable_interval AdaptiveKeepAliveConfig_default
        else if unat (ac_stable_threshold AdaptiveKeepAliveConfig_default) \<le> answered_since l
          then ac_stable_interval AdaptiveKeepAliveConfig_default
        else ac_base_interval AdaptiveKeepAliveConfig_default)"
    by (rule adaptive_interval)
      (simp_all add: iteration_order_def sent_ids_def AdaptivePingTracker_ops_def)
  moreover have "ping_log AdaptivePingTracker_ops ?es
      (AdaptivePingTracker_with_config AdaptiveKeepAliveConfig_default) = [Sent 1, Missed 1]"
    by code_simp
  ultimately show ?thesis
    by (simp add: AdaptivePingTracker_new_def AdaptiveKeepAliveConfig_default_def
        answered_since_def missed_total_def)
qed

end
