(* ===== verification/Crypto.thy ===== *)
theory Crypto
  imports Utf8
begin

text \<open>
  The wrappers around the cryptographic packages: \<open>crates/aafp-crypto/src/dsa.rs\<close> (ML-DSA-65),
  \<open>kdf.rs\<close> (HKDF), \<open>crates/aafp-identity/src/keypair.rs\<close> and \<open>agent_id.rs\<close>. The packages they call
  (\<open>fips204\<close>, \<open>sha2\<close>, \<open>hkdf\<close>, \<open>hmac\<close>) are the fields of the record \<open>crypto\<close>, an argument of every
  definition; what is relied on of them is \<open>crypto_ok\<close> (output lengths) and \<open>keypair_ok\<close> (a
  signature made with the secret key verifies). Signing is randomized, so the randomness is an
  argument. A call of \<open>expect\<close> that fails is a panic, the value \<open>None\<close>.
\<close>

section \<open>The packages\<close>

record crypto =
  sha256 :: "bytes \<Rightarrow> bytes"
  hmac_sha256 :: "bytes \<Rightarrow> bytes \<Rightarrow> bytes"
  hkdf_expand :: "bytes \<Rightarrow> bytes \<Rightarrow> bytes \<Rightarrow> nat \<Rightarrow> bytes"
  pk_try_from_bytes :: "bytes \<Rightarrow> bool"
  sk_try_from_bytes :: "bytes \<Rightarrow> bool"
  fips_sign :: "bytes \<Rightarrow> bytes \<Rightarrow> bytes \<Rightarrow> bytes"
  fips_verify :: "bytes \<Rightarrow> bytes \<Rightarrow> bytes \<Rightarrow> bool"

abbreviation (input) ML_DSA_65_PUBKEY_LEN :: nat where "ML_DSA_65_PUBKEY_LEN \<equiv> 1952"
abbreviation (input) ML_DSA_65_SECRETKEY_LEN :: nat where "ML_DSA_65_SECRETKEY_LEN \<equiv> 4032"
abbreviation (input) ML_DSA_65_SIGNATURE_LEN :: nat where "ML_DSA_65_SIGNATURE_LEN \<equiv> 3309"

datatype CryptoError =
    InvalidKeyLength nat nat
  | InvalidSignatureLength nat nat
  | InvalidCiphertextLength nat nat
  | CryptoSignatureVerificationFailed
  | AeadDecryptionFailed
  | CryptoHandshake ustring
  | CryptoDecode ustring

definition crypto_ok :: "crypto \<Rightarrow> bool" where
  "crypto_ok cr \<longleftrightarrow> (\<forall>x. length (sha256 cr x) = 32) \<and> (\<forall>k x. length (hmac_sha256 cr k x) = 32) \<and>
     (\<forall>s i f n. length (hkdf_expand cr s i f n) = n)"

section \<open>ML-DSA-65\<close>

text \<open>Text of a \<open>Decode\<close> error is that of the package and is left out.\<close>

definition MlDsa65PublicKey_from_bytes :: "crypto \<Rightarrow> bytes \<Rightarrow> CryptoError + bytes" where
  "MlDsa65PublicKey_from_bytes cr bs =
     (if length bs \<noteq> ML_DSA_65_PUBKEY_LEN then Inl (InvalidKeyLength ML_DSA_65_PUBKEY_LEN (length bs))
      else if \<not> pk_try_from_bytes cr bs then Inl (CryptoDecode [])
      else Inr bs)"

definition MlDsa65SecretKey_from_bytes :: "crypto \<Rightarrow> bytes \<Rightarrow> CryptoError + bytes" where
  "MlDsa65SecretKey_from_bytes cr bs =
     (if length bs \<noteq> ML_DSA_65_SECRETKEY_LEN then Inl (InvalidKeyLength ML_DSA_65_SECRETKEY_LEN (length bs))
      else if \<not> sk_try_from_bytes cr bs then Inl (CryptoDecode [])
      else Inr bs)"

definition MlDsa65Signature_from_bytes :: "bytes \<Rightarrow> CryptoError + bytes" where
  "MlDsa65Signature_from_bytes bs =
     (if length bs \<noteq> ML_DSA_65_SIGNATURE_LEN
      then Inl (InvalidSignatureLength ML_DSA_65_SIGNATURE_LEN (length bs))
      else Inr bs)"

definition MlDsa65_sign :: "crypto \<Rightarrow> bytes \<Rightarrow> bytes \<Rightarrow> bytes \<Rightarrow> bytes option" where
  "MlDsa65_sign cr secret msg rnd =
     (if length secret \<noteq> ML_DSA_65_SECRETKEY_LEN \<or> \<not> sk_try_from_bytes cr secret then None
      else Some (fips_sign cr secret msg rnd))"

definition MlDsa65_verify :: "crypto \<Rightarrow> bytes \<Rightarrow> bytes \<Rightarrow> bytes \<Rightarrow> bool" where
  "MlDsa65_verify cr public msg sig =
     (if length public \<noteq> ML_DSA_65_PUBKEY_LEN then False
      else if \<not> pk_try_from_bytes cr public then False
      else if length sig \<noteq> ML_DSA_65_SIGNATURE_LEN then False
      else fips_verify cr public msg sig)"

section \<open>Key derivation\<close>

text \<open>\<open>expand\<close> fails on more than 255 blocks of output, and \<open>hkdf_sha256\<close> then panics.\<close>

definition hkdf_sha256 :: "crypto \<Rightarrow> bytes \<Rightarrow> bytes \<Rightarrow> bytes \<Rightarrow> nat \<Rightarrow> bytes option" where
  "hkdf_sha256 cr salt ikm info output_len =
     (if output_len > 255 * 32 then None else Some (hkdf_expand cr salt ikm info output_len))"

definition derive_key :: "crypto \<Rightarrow> bytes \<Rightarrow> bytes \<Rightarrow> bytes option" where
  "derive_key cr ikm info = hkdf_sha256 cr [] ikm info 32"

section \<open>Agents\<close>

record AgentKeypair =
  kp_public_key :: bytes
  kp_secret_key :: bytes

datatype IdentityError =
    InvalidKeypair ustring
  | IdSerialization ustring
  | IdDeserialization ustring
  | IdSignatureVerificationFailed
  | AgentIdMismatch
  | IdUcan ustring
  | IdCrypto CryptoError

definition AgentKeypair_from_bytes :: "crypto \<Rightarrow> bytes \<Rightarrow> IdentityError + AgentKeypair" where
  "AgentKeypair_from_bytes cr secret =
     bind_result (map_err IdCrypto (MlDsa65SecretKey_from_bytes cr secret)) (\<lambda>_. Inl (InvalidKeypair (str ''use from_secret_and_public to reconstruct a keypair'')))"

definition from_secret_and_public :: "crypto \<Rightarrow> bytes \<Rightarrow> bytes \<Rightarrow> IdentityError + AgentKeypair" where
  "from_secret_and_public cr secret public =
     bind_result (map_err IdCrypto (MlDsa65SecretKey_from_bytes cr secret)) (\<lambda>_.
     bind_result (map_err IdCrypto (MlDsa65PublicKey_from_bytes cr public)) (\<lambda>_.
     Inr \<lparr>kp_public_key = public, kp_secret_key = secret\<rparr>))"

definition AgentKeypair_to_bytes :: "AgentKeypair \<Rightarrow> bytes" where
  "AgentKeypair_to_bytes kp =
     u32_to_be_bytes (word_of_nat (length (kp_secret_key kp))) @ kp_secret_key kp @ kp_public_key kp"

definition from_bytes_full :: "crypto \<Rightarrow> bytes \<Rightarrow> IdentityError + AgentKeypair" where
  "from_bytes_full cr data =
     (if length data < 4 then Inl (IdDeserialization (str ''keypair too short''))
      else
        let sk_len = unat (word_of_nat (be_val (take 4 data)) :: u32) in
        if length data < 4 + sk_len then Inl (IdDeserialization (str ''truncated secret key''))
        else from_secret_and_public cr (subslice data 4 (4 + sk_len)) (drop (4 + sk_len) data))"

definition AgentKeypair_sign :: "crypto \<Rightarrow> AgentKeypair \<Rightarrow> bytes \<Rightarrow> bytes \<Rightarrow> bytes option" where
  "AgentKeypair_sign cr kp msg rnd =
     (case MlDsa65SecretKey_from_bytes cr (kp_secret_key kp) of
        Inl _ \<Rightarrow> None
      | Inr sk \<Rightarrow> MlDsa65_sign cr sk msg rnd)"

definition AgentKeypair_verify :: "crypto \<Rightarrow> AgentKeypair \<Rightarrow> bytes \<Rightarrow> bytes \<Rightarrow> bool" where
  "AgentKeypair_verify cr kp msg sig =
     (case MlDsa65PublicKey_from_bytes cr (kp_public_key kp) of
        Inl _ \<Rightarrow> False
      | Inr pk \<Rightarrow>
          (case MlDsa65Signature_from_bytes sig of
             Inl _ \<Rightarrow> False
           | Inr s \<Rightarrow> MlDsa65_verify cr pk msg s))"

definition derive_agent_id :: "crypto \<Rightarrow> bytes \<Rightarrow> bytes" where
  "derive_agent_id cr public_key = sha256 cr public_key"

definition verify_agent_id :: "crypto \<Rightarrow> bytes \<Rightarrow> bytes \<Rightarrow> bool" where
  "verify_agent_id cr agent_id public_key \<longleftrightarrow> derive_agent_id cr public_key = agent_id"

text \<open>A key pair of the package: both keys are valid and what one signs the other verifies.\<close>

definition keypair_ok :: "crypto \<Rightarrow> AgentKeypair \<Rightarrow> bool" where
  "keypair_ok cr kp \<longleftrightarrow>
     length (kp_public_key kp) = ML_DSA_65_PUBKEY_LEN \<and> pk_try_from_bytes cr (kp_public_key kp) \<and>
     length (kp_secret_key kp) = ML_DSA_65_SECRETKEY_LEN \<and> sk_try_from_bytes cr (kp_secret_key kp) \<and>
     (\<forall>msg rnd. length (fips_sign cr (kp_secret_key kp) msg rnd) = ML_DSA_65_SIGNATURE_LEN \<and>
        fips_verify cr (kp_public_key kp) msg (fips_sign cr (kp_secret_key kp) msg rnd))"

lemma keypair_sign_verify:
  assumes "keypair_ok cr kp"
  obtains sig where "AgentKeypair_sign cr kp msg rnd = Some sig" "AgentKeypair_verify cr kp msg sig"
    "length sig = ML_DSA_65_SIGNATURE_LEN"
  using assms
  by (simp add: keypair_ok_def AgentKeypair_sign_def AgentKeypair_verify_def MlDsa65_sign_def
      MlDsa65_verify_def MlDsa65SecretKey_from_bytes_def MlDsa65PublicKey_from_bytes_def
      MlDsa65Signature_from_bytes_def)

lemma AgentKeypair_verify_iff:
  "AgentKeypair_verify cr kp msg sig \<longleftrightarrow> MlDsa65_verify cr (kp_public_key kp) msg sig"
  by (simp add: AgentKeypair_verify_def MlDsa65PublicKey_from_bytes_def MlDsa65Signature_from_bytes_def
      MlDsa65_verify_def)

lemma MlDsa65_verify_valid:
  "MlDsa65_verify cr pk msg sig \<Longrightarrow>
     MlDsa65PublicKey_from_bytes cr pk = Inr pk \<and> MlDsa65Signature_from_bytes sig = Inr sig"
  by (simp add: MlDsa65_verify_def MlDsa65PublicKey_from_bytes_def MlDsa65Signature_from_bytes_def
      split: if_splits)

lemma keypair_bytes_roundtrip:
  assumes "keypair_ok cr kp"
  shows "from_bytes_full cr (AgentKeypair_to_bytes kp) = Inr kp"
proof -
  have l: "length (kp_secret_key kp) = 4032" using assms by (simp add: keypair_ok_def)
  let ?h = "u32_to_be_bytes (word_of_nat (length (kp_secret_key kp)))"
  have "be_val ?h = 4032" by (simp add: l)
  then show ?thesis
    using assms l
    by (simp add: from_bytes_full_def AgentKeypair_to_bytes_def from_secret_and_public_def keypair_ok_def
        MlDsa65SecretKey_from_bytes_def MlDsa65PublicKey_from_bytes_def subslice_def)
qed

section \<open>An instance\<close>

text \<open>A model of the packages for examples: the hash is the length of its input.\<close>

definition example_crypto :: crypto where
  "example_crypto = \<lparr>sha256 = (\<lambda>x. be_bytes 32 (length x)), hmac_sha256 = (\<lambda>k x. be_bytes 32 (length x)),
     hkdf_expand = (\<lambda>s i f n. be_bytes n (length i)), pk_try_from_bytes = (\<lambda>_. True),
     sk_try_from_bytes = (\<lambda>_. True), fips_sign = (\<lambda>sk msg rnd. be_bytes 3309 (length msg)),
     fips_verify = (\<lambda>pk msg sig. sig = be_bytes 3309 (length msg))\<rparr>"

lemma example_crypto_ok: "crypto_ok example_crypto"
  by (simp add: crypto_ok_def example_crypto_def)

end
