(* ===== verification/Handshake_V1.thy ===== *)
theory Handshake_V1
  imports Cbor_Message Crypto
begin

text \<open>
  The messages of the v1 handshake, \<open>crates/aafp-crypto/src/handshake_v1.rs\<close>: ClientHello,
  ServerHello and ClientFinished with their CBOR forms, the running transcript hash, session id
  and receiver MAC derivation, and the verification of each message. Arrays \<open>[u8; 32]\<close> are byte
  lists; their length is part of the well-formedness of a message. An incremental hash of two
  parts is the hash of their concatenation.

  The messages are instances of the interface \<open>cbor_message\<close>. The theorems show the round trips,
  exactly when a hello is accepted, and that equal transcript hashes mean equal transcripts
  unless SHA-256 collides.
\<close>

section \<open>Constants and errors\<close>

definition DOMAIN_SEPARATOR :: bytes where "DOMAIN_SEPARATOR = str ''aafp-v1-handshake''"
definition SESSION_ID_INFO :: bytes where "SESSION_ID_INFO = str ''aafp-session-id-v1''"
definition DOS_MAC_KEY_INFO :: bytes where "DOS_MAC_KEY_INFO = str ''aafp-v1-dos-mac-key''"
abbreviation (input) HS_NONCE_SIZE :: nat where "HS_NONCE_SIZE \<equiv> 32"
abbreviation (input) SESSION_ID_SIZE :: nat where "SESSION_ID_SIZE \<equiv> 32"
abbreviation (input) HS_AGENT_ID_SIZE :: nat where "HS_AGENT_ID_SIZE \<equiv> 32"
abbreviation (input) KEY_ALG_ML_DSA_65 :: u64 where "KEY_ALG_ML_DSA_65 \<equiv> 1"
abbreviation (input) PROTOCOL_VERSION :: u64 where "PROTOCOL_VERSION \<equiv> 1"

datatype hs_field_error =
    HsExpected string Value
  | HsNullNotValid
  | HsExpectedLen nat nat
  | HsInvalidPublicKey
  | HsExpectedSignatureLen nat

datatype HandshakeError =
    HsInvalidField string hs_field_error
  | HsMissingField string
  | HsCbor CborError
  | HsSignatureVerificationFailed
  | SessionIdMismatch
  | HsVersionMismatch u64 u64
  | InvalidAgentId
  | IdentityExpired u64 u64
  | UnsupportedAlgorithm u64

section \<open>Transcript hash\<close>

record TranscriptHash =
  th_current :: bytes

definition from_tls_binding :: "crypto \<Rightarrow> bytes \<Rightarrow> TranscriptHash" where
  "from_tls_binding cr tls_binding = \<lparr>th_current = sha256 cr tls_binding\<rparr>"

definition transcript_fold :: "crypto \<Rightarrow> bytes \<Rightarrow> TranscriptHash \<Rightarrow> bytes \<times> TranscriptHash" where
  "transcript_fold cr msg th =
     (let h = sha256 cr (th_current th @ msg) in (h, th\<lparr>th_current := h\<rparr>))"

section \<open>Field access\<close>

definition expect_u64 :: "Value option \<Rightarrow> string \<Rightarrow> HandshakeError + u64" where
  "expect_u64 val field =
     (case val of
        Some (Unsigned n) \<Rightarrow> Inr n
      | Some other \<Rightarrow> Inl (HsInvalidField field (HsExpected ''uint'' other))
      | None \<Rightarrow> Inl (HsMissingField field))"

definition expect_bstr :: "Value option \<Rightarrow> string \<Rightarrow> HandshakeError + bytes" where
  "expect_bstr val field =
     (case val of
        Some (ByteString b) \<Rightarrow> Inr b
      | Some other \<Rightarrow> Inl (HsInvalidField field (HsExpected ''bstr'' other))
      | None \<Rightarrow> Inl (HsMissingField field))"

definition expect_bstr_32 :: "Value option \<Rightarrow> string \<Rightarrow> HandshakeError + bytes" where
  "expect_bstr_32 val field =
     bind_result (expect_bstr val field) (\<lambda>b.
       if length b \<noteq> 32 then Inl (HsInvalidField field (HsExpectedLen 32 (length b)))
       else Inr b)"

definition expect_array :: "Value option \<Rightarrow> string \<Rightarrow> HandshakeError + Value list" where
  "expect_array val field =
     (case val of
        Some (Array arr) \<Rightarrow> Inr arr
      | Some other \<Rightarrow> Inl (HsInvalidField field (HsExpected ''array'' other))
      | None \<Rightarrow> Inl (HsMissingField field))"

section \<open>ClientHello\<close>

record ClientHello =
  ch_protocol_version :: u64
  ch_agent_id :: bytes
  ch_public_key :: bytes
  ch_nonce :: bytes
  ch_capabilities :: "Value list"
  ch_extensions :: "Value list"
  ch_signature :: bytes
  ch_expires_at :: u64
  ch_receiver_mac :: "bytes option"
  ch_key_algorithm :: u64

definition to_cbor_without_sig_and_mac :: "ClientHello \<Rightarrow> Value" where
  "to_cbor_without_sig_and_mac ch =
     int_map [(1, Unsigned (ch_protocol_version ch)), (2, ByteString (ch_agent_id ch)),
       (3, ByteString (ch_public_key ch)), (4, ByteString (ch_nonce ch)),
       (5, Array (ch_capabilities ch)), (6, Array (ch_extensions ch)),
       (8, Unsigned (ch_expires_at ch)), (10, Unsigned (ch_key_algorithm ch))]"

definition ClientHello_to_cbor :: "ClientHello \<Rightarrow> Value" where
  "ClientHello_to_cbor ch =
     (let entries = [(1, Unsigned (ch_protocol_version ch)), (2, ByteString (ch_agent_id ch)),
            (3, ByteString (ch_public_key ch)), (4, ByteString (ch_nonce ch)),
            (5, Array (ch_capabilities ch)), (6, Array (ch_extensions ch)),
            (7, ByteString (ch_signature ch)), (8, Unsigned (ch_expires_at ch)),
            (10, Unsigned (ch_key_algorithm ch))];
          entries = (case ch_receiver_mac ch of
            Some mac \<Rightarrow> entries @ [(9, ByteString mac)]
          | None \<Rightarrow> entries)
      in int_map entries)"

definition ClientHello_from_cbor :: "Value \<Rightarrow> HandshakeError + ClientHello" where
  "ClientHello_from_cbor val =
     bind_result (expect_u64 (int_map_get val 1) ''protocol_version'') (\<lambda>protocol_version.
     bind_result (expect_bstr (int_map_get val 2) ''agent_id'') (\<lambda>agent_id.
     bind_result (expect_bstr (int_map_get val 3) ''public_key'') (\<lambda>public_key.
     bind_result (expect_bstr_32 (int_map_get val 4) ''nonce'') (\<lambda>nonce.
     bind_result (expect_array (int_map_get val 5) ''capabilities'') (\<lambda>capabilities.
     bind_result (expect_array (int_map_get val 6) ''extensions'') (\<lambda>exts.
     bind_result (expect_bstr (int_map_get val 7) ''signature'') (\<lambda>sig.
     bind_result (expect_u64 (int_map_get val 8) ''expires_at'') (\<lambda>expires_at.
     bind_result
       (case int_map_get val 9 of
          None \<Rightarrow> Inr None
        | Some (ByteString b) \<Rightarrow> Inr (Some b)
        | Some Null \<Rightarrow> Inl (HsInvalidField ''receiver_mac'' HsNullNotValid)
        | Some other \<Rightarrow> Inl (HsInvalidField ''receiver_mac'' (HsExpected ''bstr'' other))) (\<lambda>receiver_mac.
     bind_result (expect_u64 (int_map_get val 10) ''key_algorithm'') (\<lambda>key_algorithm.
     Inr \<lparr>ch_protocol_version = protocol_version, ch_agent_id = agent_id, ch_public_key = public_key,
       ch_nonce = nonce, ch_capabilities = capabilities, ch_extensions = exts, ch_signature = sig,
       ch_expires_at = expires_at, ch_receiver_mac = receiver_mac,
       ch_key_algorithm = key_algorithm\<rparr>))))))))))"

section \<open>ServerHello\<close>

record ServerHello =
  sh_protocol_version :: u64
  sh_agent_id :: bytes
  sh_public_key :: bytes
  sh_nonce :: bytes
  sh_capabilities :: "Value list"
  sh_extensions :: "Value list"
  sh_session_id :: bytes
  sh_signature :: bytes
  sh_expires_at :: u64
  sh_key_algorithm :: u64

definition ServerHello_to_cbor_without_sig :: "ServerHello \<Rightarrow> Value" where
  "ServerHello_to_cbor_without_sig sh =
     int_map [(1, Unsigned (sh_protocol_version sh)), (2, ByteString (sh_agent_id sh)),
       (3, ByteString (sh_public_key sh)), (4, ByteString (sh_nonce sh)),
       (5, Array (sh_capabilities sh)), (6, Array (sh_extensions sh)),
       (7, ByteString (sh_session_id sh)), (9, Unsigned (sh_expires_at sh)),
       (10, Unsigned (sh_key_algorithm sh))]"

definition ServerHello_to_cbor :: "ServerHello \<Rightarrow> Value" where
  "ServerHello_to_cbor sh =
     int_map [(1, Unsigned (sh_protocol_version sh)), (2, ByteString (sh_agent_id sh)),
       (3, ByteString (sh_public_key sh)), (4, ByteString (sh_nonce sh)),
       (5, Array (sh_capabilities sh)), (6, Array (sh_extensions sh)),
       (7, ByteString (sh_session_id sh)), (8, ByteString (sh_signature sh)),
       (9, Unsigned (sh_expires_at sh)), (10, Unsigned (sh_key_algorithm sh))]"

definition ServerHello_from_cbor :: "Value \<Rightarrow> HandshakeError + ServerHello" where
  "ServerHello_from_cbor val =
     bind_result (expect_u64 (int_map_get val 1) ''protocol_version'') (\<lambda>protocol_version.
     bind_result (expect_bstr (int_map_get val 2) ''agent_id'') (\<lambda>agent_id.
     bind_result (expect_bstr (int_map_get val 3) ''public_key'') (\<lambda>public_key.
     bind_result (expect_bstr_32 (int_map_get val 4) ''nonce'') (\<lambda>nonce.
     bind_result (expect_array (int_map_get val 5) ''capabilities'') (\<lambda>capabilities.
     bind_result (expect_array (int_map_get val 6) ''extensions'') (\<lambda>exts.
     bind_result (expect_bstr_32 (int_map_get val 7) ''session_id'') (\<lambda>session_id.
     bind_result (expect_bstr (int_map_get val 8) ''signature'') (\<lambda>sig.
     bind_result (expect_u64 (int_map_get val 9) ''expires_at'') (\<lambda>expires_at.
     bind_result (expect_u64 (int_map_get val 10) ''key_algorithm'') (\<lambda>key_algorithm.
     Inr \<lparr>sh_protocol_version = protocol_version, sh_agent_id = agent_id, sh_public_key = public_key,
       sh_nonce = nonce, sh_capabilities = capabilities, sh_extensions = exts,
       sh_session_id = session_id, sh_signature = sig, sh_expires_at = expires_at,
       sh_key_algorithm = key_algorithm\<rparr>))))))))))"

section \<open>ClientFinished\<close>

record ClientFinished =
  cf_session_id :: bytes
  cf_signature :: bytes

definition ClientFinished_to_cbor_without_sig :: "ClientFinished \<Rightarrow> Value" where
  "ClientFinished_to_cbor_without_sig cf = int_map [(1, ByteString (cf_session_id cf))]"

definition ClientFinished_to_cbor :: "ClientFinished \<Rightarrow> Value" where
  "ClientFinished_to_cbor cf =
     int_map [(1, ByteString (cf_session_id cf)), (2, ByteString (cf_signature cf))]"

definition ClientFinished_from_cbor :: "Value \<Rightarrow> HandshakeError + ClientFinished" where
  "ClientFinished_from_cbor val =
     bind_result (expect_bstr_32 (int_map_get val 1) ''session_id'') (\<lambda>session_id.
     bind_result (expect_bstr (int_map_get val 2) ''signature'') (\<lambda>sig.
     Inr \<lparr>cf_session_id = session_id, cf_signature = sig\<rparr>))"

section \<open>Derivations\<close>

definition signature_input :: "bytes \<Rightarrow> bytes" where
  "signature_input h = DOMAIN_SEPARATOR @ h"

definition derive_session_id :: "crypto \<Rightarrow> bytes \<Rightarrow> bytes \<Rightarrow> bytes \<Rightarrow> bytes \<Rightarrow> bytes option" where
  "derive_session_id cr h_after_clienthello client_nonce server_nonce server_agent_id =
     (let salt = client_nonce @ server_nonce;
          ikm = h_after_clienthello @ server_agent_id
      in hkdf_sha256 cr salt ikm SESSION_ID_INFO SESSION_ID_SIZE)"

definition compute_receiver_mac :: "crypto \<Rightarrow> bytes \<Rightarrow> bytes \<Rightarrow> bytes option" where
  "compute_receiver_mac cr receiver_agent_id ch_cbor_bytes =
     map_option (\<lambda>mac_key. hmac_sha256 cr mac_key ch_cbor_bytes)
       (hkdf_sha256 cr [] receiver_agent_id DOS_MAC_KEY_INFO 32)"

definition byte_diff :: "bytes \<Rightarrow> bytes \<Rightarrow> byte" where
  "byte_diff xs ys = fold (\<lambda>(a, b) diff. diff OR (a XOR b)) (zip xs ys) 0"

definition verify_receiver_mac :: "crypto \<Rightarrow> bytes \<Rightarrow> bytes \<Rightarrow> bytes \<Rightarrow> bool option" where
  "verify_receiver_mac cr receiver_agent_id ch_cbor_bytes expected_mac =
     map_option (\<lambda>computed.
       if length computed \<noteq> length expected_mac then False
       else byte_diff computed expected_mac = 0)
       (compute_receiver_mac cr receiver_agent_id ch_cbor_bytes)"

section \<open>Verification\<close>

definition verify_agent_id_binding :: "crypto \<Rightarrow> bytes \<Rightarrow> bytes \<Rightarrow> HandshakeError + bytes" where
  "verify_agent_id_binding cr agent_id public_key =
     (if length agent_id \<noteq> HS_AGENT_ID_SIZE
      then Inl (HsInvalidField ''agent_id'' (HsExpectedLen HS_AGENT_ID_SIZE (length agent_id)))
      else if sha256 cr public_key \<noteq> agent_id then Inl InvalidAgentId
      else Inr agent_id)"

definition verify_client_hello ::
    "crypto \<Rightarrow> ClientHello \<Rightarrow> bytes \<Rightarrow> u64 \<Rightarrow> HandshakeError + bytes" where
  "verify_client_hello cr ch transcript_hash now =
     (if ch_protocol_version ch \<noteq> PROTOCOL_VERSION
      then Inl (HsVersionMismatch PROTOCOL_VERSION (ch_protocol_version ch))
      else if ch_key_algorithm ch \<noteq> KEY_ALG_ML_DSA_65
      then Inl (UnsupportedAlgorithm (ch_key_algorithm ch))
      else
        bind_result (verify_agent_id_binding cr (ch_agent_id ch) (ch_public_key ch)) (\<lambda>verified_agent_id.
        bind_result (map_err (\<lambda>_. HsInvalidField ''public_key'' HsInvalidPublicKey)
          (MlDsa65PublicKey_from_bytes cr (ch_public_key ch))) (\<lambda>pk.
        bind_result (map_err (\<lambda>_. HsInvalidField ''signature'' (HsExpectedSignatureLen ML_DSA_65_SIGNATURE_LEN))
          (MlDsa65Signature_from_bytes (ch_signature ch))) (\<lambda>sig.
        if \<not> MlDsa65_verify cr pk (signature_input transcript_hash) sig
        then Inl HsSignatureVerificationFailed
        else if ch_expires_at ch \<le> now then Inl (IdentityExpired (ch_expires_at ch) now)
        else Inr verified_agent_id))))"

definition verify_server_hello ::
    "crypto \<Rightarrow> ServerHello \<Rightarrow> bytes \<Rightarrow> u64 \<Rightarrow> HandshakeError + bytes \<times> bytes" where
  "verify_server_hello cr sh transcript_hash now =
     (if sh_protocol_version sh \<noteq> PROTOCOL_VERSION
      then Inl (HsVersionMismatch PROTOCOL_VERSION (sh_protocol_version sh))
      else if sh_key_algorithm sh \<noteq> KEY_ALG_ML_DSA_65
      then Inl (UnsupportedAlgorithm (sh_key_algorithm sh))
      else
        bind_result (verify_agent_id_binding cr (sh_agent_id sh) (sh_public_key sh)) (\<lambda>verified_agent_id.
        bind_result (map_err (\<lambda>_. HsInvalidField ''public_key'' HsInvalidPublicKey)
          (MlDsa65PublicKey_from_bytes cr (sh_public_key sh))) (\<lambda>pk.
        bind_result (map_err (\<lambda>_. HsInvalidField ''signature'' (HsExpectedSignatureLen ML_DSA_65_SIGNATURE_LEN))
          (MlDsa65Signature_from_bytes (sh_signature sh))) (\<lambda>sig.
        if \<not> MlDsa65_verify cr pk (signature_input transcript_hash) sig
        then Inl HsSignatureVerificationFailed
        else if sh_expires_at sh \<le> now then Inl (IdentityExpired (sh_expires_at sh) now)
        else Inr (verified_agent_id, sh_session_id sh)))))"

definition verify_client_finished ::
    "crypto \<Rightarrow> ClientFinished \<Rightarrow> bytes \<Rightarrow> bytes \<Rightarrow> bytes \<Rightarrow> HandshakeError + unit" where
  "verify_client_finished cr cf transcript_hash client_public_key expected_session_id =
     (if cf_session_id cf \<noteq> expected_session_id then Inl SessionIdMismatch
      else
        bind_result (map_err (\<lambda>_. HsInvalidField ''client_public_key'' HsInvalidPublicKey)
          (MlDsa65PublicKey_from_bytes cr client_public_key)) (\<lambda>pk.
        bind_result (map_err (\<lambda>_. HsInvalidField ''signature'' (HsExpectedSignatureLen ML_DSA_65_SIGNATURE_LEN))
          (MlDsa65Signature_from_bytes (cf_signature cf))) (\<lambda>sig.
        if \<not> MlDsa65_verify cr pk (signature_input transcript_hash) sig
        then Inl HsSignatureVerificationFailed
        else Inr ())))"

section \<open>Round trips of the messages\<close>

lemma value_ok_Suc_Suc: "value_ok (Suc (Suc 0)) v = value_ok 2 v"
  by (simp add: numeral_2_eq_2)

lemmas expect_defs = expect_u64_def expect_bstr_def expect_bstr_32_def expect_array_def

definition ClientHello_ok :: "ClientHello \<Rightarrow> bool" where
  "ClientHello_ok ch \<longleftrightarrow> length (ch_nonce ch) = 32 \<and>
     (\<forall>v \<in> set (ch_capabilities ch). value_ok 2 v) \<and> (\<forall>v \<in> set (ch_extensions ch). value_ok 2 v)"

definition ClientHello_norm :: "ClientHello \<Rightarrow> ClientHello" where
  "ClientHello_norm ch = ch\<lparr>ch_capabilities := map canon (ch_capabilities ch),
     ch_extensions := map canon (ch_extensions ch)\<rparr>"

interpretation client_hello: cbor_message ClientHello_to_cbor ClientHello_from_cbor ClientHello_ok ClientHello_norm
proof
  fix ch
  assume ch: "ClientHello_ok ch"
  then show "value_ok 0 (ClientHello_to_cbor ch)"
    by (cases "ch_receiver_mac ch")
      (simp_all add: ClientHello_to_cbor_def ClientHello_ok_def int_map_def value_ok_Suc_Suc)
  show "ClientHello_from_cbor (canon (ClientHello_to_cbor ch)) = Inr (ClientHello_norm ch)"
    using ch by (cases "ch_receiver_mac ch")
      (simp_all add: ClientHello_from_cbor_def ClientHello_to_cbor_def expect_defs int_map_get_canon
        ClientHello_ok_def ClientHello_norm_def)
qed

definition ServerHello_ok :: "ServerHello \<Rightarrow> bool" where
  "ServerHello_ok sh \<longleftrightarrow> length (sh_nonce sh) = 32 \<and> length (sh_session_id sh) = 32 \<and>
     (\<forall>v \<in> set (sh_capabilities sh). value_ok 2 v) \<and> (\<forall>v \<in> set (sh_extensions sh). value_ok 2 v)"

definition ServerHello_norm :: "ServerHello \<Rightarrow> ServerHello" where
  "ServerHello_norm sh = sh\<lparr>sh_capabilities := map canon (sh_capabilities sh),
     sh_extensions := map canon (sh_extensions sh)\<rparr>"

interpretation server_hello: cbor_message ServerHello_to_cbor ServerHello_from_cbor ServerHello_ok ServerHello_norm
proof
  fix sh
  assume sh: "ServerHello_ok sh"
  then show "value_ok 0 (ServerHello_to_cbor sh)"
    by (simp add: ServerHello_to_cbor_def ServerHello_ok_def int_map_def value_ok_Suc_Suc)
  show "ServerHello_from_cbor (canon (ServerHello_to_cbor sh)) = Inr (ServerHello_norm sh)"
    using sh by (simp add: ServerHello_from_cbor_def ServerHello_to_cbor_def expect_defs int_map_get_canon
        ServerHello_ok_def ServerHello_norm_def)
qed

definition ClientFinished_ok :: "ClientFinished \<Rightarrow> bool" where
  "ClientFinished_ok cf \<longleftrightarrow> length (cf_session_id cf) = 32"

interpretation client_finished: cbor_message ClientFinished_to_cbor ClientFinished_from_cbor ClientFinished_ok id
proof
  fix cf
  assume cf: "ClientFinished_ok cf"
  show "value_ok 0 (ClientFinished_to_cbor cf)"
    by (simp add: ClientFinished_to_cbor_def int_map_def)
  show "ClientFinished_from_cbor (canon (ClientFinished_to_cbor cf)) = Inr (id cf)"
    using cf by (simp add: ClientFinished_from_cbor_def ClientFinished_to_cbor_def expect_defs
        int_map_get_canon ClientFinished_ok_def)
qed

section \<open>What verification accepts\<close>

lemma verify_agent_id_binding_iff:
  "verify_agent_id_binding cr agent_id pk = Inr aid \<longleftrightarrow>
     aid = agent_id \<and> length agent_id = 32 \<and> agent_id = sha256 cr pk"
  by (auto simp: verify_agent_id_binding_def)

lemma verified_key_iff:
  "MlDsa65_verify cr pk m sig \<longleftrightarrow>
     MlDsa65PublicKey_from_bytes cr pk = Inr pk \<and> MlDsa65Signature_from_bytes sig = Inr sig \<and>
     MlDsa65_verify cr pk m sig"
  using MlDsa65_verify_valid by blast

lemma public_key_from_bytes_Inr: "MlDsa65PublicKey_from_bytes cr bs = Inr pk \<Longrightarrow> pk = bs"
  by (simp add: MlDsa65PublicKey_from_bytes_def split: if_splits)

lemma signature_from_bytes_Inr: "MlDsa65Signature_from_bytes bs = Inr sig \<Longrightarrow> sig = bs"
  by (simp add: MlDsa65Signature_from_bytes_def split: if_splits)

lemma verify_client_hello_iff:
  "verify_client_hello cr ch h now = Inr aid \<longleftrightarrow>
     ch_protocol_version ch = 1 \<and> ch_key_algorithm ch = 1 \<and> aid = ch_agent_id ch \<and>
     length aid = 32 \<and> sha256 cr (ch_public_key ch) = aid \<and>
     MlDsa65_verify cr (ch_public_key ch) (signature_input h) (ch_signature ch) \<and> now < ch_expires_at ch"
  (is "?l = ?r")
proof
  assume ?l
  then show ?r
    unfolding verify_client_hello_def
    by (auto simp: bind_result_Inr_iff verify_agent_id_binding_iff not_le
        dest!: public_key_from_bytes_Inr signature_from_bytes_Inr split: if_splits)
next
  assume r: ?r
  then have "MlDsa65PublicKey_from_bytes cr (ch_public_key ch) = Inr (ch_public_key ch)"
    "MlDsa65Signature_from_bytes (ch_signature ch) = Inr (ch_signature ch)"
    using MlDsa65_verify_valid by blast+
  with r show ?l by (auto simp: verify_client_hello_def verify_agent_id_binding_def)
qed

lemma verify_server_hello_iff:
  "verify_server_hello cr sh h now = Inr (aid, sid) \<longleftrightarrow>
     sh_protocol_version sh = 1 \<and> sh_key_algorithm sh = 1 \<and> aid = sh_agent_id sh \<and>
     length aid = 32 \<and> sha256 cr (sh_public_key sh) = aid \<and> sid = sh_session_id sh \<and>
     MlDsa65_verify cr (sh_public_key sh) (signature_input h) (sh_signature sh) \<and> now < sh_expires_at sh"
  (is "?l = ?r")
proof
  assume ?l
  then show ?r
    unfolding verify_server_hello_def
    by (auto simp: bind_result_Inr_iff verify_agent_id_binding_iff not_le
        dest!: public_key_from_bytes_Inr signature_from_bytes_Inr split: if_splits)
next
  assume r: ?r
  then have "MlDsa65PublicKey_from_bytes cr (sh_public_key sh) = Inr (sh_public_key sh)"
    "MlDsa65Signature_from_bytes (sh_signature sh) = Inr (sh_signature sh)"
    using MlDsa65_verify_valid by blast+
  with r show ?l by (auto simp: verify_server_hello_def verify_agent_id_binding_def)
qed

lemma verify_client_finished_iff:
  "verify_client_finished cr cf h pk sid = Inr () \<longleftrightarrow>
     cf_session_id cf = sid \<and> MlDsa65_verify cr pk (signature_input h) (cf_signature cf)"
  (is "?l = ?r")
proof
  assume ?l
  then show ?r
    unfolding verify_client_finished_def
    by (auto simp: bind_result_Inr_iff
        dest!: public_key_from_bytes_Inr signature_from_bytes_Inr split: if_splits)
next
  assume r: ?r
  then have "MlDsa65PublicKey_from_bytes cr pk = Inr pk"
    "MlDsa65Signature_from_bytes (cf_signature cf) = Inr (cf_signature cf)"
    using MlDsa65_verify_valid by blast+
  with r show ?l by (simp add: verify_client_finished_def)
qed

section \<open>Receiver MAC\<close>

lemma byte_diff_fold:
  "fold (\<lambda>(a, b) diff. diff OR (a XOR b)) ps d = 0 \<longleftrightarrow> d = (0 :: byte) \<and> (\<forall>(a, b) \<in> set ps. a = b)"
proof (induction ps arbitrary: d)
  case (Cons p ps)
  obtain a b where p: "p = (a, b)" by (cases p)
  have "d OR (a XOR b) = 0 \<longleftrightarrow> d = 0 \<and> a = b"
    by (auto simp: bit_eq_iff bit_simps)
  with Cons p show ?case by auto
qed simp

lemma byte_diff_zero: "length xs = length ys \<Longrightarrow> byte_diff xs ys = 0 \<longleftrightarrow> xs = ys"
  by (auto simp: byte_diff_def byte_diff_fold list_eq_iff_zip_eq)

text \<open>
  The receiver MAC: the comparison that accumulates the differences of all bytes accepts
  exactly the computed MAC, and computing it never panics.
\<close>

lemma receiver_mac_correct:
  "verify_receiver_mac cr aid msg mac = Some (compute_receiver_mac cr aid msg = Some mac)"
  by (auto simp: verify_receiver_mac_def compute_receiver_mac_def hkdf_sha256_def byte_diff_zero)

section \<open>The transcript\<close>

definition h_client_hello :: "crypto \<Rightarrow> bytes \<Rightarrow> ClientHello \<Rightarrow> bytes" where
  "h_client_hello cr tls ch =
     fst (transcript_fold cr (cbor_bytes (to_cbor_without_sig_and_mac ch)) (from_tls_binding cr tls))"

definition h_server_hello :: "crypto \<Rightarrow> bytes \<Rightarrow> ClientHello \<Rightarrow> ServerHello \<Rightarrow> bytes" where
  "h_server_hello cr tls ch sh =
     fst (transcript_fold cr (cbor_bytes (ServerHello_to_cbor_without_sig sh))
       (snd (transcript_fold cr (cbor_bytes (to_cbor_without_sig_and_mac ch)) (from_tls_binding cr tls))))"

text \<open>What is signed of a hello: everything but the signature and the receiver MAC.\<close>

definition signed_client_hello :: "ClientHello \<Rightarrow> ClientHello" where
  "signed_client_hello ch = (ClientHello_norm ch)\<lparr>ch_signature := [], ch_receiver_mac := None\<rparr>"

definition signed_server_hello :: "ServerHello \<Rightarrow> ServerHello" where
  "signed_server_hello sh = (ServerHello_norm sh)\<lparr>sh_signature := []\<rparr>"

lemma int_map_canon_eq:
  assumes "canon (int_map es) = canon (int_map fs)" "distinct (map fst es)" "distinct (map fst fs)"
  shows "map_option canon (map_of es k) = map_option canon (map_of fs k)"
  using assms int_map_get_canon [of es k] int_map_get_canon [of fs k] by simp

lemma client_hello_signed_inj:
  assumes "ClientHello_ok ch" "ClientHello_ok ch'" "fits (cbor_bytes (to_cbor_without_sig_and_mac ch))"
    and "cbor_bytes (to_cbor_without_sig_and_mac ch) = cbor_bytes (to_cbor_without_sig_and_mac ch')"
  shows "signed_client_hello ch = signed_client_hello ch'"
proof -
  have "value_ok 0 (to_cbor_without_sig_and_mac ch)" "value_ok 0 (to_cbor_without_sig_and_mac ch')"
    using assms(1,2)
    by (simp_all add: to_cbor_without_sig_and_mac_def ClientHello_ok_def int_map_def value_ok_Suc_Suc)
  then have "canon (to_cbor_without_sig_and_mac ch) = canon (to_cbor_without_sig_and_mac ch')"
    using assms(3,4) by (rule cbor_bytes_inj)
  note get = int_map_canon_eq [OF this [unfolded to_cbor_without_sig_and_mac_def]]
  show ?thesis
    using get [of 1] get [of 2] get [of 3] get [of 4] get [of 5] get [of 6] get [of 8] get [of 10]
    by (simp add: signed_client_hello_def ClientHello_norm_def)
qed

lemma server_hello_signed_inj:
  assumes "ServerHello_ok sh" "ServerHello_ok sh'" "fits (cbor_bytes (ServerHello_to_cbor_without_sig sh))"
    and "cbor_bytes (ServerHello_to_cbor_without_sig sh) = cbor_bytes (ServerHello_to_cbor_without_sig sh')"
  shows "signed_server_hello sh = signed_server_hello sh'"
proof -
  have "value_ok 0 (ServerHello_to_cbor_without_sig sh)" "value_ok 0 (ServerHello_to_cbor_without_sig sh')"
    using assms(1,2)
    by (simp_all add: ServerHello_to_cbor_without_sig_def ServerHello_ok_def int_map_def value_ok_Suc_Suc)
  then have "canon (ServerHello_to_cbor_without_sig sh) = canon (ServerHello_to_cbor_without_sig sh')"
    using assms(3,4) by (rule cbor_bytes_inj)
  note get = int_map_canon_eq [OF this [unfolded ServerHello_to_cbor_without_sig_def]]
  show ?thesis
    using get [of 1] get [of 2] get [of 3] get [of 4] get [of 5] get [of 6] get [of 7] get [of 9] get [of 10]
    by (simp add: signed_server_hello_def ServerHello_norm_def)
qed

text \<open>
  C14. The transcript hash binds the handshake: if two runs have the same hash after ServerHello, and
  SHA-256 does not collide on the strings the two runs hash, then they have the same TLS channel
  binding, the same signed part of ClientHello and the same signed part of ServerHello. So a
  signature over this hash is a statement about all of them.
\<close>

theorem transcript_binding:
  assumes "crypto_ok cr"
    and "ClientHello_ok ch" and "ClientHello_ok ch'" and "fits (cbor_bytes (to_cbor_without_sig_and_mac ch))"
    and "ServerHello_ok sh" and "ServerHello_ok sh'" and "fits (cbor_bytes (ServerHello_to_cbor_without_sig sh))"
    and "inj_on (sha256 cr) {tls, tls',
      sha256 cr tls @ cbor_bytes (to_cbor_without_sig_and_mac ch),
      sha256 cr tls' @ cbor_bytes (to_cbor_without_sig_and_mac ch'),
      h_client_hello cr tls ch @ cbor_bytes (ServerHello_to_cbor_without_sig sh),
      h_client_hello cr tls' ch' @ cbor_bytes (ServerHello_to_cbor_without_sig sh')}"
    and "h_server_hello cr tls ch sh = h_server_hello cr tls' ch' sh'"
  shows "tls = tls' \<and> signed_client_hello ch = signed_client_hello ch' \<and>
    signed_server_hello sh = signed_server_hello sh'"
proof -
  have len: "length (sha256 cr x) = 32" for x using assms(1) by (simp add: crypto_ok_def)
  have ch: "h_client_hello cr t c = sha256 cr (sha256 cr t @ cbor_bytes (to_cbor_without_sig_and_mac c))" for t c
    by (simp add: h_client_hello_def transcript_fold_def from_tls_binding_def Let_def)
  have sh: "h_server_hello cr t c s =
      sha256 cr (h_client_hello cr t c @ cbor_bytes (ServerHello_to_cbor_without_sig s))" for t c s
    by (simp add: h_server_hello_def ch transcript_fold_def from_tls_binding_def Let_def)
  have "h_client_hello cr tls ch @ cbor_bytes (ServerHello_to_cbor_without_sig sh) =
      h_client_hello cr tls' ch' @ cbor_bytes (ServerHello_to_cbor_without_sig sh')"
    by (rule inj_onD [OF assms(8)]) (use assms(9) in \<open>simp_all add: sh\<close>)
  then have 1: "h_client_hello cr tls ch = h_client_hello cr tls' ch'"
    "cbor_bytes (ServerHello_to_cbor_without_sig sh) = cbor_bytes (ServerHello_to_cbor_without_sig sh')"
    by (simp_all add: append_eq_append_conv ch len)
  have "sha256 cr tls @ cbor_bytes (to_cbor_without_sig_and_mac ch) =
      sha256 cr tls' @ cbor_bytes (to_cbor_without_sig_and_mac ch')"
    by (rule inj_onD [OF assms(8)]) (use 1 in \<open>simp_all add: ch\<close>)
  then have 2: "sha256 cr tls = sha256 cr tls'"
    "cbor_bytes (to_cbor_without_sig_and_mac ch) = cbor_bytes (to_cbor_without_sig_and_mac ch')"
    by (simp_all add: append_eq_append_conv len)
  have "tls = tls'" by (rule inj_onD [OF assms(8)]) (use 2 in simp_all)
  then show ?thesis
    using client_hello_signed_inj [OF assms(2-4) 2(2)] server_hello_signed_inj [OF assms(5-7) 1(2)] by simp
qed

definition example_client_hello :: ClientHello where
  "example_client_hello = \<lparr>ch_protocol_version = 1, ch_agent_id = [1], ch_public_key = [2],
     ch_nonce = replicate 32 3, ch_capabilities = [], ch_extensions = [], ch_signature = [],
     ch_expires_at = 4, ch_receiver_mac = None, ch_key_algorithm = 1\<rparr>"

definition example_server_hello :: ServerHello where
  "example_server_hello = \<lparr>sh_protocol_version = 1, sh_agent_id = [1], sh_public_key = [2],
     sh_nonce = replicate 32 3, sh_capabilities = [], sh_extensions = [], sh_session_id = replicate 32 5,
     sh_signature = [], sh_expires_at = 4, sh_key_algorithm = 1\<rparr>"

theorem transcript_binding_witness:
  "signed_client_hello (example_client_hello\<lparr>ch_signature := [7]\<rparr>) = signed_client_hello example_client_hello"
proof -
  let ?ch = "example_client_hello\<lparr>ch_signature := [7]\<rparr>"
  let ?b = "cbor_bytes (to_cbor_without_sig_and_mac ?ch)"
    and ?s = "cbor_bytes (ServerHello_to_cbor_without_sig example_server_hello)"
  have same: "to_cbor_without_sig_and_mac ?ch = to_cbor_without_sig_and_mac example_client_hello"
    by (simp add: to_cbor_without_sig_and_mac_def)
  have l: "length ?b = 52" "length ?s = 87" by code_simp+
  have sha: "sha256 example_crypto x = be_bytes 32 (length x)" for x by (simp add: example_crypto_def)
  have h: "length (h_client_hello example_crypto t c) = 32" for t c
    by (simp add: h_client_hello_def transcript_fold_def sha Let_def)
  have eq: "h_client_hello example_crypto [9] ?ch = h_client_hello example_crypto [9] example_client_hello"
    by (simp add: h_client_hello_def same)
  have be: "be_bytes 32 m = be_bytes 32 n \<Longrightarrow> m < 256 \<Longrightarrow> n < 256 \<Longrightarrow> m = n" for m n :: nat
    by (metis be_val_be_bytes_small power_one_right less_le_trans one_le_numeral power_increasing)
  have inj: "inj_on (sha256 example_crypto) {[9], [9],
      sha256 example_crypto [9] @ ?b,
      sha256 example_crypto [9] @ cbor_bytes (to_cbor_without_sig_and_mac example_client_hello),
      h_client_hello example_crypto [9] ?ch @ ?s,
      h_client_hello example_crypto [9] example_client_hello @ ?s}"
    unfolding same [symmetric] eq [symmetric] inj_on_def
    by (auto simp: sha h l dest!: be)
  have ok: "ClientHello_ok ?ch" "ClientHello_ok example_client_hello" "ServerHello_ok example_server_hello"
    by (simp_all add: ClientHello_ok_def ServerHello_ok_def example_client_hello_def example_server_hello_def)
  have f: "fits ?b" "fits ?s" by (simp_all add: l)
  have "h_server_hello example_crypto [9] ?ch example_server_hello =
      h_server_hello example_crypto [9] example_client_hello example_server_hello"
    by (simp add: h_server_hello_def same)
  from transcript_binding [OF example_crypto_ok ok(1,2) f(1) ok(3,3) f(2) inj this] show ?thesis by blast
qed

end
