(* ===== verification/Replay_Cache.thy ===== *)
theory Replay_Cache
  imports Hash_Map
begin

text \<open>
  The nonce replay cache (\<open>crates/aafp-crypto/src/replay_cache.rs\<close>). The state behind the mutex is
  the record \<open>ReplayCache\<close> and every public operation is one atomic step on it, as the lock makes
  it. The clock is read before the lock is taken, so the times of successive steps need not be
  ordered; \<open>evict_lru\<close> reads the clock a second time. Both readings are arguments, as is the order
  in which the entries are iterated.

  The theorems show that a nonce accepted once is refused while its retention lasts, that a live
  entry is lost only to make room, and then the least recently used one, and that the number of
  entries stays within the configured maximum when the clock advances between operations.
\<close>

section \<open>Entries and keys\<close>

abbreviation (input) DEFAULT_RETENTION :: duration where "DEFAULT_RETENTION \<equiv> 300000000000"
abbreviation (input) MIN_RETENTION :: duration where "MIN_RETENTION \<equiv> 60000000000"
abbreviation (input) MAX_RETENTION :: duration where "MAX_RETENTION \<equiv> 3600000000000"
abbreviation (input) DEFAULT_MAX_ENTRIES :: nat where "DEFAULT_MAX_ENTRIES \<equiv> 100000"
abbreviation (input) MIN_MAX_ENTRIES :: nat where "MIN_MAX_ENTRIES \<equiv> 1000"
abbreviation (input) MAX_MAX_ENTRIES :: nat where "MAX_MAX_ENTRIES \<equiv> 10000000"
abbreviation (input) NONCE_SIZE :: nat where "NONCE_SIZE \<equiv> 32"
abbreviation (input) AGENT_ID_SIZE :: nat where "AGENT_ID_SIZE \<equiv> 32"

datatype NonceReuseError = NonceReuseError

datatype ReplayCacheError =
    RetentionOutOfRange duration duration duration
  | MaxEntriesOutOfRange nat nat nat

record Entry =
  expires_at :: instant
  last_accessed :: instant

definition is_expired :: "Entry \<Rightarrow> instant \<Rightarrow> bool" where
  "is_expired e now \<longleftrightarrow> expires_at e \<le> now"

definition make_key :: "bytes \<Rightarrow> bytes \<Rightarrow> bytes" where
  "make_key agent_id nonce =
     (let key = replicate (AGENT_ID_SIZE + NONCE_SIZE) 0;
          id_len = min (length agent_id) AGENT_ID_SIZE;
          key = take id_len agent_id @ drop id_len key
      in take AGENT_ID_SIZE key @ nonce)"

type_synonym entry_order = "(bytes, Entry) hash_map \<Rightarrow> (bytes \<times> Entry) list"

record ReplayCache =
  rc_entries :: "(bytes, Entry) hash_map"
  rc_lazy_evict_batch :: nat
  rc_retention :: duration
  rc_max_entries :: nat

definition ReplayCache_new :: ReplayCache where
  "ReplayCache_new = \<lparr>rc_entries = [], rc_lazy_evict_batch = 64, rc_retention = DEFAULT_RETENTION,
     rc_max_entries = DEFAULT_MAX_ENTRIES\<rparr>"

definition ReplayCache_with_params :: "duration \<Rightarrow> nat \<Rightarrow> ReplayCacheError + ReplayCache" where
  "ReplayCache_with_params retention max_entries =
     (if \<not> (MIN_RETENTION \<le> retention \<and> retention \<le> MAX_RETENTION)
      then Inl (RetentionOutOfRange retention MIN_RETENTION MAX_RETENTION)
      else if \<not> (MIN_MAX_ENTRIES \<le> max_entries \<and> max_entries \<le> MAX_MAX_ENTRIES)
      then Inl (MaxEntriesOutOfRange max_entries MIN_MAX_ENTRIES MAX_MAX_ENTRIES)
      else Inr \<lparr>rc_entries = [], rc_lazy_evict_batch = 64, rc_retention = retention,
        rc_max_entries = max_entries\<rparr>)"

text \<open>Reserving capacity does not change the contents.\<close>

definition ReplayCache_with_capacity :: "duration \<Rightarrow> nat \<Rightarrow> nat \<Rightarrow> ReplayCacheError + ReplayCache" where
  "ReplayCache_with_capacity retention max_entries capacity =
     bind_result (ReplayCache_with_params retention max_entries) (\<lambda>cache. Inr cache)"

definition ReplayCache_with_params_unchecked :: "duration \<Rightarrow> nat \<Rightarrow> ReplayCache" where
  "ReplayCache_with_params_unchecked retention max_entries =
     \<lparr>rc_entries = [], rc_lazy_evict_batch = 64, rc_retention = retention,
      rc_max_entries = max_entries\<rparr>"

definition ReplayCache_len :: "ReplayCache \<Rightarrow> nat" where
  "ReplayCache_len c = hm_len (rc_entries c)"

definition ReplayCache_is_empty :: "ReplayCache \<Rightarrow> bool" where
  "ReplayCache_is_empty c \<longleftrightarrow> rc_entries c = []"

section \<open>Eviction\<close>

definition lazy_evict :: "entry_order \<Rightarrow> instant \<Rightarrow> ReplayCache \<Rightarrow> ReplayCache" where
  "lazy_evict ord now c =
     (if hm_len (rc_entries c) \<le> rc_max_entries c div 2 then c
      else
        let batch = rc_lazy_evict_batch c;
            to_remove = map fst (filter (\<lambda>(key, entry). is_expired entry now)
              (take batch (ord (rc_entries c))))
        in c\<lparr>rc_entries := fold hm_remove to_remove (rc_entries c)\<rparr>)"

definition lru_scan :: "(bytes \<times> Entry) list \<Rightarrow> instant \<Rightarrow> bytes option \<times> instant" where
  "lru_scan es now =
     fold (\<lambda>(key, entry) (lru_key, lru_time).
       if last_accessed entry < lru_time then (Some key, last_accessed entry)
       else (lru_key, lru_time)) es (None, now)"

definition evict_lru :: "entry_order \<Rightarrow> instant \<Rightarrow> instant \<Rightarrow> ReplayCache \<Rightarrow> ReplayCache" where
  "evict_lru ord now lru_now c =
     (case find (\<lambda>(key, entry). is_expired entry now) (ord (rc_entries c)) of
        Some (key, _) \<Rightarrow> c\<lparr>rc_entries := hm_remove key (rc_entries c)\<rparr>
      | None \<Rightarrow>
          (case fst (lru_scan (ord (rc_entries c)) lru_now) of
             Some key \<Rightarrow> c\<lparr>rc_entries := hm_remove key (rc_entries c)\<rparr>
           | None \<Rightarrow> c))"

definition evict_expired :: "instant \<Rightarrow> ReplayCache \<Rightarrow> nat \<times> ReplayCache" where
  "evict_expired now c =
     (let before = hm_len (rc_entries c);
          entries = hm_retain (\<lambda>_ entry. \<not> is_expired entry now) (rc_entries c)
      in (before - hm_len entries, c\<lparr>rc_entries := entries\<rparr>))"

definition ReplayCache_clear :: "ReplayCache \<Rightarrow> ReplayCache" where
  "ReplayCache_clear c = c\<lparr>rc_entries := []\<rparr>"

section \<open>Queries and insertion\<close>

definition ReplayCache_check ::
    "entry_order \<Rightarrow> instant \<Rightarrow> bytes \<Rightarrow> bytes \<Rightarrow> ReplayCache \<Rightarrow> bool \<times> ReplayCache" where
  "ReplayCache_check ord now agent_id nonce c =
     (let key = make_key agent_id nonce;
          c = lazy_evict ord now c
      in case hm_get (rc_entries c) key of
           Some entry \<Rightarrow>
             if is_expired entry now
             then (False, c\<lparr>rc_entries := hm_remove key (rc_entries c)\<rparr>)
             else (True, c\<lparr>rc_entries := hm_insert key (entry\<lparr>last_accessed := now\<rparr>) (rc_entries c)\<rparr>)
         | None \<Rightarrow> (False, c))"

definition check_and_insert ::
    "entry_order \<Rightarrow> instant \<Rightarrow> instant \<Rightarrow> bytes \<Rightarrow> bytes \<Rightarrow> ReplayCache \<Rightarrow>
     (NonceReuseError + unit) \<times> ReplayCache" where
  "check_and_insert ord now lru_now agent_id nonce c =
     (let key = make_key agent_id nonce;
          c = lazy_evict ord now c;
          found = hm_get (rc_entries c) key
      in if (case found of Some entry \<Rightarrow> \<not> is_expired entry now | None \<Rightarrow> False)
         then (Inl NonceReuseError, c)
         else
           let c = (if found \<noteq> None then c\<lparr>rc_entries := hm_remove key (rc_entries c)\<rparr> else c);
               c = (if hm_len (rc_entries c) \<ge> rc_max_entries c then evict_lru ord now lru_now c else c)
           in (Inr (), c\<lparr>rc_entries := hm_insert key
                \<lparr>expires_at = now + rc_retention c, last_accessed = now\<rparr> (rc_entries c)\<rparr>))"

definition ReplayCache_insert ::
    "entry_order \<Rightarrow> instant \<Rightarrow> instant \<Rightarrow> bytes \<Rightarrow> bytes \<Rightarrow> ReplayCache \<Rightarrow> ReplayCache" where
  "ReplayCache_insert ord now lru_now agent_id nonce c =
     (let key = make_key agent_id nonce;
          c = lazy_evict ord now c;
          c = (if hm_get (rc_entries c) key = None \<and> hm_len (rc_entries c) \<ge> rc_max_entries c
               then evict_lru ord now lru_now c else c)
      in c\<lparr>rc_entries := hm_insert key
           \<lparr>expires_at = now + rc_retention c, last_accessed = now\<rparr> (rc_entries c)\<rparr>)"

section \<open>What eviction removes\<close>

lemma lazy_evict_params [simp]:
  "rc_max_entries (lazy_evict ord now c) = rc_max_entries c"
  "rc_retention (lazy_evict ord now c) = rc_retention c"
  by (simp_all add: lazy_evict_def Let_def)

lemma evict_lru_params [simp]:
  "rc_max_entries (evict_lru ord now lru_now c) = rc_max_entries c"
  "rc_retention (evict_lru ord now lru_now c) = rc_retention c"
  by (simp_all add: evict_lru_def split: option.split)

lemma lazy_evict_ok:
  assumes "hm_ok (rc_entries c)"
  shows "hm_ok (rc_entries (lazy_evict ord now c))"
    and "hm_len (rc_entries (lazy_evict ord now c)) \<le> hm_len (rc_entries c)"
  using assms by (simp_all add: lazy_evict_def Let_def hm.del_all_ok hm.len_del_all_le)

lemma lazy_evict_get:
  assumes "hm_ok (rc_entries c)" "iteration_order ord"
  shows "hm_get (rc_entries (lazy_evict ord now c)) k = Some e \<Longrightarrow> hm_get (rc_entries c) k = Some e"
    and "hm_get (rc_entries c) k = Some e \<Longrightarrow> \<not> is_expired e now \<Longrightarrow>
      hm_get (rc_entries (lazy_evict ord now c)) k = Some e"
proof -
  show "hm_get (rc_entries (lazy_evict ord now c)) k = Some e \<Longrightarrow> hm_get (rc_entries c) k = Some e"
    by (simp add: lazy_evict_def Let_def hm.get_del_all split: if_splits)
  assume e: "hm_get (rc_entries c) k = Some e" "\<not> is_expired e now"
  have "k \<notin> fst ` set (filter (\<lambda>(key, entry). is_expired entry now)
      (take (rc_lazy_evict_batch c) (ord (rc_entries c))))"
  proof
    assume "k \<in> fst ` set (filter (\<lambda>(key, entry). is_expired entry now)
      (take (rc_lazy_evict_batch c) (ord (rc_entries c))))"
    then obtain e' where "(k, e') \<in> set (ord (rc_entries c))" "is_expired e' now"
      using set_take_subset by fastforce
    then have "hm_get (rc_entries c) k = Some e'"
      using assms by (simp add: iteration_order_set hm_get_iff)
    with e \<open>is_expired e' now\<close> show False by simp
  qed
  then show "hm_get (rc_entries (lazy_evict ord now c)) k = Some e"
    using e by (simp add: lazy_evict_def Let_def hm.get_del_all)
qed

lemma lru_scan_snoc:
  "lru_scan (es @ [(k, e)]) now =
     (if last_accessed e < snd (lru_scan es now) then (Some k, last_accessed e) else lru_scan es now)"
  by (simp add: lru_scan_def split_beta)

lemma lru_scan_least: "(k, e) \<in> set es \<Longrightarrow> snd (lru_scan es now) \<le> last_accessed e"
proof (induction es rule: rev_induct)
  case (snoc x es)
  then show ?case by (cases x) (auto simp: lru_scan_snoc)
qed simp

lemma lru_scan_None: "fst (lru_scan es now) = None \<Longrightarrow> snd (lru_scan es now) = now"
proof (induction es rule: rev_induct)
  case (snoc x es)
  then show ?case by (cases x) (auto simp: lru_scan_snoc split: if_splits)
qed (simp add: lru_scan_def)

lemma lru_scan_bound: "snd (lru_scan es now) \<le> now"
proof (induction es rule: rev_induct)
  case (snoc x es)
  then show ?case by (cases x) (auto simp: lru_scan_snoc)
qed (simp add: lru_scan_def)

lemma lru_scan_Some:
  "fst (lru_scan es now) = Some k \<Longrightarrow>
     \<exists>e. (k, e) \<in> set es \<and> last_accessed e = snd (lru_scan es now) \<and> last_accessed e < now"
proof (induction es rule: rev_induct)
  case (snoc x es)
  obtain j e where x: "x = (j, e)" by (cases x)
  show ?case
    using snoc lru_scan_bound [of es now] by (auto simp: x lru_scan_snoc split: if_splits)
qed (simp add: lru_scan_def)

lemma evict_lru_cases:
  assumes "hm_ok (rc_entries c)" "iteration_order ord"
  obtains (expired) key e where "hm_get (rc_entries c) key = Some e" "is_expired e now"
      "evict_lru ord now lru_now c = c\<lparr>rc_entries := hm_remove key (rc_entries c)\<rparr>"
  | (lru) key e where "hm_get (rc_entries c) key = Some e" "last_accessed e < lru_now"
      "\<forall>k e'. hm_get (rc_entries c) k = Some e' \<longrightarrow> \<not> is_expired e' now \<and> last_accessed e \<le> last_accessed e'"
      "evict_lru ord now lru_now c = c\<lparr>rc_entries := hm_remove key (rc_entries c)\<rparr>"
  | (recent) "\<forall>k e. hm_get (rc_entries c) k = Some e \<longrightarrow> \<not> is_expired e now \<and> lru_now \<le> last_accessed e"
      "evict_lru ord now lru_now c = c"
proof (cases "find (\<lambda>(key, entry). is_expired entry now) (ord (rc_entries c))")
  case (Some ke)
  obtain key e where ke: "ke = (key, e)" by (cases ke)
  with Some have "(key, e) \<in> set (ord (rc_entries c))" "is_expired e now"
    by (auto simp: find_Some_iff) (metis nth_mem)
  then show ?thesis
    using assms Some ke by (intro expired) (simp_all add: iteration_order_set hm_get_iff evict_lru_def)
next
  case None
  then have live: "\<not> is_expired e now" if "hm_get (rc_entries c) k = Some e" for k e
    using that assms by (auto simp: find_None_iff iteration_order_set hm_get_iff)
  have mem: "(k, e) \<in> set (ord (rc_entries c)) \<longleftrightarrow> hm_get (rc_entries c) k = Some e" for k e
    using assms by (simp add: iteration_order_set hm_get_iff)
  show ?thesis
  proof (cases "fst (lru_scan (ord (rc_entries c)) lru_now)")
    case None
    then have "lru_now \<le> last_accessed e" if "hm_get (rc_entries c) k = Some e" for k e
      using that lru_scan_least [of k e "ord (rc_entries c)" lru_now] by (simp add: mem lru_scan_None)
    moreover have "evict_lru ord now lru_now c = c"
      using None \<open>find _ _ = None\<close> by (simp add: evict_lru_def)
    ultimately show ?thesis using live by (intro recent) blast+
  next
    case (Some k)
    obtain e where e: "hm_get (rc_entries c) k = Some e"
      "last_accessed e = snd (lru_scan (ord (rc_entries c)) lru_now)" "last_accessed e < lru_now"
      using lru_scan_Some [OF Some] by (auto simp: mem)
    have "last_accessed e \<le> last_accessed e'" if "hm_get (rc_entries c) j = Some e'" for j e'
      using that e(2) lru_scan_least [of j e' "ord (rc_entries c)" lru_now] by (simp add: mem)
    moreover have "evict_lru ord now lru_now c = c\<lparr>rc_entries := hm_remove k (rc_entries c)\<rparr>"
      using Some \<open>find _ _ = None\<close> by (simp add: evict_lru_def)
    ultimately show ?thesis using e live by (intro lru [of k e]) blast+
  qed
qed

lemma evict_lru_ok:
  assumes "hm_ok (rc_entries c)" "iteration_order ord"
  shows "hm_ok (rc_entries (evict_lru ord now lru_now c))"
  by (rule evict_lru_cases [OF assms, of now lru_now]) (simp_all add: assms hm.del_ok)

lemma evict_lru_len:
  assumes "hm_ok (rc_entries c)" "iteration_order ord"
    and "rc_entries c \<noteq> []" "\<forall>k e. hm_get (rc_entries c) k = Some e \<longrightarrow> last_accessed e < lru_now"
  shows "hm_len (rc_entries (evict_lru ord now lru_now c)) = hm_len (rc_entries c) - 1"
proof (rule evict_lru_cases [OF assms(1,2), of now lru_now])
  assume *: "\<forall>k e. hm_get (rc_entries c) k = Some e \<longrightarrow> \<not> is_expired e now \<and> lru_now \<le> last_accessed e"
  obtain k e where "(k, e) \<in> set (rc_entries c)" using assms(3) by (cases "rc_entries c") auto
  then have "hm_get (rc_entries c) k = Some e" using assms(1) by (simp add: hm_get_iff)
  with * assms(4) show ?thesis by fastforce
qed (simp_all add: hm.len_del assms(1))

section \<open>Sequences of operations\<close>

datatype replay_event =
    RcCheck entry_order instant bytes bytes
  | RcCheckInsert entry_order instant instant bytes bytes
  | RcInsert entry_order instant instant bytes bytes
  | RcEvictExpired instant
  | RcClear

fun replay_step :: "replay_event \<Rightarrow> ReplayCache \<Rightarrow> ReplayCache" where
  "replay_step (RcCheck ord now a n) c = snd (ReplayCache_check ord now a n c)"
| "replay_step (RcCheckInsert ord now lru_now a n) c = snd (check_and_insert ord now lru_now a n c)"
| "replay_step (RcInsert ord now lru_now a n) c = ReplayCache_insert ord now lru_now a n c"
| "replay_step (RcEvictExpired now) c = snd (evict_expired now c)"
| "replay_step RcClear c = ReplayCache_clear c"

fun replay_ok :: "replay_event \<Rightarrow> bool" where
  "replay_ok (RcCheck ord _ _ _) = iteration_order ord"
| "replay_ok (RcCheckInsert ord _ _ _ _) = iteration_order ord"
| "replay_ok (RcInsert ord _ _ _ _) = iteration_order ord"
| "replay_ok _ = True"

fun replay_now :: "replay_event \<Rightarrow> instant option" where
  "replay_now (RcCheck _ now _ _) = Some now"
| "replay_now (RcCheckInsert _ now _ _ _) = Some now"
| "replay_now (RcInsert _ now _ _ _) = Some now"
| "replay_now (RcEvictExpired now) = Some now"
| "replay_now RcClear = None"

fun is_insertion :: "replay_event \<Rightarrow> bool" where
  "is_insertion (RcCheckInsert _ _ _ _ _) = True"
| "is_insertion (RcInsert _ _ _ _ _) = True"
| "is_insertion _ = False"

lemmas replay_ops = ReplayCache_check_def check_and_insert_def ReplayCache_insert_def
  evict_expired_def ReplayCache_clear_def

lemma lazy_evict_live:
  assumes "hm_ok (rc_entries c)" "iteration_order ord"
  shows "(\<exists>e. hm_get (rc_entries (lazy_evict ord now c)) k = Some e \<and> \<not> is_expired e now) \<longleftrightarrow>
    (\<exists>e. hm_get (rc_entries c) k = Some e \<and> \<not> is_expired e now)"
  using lazy_evict_get(1) [OF assms, of now k] lazy_evict_get(2) [OF assms, of k _ now] by blast

lemma check_and_insert_refuses:
  assumes "hm_ok (rc_entries c)" "iteration_order ord"
  shows "fst (check_and_insert ord now lru_now a n c) = Inl NonceReuseError \<longleftrightarrow>
    (\<exists>e. hm_get (rc_entries c) (make_key a n) = Some e \<and> \<not> is_expired e now)"
  unfolding lazy_evict_live [OF assms, symmetric]
  by (cases "hm_get (rc_entries (lazy_evict ord now c)) (make_key a n)")
    (simp_all add: check_and_insert_def Let_def)

lemma check_reports:
  assumes "hm_ok (rc_entries c)" "iteration_order ord"
  shows "fst (ReplayCache_check ord now a n c) \<longleftrightarrow>
    (\<exists>e. hm_get (rc_entries c) (make_key a n) = Some e \<and> \<not> is_expired e now)"
  unfolding lazy_evict_live [OF assms, symmetric]
  by (cases "hm_get (rc_entries (lazy_evict ord now c)) (make_key a n)")
    (simp_all add: ReplayCache_check_def Let_def)

lemma replay_step_params [simp]:
  "rc_max_entries (replay_step e c) = rc_max_entries c"
  "rc_retention (replay_step e c) = rc_retention c"
  by (cases e; simp add: replay_ops Let_def split: option.split)+

text \<open>A step that only forgets entries.\<close>

definition shrinks :: "ReplayCache \<Rightarrow> ReplayCache \<Rightarrow> bool" where
  "shrinks c d \<longleftrightarrow> rc_max_entries d = rc_max_entries c \<and> rc_retention d = rc_retention c \<and>
     hm_ok (rc_entries d) \<and> hm_len (rc_entries d) \<le> hm_len (rc_entries c) \<and>
     (\<forall>k e. hm_get (rc_entries d) k = Some e \<longrightarrow> hm_get (rc_entries c) k = Some e)"

lemma shrinks_refl: "hm_ok (rc_entries c) \<Longrightarrow> shrinks c c"
  by (simp add: shrinks_def)

lemma shrinks_trans: "shrinks c d \<Longrightarrow> shrinks d f \<Longrightarrow> shrinks c f"
  by (auto simp: shrinks_def)

lemma shrinks_remove:
  "hm_ok (rc_entries c) \<Longrightarrow> shrinks c (c\<lparr>rc_entries := hm_remove k (rc_entries c)\<rparr>)"
  by (simp add: shrinks_def hm.del_ok hm.len_del hm.get_del)

lemma shrinks_lazy_evict: "hm_ok (rc_entries c) \<Longrightarrow> shrinks c (lazy_evict ord now c)"
  by (simp add: shrinks_def lazy_evict_ok)
    (simp add: lazy_evict_def Let_def hm.get_del_all split: if_splits)

lemma shrinks_evict_lru: "hm_ok (rc_entries c) \<Longrightarrow> shrinks c (evict_lru ord now lru_now c)"
  using shrinks_remove [of c] shrinks_refl [of c] by (auto simp: evict_lru_def split: option.split)

lemma hm_len_retain: "hm_len (hm_retain P m) \<le> hm_len m"
  by (simp add: hm_len_def hm_retain_def)

lemma shrinks_evict_expired:
  assumes "hm_ok (rc_entries c)"
  shows "shrinks c (snd (evict_expired now c))"
  using assms
  by (auto simp: shrinks_def evict_expired_def Let_def hm_get_retain hm_retain_ok hm_len_retain
      split: option.splits if_splits)

text \<open>An insertion is \<open>stored\<close> after forgetting: the caches that the two operations insert into.\<close>

definition stored :: "bytes \<Rightarrow> Entry \<Rightarrow> ReplayCache \<Rightarrow> ReplayCache" where
  "stored k v c = c\<lparr>rc_entries := hm_insert k v (rc_entries c)\<rparr>"

definition fresh_entry :: "instant \<Rightarrow> ReplayCache \<Rightarrow> Entry" where
  "fresh_entry now c = \<lparr>expires_at = now + rc_retention c, last_accessed = now\<rparr>"

definition make_room :: "entry_order \<Rightarrow> instant \<Rightarrow> instant \<Rightarrow> ReplayCache \<Rightarrow> ReplayCache" where
  "make_room ord now lru_now c =
     (if hm_len (rc_entries c) \<ge> rc_max_entries c then evict_lru ord now lru_now c else c)"

definition forget_key :: "bytes \<Rightarrow> ReplayCache \<Rightarrow> ReplayCache" where
  "forget_key k c =
     (if hm_get (rc_entries c) k \<noteq> None then c\<lparr>rc_entries := hm_remove k (rc_entries c)\<rparr> else c)"

lemma shrinks_make_room: "hm_ok (rc_entries c) \<Longrightarrow> shrinks c (make_room ord now lru_now c)"
  by (simp add: make_room_def shrinks_refl shrinks_evict_lru)

lemma shrinks_forget_key: "hm_ok (rc_entries c) \<Longrightarrow> shrinks c (forget_key k c)"
  by (simp add: forget_key_def shrinks_refl shrinks_remove)

lemma shrinks_ok: "shrinks c d \<Longrightarrow> hm_ok (rc_entries d)"
  by (simp add: shrinks_def)

lemma shrinks_params: "shrinks c d \<Longrightarrow> rc_max_entries d = rc_max_entries c \<and> rc_retention d = rc_retention c"
  by (simp add: shrinks_def)

lemma shrinks_len: "shrinks c d \<Longrightarrow> hm_len (rc_entries d) \<le> hm_len (rc_entries c)"
  by (simp add: shrinks_def)

lemma check_and_insert_cases:
  obtains (refused) "check_and_insert ord now lru_now a n c = (Inl NonceReuseError, lazy_evict ord now c)"
  | (inserted) "check_and_insert ord now lru_now a n c =
      (Inr (), stored (make_key a n) (fresh_entry now c)
        (make_room ord now lru_now (forget_key (make_key a n) (lazy_evict ord now c))))"
proof (cases "case hm_get (rc_entries (lazy_evict ord now c)) (make_key a n) of
    Some entry \<Rightarrow> \<not> is_expired entry now | None \<Rightarrow> False")
  case True
  then show ?thesis by (intro refused) (simp add: check_and_insert_def Let_def)
next
  case False
  then show ?thesis
    by (intro inserted) (simp add: check_and_insert_def Let_def stored_def fresh_entry_def make_room_def
      forget_key_def)
qed

lemma ReplayCache_insert_form:
  "ReplayCache_insert ord now lru_now a n c =
     stored (make_key a n) (fresh_entry now c)
       (if hm_get (rc_entries (lazy_evict ord now c)) (make_key a n) = None
        then make_room ord now lru_now (lazy_evict ord now c) else lazy_evict ord now c)"
  by (simp add: ReplayCache_insert_def Let_def stored_def fresh_entry_def make_room_def)

lemma check_cases:
  assumes "hm_ok (rc_entries c)"
  obtains (absent) "ReplayCache_check ord now a n c = (False, lazy_evict ord now c)"
  | (expired) e where "hm_get (rc_entries (lazy_evict ord now c)) (make_key a n) = Some e" "is_expired e now"
      "ReplayCache_check ord now a n c = (False, forget_key (make_key a n) (lazy_evict ord now c))"
  | (live) e where "hm_get (rc_entries (lazy_evict ord now c)) (make_key a n) = Some e" "\<not> is_expired e now"
      "ReplayCache_check ord now a n c =
        (True, stored (make_key a n) (e\<lparr>last_accessed := now\<rparr>) (lazy_evict ord now c))"
proof (cases "hm_get (rc_entries (lazy_evict ord now c)) (make_key a n)")
  case None
  then show ?thesis by (intro absent) (simp add: ReplayCache_check_def Let_def)
next
  case (Some e)
  then show ?thesis
    using expired [of e] live [of e]
    by (cases "is_expired e now") (simp_all add: ReplayCache_check_def Let_def stored_def forget_key_def)
qed

lemma lazy_evict_chain:
  assumes "hm_ok (rc_entries c)"
  shows "shrinks c (lazy_evict ord now c)"
    and "shrinks c (forget_key k (lazy_evict ord now c))"
    and "shrinks c (make_room ord now lru_now (lazy_evict ord now c))"
    and "shrinks c (make_room ord now lru_now (forget_key k (lazy_evict ord now c)))"
proof -
  show l: "shrinks c (lazy_evict ord now c)" using assms by (rule shrinks_lazy_evict)
  show f: "shrinks c (forget_key k (lazy_evict ord now c))"
    by (rule shrinks_trans [OF l shrinks_forget_key [OF shrinks_ok [OF l]]])
  show "shrinks c (make_room ord now lru_now (lazy_evict ord now c))"
    by (rule shrinks_trans [OF l shrinks_make_room [OF shrinks_ok [OF l]]])
  show "shrinks c (make_room ord now lru_now (forget_key k (lazy_evict ord now c)))"
    by (rule shrinks_trans [OF f shrinks_make_room [OF shrinks_ok [OF f]]])
qed

text \<open>Every step forgets entries and then stores at most one, new or present before.\<close>

lemma replay_step_form:
  assumes "hm_ok (rc_entries c)"
  obtains (forgets) "shrinks c (replay_step ev c)"
  | (stores) k v d where "shrinks c d" "replay_step ev c = stored k v d"
      "is_insertion ev \<or> hm_get (rc_entries d) k \<noteq> None" "replay_now ev = Some (last_accessed v)"
proof (cases ev)
  case (RcCheck ord now a n)
  show ?thesis
  proof (rule check_cases [OF assms, of ord now a n])
    fix e
    assume "hm_get (rc_entries (lazy_evict ord now c)) (make_key a n) = Some e"
      "ReplayCache_check ord now a n c =
        (True, stored (make_key a n) (e\<lparr>last_accessed := now\<rparr>) (lazy_evict ord now c))"
    then show ?thesis
      using RcCheck by (intro stores [OF lazy_evict_chain(1) [OF assms, of ord now]]) auto
  qed (use RcCheck lazy_evict_chain(1,2) [OF assms] forgets in simp_all)
next
  case (RcCheckInsert ord now lru_now a n)
  show ?thesis
  proof (rule check_and_insert_cases [of ord now lru_now a n c])
    assume "check_and_insert ord now lru_now a n c =
      (Inr (), stored (make_key a n) (fresh_entry now c)
        (make_room ord now lru_now (forget_key (make_key a n) (lazy_evict ord now c))))"
    then show ?thesis
      using RcCheckInsert by (intro stores [OF lazy_evict_chain(4) [OF assms, of ord now lru_now "make_key a n"]])
        (auto simp: fresh_entry_def)
  qed (use RcCheckInsert lazy_evict_chain(1) [OF assms] forgets in simp)
next
  case (RcInsert ord now lru_now a n)
  show ?thesis
    by (rule stores [of "if hm_get (rc_entries (lazy_evict ord now c)) (make_key a n) = None
        then make_room ord now lru_now (lazy_evict ord now c) else lazy_evict ord now c"
        "make_key a n" "fresh_entry now c"])
      (use RcInsert lazy_evict_chain [OF assms] in \<open>simp_all add: ReplayCache_insert_form fresh_entry_def\<close>)
next
  case (RcEvictExpired now)
  then show ?thesis using shrinks_evict_expired [OF assms, of now] forgets by simp
next
  case RcClear
  then show ?thesis by (intro forgets) (simp add: shrinks_def ReplayCache_clear_def)
qed

lemma replay_step_ok:
  assumes "hm_ok (rc_entries c)"
  shows "hm_ok (rc_entries (replay_step ev c))"
  by (rule replay_step_form [OF assms, of ev]) (auto simp: shrinks_def stored_def hm.put_ok)

lemma replay_step_len:
  assumes "hm_ok (rc_entries c)"
  shows "hm_len (rc_entries (replay_step ev c)) \<le> hm_len (rc_entries c) + (if is_insertion ev then 1 else 0)"
proof (rule replay_step_form [OF assms, of ev])
  fix k v d
  assume "shrinks c d" "replay_step ev c = stored k v d" "is_insertion ev \<or> hm_get (rc_entries d) k \<noteq> None"
  then show ?thesis by (auto simp: shrinks_def stored_def hm.len_put)
qed (simp add: shrinks_def)

section \<open>Replays are refused\<close>

text \<open>The entry of \<open>k\<close> is present and valid until \<open>T\<close> at least.\<close>

definition remembers :: "bytes \<Rightarrow> instant \<Rightarrow> ReplayCache \<Rightarrow> bool" where
  "remembers k T c \<longleftrightarrow> (\<exists>e. hm_get (rc_entries c) k = Some e \<and> T \<le> expires_at e)"

lemma remembers_stored:
  "remembers k T (stored j v c) \<longleftrightarrow> (if j = k then T \<le> expires_at v else remembers k T c)"
  by (auto simp: remembers_def stored_def hm.get_put)

lemma remembers_lazy_evict:
  assumes "hm_ok (rc_entries c)" "iteration_order ord" "remembers k T c" "now < T"
  shows "remembers k T (lazy_evict ord now c)"
proof -
  obtain e where "hm_get (rc_entries c) k = Some e" "T \<le> expires_at e"
    using assms(3) by (auto simp: remembers_def)
  then show ?thesis
    using lazy_evict_get(2) [OF assms(1,2), of k e now] assms(4) by (auto simp: remembers_def is_expired_def)
qed

lemma remembers_make_room:
  "hm_len (rc_entries c) < rc_max_entries c \<Longrightarrow> make_room ord now lru_now c = c"
  by (simp add: make_room_def)

lemma remembers_forget_key: "j \<noteq> k \<Longrightarrow> remembers k T (forget_key j c) = remembers k T c"
  by (simp add: remembers_def forget_key_def hm.get_del)

lemma remembers_step:
  assumes ok: "hm_ok (rc_entries c)" "replay_ok ev" and r: "remembers k T c"
    and T: "T = t0 + rc_retention c" and t: "replay_now ev = Some now" "t0 \<le> now" "now < T"
    and room: "is_insertion ev \<Longrightarrow> hm_len (rc_entries c) < rc_max_entries c"
  shows "remembers k T (replay_step ev c)"
proof (cases ev)
  case (RcCheck ord now' a n)
  then have o: "iteration_order ord" "now' = now" using ok(2) t(1) by simp_all
  note l = remembers_lazy_evict [OF ok(1) o(1) r t(3)]
  show ?thesis
  proof (rule check_cases [OF ok(1), of ord now a n])
    fix e assume e: "hm_get (rc_entries (lazy_evict ord now c)) (make_key a n) = Some e" "is_expired e now"
      "ReplayCache_check ord now a n c = (False, forget_key (make_key a n) (lazy_evict ord now c))"
    then have "make_key a n \<noteq> k" using l t(3) by (auto simp: remembers_def is_expired_def)
    then show ?thesis using e l RcCheck o by (simp add: remembers_forget_key)
  next
    fix e assume e: "hm_get (rc_entries (lazy_evict ord now c)) (make_key a n) = Some e"
      "ReplayCache_check ord now a n c =
        (True, stored (make_key a n) (e\<lparr>last_accessed := now\<rparr>) (lazy_evict ord now c))"
    then show ?thesis using l RcCheck o by (auto simp: remembers_stored) (simp add: remembers_def)
  qed (use l RcCheck o in simp)
next
  case (RcCheckInsert ord now' lru_now a n)
  then have o: "iteration_order ord" "now' = now" using ok(2) t(1) by simp_all
  note l = remembers_lazy_evict [OF ok(1) o(1) r t(3)]
  let ?f = "forget_key (make_key a n) (lazy_evict ord now c)"
  have "hm_len (rc_entries ?f) < rc_max_entries ?f"
    using room RcCheckInsert lazy_evict_chain(2) [OF ok(1), of "make_key a n" ord now] by (simp add: shrinks_def)
  then have m: "make_room ord now lru_now ?f = ?f" by (rule remembers_make_room)
  show ?thesis
  proof (rule check_and_insert_cases [of ord now lru_now a n c])
    assume i: "check_and_insert ord now lru_now a n c =
      (Inr (), stored (make_key a n) (fresh_entry now c) (make_room ord now lru_now ?f))"
    then have "make_key a n \<noteq> k"
      using check_and_insert_refuses [OF ok(1) o(1), of now lru_now a n] r t(3)
      by (auto simp: remembers_def is_expired_def)
    then show ?thesis using i l RcCheckInsert o by (simp add: m remembers_stored remembers_forget_key)
  qed (use l RcCheckInsert o in simp)
next
  case (RcInsert ord now' lru_now a n)
  then have o: "iteration_order ord" "now' = now" using ok(2) t(1) by simp_all
  have "hm_len (rc_entries (lazy_evict ord now c)) < rc_max_entries (lazy_evict ord now c)"
    using room RcInsert lazy_evict_ok(2) [OF ok(1), of ord now] by simp
  then have "make_room ord now lru_now (lazy_evict ord now c) = lazy_evict ord now c"
    by (rule remembers_make_room)
  then show ?thesis
    using remembers_lazy_evict [OF ok(1) o(1) r t(3)] RcInsert o T t(2)
    by (simp add: ReplayCache_insert_form remembers_stored fresh_entry_def)
next
  case (RcEvictExpired now')
  then show ?thesis using r t ok(1)
    by (auto simp: remembers_def evict_expired_def Let_def hm_get_retain is_expired_def)
qed (use t(1) in simp)

lemma remembers_run:
  assumes "hm_ok (rc_entries c)" "remembers k T c" "T = t0 + rc_retention c"
    and "\<forall>ev \<in> set es. replay_ok ev \<and> (\<exists>now. replay_now ev = Some now \<and> t0 \<le> now \<and> now < T)"
    and "hm_len (rc_entries c) + length (filter is_insertion es) \<le> rc_max_entries c"
  shows "remembers k T (fold replay_step es c) \<and> hm_ok (rc_entries (fold replay_step es c))"
  using assms
proof (induction es arbitrary: c)
  case (Cons ev es)
  obtain now where n: "replay_now ev = Some now" "t0 \<le> now" "now < T" "replay_ok ev"
    using Cons.prems(4) by auto
  have "remembers k T (replay_step ev c)"
    using Cons.prems n by (intro remembers_step [of c ev k T t0 now]) auto
  moreover have "hm_len (rc_entries (replay_step ev c)) + length (filter is_insertion es) \<le> rc_max_entries c"
    using Cons.prems(1,5) replay_step_len [of c ev] by (auto split: if_splits)
  ultimately show ?case
    unfolding fold.simps comp_apply
    by (intro Cons.IH) (use Cons.prems replay_step_ok [of c ev] in simp_all)
qed simp

text \<open>
  Replay protection: once \<open>check_and_insert\<close> accepted a nonce of an agent at time \<open>t0\<close>, both
  \<open>check_and_insert\<close> and \<open>check\<close> recognise it at any time before \<open>t0 + retention\<close>, whatever checks,
  insertions and sweeps happened in that time (in any order of their clock readings, and with any
  iteration order of the table), as long as the insertions fit in the cache and it is not cleared.
\<close>

lemma replay_refused:
  assumes "hm_ok (rc_entries c)" and "iteration_order ord" and "iteration_order ord'"
    and "check_and_insert ord t0 lru_now agent_id nonce c = (Inr (), c1)"
    and "\<forall>ev \<in> set es. replay_ok ev \<and>
      (\<exists>now. replay_now ev = Some now \<and> t0 \<le> now \<and> now < t0 + rc_retention c)"
    and "hm_len (rc_entries c1) + length (filter is_insertion es) \<le> rc_max_entries c"
    and "t < t0 + rc_retention c"
  shows "fst (check_and_insert ord' t lru_now' agent_id nonce (fold replay_step es c1)) = Inl NonceReuseError \<and>
    fst (ReplayCache_check ord' t agent_id nonce (fold replay_step es c1))"
proof -
  let ?k = "make_key agent_id nonce" and ?T = "t0 + rc_retention c"
  have c1: "hm_ok (rc_entries c1)" "rc_retention c1 = rc_retention c" "rc_max_entries c1 = rc_max_entries c"
    using assms(4) replay_step_ok [OF assms(1), of "RcCheckInsert ord t0 lru_now agent_id nonce"]
      replay_step_params [of "RcCheckInsert ord t0 lru_now agent_id nonce" c] by simp_all
  have "remembers ?k ?T c1"
    by (rule check_and_insert_cases [of ord t0 lru_now agent_id nonce c])
      (use assms(4) in \<open>auto simp: remembers_stored fresh_entry_def\<close>)
  from remembers_run [OF c1(1) this, of t0 es]
  have run: "remembers ?k ?T (fold replay_step es c1)" "hm_ok (rc_entries (fold replay_step es c1))"
    using assms(5,6) unfolding c1(2,3) by blast+
  then obtain e where e: "hm_get (rc_entries (fold replay_step es c1)) ?k = Some e" "?T \<le> expires_at e"
    unfolding remembers_def by blast
  then have "\<not> is_expired e t" using assms(7) by (simp add: is_expired_def)
  with e(1) show ?thesis
    unfolding check_and_insert_refuses [OF run(2) assms(3)] check_reports [OF run(2) assms(3)] by blast
qed

lemma replay_refused_example:
  "fst (check_and_insert id 100 101 [1] (replicate 32 7)
     (fold replay_step [RcInsert id 50 51 [2] (replicate 32 8), RcEvictExpired 90]
       (snd (check_and_insert id 5 6 [1] (replicate 32 7) ReplayCache_new)))) = Inl NonceReuseError"
proof -
  let ?c1 = "snd (check_and_insert id 5 6 [1] (replicate 32 7) ReplayCache_new)"
  have o: "iteration_order id" by (simp add: iteration_order_def)
  have "check_and_insert id 5 6 [1] (replicate 32 7) ReplayCache_new = (Inr (), ?c1) \<and>
      hm_len (rc_entries ?c1) + 1 \<le> rc_max_entries ReplayCache_new" by code_simp
  then have "check_and_insert id 5 6 [1] (replicate 32 7) ReplayCache_new = (Inr (), ?c1)"
    "hm_len (rc_entries ?c1) + length (filter is_insertion
      [RcInsert id 50 51 [2] (replicate 32 8), RcEvictExpired 90]) \<le> rc_max_entries ReplayCache_new"
    by simp_all
  from replay_refused [OF _ o o this(1) _ this(2), of 100] show ?thesis
    by (simp add: ReplayCache_new_def o)
qed

section \<open>What is forgotten, and the size of the cache\<close>

lemma make_room_lost:
  assumes "hm_ok (rc_entries c)" "iteration_order ord"
    and "hm_get (rc_entries c) k = Some e" "\<not> is_expired e now"
    and "hm_get (rc_entries (make_room ord now lru_now c)) k = None"
  shows "rc_max_entries c \<le> hm_len (rc_entries c) \<and>
    (\<forall>j f. hm_get (rc_entries c) j = Some f \<longrightarrow> \<not> is_expired f now \<and> last_accessed e \<le> last_accessed f)"
proof (rule evict_lru_cases [OF assms(1,2), of now lru_now])
  fix key x
  assume "hm_get (rc_entries c) key = Some x" "is_expired x now"
    "evict_lru ord now lru_now c = c\<lparr>rc_entries := hm_remove key (rc_entries c)\<rparr>"
  then show ?thesis using assms(3-5) by (auto simp: make_room_def hm.get_del split: if_splits)
next
  fix key x
  assume "hm_get (rc_entries c) key = Some x"
    and l: "\<forall>j f. hm_get (rc_entries c) j = Some f \<longrightarrow> \<not> is_expired f now \<and> last_accessed x \<le> last_accessed f"
    and "evict_lru ord now lru_now c = c\<lparr>rc_entries := hm_remove key (rc_entries c)\<rparr>"
  then have "rc_max_entries c \<le> hm_len (rc_entries c)" "key = k" "x = e"
    using assms(3,5) by (auto simp: make_room_def hm.get_del split: if_splits)
  with l show ?thesis by blast
next
  assume "evict_lru ord now lru_now c = c"
  then show ?thesis using assms(3,5) by (simp add: make_room_def split: if_splits)
qed

text \<open>
  A live entry is forgotten by \<open>check_and_insert\<close> only when the cache is full, and then it is a
  least recently used one among the entries that stay, all of which are live.
\<close>

lemma eviction_is_lru:
  assumes "hm_ok (rc_entries c)" and "iteration_order ord"
    and "check_and_insert ord now lru_now agent_id nonce c = (Inr (), c1)"
    and "hm_get (rc_entries c) k = Some e" and "\<not> is_expired e now"
    and "hm_get (rc_entries c1) k = None"
  shows "rc_max_entries c \<le> hm_len (rc_entries c) \<and>
    (\<forall>j f. hm_get (rc_entries c1) j = Some f \<and> j \<noteq> make_key agent_id nonce \<longrightarrow>
       \<not> is_expired f now \<and> last_accessed e \<le> last_accessed f)"
proof -
  let ?k = "make_key agent_id nonce"
  let ?d = "forget_key ?k (lazy_evict ord now c)"
  have c1: "c1 = stored ?k (fresh_entry now c) (make_room ord now lru_now ?d)"
    by (rule check_and_insert_cases [of ord now lru_now agent_id nonce c]) (use assms(3) in simp_all)
  then have "k \<noteq> ?k" and gone: "hm_get (rc_entries (make_room ord now lru_now ?d)) k = None"
    using assms(6) by (auto simp: stored_def hm.get_put split: if_splits)
  have d: "shrinks c ?d" "hm_get (rc_entries ?d) k = Some e"
    using lazy_evict_chain(2) [OF assms(1)] lazy_evict_get(2) [OF assms(1,2,4,5)] \<open>k \<noteq> ?k\<close>
    by (simp_all add: forget_key_def hm.get_del)
  then have l: "rc_max_entries ?d \<le> hm_len (rc_entries ?d) \<and>
    (\<forall>j f. hm_get (rc_entries ?d) j = Some f \<longrightarrow> \<not> is_expired f now \<and> last_accessed e \<le> last_accessed f)"
    using make_room_lost [OF shrinks_ok [OF d(1)] assms(2) d(2) assms(5) gone] by blast
  moreover have "hm_get (rc_entries ?d) j = Some f"
    if "hm_get (rc_entries c1) j = Some f" "j \<noteq> ?k" for j f
    using that shrinks_make_room [OF shrinks_ok [OF d(1)], of ord now lru_now]
    by (simp add: c1 stored_def hm.get_put shrinks_def)
  ultimately show ?thesis using d(1) unfolding shrinks_def by fastforce
qed

lemma eviction_is_lru_example:
  "rc_max_entries (fold replay_step [RcInsert id 5 6 [1] (replicate 32 0), RcInsert id 7 8 [2] (replicate 32 0)]
       (ReplayCache_with_params_unchecked 100 2)) \<le>
   hm_len (rc_entries (fold replay_step [RcInsert id 5 6 [1] (replicate 32 0), RcInsert id 7 8 [2] (replicate 32 0)]
       (ReplayCache_with_params_unchecked 100 2)))"
proof -
  let ?c = "fold replay_step [RcInsert id 5 6 [1] (replicate 32 0), RcInsert id 7 8 [2] (replicate 32 0)]
    (ReplayCache_with_params_unchecked 100 2)"
  let ?r = "check_and_insert id 9 10 [3] (replicate 32 0) ?c"
  have o: "iteration_order id" by (simp add: iteration_order_def)
  have c: "hm_ok (rc_entries ?c)"
    "?r = (Inr (), snd ?r)"
    "hm_get (rc_entries ?c) (make_key [1] (replicate 32 0)) = Some \<lparr>expires_at = 105, last_accessed = 5\<rparr>"
    "\<not> is_expired \<lparr>expires_at = 105, last_accessed = 5\<rparr> 9"
    "hm_get (rc_entries (snd ?r)) (make_key [1] (replicate 32 0)) = None"
    by code_simp+
  show ?thesis using eviction_is_lru [OF c(1) o c(2-5)] by blast
qed

fun replay_lru :: "replay_event \<Rightarrow> instant option" where
  "replay_lru (RcCheckInsert _ _ lru_now _ _) = Some lru_now"
| "replay_lru (RcInsert _ _ lru_now _ _) = Some lru_now"
| "replay_lru _ = None"

text \<open>The clock read when making room is later than the clock of all earlier operations.\<close>

fun clock_advances :: "instant set \<Rightarrow> replay_event list \<Rightarrow> bool" where
  "clock_advances S [] \<longleftrightarrow> True"
| "clock_advances S (ev # es) \<longleftrightarrow>
     (case replay_lru ev of None \<Rightarrow> True | Some l \<Rightarrow> \<forall>t \<in> S. t < l) \<and>
     clock_advances (S \<union> set_option (replay_now ev)) es"

definition accessed_in :: "instant set \<Rightarrow> ReplayCache \<Rightarrow> bool" where
  "accessed_in S c \<longleftrightarrow> (\<forall>k e. hm_get (rc_entries c) k = Some e \<longrightarrow> last_accessed e \<in> S)"

lemma accessed_in_shrinks: "shrinks c d \<Longrightarrow> accessed_in S c \<Longrightarrow> accessed_in S d"
  by (auto simp: accessed_in_def shrinks_def)

lemma accessed_in_stored:
  "accessed_in S c \<Longrightarrow> accessed_in (insert (last_accessed v) S) (stored k v c)"
  by (auto simp: accessed_in_def stored_def hm.get_put)

lemma accessed_in_mono: "accessed_in S c \<Longrightarrow> S \<subseteq> S' \<Longrightarrow> accessed_in S' c"
  by (auto simp: accessed_in_def)

lemma make_room_len:
  assumes "hm_ok (rc_entries c)" "iteration_order ord" "accessed_in S c" "\<forall>t \<in> S. t < lru_now"
    and "hm_len (rc_entries c) \<le> rc_max_entries c" "1 \<le> rc_max_entries c"
  shows "hm_len (rc_entries (make_room ord now lru_now c)) < rc_max_entries c"
proof (cases "hm_len (rc_entries c) < rc_max_entries c")
  case False
  then have "rc_entries c \<noteq> []" using assms(6) by auto
  then have "hm_len (rc_entries (evict_lru ord now lru_now c)) = hm_len (rc_entries c) - 1"
    using assms by (intro evict_lru_len) (auto simp: accessed_in_def)
  with False assms(5,6) show ?thesis by (simp add: make_room_def)
qed (simp add: make_room_def)

lemma stored_len_le:
  "hm_ok (rc_entries d) \<Longrightarrow> hm_len (rc_entries d) < m \<or> hm_get (rc_entries d) k \<noteq> None \<and> hm_len (rc_entries d) \<le> m \<Longrightarrow>
     hm_len (rc_entries (stored k v d)) \<le> m"
  by (auto simp: stored_def hm.len_put)

lemma accessed_step:
  assumes "hm_ok (rc_entries c)" "accessed_in S c"
  shows "accessed_in (S \<union> set_option (replay_now ev)) (replay_step ev c)"
proof (rule replay_step_form [OF assms(1), of ev])
  assume "shrinks c (replay_step ev c)"
  from accessed_in_shrinks [OF this assms(2)] show ?thesis by (rule accessed_in_mono) simp
next
  fix k v d
  assume "shrinks c d" "replay_step ev c = stored k v d" "replay_now ev = Some (last_accessed v)"
  then show ?thesis using accessed_in_stored [OF accessed_in_shrinks [OF _ assms(2)]] by simp
qed

lemma size_step:
  assumes ok: "hm_ok (rc_entries c)" "replay_ok ev" and S: "accessed_in S c"
    and clock: "case replay_lru ev of None \<Rightarrow> True | Some l \<Rightarrow> \<forall>t \<in> S. t < l"
    and len: "hm_len (rc_entries c) \<le> rc_max_entries c" "1 \<le> rc_max_entries c"
  shows "hm_len (rc_entries (replay_step ev c)) \<le> rc_max_entries c"
proof (cases ev)
  case (RcCheckInsert ord now lru_now a n)
  let ?d = "forget_key (make_key a n) (lazy_evict ord now c)"
  have d: "shrinks c ?d" by (rule lazy_evict_chain(2) [OF ok(1)])
  have "hm_len (rc_entries (make_room ord now lru_now ?d)) < rc_max_entries ?d"
    using ok(2) clock RcCheckInsert len shrinks_len [OF d] shrinks_params [OF d]
    by (intro make_room_len [OF shrinks_ok [OF d] _ accessed_in_shrinks [OF d S]]) auto
  then have "hm_len (rc_entries (stored (make_key a n) (fresh_entry now c) (make_room ord now lru_now ?d))) \<le> rc_max_entries c"
    using shrinks_params [OF d] shrinks_ok [OF lazy_evict_chain(4) [OF ok(1)]] by (intro stored_len_le) auto
  then show ?thesis
    using RcCheckInsert shrinks_len [OF lazy_evict_chain(1) [OF ok(1), of ord now]] len
    by (cases rule: check_and_insert_cases [of ord now lru_now a n c]) auto
next
  case (RcInsert ord now lru_now a n)
  let ?d = "lazy_evict ord now c"
  have d: "shrinks c ?d" by (rule lazy_evict_chain(1) [OF ok(1)])
  have "hm_len (rc_entries (make_room ord now lru_now ?d)) < rc_max_entries ?d"
    using ok(2) clock RcInsert len shrinks_len [OF d] shrinks_params [OF d]
    by (intro make_room_len [OF shrinks_ok [OF d] _ accessed_in_shrinks [OF d S]]) auto
  then show ?thesis
    using RcInsert len shrinks_len [OF d] shrinks_ok [OF d] shrinks_ok [OF lazy_evict_chain(3) [OF ok(1)]]
    by (auto simp: ReplayCache_insert_form intro!: stored_len_le)
qed (use len replay_step_len [OF ok(1), of ev] in auto)

lemma size_run:
  assumes "hm_ok (rc_entries c)" "\<forall>ev \<in> set es. replay_ok ev" "accessed_in S c" "clock_advances S es"
    and "hm_len (rc_entries c) \<le> rc_max_entries c" "1 \<le> rc_max_entries c"
  shows "hm_len (rc_entries (fold replay_step es c)) \<le> rc_max_entries c"
  using assms
proof (induction es arbitrary: c S)
  case (Cons ev es)
  have "hm_len (rc_entries (replay_step ev c)) \<le> rc_max_entries c"
    by (rule size_step [of c ev S]) (use Cons.prems in simp_all)
  then show ?case
    using Cons.IH [of "replay_step ev c" "S \<union> set_option (replay_now ev)"] Cons.prems
      replay_step_ok [of c ev] accessed_step [of c S ev] by simp
qed simp

text \<open>
  Size of the cache: from an accepted configuration, the number of entries never exceeds
  \<open>max_entries\<close>, for any sequence of operations in which the clock read by \<open>evict_lru\<close> is later
  than the clock readings of the earlier operations.
\<close>

lemma replay_cache_bounded:
  assumes "ReplayCache_with_params retention max_entries = Inr c"
    and "\<forall>ev \<in> set es. replay_ok ev" and "clock_advances {} es"
  shows "ReplayCache_len (fold replay_step es c) \<le> max_entries"
proof -
  have "rc_entries c = []" "rc_max_entries c = max_entries" "1 \<le> max_entries"
    using assms(1) by (auto simp: ReplayCache_with_params_def split: if_splits)
  then show ?thesis
    using size_run [of c es "{}"] assms(2,3) by (simp add: ReplayCache_len_def accessed_in_def)
qed

lemma replay_cache_bounded_example:
  "\<exists>c. ReplayCache_with_params 60000000000 1000 = Inr c \<and>
    ReplayCache_len (fold replay_step [RcInsert id 5 6 [1] (replicate 32 0), RcInsert id 5 7 [2] (replicate 32 0)] c) \<le> 1000"
proof -
  obtain c where c: "ReplayCache_with_params 60000000000 1000 = Inr c"
    by (simp add: ReplayCache_with_params_def)
  have "ReplayCache_len (fold replay_step [RcInsert id 5 6 [1] (replicate 32 0), RcInsert id 5 7 [2] (replicate 32 0)] c) \<le> 1000"
    by (rule replay_cache_bounded [OF c]) (simp_all add: iteration_order_def)
  with c show ?thesis by blast
qed

text \<open>
  The clock condition is needed: when the second reading equals the last accesses, nothing is
  evicted and the cache grows beyond its maximum. And \<open>insert\<close> of a live nonce renews its entry.
\<close>

lemma replay_cache_overfull:
  "ReplayCache_len (fold replay_step [RcInsert id 5 5 [1] (replicate 32 0), RcInsert id 5 5 [2] (replicate 32 0)]
     (ReplayCache_with_params_unchecked 100 1)) = 2"
  by code_simp

lemma insert_renews_live_entry:
  "hm_get (rc_entries (fold replay_step [RcInsert id 5 6 [1] (replicate 32 0), RcInsert id 50 51 [1] (replicate 32 0)]
     (ReplayCache_with_params_unchecked 100 10))) (make_key [1] (replicate 32 0)) =
   Some \<lparr>expires_at = 150, last_accessed = 50\<rparr>"
  by code_simp

lemma make_key_collision: "make_key (replicate 32 1 @ [2]) n = make_key (replicate 32 1 @ [3]) n"
  by (simp add: make_key_def)

end
