(* ===== verification/Handshake_Driver.thy ===== *)
theory Handshake_Driver
  imports Handshake_V1 Session Replay_Cache Errors Rpc Framing
begin

text \<open>
  The handshake driver of the SDK, \<open>crates/aafp-sdk/src/handshake_driver.rs\<close>: it exchanges the
  handshake messages over a bidirectional stream, keeps the transcript, consults the replay cache
  and drives the session object. A run of a driver is a function of what it receives. The record
  \<open>handshake_env\<close> holds what else it depends on: clock readings, randomness, the address of the
  peer, whether the transport yields the stream, the iteration orders of the replay cache, and
  the operations other connections perform on the shared cache between the check and the insertion.
  The record \<open>driver_io\<close> is the state a run changes: the bytes still to be received, what was
  sent, the outcome of the coming writes (after the list: success) and the replay cache. A panic is
  the extra error \<open>SdkPanic\<close>; formatted texts are enumerated as constructors.

  The theorems show what acceptance on either side implies, that two honest drivers connected to
  each other accept and agree, and that a ClientHello that is played again is refused.
\<close>

section \<open>State, environment and errors\<close>

record PeerInfo =
  pi_agent_id :: AgentId
  pi_public_key :: bytes
  pi_session_id :: SessionId

datatype handshake_text =
    HtSessionState SessionStateError
  | HtFrameVersion byte
  | HtNotHandshake byte
  | HtExtensions
  | HtPayloadTooLarge nat
  | HtDecode string HandshakeError
  | HtReplay string
  | HtCbor CborError
  | HtVerification string HandshakeError
  | HtTlsBinding
  | HtAuthorizationDenied AuthorizationError
  | HtSessionClose SessionStateError
  | HtConnectionLimit
  | HtRateLimit ustring

datatype messaging_text =
    MtErrorEncode RpcError
  | MtCloseEncode RpcError
  | MtErrorDecode RpcError
  | MtCloseDecode RpcError
  | MtUnexpectedFrame FrameType

datatype SdkError =
    SdkTransport ustring
  | SdkDiscovery ustring
  | SdkHandshake handshake_text
  | SdkMessaging messaging_text
  | SdkFrame FrameError
  | SdkNotConnected
  | SdkNotAuthenticated
  | SdkNotStarted
  | SdkIdentity IdentityError
  | SdkCrypto CryptoError
  | SdkCore Error
  | SdkIo
  | SdkCircuitOpen AgentId
  | SdkConcurrencyLimit AgentId
  | SdkTimeout
  | SdkNoViableCandidate
  | SdkPanic

text \<open>A stream that fails; the text of the error is that of the QUIC package and is left out.\<close>

abbreviation stream_error :: SdkError where
  "stream_error \<equiv> SdkCore (ErrStream [])"

record handshake_env =
  env_now_new :: instant
  env_now_transport :: instant
  env_now_identity :: instant
  env_remote_addr :: ustring
  env_stream_opens :: bool
  env_nonce :: bytes
  env_rnd1 :: bytes
  env_rnd2 :: bytes
  env_unix_hello :: u64
  env_unix_verify :: u64
  env_ord_check :: entry_order
  env_now_check :: instant
  env_others :: "replay_event list"
  env_ord_insert :: entry_order
  env_now_insert :: instant
  env_lru_insert :: instant

record driver_io =
  dr_recv :: bytes
  dr_writes :: "bool list"
  dr_sent :: bytes
  dr_cache :: "ReplayCache option"

type_synonym 'a driver = "driver_io \<Rightarrow> (SdkError + 'a) \<times> driver_io"

section \<open>Handshake frames on a stream\<close>

definition read_exact :: "nat \<Rightarrow> bytes driver" where
  "read_exact n io =
     (if length (dr_recv io) < n then (Inl stream_error, io\<lparr>dr_recv := []\<rparr>)
      else (Inr (take n (dr_recv io)), io\<lparr>dr_recv := drop n (dr_recv io)\<rparr>))"

definition write_all :: "bytes \<Rightarrow> unit driver" where
  "write_all data io =
     (case dr_writes io of
        False # ws \<Rightarrow> (Inl stream_error, io\<lparr>dr_writes := ws\<rparr>)
      | ws \<Rightarrow> (Inr (), io\<lparr>dr_writes := tl ws, dr_sent := dr_sent io @ data\<rparr>))"

definition read_handshake_frame :: "bytes driver" where
  "read_handshake_frame =
     then_with (read_exact 28) (\<lambda>header.
       let version = header ! 0;
           frame_type = header ! 1;
           payload_len = be_val (subslice header 12 20);
           ext_len = be_val (subslice header 20 28)
       in if version \<noteq> 1 then lift_result (Inl (SdkHandshake (HtFrameVersion version)))
          else if frame_type \<noteq> 2 then lift_result (Inl (SdkHandshake (HtNotHandshake frame_type)))
          else if ext_len > 0 then lift_result (Inl (SdkHandshake HtExtensions))
          else if payload_len > 1024 * 1024
          then lift_result (Inl (SdkHandshake (HtPayloadTooLarge payload_len)))
          else
            then_with (if ext_len > 0 then read_exact ext_len else lift_result (Inr [])) (\<lambda>_.
            read_exact payload_len))"

definition handshake_header :: "nat \<Rightarrow> bytes" where
  "handshake_header n =
     [1, 2, 0, 0] @ u64_to_be_bytes 0 @ u64_to_be_bytes (word_of_nat n) @ u64_to_be_bytes 0"

definition write_handshake_frame :: "bytes \<Rightarrow> unit driver" where
  "write_handshake_frame cbor_payload =
     then_with (write_all (handshake_header (length cbor_payload))) (\<lambda>_. write_all cbor_payload)"

text \<open>An \<open>expect\<close> on a result: failure is a panic.\<close>

definition or_panic :: "'a option \<Rightarrow> SdkError + 'a" where
  "or_panic v = (case v of None \<Rightarrow> Inl SdkPanic | Some a \<Rightarrow> Inr a)"

definition expect_encoded :: "CborError + bytes \<Rightarrow> SdkError + bytes" where
  "expect_encoded r = map_err (\<lambda>_. SdkPanic) r"

definition encode_client_hello :: "ClientHello \<Rightarrow> SdkError + bytes" where
  "encode_client_hello ch = expect_encoded (encode (ClientHello_to_cbor ch))"

definition encode_server_hello :: "ServerHello \<Rightarrow> SdkError + bytes" where
  "encode_server_hello sh = expect_encoded (encode (ServerHello_to_cbor sh))"

definition encode_client_finished :: "ClientFinished \<Rightarrow> SdkError + bytes" where
  "encode_client_finished cf = expect_encoded (encode (ClientFinished_to_cbor cf))"

definition decode_client_hello :: "bytes \<Rightarrow> HandshakeError + ClientHello" where
  "decode_client_hello data =
     bind_result (map_err HsCbor (decode data)) (\<lambda>(val, _). ClientHello_from_cbor val)"

definition decode_server_hello :: "bytes \<Rightarrow> HandshakeError + ServerHello" where
  "decode_server_hello data =
     bind_result (map_err HsCbor (decode data)) (\<lambda>(val, _). ServerHello_from_cbor val)"

definition decode_client_finished :: "bytes \<Rightarrow> HandshakeError + ClientFinished" where
  "decode_client_finished data =
     bind_result (map_err HsCbor (decode data)) (\<lambda>(val, _). ClientFinished_from_cbor val)"

definition sign_with_keypair :: "crypto \<Rightarrow> AgentKeypair \<Rightarrow> bytes \<Rightarrow> bytes \<Rightarrow> SdkError + bytes" where
  "sign_with_keypair cr keypair msg rnd =
     (case MlDsa65SecretKey_from_bytes cr (kp_secret_key keypair) of
        Inl _ \<Rightarrow> Inl SdkPanic
      | Inr sk \<Rightarrow> or_panic (MlDsa65_sign cr sk msg rnd))"

section \<open>Steps that both drivers share\<close>

definition session_result :: "(SessionStateError + unit) \<times> Session \<Rightarrow> SdkError + Session" where
  "session_result r =
     (case r of (Inl e, _) \<Rightarrow> Inl (SdkHandshake (HtSessionState e)) | (Inr _, s) \<Rightarrow> Inr s)"

text \<open>A new session with its transport, and the stream of the handshake.\<close>

definition start_session :: "handshake_env \<Rightarrow> Session driver" where
  "start_session env =
     (let session = Session_new (env_now_new env) in
      then_with
        (lift_result (session_result (on_transport_established (env_now_transport env)
           \<lparr>th_remote_addr = env_remote_addr env, th_is_closed = False\<rparr>
           \<lparr>nf_protocol_version = 1, nf_extensions = []\<rparr> session))) (\<lambda>session.
      if env_stream_opens env then lift_result (Inr session) else lift_result (Inl stream_error)))"

definition replay_check :: "handshake_env \<Rightarrow> bytes \<Rightarrow> bytes \<Rightarrow> string \<Rightarrow> unit driver" where
  "replay_check env agent_id nonce msg io =
     (case dr_cache io of
        None \<Rightarrow> (Inr (), io)
      | Some cache \<Rightarrow>
          let (seen, cache) = ReplayCache_check (env_ord_check env) (env_now_check env) agent_id nonce cache in
          (if seen then Inl (SdkHandshake (HtReplay msg)) else Inr (), io\<lparr>dr_cache := Some cache\<rparr>))"

text \<open>The insertion, after whatever other connections did with the cache since the check.\<close>

definition replay_insert :: "handshake_env \<Rightarrow> bytes \<Rightarrow> bytes \<Rightarrow> unit driver" where
  "replay_insert env agent_id nonce io =
     (Inr (), io\<lparr>dr_cache := map_option
        (\<lambda>cache. ReplayCache_insert (env_ord_insert env) (env_now_insert env) (env_lru_insert env) agent_id nonce
           (fold replay_step (env_others env) cache)) (dr_cache io)\<rparr>)"

section \<open>The drivers\<close>

definition drive_client_handshake ::
    "crypto \<Rightarrow> handshake_env \<Rightarrow> AgentKeypair \<Rightarrow> bytes \<Rightarrow> (Session \<times> PeerInfo) driver" where
  "drive_client_handshake cr env keypair tls_binding =
     then_with (start_session env) (\<lambda>session.
     let client_nonce = env_nonce env;
         agent_id = sha256 cr (kp_public_key keypair);
         th = from_tls_binding cr tls_binding;
         ch = \<lparr>ch_protocol_version = PROTOCOL_VERSION, ch_agent_id = agent_id,
           ch_public_key = kp_public_key keypair, ch_nonce = client_nonce, ch_capabilities = [],
           ch_extensions = [], ch_signature = [], ch_expires_at = env_unix_hello env + 3600,
           ch_receiver_mac = None, ch_key_algorithm = KEY_ALG_ML_DSA_65\<rparr>
     in
     then_with (lift_result (map_err (SdkHandshake \<circ> HtCbor) (encode (to_cbor_without_sig_and_mac ch)))) (\<lambda>ch_cbor_bytes.
     let (h_after_ch, th) = transcript_fold cr ch_cbor_bytes th in
     then_with (lift_result (sign_with_keypair cr keypair (signature_input h_after_ch) (env_rnd1 env))) (\<lambda>sig.
     let ch = ch\<lparr>ch_signature := sig\<rparr> in
     then_with (lift_result (encode_client_hello ch)) (\<lambda>ch_bytes.
     then_with (write_handshake_frame ch_bytes) (\<lambda>_.
     then_with read_handshake_frame (\<lambda>sh_bytes.
     then_with (lift_result (map_err (SdkHandshake \<circ> HtDecode ''ServerHello'') (decode_server_hello sh_bytes))) (\<lambda>sh.
     then_with (replay_check env (sh_agent_id sh) (sh_nonce sh) ''ServerHello'') (\<lambda>_.
     then_with (lift_result (map_err (SdkHandshake \<circ> HtCbor) (encode (ServerHello_to_cbor_without_sig sh)))) (\<lambda>sh_cbor_bytes.
     let (h_after_sh, th) = transcript_fold cr sh_cbor_bytes th in
     then_with (lift_result (map_err (SdkHandshake \<circ> HtVerification ''ServerHello'')
       (verify_server_hello cr sh h_after_sh (env_unix_verify env)))) (\<lambda>(server_agent_id, session_id).
     then_with (replay_insert env (sh_agent_id sh) (sh_nonce sh)) (\<lambda>_.
     then_with (lift_result (sign_with_keypair cr keypair (signature_input h_after_sh) (env_rnd2 env))) (\<lambda>cf_sig.
     let cf = \<lparr>cf_session_id = session_id, cf_signature = cf_sig\<rparr> in
     then_with (lift_result (encode_client_finished cf)) (\<lambda>cf_bytes.
     then_with (write_handshake_frame cf_bytes) (\<lambda>_.
     then_with (lift_result (session_result
       (on_identity_verified (env_now_identity env) server_agent_id session_id session))) (\<lambda>session.
     let peer_info = \<lparr>pi_agent_id = server_agent_id, pi_public_key = sh_public_key sh, pi_session_id = session_id\<rparr>
     in lift_result (Inr (session, peer_info)))))))))))))))))"

definition drive_server_handshake ::
    "crypto \<Rightarrow> handshake_env \<Rightarrow> AgentKeypair \<Rightarrow> bytes \<Rightarrow> (Session \<times> PeerInfo) driver" where
  "drive_server_handshake cr env keypair tls_binding =
     then_with (start_session env) (\<lambda>session.
     then_with read_handshake_frame (\<lambda>ch_bytes.
     then_with (lift_result (map_err (SdkHandshake \<circ> HtDecode ''ClientHello'') (decode_client_hello ch_bytes))) (\<lambda>ch.
     then_with (replay_check env (ch_agent_id ch) (ch_nonce ch) ''ClientHello'') (\<lambda>_.
     let th = from_tls_binding cr tls_binding in
     then_with (lift_result (map_err (SdkHandshake \<circ> HtCbor) (encode (to_cbor_without_sig_and_mac ch)))) (\<lambda>ch_cbor_bytes.
     let (h_after_ch, th) = transcript_fold cr ch_cbor_bytes th in
     then_with (lift_result (map_err (SdkHandshake \<circ> HtVerification ''ClientHello'')
       (verify_client_hello cr ch h_after_ch (env_unix_verify env)))) (\<lambda>client_agent_id.
     then_with (replay_insert env (ch_agent_id ch) (ch_nonce ch)) (\<lambda>_.
     let server_nonce = env_nonce env;
         server_agent_id = sha256 cr (kp_public_key keypair)
     in
     then_with (lift_result (or_panic
       (derive_session_id cr h_after_ch (ch_nonce ch) server_nonce server_agent_id))) (\<lambda>session_id.
     let sh = \<lparr>sh_protocol_version = PROTOCOL_VERSION, sh_agent_id = server_agent_id,
           sh_public_key = kp_public_key keypair, sh_nonce = server_nonce, sh_capabilities = [],
           sh_extensions = [], sh_session_id = session_id, sh_signature = [],
           sh_expires_at = env_unix_hello env + 3600, sh_key_algorithm = KEY_ALG_ML_DSA_65\<rparr>
     in
     then_with (lift_result (map_err (SdkHandshake \<circ> HtCbor) (encode (ServerHello_to_cbor_without_sig sh)))) (\<lambda>sh_cbor_bytes.
     let (h_after_sh, th) = transcript_fold cr sh_cbor_bytes th in
     then_with (lift_result (sign_with_keypair cr keypair (signature_input h_after_sh) (env_rnd1 env))) (\<lambda>sig.
     let sh = sh\<lparr>sh_signature := sig\<rparr> in
     then_with (lift_result (encode_server_hello sh)) (\<lambda>sh_bytes.
     then_with (write_handshake_frame sh_bytes) (\<lambda>_.
     then_with read_handshake_frame (\<lambda>cf_bytes.
     then_with (lift_result (map_err (SdkHandshake \<circ> HtDecode ''ClientFinished'') (decode_client_finished cf_bytes))) (\<lambda>cf.
     then_with (lift_result (map_err (SdkHandshake \<circ> HtVerification ''ClientFinished'')
       (verify_client_finished cr cf h_after_sh (ch_public_key ch) session_id))) (\<lambda>_.
     then_with (lift_result (session_result
       (on_identity_verified (env_now_identity env) client_agent_id session_id session))) (\<lambda>session.
     let peer_info = \<lparr>pi_agent_id = client_agent_id, pi_public_key = ch_public_key ch, pi_session_id = session_id\<rparr>
     in lift_result (Inr (session, peer_info))))))))))))))))))"

section \<open>Frames on the stream\<close>

text \<open>A header that announces a handshake frame with this payload; flags, reserved byte and stream are free.\<close>

definition announces :: "bytes \<Rightarrow> bytes \<Rightarrow> bool" where
  "announces hdr0 payload \<longleftrightarrow> length hdr0 = 28 \<and> hdr0 ! 0 = 1 \<and> hdr0 ! 1 = 2 \<and>
     be_val (subslice hdr0 12 20) = length payload \<and> be_val (subslice hdr0 20 28) = 0 \<and>
     length payload \<le> 1024 * 1024"

lemma read_exact_Inr:
  "read_exact n io = (Inr bs, io') \<longleftrightarrow>
     (\<exists>rest. dr_recv io = bs @ rest \<and> length bs = n \<and> io' = io\<lparr>dr_recv := rest\<rparr>)"
  by (auto simp: read_exact_def intro!: exI [of _ "drop n (dr_recv io)"])

lemma read_handshake_frame_Inr:
  "read_handshake_frame io = (Inr payload, io') \<longleftrightarrow>
     (\<exists>hdr0 rest. announces hdr0 payload \<and> dr_recv io = hdr0 @ payload @ rest \<and>
        io' = io\<lparr>dr_recv := rest\<rparr>)" (is "?l = ?r")
proof
  assume ?l
  then show ?r
    unfolding read_handshake_frame_def then_with_Inr_iff read_exact_Inr Let_def
    by (auto simp: announces_def lift_result_def then_with_Inr_iff read_exact_Inr split: if_splits)
next
  assume ?r
  then obtain hdr0 rest where hd: "announces hdr0 payload" "dr_recv io = hdr0 @ payload @ rest"
    "io' = io\<lparr>dr_recv := rest\<rparr>" by blast
  then have "read_exact 28 io = (Inr hdr0, io\<lparr>dr_recv := payload @ rest\<rparr>)"
    by (simp add: read_exact_def announces_def)
  moreover have "read_exact (length payload) (io\<lparr>dr_recv := payload @ rest\<rparr>) = (Inr payload, io')"
    using hd(3) by (simp add: read_exact_def)
  ultimately show ?l
    using hd(1) by (simp add: read_handshake_frame_def announces_def then_with_def lift_result_def)
qed

lemma fst_read_handshake_frame:
  assumes "announces hdr0 payload" and "dr_recv io = hdr0 @ payload @ rest"
  shows "fst (read_handshake_frame io) = Inr payload"
proof -
  have "read_handshake_frame io = (Inr payload, io\<lparr>dr_recv := rest\<rparr>)"
    unfolding read_handshake_frame_Inr using assms by blast
  then show ?thesis by simp
qed

definition handshake_frame :: "bytes \<Rightarrow> bytes" where
  "handshake_frame payload = handshake_header (length payload) @ payload"

lemma write_all_Inr:
  "write_all data io = (Inr (), io') \<longleftrightarrow>
     take 1 (dr_writes io) \<noteq> [False] \<and> io' = io\<lparr>dr_writes := tl (dr_writes io), dr_sent := dr_sent io @ data\<rparr>"
  by (auto simp: write_all_def split: list.splits bool.splits)

lemma write_handshake_frame_Inr:
  "write_handshake_frame payload io = (Inr (), io') \<longleftrightarrow>
     take 1 (dr_writes io) \<noteq> [False] \<and> take 1 (tl (dr_writes io)) \<noteq> [False] \<and>
     io' = io\<lparr>dr_writes := tl (tl (dr_writes io)), dr_sent := dr_sent io @ handshake_frame payload\<rparr>"
  by (auto simp: write_handshake_frame_def then_with_Inr_iff write_all_Inr handshake_frame_def)

lemma write_handshake_frame_ok:
  "dr_writes io = [] \<Longrightarrow>
     write_handshake_frame payload io = (Inr (), io\<lparr>dr_sent := dr_sent io @ handshake_frame payload\<rparr>)"
  by (simp add: write_handshake_frame_def then_with_def write_all_def handshake_frame_def)

lemma announces_handshake_header:
  assumes "length payload \<le> 1024 * 1024"
  shows "announces (handshake_header (length payload)) payload"
proof -
  have "unat (word_of_nat (length payload) :: u64) = length payload"
    using assms by (simp add: unat_of_nat)
  then show ?thesis
    using assms by (simp add: announces_def handshake_header_def subslice_def be_val_be_bytes)
qed

lemma read_written_frame:
  assumes "length payload \<le> 1024 * 1024" and "dr_recv io = handshake_frame payload @ rest"
  shows "read_handshake_frame io = (Inr payload, io\<lparr>dr_recv := rest\<rparr>)"
  using assms announces_handshake_header [OF assms(1)]
  by (auto simp: read_handshake_frame_Inr handshake_frame_def)

section \<open>The steps of a driver\<close>

definition established :: "handshake_env \<Rightarrow> Session" where
  "established env = (Session_new (env_now_new env))\<lparr>se_state := TransportEstablished,
     se_transport_handle := Some \<lparr>th_remote_addr = env_remote_addr env, th_is_closed = False\<rparr>,
     se_negotiated_features := Some \<lparr>nf_protocol_version = 1, nf_extensions = []\<rparr>,
     se_last_activity := env_now_transport env\<rparr>"

definition verified :: "handshake_env \<Rightarrow> AgentId \<Rightarrow> SessionId \<Rightarrow> Session" where
  "verified env peer sid = (established env)\<lparr>se_state := IdentityVerified, se_peer_agent_id := Some peer,
     se_session_id := Some sid, se_last_activity := env_now_identity env\<rparr>"

lemma start_session_eq:
  "start_session env io = (if env_stream_opens env then Inr (established env) else Inl stream_error, io)"
  by (simp add: start_session_def Let_def then_with_def lift_result_def session_result_def session_ops
      established_def Session_new_def)

lemma identity_verified_eq:
  "session_result (on_identity_verified (env_now_identity env) peer sid (established env)) =
     Inr (verified env peer sid)"
  by (simp add: session_result_def session_ops verified_def established_def Session_new_def)

text \<open>The nonce is not in the cache at the time of the check, and the cache after the insertion.\<close>

definition replay_fresh :: "handshake_env \<Rightarrow> bytes \<Rightarrow> bytes \<Rightarrow> ReplayCache option \<Rightarrow> bool" where
  "replay_fresh env aid nonce cache \<longleftrightarrow>
     (case cache of None \<Rightarrow> True
      | Some c \<Rightarrow> \<not> fst (ReplayCache_check (env_ord_check env) (env_now_check env) aid nonce c))"

definition checked_cache :: "handshake_env \<Rightarrow> bytes \<Rightarrow> bytes \<Rightarrow> ReplayCache \<Rightarrow> ReplayCache" where
  "checked_cache env aid nonce c = snd (ReplayCache_check (env_ord_check env) (env_now_check env) aid nonce c)"

definition updated_cache :: "handshake_env \<Rightarrow> bytes \<Rightarrow> bytes \<Rightarrow> ReplayCache \<Rightarrow> ReplayCache" where
  "updated_cache env aid nonce c =
     ReplayCache_insert (env_ord_insert env) (env_now_insert env) (env_lru_insert env) aid nonce
       (fold replay_step (env_others env) (checked_cache env aid nonce c))"

lemma replay_check_eq:
  "replay_check env aid nonce msg io =
     (if replay_fresh env aid nonce (dr_cache io) then Inr () else Inl (SdkHandshake (HtReplay msg)),
      io\<lparr>dr_cache := map_option (checked_cache env aid nonce) (dr_cache io)\<rparr>)"
  by (cases io) (auto simp: replay_check_def replay_fresh_def checked_cache_def split_beta split: option.split)

lemma replay_insert_eq:
  "replay_insert env aid nonce (io\<lparr>dr_cache := map_option (checked_cache env aid nonce) cache\<rparr>) =
     (Inr (), io\<lparr>dr_cache := map_option (updated_cache env aid nonce) cache\<rparr>)"
  by (cases cache) (simp_all add: replay_insert_def updated_cache_def)

lemma or_panic_Inr: "or_panic r = Inr a \<longleftrightarrow> r = Some a"
  by (auto simp: or_panic_def split: option.splits)

lemma encode_messages:
  "encode_client_hello ch = Inr (cbor_bytes (ClientHello_to_cbor ch))"
  "encode_server_hello sh = Inr (cbor_bytes (ServerHello_to_cbor sh))"
  "encode_client_finished cf = Inr (cbor_bytes (ClientFinished_to_cbor cf))"
  by (simp_all add: encode_client_hello_def encode_server_hello_def encode_client_finished_def
      expect_encoded_def encode_eq)

lemma sign_with_keypair_ok:
  assumes "keypair_ok cr kp"
  obtains sig where "sign_with_keypair cr kp msg rnd = Inr sig" "MlDsa65_verify cr (kp_public_key kp) msg sig"
    "length sig = 3309"
  using assms
  by (simp add: keypair_ok_def sign_with_keypair_def MlDsa65_sign_def or_panic_def MlDsa65_verify_def
      MlDsa65SecretKey_from_bytes_def)

lemma fold_client_hello:
  "transcript_fold cr (cbor_bytes (to_cbor_without_sig_and_mac ch)) (from_tls_binding cr tls) =
     (h_client_hello cr tls ch, \<lparr>th_current = h_client_hello cr tls ch\<rparr>)"
  by (simp add: transcript_fold_def h_client_hello_def from_tls_binding_def Let_def)

lemma fold_server_hello:
  "transcript_fold cr (cbor_bytes (ServerHello_to_cbor_without_sig sh)) \<lparr>th_current = h_client_hello cr tls ch\<rparr> =
     (h_server_hello cr tls ch sh, \<lparr>th_current = h_server_hello cr tls ch sh\<rparr>)"
  by (simp add: transcript_fold_def h_client_hello_def h_server_hello_def from_tls_binding_def Let_def)

lemma transcript_signature [simp]:
  "h_client_hello cr tls (ch\<lparr>ch_signature := sig\<rparr>) = h_client_hello cr tls ch"
  "h_server_hello cr tls (ch\<lparr>ch_signature := sig\<rparr>) sh = h_server_hello cr tls ch sh"
  "h_server_hello cr tls ch (sh\<lparr>sh_signature := sig\<rparr>) = h_server_hello cr tls ch sh"
  by (simp_all add: h_client_hello_def h_server_hello_def to_cbor_without_sig_and_mac_def
      ServerHello_to_cbor_without_sig_def)

text \<open>The hellos the drivers send, before they are signed.\<close>

definition own_client_hello :: "crypto \<Rightarrow> handshake_env \<Rightarrow> AgentKeypair \<Rightarrow> ClientHello" where
  "own_client_hello cr env keypair =
     \<lparr>ch_protocol_version = 1, ch_agent_id = sha256 cr (kp_public_key keypair),
      ch_public_key = kp_public_key keypair, ch_nonce = env_nonce env, ch_capabilities = [],
      ch_extensions = [], ch_signature = [], ch_expires_at = env_unix_hello env + 3600,
      ch_receiver_mac = None, ch_key_algorithm = 1\<rparr>"

definition own_server_hello :: "crypto \<Rightarrow> handshake_env \<Rightarrow> AgentKeypair \<Rightarrow> bytes \<Rightarrow> ServerHello" where
  "own_server_hello cr env keypair sid =
     \<lparr>sh_protocol_version = 1, sh_agent_id = sha256 cr (kp_public_key keypair),
      sh_public_key = kp_public_key keypair, sh_nonce = env_nonce env, sh_capabilities = [],
      sh_extensions = [], sh_session_id = sid, sh_signature = [],
      sh_expires_at = env_unix_hello env + 3600, sh_key_algorithm = 1\<rparr>"

lemma own_hello_fields [simp]:
  "ch_public_key (own_client_hello cr env kp) = kp_public_key kp"
  "ch_agent_id (own_client_hello cr env kp) = sha256 cr (kp_public_key kp)"
  "ch_nonce (own_client_hello cr env kp) = env_nonce env"
  "ch_protocol_version (own_client_hello cr env kp) = 1"
  "ch_key_algorithm (own_client_hello cr env kp) = 1"
  "ch_expires_at (own_client_hello cr env kp) = env_unix_hello env + 3600"
  "sh_public_key (own_server_hello cr env kp sid) = kp_public_key kp"
  "sh_agent_id (own_server_hello cr env kp sid) = sha256 cr (kp_public_key kp)"
  "sh_nonce (own_server_hello cr env kp sid) = env_nonce env"
  "sh_protocol_version (own_server_hello cr env kp sid) = 1"
  "sh_key_algorithm (own_server_hello cr env kp sid) = 1"
  "sh_expires_at (own_server_hello cr env kp sid) = env_unix_hello env + 3600"
  "sh_session_id (own_server_hello cr env kp sid) = sid"
  by (simp_all add: own_client_hello_def own_server_hello_def)

section \<open>What acceptance implies\<close>

lemmas driver_step = then_with_Inr_iff start_session_eq replay_check_eq encode_messages encode_eq
  fold_client_hello fold_server_hello or_panic_Inr read_handshake_frame_Inr write_handshake_frame_Inr identity_verified_eq

lemma lift_result_Inr: "lift_result r io = (Inr a, io') \<longleftrightarrow> r = Inr a \<and> io' = io"
  by (auto simp: lift_result_def)

lemma server_run:
  assumes "drive_server_handshake cr env kp tls io = (Inr (s, p), io')"
  obtains ch cf hd1 hd2 ch_bytes cf_bytes sid sig where
    "env_stream_opens env" "dr_recv io = hd1 @ ch_bytes @ hd2 @ cf_bytes @ dr_recv io'"
    "announces hd1 ch_bytes" "announces hd2 cf_bytes"
    "decode_client_hello ch_bytes = Inr ch" "decode_client_finished cf_bytes = Inr cf"
    "replay_fresh env (ch_agent_id ch) (ch_nonce ch) (dr_cache io)"
    "verify_client_hello cr ch (h_client_hello cr tls ch) (env_unix_verify env) = Inr (pi_agent_id p)"
    "derive_session_id cr (h_client_hello cr tls ch) (ch_nonce ch) (env_nonce env) (sha256 cr (kp_public_key kp)) = Some sid"
    "sign_with_keypair cr kp (signature_input (h_server_hello cr tls ch (own_server_hello cr env kp sid))) (env_rnd1 env) = Inr sig"
    "verify_client_finished cr cf (h_server_hello cr tls ch (own_server_hello cr env kp sid)) (ch_public_key ch) sid = Inr ()"
    "p = \<lparr>pi_agent_id = pi_agent_id p, pi_public_key = ch_public_key ch, pi_session_id = sid\<rparr>"
    "s = verified env (pi_agent_id p) sid"
    "dr_sent io' = dr_sent io @ handshake_frame (cbor_bytes (ServerHello_to_cbor ((own_server_hello cr env kp sid)\<lparr>sh_signature := sig\<rparr>)))"
    "dr_cache io' = map_option (updated_cache env (ch_agent_id ch) (ch_nonce ch)) (dr_cache io)"
  using assms
  unfolding drive_server_handshake_def Let_def driver_step lift_result_Inr
  by (clarsimp simp: driver_step lift_result_Inr replay_insert_eq own_server_hello_def [symmetric]
      split: if_splits)

lemma client_run:
  assumes "drive_client_handshake cr env kp tls io = (Inr (s, p), io')"
  obtains sh hd1 sh_bytes sig cf_sig where
    "env_stream_opens env" "dr_recv io = hd1 @ sh_bytes @ dr_recv io'" "announces hd1 sh_bytes"
    "decode_server_hello sh_bytes = Inr sh"
    "replay_fresh env (sh_agent_id sh) (sh_nonce sh) (dr_cache io)"
    "sign_with_keypair cr kp (signature_input (h_client_hello cr tls (own_client_hello cr env kp))) (env_rnd1 env) = Inr sig"
    "verify_server_hello cr sh (h_server_hello cr tls (own_client_hello cr env kp) sh) (env_unix_verify env) =
       Inr (pi_agent_id p, pi_session_id p)"
    "sign_with_keypair cr kp (signature_input (h_server_hello cr tls (own_client_hello cr env kp) sh)) (env_rnd2 env) = Inr cf_sig"
    "p = \<lparr>pi_agent_id = pi_agent_id p, pi_public_key = sh_public_key sh, pi_session_id = pi_session_id p\<rparr>"
    "s = verified env (pi_agent_id p) (pi_session_id p)"
    "dr_sent io' = dr_sent io @
       handshake_frame (cbor_bytes (ClientHello_to_cbor ((own_client_hello cr env kp)\<lparr>ch_signature := sig\<rparr>))) @
       handshake_frame (cbor_bytes (ClientFinished_to_cbor \<lparr>cf_session_id = pi_session_id p, cf_signature = cf_sig\<rparr>))"
    "dr_cache io' = map_option (updated_cache env (sh_agent_id sh) (sh_nonce sh)) (dr_cache io)"
  using assms
  unfolding drive_client_handshake_def Let_def driver_step lift_result_Inr
  by (clarsimp simp: driver_step lift_result_Inr replay_insert_eq own_client_hello_def [symmetric]
      split: if_splits)

text \<open>
  C9. What a server knows when it accepts: the peer information is that of a ClientHello and a
  ClientFinished received on the stream; the agent id is the hash of the public key; under that
  key the ClientHello is signed over the transcript that starts with the TLS channel binding, and
  the ClientFinished over the transcript that ends with the ServerHello the server sent (the transcript of the documentation
  would end with the ClientFinished itself, which the drivers do not fold in); the session
  id is the one derived from both nonces; the hello had not expired, its nonce was not in the
  replay cache and now is recorded; and the session is in state IdentityVerified with that identity,
  not yet authorized.
\<close>

theorem server_accepts_verified:
  assumes "drive_server_handshake cr env kp tls io = (Inr (s, p), io')"
  shows "\<exists>ch cf sh hd1 hd2 ch_bytes cf_bytes.
    dr_recv io = hd1 @ ch_bytes @ hd2 @ cf_bytes @ dr_recv io' \<and>
    decode_client_hello ch_bytes = Inr ch \<and> decode_client_finished cf_bytes = Inr cf \<and>
    dr_sent io' = dr_sent io @ handshake_frame (cbor_bytes (ServerHello_to_cbor sh)) \<and>
    pi_public_key p = ch_public_key ch \<and> pi_agent_id p = ch_agent_id ch \<and>
    pi_agent_id p = sha256 cr (pi_public_key p) \<and> length (pi_agent_id p) = 32 \<and>
    MlDsa65_verify cr (pi_public_key p) (signature_input (h_client_hello cr tls ch)) (ch_signature ch) \<and>
    MlDsa65_verify cr (pi_public_key p) (signature_input (h_server_hello cr tls ch sh)) (cf_signature cf) \<and>
    derive_session_id cr (h_client_hello cr tls ch) (ch_nonce ch) (env_nonce env) (sha256 cr (kp_public_key kp)) =
      Some (pi_session_id p) \<and>
    sh_session_id sh = pi_session_id p \<and> cf_session_id cf = pi_session_id p \<and>
    env_unix_verify env < ch_expires_at ch \<and>
    replay_fresh env (ch_agent_id ch) (ch_nonce ch) (dr_cache io) \<and>
    dr_cache io' = map_option (updated_cache env (ch_agent_id ch) (ch_nonce ch)) (dr_cache io) \<and>
    se_state s = IdentityVerified \<and> se_peer_agent_id s = Some (pi_agent_id p) \<and>
    se_session_id s = Some (pi_session_id p) \<and> se_authorization_context s = None"
proof -
  from assms obtain ch cf hd1 hd2 ch_bytes cf_bytes sid sig where
    run: "dr_recv io = hd1 @ ch_bytes @ hd2 @ cf_bytes @ dr_recv io'"
    "decode_client_hello ch_bytes = Inr ch" "decode_client_finished cf_bytes = Inr cf"
    "replay_fresh env (ch_agent_id ch) (ch_nonce ch) (dr_cache io)"
    "dr_cache io' = map_option (updated_cache env (ch_agent_id ch) (ch_nonce ch)) (dr_cache io)"
    and sid: "derive_session_id cr (h_client_hello cr tls ch) (ch_nonce ch) (env_nonce env)
      (sha256 cr (kp_public_key kp)) = Some sid"
    and ch: "verify_client_hello cr ch (h_client_hello cr tls ch) (env_unix_verify env) = Inr (pi_agent_id p)"
    and cf: "verify_client_finished cr cf (h_server_hello cr tls ch (own_server_hello cr env kp sid))
      (ch_public_key ch) sid = Inr ()"
    and p: "p = \<lparr>pi_agent_id = pi_agent_id p, pi_public_key = ch_public_key ch, pi_session_id = sid\<rparr>"
    and s: "s = verified env (pi_agent_id p) sid"
    and sent: "dr_sent io' = dr_sent io @ handshake_frame (cbor_bytes (ServerHello_to_cbor
      ((own_server_hello cr env kp sid)\<lparr>sh_signature := sig\<rparr>)))"
    by (rule server_run)
  have p': "pi_public_key p = ch_public_key ch" "pi_session_id p = sid"
    by (subst p, simp)+
  let ?sh = "(own_server_hello cr env kp sid)\<lparr>sh_signature := sig\<rparr>"
  have "sh_session_id ?sh = sid" by (simp add: own_server_hello_def)
  moreover have "se_state s = IdentityVerified \<and> se_peer_agent_id s = Some (pi_agent_id p) \<and>
    se_session_id s = Some sid \<and> se_authorization_context s = None"
    by (simp add: s verified_def established_def Session_new_def)
  ultimately show ?thesis
    using run sid sent ch cf p' unfolding verify_client_hello_iff verify_client_finished_iff
    by (rule_tac x = ch in exI, rule_tac x = cf in exI, rule_tac x = ?sh in exI, rule_tac x = hd1 in exI,
        rule_tac x = hd2 in exI, rule_tac x = ch_bytes in exI, rule_tac x = cf_bytes in exI) auto
qed

text \<open>
  C10. What a client knows when it accepts: the peer information is that of a ServerHello received on
  the stream, whose agent id is the hash of its public key and which is signed under that key
  over the transcript of the TLS channel binding, the client's own hello and the ServerHello; the
  hello had not expired and its nonce was not in the replay cache; the client has sent its
  ClientHello and a ClientFinished that it signed over the same transcript, not over the one of the documentation, which ends
  with the ClientFinished; and the session is in
  state IdentityVerified with that identity, not yet authorized.
\<close>

theorem client_accepts_verified:
  assumes "drive_client_handshake cr env kp tls io = (Inr (s, p), io')"
  shows "\<exists>ch sh cf hd1 sh_bytes.
    dr_recv io = hd1 @ sh_bytes @ dr_recv io' \<and> decode_server_hello sh_bytes = Inr sh \<and>
    dr_sent io' = dr_sent io @ handshake_frame (cbor_bytes (ClientHello_to_cbor ch)) @
      handshake_frame (cbor_bytes (ClientFinished_to_cbor cf)) \<and>
    ch_nonce ch = env_nonce env \<and> ch_public_key ch = kp_public_key kp \<and>
    pi_public_key p = sh_public_key sh \<and> pi_agent_id p = sh_agent_id sh \<and>
    pi_agent_id p = sha256 cr (pi_public_key p) \<and> length (pi_agent_id p) = 32 \<and>
    MlDsa65_verify cr (pi_public_key p) (signature_input (h_server_hello cr tls ch sh)) (sh_signature sh) \<and>
    sign_with_keypair cr kp (signature_input (h_server_hello cr tls ch sh)) (env_rnd2 env) = Inr (cf_signature cf) \<and>
    sh_session_id sh = pi_session_id p \<and> cf_session_id cf = pi_session_id p \<and>
    env_unix_verify env < sh_expires_at sh \<and>
    replay_fresh env (sh_agent_id sh) (sh_nonce sh) (dr_cache io) \<and>
    se_state s = IdentityVerified \<and> se_peer_agent_id s = Some (pi_agent_id p) \<and>
    se_session_id s = Some (pi_session_id p) \<and> se_authorization_context s = None"
proof -
  let ?ch = "own_client_hello cr env kp"
  from assms obtain sh hd1 sh_bytes sig cf_sig where
    run: "dr_recv io = hd1 @ sh_bytes @ dr_recv io'" "decode_server_hello sh_bytes = Inr sh"
    "replay_fresh env (sh_agent_id sh) (sh_nonce sh) (dr_cache io)"
    "sign_with_keypair cr kp (signature_input (h_server_hello cr tls ?ch sh)) (env_rnd2 env) = Inr cf_sig"
    and sh: "verify_server_hello cr sh (h_server_hello cr tls ?ch sh) (env_unix_verify env) =
       Inr (pi_agent_id p, pi_session_id p)"
    and p: "p = \<lparr>pi_agent_id = pi_agent_id p, pi_public_key = sh_public_key sh, pi_session_id = pi_session_id p\<rparr>"
    and s: "s = verified env (pi_agent_id p) (pi_session_id p)"
    and sent: "dr_sent io' = dr_sent io @
       handshake_frame (cbor_bytes (ClientHello_to_cbor (?ch\<lparr>ch_signature := sig\<rparr>))) @
       handshake_frame (cbor_bytes (ClientFinished_to_cbor \<lparr>cf_session_id = pi_session_id p, cf_signature = cf_sig\<rparr>))"
    by (rule client_run)
  have p': "pi_public_key p = sh_public_key sh" by (subst p, simp)
  have "ch_nonce ?ch = env_nonce env" "ch_public_key ?ch = kp_public_key kp"
    by (simp_all add: own_client_hello_def)
  moreover have "se_state s = IdentityVerified \<and> se_peer_agent_id s = Some (pi_agent_id p) \<and>
    se_session_id s = Some (pi_session_id p) \<and> se_authorization_context s = None"
    by (simp add: s verified_def established_def Session_new_def)
  ultimately show ?thesis
    using run sh sent p' unfolding verify_server_hello_iff
    by (rule_tac x = "?ch\<lparr>ch_signature := sig\<rparr>" in exI, rule_tac x = sh in exI,
        rule_tac x = "\<lparr>cf_session_id = pi_session_id p, cf_signature = cf_sig\<rparr>" in exI,
        rule_tac x = hd1 in exI, rule_tac x = sh_bytes in exI) auto
qed

section \<open>Two honest drivers\<close>

lemmas driver_eval = then_with_def lift_result_def Let_def start_session_eq encode_eq encode_messages
  replay_check_eq identity_verified_eq fold_client_hello fold_server_hello or_panic_def

lemma server_completes:
  assumes "env_stream_opens env" and "dr_writes io = []"
    and "dr_recv io = handshake_frame ch_bytes @ handshake_frame cf_bytes @ rest"
    and "length ch_bytes \<le> 1024 * 1024" and "length cf_bytes \<le> 1024 * 1024"
    and "decode_client_hello ch_bytes = Inr ch" and "decode_client_finished cf_bytes = Inr cf"
    and "replay_fresh env (ch_agent_id ch) (ch_nonce ch) (dr_cache io)"
    and "verify_client_hello cr ch (h_client_hello cr tls ch) (env_unix_verify env) = Inr aid"
    and "derive_session_id cr (h_client_hello cr tls ch) (ch_nonce ch) (env_nonce env) (sha256 cr (kp_public_key kp)) = Some sid"
    and "sign_with_keypair cr kp (signature_input (h_server_hello cr tls ch (own_server_hello cr env kp sid))) (env_rnd1 env) = Inr sig"
    and "verify_client_finished cr cf (h_server_hello cr tls ch (own_server_hello cr env kp sid)) (ch_public_key ch) sid = Inr ()"
  shows "drive_server_handshake cr env kp tls io =
    (Inr (verified env aid sid, \<lparr>pi_agent_id = aid, pi_public_key = ch_public_key ch, pi_session_id = sid\<rparr>),
     io\<lparr>dr_recv := rest,
       dr_sent := dr_sent io @ handshake_frame (cbor_bytes (ServerHello_to_cbor
         ((own_server_hello cr env kp sid)\<lparr>sh_signature := sig\<rparr>))),
       dr_cache := map_option (updated_cache env (ch_agent_id ch) (ch_nonce ch)) (dr_cache io)\<rparr>)"
  using assms
  by (simp add: drive_server_handshake_def driver_eval read_written_frame replay_insert_eq
      write_handshake_frame_ok own_server_hello_def [symmetric]) (simp add: own_server_hello_def)

lemma client_completes:
  assumes "env_stream_opens env" and "dr_writes io = []"
    and "dr_recv io = handshake_frame sh_bytes @ rest" and "length sh_bytes \<le> 1024 * 1024"
    and "decode_server_hello sh_bytes = Inr sh"
    and "replay_fresh env (sh_agent_id sh) (sh_nonce sh) (dr_cache io)"
    and "sign_with_keypair cr kp (signature_input (h_client_hello cr tls (own_client_hello cr env kp))) (env_rnd1 env) = Inr sig"
    and "verify_server_hello cr sh (h_server_hello cr tls (own_client_hello cr env kp) sh) (env_unix_verify env) = Inr (aid, sid)"
    and "sign_with_keypair cr kp (signature_input (h_server_hello cr tls (own_client_hello cr env kp) sh)) (env_rnd2 env) = Inr cf_sig"
  shows "drive_client_handshake cr env kp tls io =
    (Inr (verified env aid sid, \<lparr>pi_agent_id = aid, pi_public_key = sh_public_key sh, pi_session_id = sid\<rparr>),
     io\<lparr>dr_recv := rest,
       dr_sent := dr_sent io @
         handshake_frame (cbor_bytes (ClientHello_to_cbor ((own_client_hello cr env kp)\<lparr>ch_signature := sig\<rparr>))) @
         handshake_frame (cbor_bytes (ClientFinished_to_cbor \<lparr>cf_session_id = sid, cf_signature = cf_sig\<rparr>)),
       dr_cache := map_option (updated_cache env (sh_agent_id sh) (sh_nonce sh)) (dr_cache io)\<rparr>)"
  using assms
  by (simp add: drive_client_handshake_def driver_eval read_written_frame replay_insert_eq
      write_handshake_frame_ok own_client_hello_def [symmetric]) (simp add: own_client_hello_def)

text \<open>
  What a driver has sent when it comes to a read for which nothing has arrived. The read then waits; in the model it fails,
  and the bytes sent are those of the run so far.
\<close>

lemma read_nothing: "dr_recv io = [] \<Longrightarrow> read_handshake_frame io = (Inl stream_error, io)"
  by (cases io) (simp add: read_handshake_frame_def then_with_def read_exact_def)

lemma client_speaks_first:
  assumes "env_stream_opens env" and "dr_writes io = []" and "dr_recv io = []"
    and "sign_with_keypair cr kp (signature_input (h_client_hello cr tls (own_client_hello cr env kp))) (env_rnd1 env) = Inr sig"
  shows "dr_sent (snd (drive_client_handshake cr env kp tls io)) = dr_sent io @
    handshake_frame (cbor_bytes (ClientHello_to_cbor ((own_client_hello cr env kp)\<lparr>ch_signature := sig\<rparr>)))"
  using assms
  by (simp add: drive_client_handshake_def driver_eval write_handshake_frame_ok read_nothing own_client_hello_def [symmetric])
    (simp add: own_client_hello_def)

lemma server_waits:
  assumes "env_stream_opens env" and "dr_recv io = []"
  shows "dr_sent (snd (drive_server_handshake cr env kp tls io)) = dr_sent io"
  using assms by (simp add: drive_server_handshake_def driver_eval read_nothing)

lemma server_answers:
  assumes "env_stream_opens env" and "dr_writes io = []"
    and "dr_recv io = handshake_frame ch_bytes" and "length ch_bytes \<le> 1024 * 1024"
    and "decode_client_hello ch_bytes = Inr ch"
    and "replay_fresh env (ch_agent_id ch) (ch_nonce ch) (dr_cache io)"
    and "verify_client_hello cr ch (h_client_hello cr tls ch) (env_unix_verify env) = Inr aid"
    and "derive_session_id cr (h_client_hello cr tls ch) (ch_nonce ch) (env_nonce env) (sha256 cr (kp_public_key kp)) = Some sid"
    and "sign_with_keypair cr kp (signature_input (h_server_hello cr tls ch (own_server_hello cr env kp sid))) (env_rnd1 env) = Inr sig"
  shows "dr_sent (snd (drive_server_handshake cr env kp tls io)) = dr_sent io @
    handshake_frame (cbor_bytes (ServerHello_to_cbor ((own_server_hello cr env kp sid)\<lparr>sh_signature := sig\<rparr>)))"
  using assms read_written_frame [of ch_bytes io "[]"]
  by (simp add: drive_server_handshake_def driver_eval replay_insert_eq read_nothing
      write_handshake_frame_ok own_server_hello_def [symmetric]) (simp add: own_server_hello_def)

lemma length_int_key_le: "length (int_key_encoding k) \<le> 9"
  using length_hdr_le by (simp add: int_key_encoding_def encode_int_key_def encode_header_append)

lemma length_int_entries_le:
  "length (int_entries_bytes es) \<le> (\<Sum>(k, v) \<leftarrow> es. 9 + length (cbor_bytes v))"
proof (induction es)
  case (Cons e es)
  then show ?case using length_int_key_le [of "fst e"] by (cases e) simp
qed simp

lemma length_int_map:
  "length (cbor_bytes (int_map es)) \<le> 9 + (\<Sum>(k, v) \<leftarrow> es. 9 + length (cbor_bytes v))"
proof -
  have "mset (sort_int_keys es) = mset es"
    by (simp add: sort_int_keys_def split_def multiset.map_comp comp_def)
  then have "(\<Sum>(k, v) \<leftarrow> sort_int_keys es. 9 + length (cbor_bytes v)) = (\<Sum>(k, v) \<leftarrow> es. 9 + length (cbor_bytes v))"
    by (simp flip: sum_mset_sum_list)
  then show ?thesis
    using length_int_entries_le [of "sort_int_keys es"] length_hdr_le [of 5 "word_of_nat (length es)"]
    by (simp add: int_map_def)
qed

lemma length_value_le:
  "length (cbor_bytes (Unsigned n)) \<le> 9" "length (cbor_bytes (ByteString b)) \<le> 9 + length b"
  "length (cbor_bytes (Array [])) \<le> 9"
  using length_hdr_le [of 0 n] length_hdr_le [of 2 "word_of_nat (length b)"] length_hdr_le [of 4 0] by simp_all

lemma length_bytes_le: "length b = n \<Longrightarrow> length (cbor_bytes (ByteString b)) \<le> 9 + n"
  using length_value_le(2) by blast

lemma own_message_sizes:
  assumes "crypto_ok cr" and "length (kp_public_key kp) = 1952" and "length (env_nonce env) = 32"
    and "length sig = 3309" and "length sid = 32"
  shows "length (cbor_bytes (ClientHello_to_cbor ((own_client_hello cr env kp)\<lparr>ch_signature := sig\<rparr>))) \<le> 6000"
    and "length (cbor_bytes (ServerHello_to_cbor ((own_server_hello cr env kp sid)\<lparr>sh_signature := sig\<rparr>))) \<le> 6000"
proof -
  have sha: "length (sha256 cr (kp_public_key kp)) = 32" using assms(1) by (simp add: crypto_ok_def)
  note bounds = assms(2-5) [THEN length_bytes_le] length_bytes_le [OF sha]
    length_value_le(1) [of 1] length_value_le(1) [of "env_unix_hello env + 3600"] length_value_le(3)
  show "length (cbor_bytes (ClientHello_to_cbor ((own_client_hello cr env kp)\<lparr>ch_signature := sig\<rparr>))) \<le> 6000"
    unfolding ClientHello_to_cbor_def own_client_hello_def Let_def
    by (simp del: cbor_bytes.simps, rule order_trans [OF length_int_map])
      (use bounds in \<open>simp del: cbor_bytes.simps\<close>)
  show "length (cbor_bytes (ServerHello_to_cbor ((own_server_hello cr env kp sid)\<lparr>sh_signature := sig\<rparr>))) \<le> 6000"
    unfolding ServerHello_to_cbor_def own_server_hello_def Let_def
    by (rule order_trans [OF length_int_map]) (use bounds in \<open>simp del: cbor_bytes.simps\<close>)
qed

lemma client_finished_size:
  assumes "length sig = 3309" and "length sid = 32"
  shows "length (cbor_bytes (ClientFinished_to_cbor \<lparr>cf_session_id = sid, cf_signature = sig\<rparr>)) \<le> 6000"
  unfolding ClientFinished_to_cbor_def
  by (rule order_trans [OF length_int_map])
    (use assms [THEN length_bytes_le] in \<open>simp del: cbor_bytes.simps\<close>)

lemma own_client_hello_wire:
  assumes "crypto_ok cr" and "keypair_ok cr kp" and "length (env_nonce env) = 32" and "length sig = 3309"
  defines "ch \<equiv> (own_client_hello cr env kp)\<lparr>ch_signature := sig\<rparr>"
  shows "length (cbor_bytes (ClientHello_to_cbor ch)) \<le> 1024 * 1024"
    and "decode_client_hello (cbor_bytes (ClientHello_to_cbor ch)) = Inr ch"
proof -
  have size: "length (cbor_bytes (ClientHello_to_cbor ch)) \<le> 6000"
    unfolding ch_def using own_message_sizes(1) [where sid = "replicate 32 0"] assms(1-4)
    by (simp add: keypair_ok_def)
  then show "length (cbor_bytes (ClientHello_to_cbor ch)) \<le> 1024 * 1024" by simp
  show "decode_client_hello (cbor_bytes (ClientHello_to_cbor ch)) = Inr ch"
    using client_hello.bytes_roundtrip [where wrap = HsCbor and rest = "[]" and m = ch] size assms(3)
    by (simp add: decode_client_hello_def encode_eq ClientHello_ok_def ClientHello_norm_def ch_def own_client_hello_def)
qed

lemma own_server_hello_wire:
  assumes "crypto_ok cr" and "keypair_ok cr kp" and "length (env_nonce env) = 32" and "length sig = 3309"
    and "length sid = 32"
  defines "sh \<equiv> (own_server_hello cr env kp sid)\<lparr>sh_signature := sig\<rparr>"
  shows "length (cbor_bytes (ServerHello_to_cbor sh)) \<le> 1024 * 1024"
    and "decode_server_hello (cbor_bytes (ServerHello_to_cbor sh)) = Inr sh"
proof -
  have size: "length (cbor_bytes (ServerHello_to_cbor sh)) \<le> 6000"
    unfolding sh_def using own_message_sizes(2) assms(1-5) by (simp add: keypair_ok_def)
  then show "length (cbor_bytes (ServerHello_to_cbor sh)) \<le> 1024 * 1024" by simp
  show "decode_server_hello (cbor_bytes (ServerHello_to_cbor sh)) = Inr sh"
    using server_hello.bytes_roundtrip [where wrap = HsCbor and rest = "[]" and m = sh] size assms(3,5)
    by (simp add: decode_server_hello_def encode_eq ServerHello_ok_def ServerHello_norm_def sh_def own_server_hello_def)
qed

lemma client_finished_wire:
  assumes "length sig = 3309" and "length sid = 32"
  defines "cf \<equiv> \<lparr>cf_session_id = sid, cf_signature = sig\<rparr>"
  shows "length (cbor_bytes (ClientFinished_to_cbor cf)) \<le> 1024 * 1024"
    and "decode_client_finished (cbor_bytes (ClientFinished_to_cbor cf)) = Inr cf"
proof -
  have size: "length (cbor_bytes (ClientFinished_to_cbor cf)) \<le> 6000"
    unfolding cf_def using assms(1,2) by (rule client_finished_size)
  then show "length (cbor_bytes (ClientFinished_to_cbor cf)) \<le> 1024 * 1024" by simp
  show "decode_client_finished (cbor_bytes (ClientFinished_to_cbor cf)) = Inr cf"
    using client_finished.bytes_roundtrip [where wrap = HsCbor and rest = "[]" and m = cf] size assms(2)
    by (simp add: decode_client_finished_def encode_eq ClientFinished_ok_def cf_def)
qed

text \<open>
  Two honest drivers that are connected to each other, with valid key pairs, the same TLS channel
  binding, clocks less than an hour apart and nonces that the other side has not seen, both accept:
  the client sends its hello before it has received anything, the server its answer as soon as it has received
  the hello, and with the answer the client completes and sends what the server needs to complete;
  each ends in state IdentityVerified with the agent id and public key of the other, and both have the same session id.
\<close>

lemma honest_run:
  assumes "crypto_ok cr" and "keypair_ok cr kc" and "keypair_ok cr ks"
    and "env_stream_opens ec" and "env_stream_opens es"
    and "length (env_nonce ec) = 32" and "length (env_nonce es) = 32"
    and "env_unix_verify es < env_unix_hello ec + 3600" and "env_unix_verify ec < env_unix_hello es + 3600"
    and "replay_fresh es (sha256 cr (kp_public_key kc)) (env_nonce ec) server_cache"
    and "replay_fresh ec (sha256 cr (kp_public_key ks)) (env_nonce es) client_cache"
  shows "\<exists>hello c2s s2c sid client_cache' server_cache'.
    dr_sent (snd (drive_client_handshake cr ec kc tls \<lparr>dr_recv = [], dr_writes = [], dr_sent = [], dr_cache = client_cache\<rparr>)) = hello \<and>
    dr_sent (snd (drive_server_handshake cr es ks tls \<lparr>dr_recv = [], dr_writes = [], dr_sent = [], dr_cache = server_cache\<rparr>)) = [] \<and>
    dr_sent (snd (drive_server_handshake cr es ks tls \<lparr>dr_recv = hello, dr_writes = [], dr_sent = [], dr_cache = server_cache\<rparr>)) = s2c \<and>
    drive_client_handshake cr ec kc tls \<lparr>dr_recv = s2c, dr_writes = [], dr_sent = [], dr_cache = client_cache\<rparr> =
      (Inr (verified ec (sha256 cr (kp_public_key ks)) sid,
         \<lparr>pi_agent_id = sha256 cr (kp_public_key ks), pi_public_key = kp_public_key ks, pi_session_id = sid\<rparr>),
       \<lparr>dr_recv = [], dr_writes = [], dr_sent = c2s, dr_cache = client_cache'\<rparr>) \<and>
    drive_server_handshake cr es ks tls \<lparr>dr_recv = c2s, dr_writes = [], dr_sent = [], dr_cache = server_cache\<rparr> =
      (Inr (verified es (sha256 cr (kp_public_key kc)) sid,
         \<lparr>pi_agent_id = sha256 cr (kp_public_key kc), pi_public_key = kp_public_key kc, pi_session_id = sid\<rparr>),
       \<lparr>dr_recv = [], dr_writes = [], dr_sent = s2c, dr_cache = server_cache'\<rparr>)"
proof -
  let ?ch = "own_client_hello cr ec kc"
  have len: "length (sha256 cr x) = 32" for x using assms(1) by (simp add: crypto_ok_def)
  obtain sid where sid: "derive_session_id cr (h_client_hello cr tls ?ch) (env_nonce ec) (env_nonce es)
      (sha256 cr (kp_public_key ks)) = Some sid" "length sid = 32"
    using assms(1) by (simp add: derive_session_id_def hkdf_sha256_def crypto_ok_def)
  let ?sh = "own_server_hello cr es ks sid"
  let ?m1 = "signature_input (h_client_hello cr tls ?ch)" and ?m2 = "signature_input (h_server_hello cr tls ?ch ?sh)"
  obtain sig where sig: "sign_with_keypair cr kc ?m1 (env_rnd1 ec) = Inr sig"
      "MlDsa65_verify cr (kp_public_key kc) ?m1 sig" "length sig = 3309"
    by (rule sign_with_keypair_ok [OF assms(2)])
  obtain ssig where ssig: "sign_with_keypair cr ks ?m2 (env_rnd1 es) = Inr ssig"
      "MlDsa65_verify cr (kp_public_key ks) ?m2 ssig" "length ssig = 3309"
    by (rule sign_with_keypair_ok [OF assms(3)])
  obtain csig where csig: "sign_with_keypair cr kc ?m2 (env_rnd2 ec) = Inr csig"
      "MlDsa65_verify cr (kp_public_key kc) ?m2 csig" "length csig = 3309"
    by (rule sign_with_keypair_ok [OF assms(2)])
  let ?chs = "?ch\<lparr>ch_signature := sig\<rparr>" and ?shs = "?sh\<lparr>sh_signature := ssig\<rparr>"
    and ?cf = "\<lparr>cf_session_id = sid, cf_signature = csig\<rparr>"
  note wire = own_client_hello_wire [OF assms(1,2,6) sig(3)] client_finished_wire [OF csig(3) sid(2)]
    own_server_hello_wire [OF assms(1,3,7) ssig(3) sid(2)]
  have "drive_client_handshake cr ec kc tls
      \<lparr>dr_recv = handshake_frame (cbor_bytes (ServerHello_to_cbor ?shs)), dr_writes = [], dr_sent = [], dr_cache = client_cache\<rparr> =
    (Inr (verified ec (sha256 cr (kp_public_key ks)) sid,
       \<lparr>pi_agent_id = sha256 cr (kp_public_key ks), pi_public_key = kp_public_key ks, pi_session_id = sid\<rparr>),
     \<lparr>dr_recv = [], dr_writes = [],
      dr_sent = handshake_frame (cbor_bytes (ClientHello_to_cbor ?chs)) @ handshake_frame (cbor_bytes (ClientFinished_to_cbor ?cf)),
      dr_cache = map_option (updated_cache ec (sha256 cr (kp_public_key ks)) (env_nonce es)) client_cache\<rparr>)"
    by (subst client_completes [where sh = ?shs and rest = "[]", OF assms(4) _ _ wire(5,6)])
      (use sig csig in \<open>simp_all add: verify_server_hello_iff len ssig(2) assms(9,11)\<close>)
  moreover have "drive_server_handshake cr es ks tls
      \<lparr>dr_recv = handshake_frame (cbor_bytes (ClientHello_to_cbor ?chs)) @ handshake_frame (cbor_bytes (ClientFinished_to_cbor ?cf)),
       dr_writes = [], dr_sent = [], dr_cache = server_cache\<rparr> =
    (Inr (verified es (sha256 cr (kp_public_key kc)) sid,
       \<lparr>pi_agent_id = sha256 cr (kp_public_key kc), pi_public_key = kp_public_key kc, pi_session_id = sid\<rparr>),
     \<lparr>dr_recv = [], dr_writes = [], dr_sent = handshake_frame (cbor_bytes (ServerHello_to_cbor ?shs)),
      dr_cache = map_option (updated_cache es (sha256 cr (kp_public_key kc)) (env_nonce ec)) server_cache\<rparr>)"
    by (subst server_completes [where ch = ?chs and cf = ?cf and rest = "[]" and sid = sid, OF assms(5) _ _ wire(1,3,2,4)])
      (use ssig sid in \<open>simp_all add: verify_client_hello_iff verify_client_finished_iff len sig(2) csig(2) assms(8,10)\<close>)
  moreover have "dr_sent (snd (drive_client_handshake cr ec kc tls \<lparr>dr_recv = [], dr_writes = [], dr_sent = [], dr_cache = client_cache\<rparr>)) =
      handshake_frame (cbor_bytes (ClientHello_to_cbor ?chs))"
    by (subst client_speaks_first [OF assms(4) _ _ sig(1)]) simp_all
  moreover have "dr_sent (snd (drive_server_handshake cr es ks tls \<lparr>dr_recv = [], dr_writes = [], dr_sent = [], dr_cache = server_cache\<rparr>)) = []"
    by (subst server_waits [OF assms(5)]) simp_all
  moreover have "dr_sent (snd (drive_server_handshake cr es ks tls
      \<lparr>dr_recv = handshake_frame (cbor_bytes (ClientHello_to_cbor ?chs)), dr_writes = [], dr_sent = [], dr_cache = server_cache\<rparr>)) =
      handshake_frame (cbor_bytes (ServerHello_to_cbor ?shs))"
    by (subst server_answers [where ch = ?chs and sid = sid and aid = "sha256 cr (kp_public_key kc)",
          OF assms(5) _ _ wire(1,2)])
      (use ssig sid in \<open>simp_all add: verify_client_hello_iff len sig(2) assms(8,10)\<close>)
  ultimately show ?thesis by blast
qed

text \<open>An example: two key pairs and environments, with the example packages and a new replay cache on the server.\<close>

definition example_keypair :: "byte \<Rightarrow> AgentKeypair" where
  "example_keypair b = \<lparr>kp_public_key = replicate 1952 b, kp_secret_key = replicate 4032 b\<rparr>"

definition example_env :: "byte \<Rightarrow> handshake_env" where
  "example_env b = \<lparr>env_now_new = 0, env_now_transport = 1, env_now_identity = 40, env_remote_addr = str ''quic://peer'',
     env_stream_opens = True, env_nonce = replicate 32 b, env_rnd1 = [b], env_rnd2 = [b, b],
     env_unix_hello = 1000, env_unix_verify = 1001, env_ord_check = id, env_now_check = 10, env_others = [],
     env_ord_insert = id, env_now_insert = 20, env_lru_insert = 21\<rparr>"

lemma example_keypair_ok: "keypair_ok example_crypto (example_keypair b)"
  by (simp add: keypair_ok_def example_crypto_def example_keypair_def)

lemma replay_fresh_None: "replay_fresh env aid nonce None"
  by (simp add: replay_fresh_def)

lemma example_fresh: "replay_fresh (example_env b) aid nonce (Some ReplayCache_new)"
  by (simp add: replay_fresh_def example_env_def ReplayCache_check_def ReplayCache_new_def lazy_evict_def)

lemma example_env_fields:
  "env_stream_opens (example_env b)" "length (env_nonce (example_env b)) = 32"
  "env_unix_verify (example_env b) < env_unix_hello (example_env b') + 3600"
  "env_ord_check (example_env b) = id" "env_now_check (example_env b) = 10" "env_now_insert (example_env b) = 20"
  by (simp_all add: example_env_def)

lemmas example_run = honest_run [where kc = "example_keypair 1" and ks = "example_keypair 2" and
  ec = "example_env 1" and es = "example_env 2" and tls = "[9]", OF example_crypto_ok example_keypair_ok
  example_keypair_ok example_env_fields(1,1,2,2,3,3) example_fresh replay_fresh_None]

theorem server_accepts_verified_witness:
  "\<exists>io s p io'. drive_server_handshake example_crypto (example_env 2) (example_keypair 2) [9] io = (Inr (s, p), io') \<and>
    pi_agent_id p = sha256 example_crypto (pi_public_key p) \<and> se_state s = IdentityVerified"
proof -
  obtain io s p io' where
    run: "drive_server_handshake example_crypto (example_env 2) (example_keypair 2) [9] io = (Inr (s, p), io')"
    using example_run by blast
  from server_accepts_verified [OF this] run show ?thesis by blast
qed

theorem client_accepts_verified_witness:
  "\<exists>io s p io'. drive_client_handshake example_crypto (example_env 1) (example_keypair 1) [9] io = (Inr (s, p), io') \<and>
    pi_agent_id p = sha256 example_crypto (pi_public_key p) \<and> se_state s = IdentityVerified"
proof -
  obtain io s p io' where
    run: "drive_client_handshake example_crypto (example_env 1) (example_keypair 1) [9] io = (Inr (s, p), io')"
    using example_run by blast
  from client_accepts_verified [OF this] run show ?thesis by blast
qed

section \<open>Replayed hellos\<close>

lemma replay_run_params [simp]:
  "rc_max_entries (fold replay_step es c) = rc_max_entries c"
  "rc_retention (fold replay_step es c) = rc_retention c"
  by (induction es arbitrary: c) simp_all

lemma replay_run_ok: "hm_ok (rc_entries c) \<Longrightarrow> hm_ok (rc_entries (fold replay_step es c))"
  by (induction es arbitrary: c) (simp_all add: replay_step_ok)

lemma updated_cache_steps:
  "updated_cache env aid nonce c =
     fold replay_step ([RcCheck (env_ord_check env) (env_now_check env) aid nonce] @ env_others env @
       [RcInsert (env_ord_insert env) (env_now_insert env) (env_lru_insert env) aid nonce]) c"
  by (simp add: updated_cache_def checked_cache_def)

lemma updated_cache_params:
  "rc_max_entries (updated_cache env aid nonce c) = rc_max_entries c"
  "rc_retention (updated_cache env aid nonce c) = rc_retention c"
  unfolding updated_cache_steps by (rule replay_run_params)+

lemma updated_cache_ok: "hm_ok (rc_entries c) \<Longrightarrow> hm_ok (rc_entries (updated_cache env aid nonce c))"
  unfolding updated_cache_steps by (rule replay_run_ok)

lemma updated_cache_remembers:
  "remembers (make_key aid nonce) (env_now_insert env + rc_retention c) (updated_cache env aid nonce c)"
  using replay_run_params(2) [of "RcCheck (env_ord_check env) (env_now_check env) aid nonce # env_others env" c]
  by (simp add: updated_cache_def checked_cache_def ReplayCache_insert_form remembers_stored fresh_entry_def)

text \<open>
  C11. Replays of a ClientHello are refused: after a server accepted a handshake and recorded its
  nonce in the replay cache, a handshake that checks the cache within the retention time and
  receives a ClientHello with the same agent id and nonce (the same bytes in particular) ends with
  the replay error before anything is sent, whatever other connections did with the cache in the
  meantime, as long as their insertions fit in the cache and it is not cleared.
\<close>

theorem hello_replay_refused:
  assumes "drive_server_handshake cr env kp tls io = (Inr (s, p), io')"
    and "fst (read_handshake_frame io) = Inr ch_bytes" and "decode_client_hello ch_bytes = Inr ch"
    and "dr_cache io = Some c" and "dr_cache io' = Some c1" and "hm_ok (rc_entries c)"
    and "\<forall>ev \<in> set es. replay_ok ev \<and> (\<exists>now. replay_now ev = Some now \<and>
      env_now_insert env \<le> now \<and> now < env_now_insert env + rc_retention c)"
    and "hm_len (rc_entries c1) + length (filter is_insertion es) \<le> rc_max_entries c"
    and "dr_cache io2 = Some (fold replay_step es c1)"
    and "fst (read_handshake_frame io2) = Inr ch_bytes2" and "decode_client_hello ch_bytes2 = Inr ch2"
    and "ch_agent_id ch2 = ch_agent_id ch" and "ch_nonce ch2 = ch_nonce ch"
    and "env_stream_opens env2" and "iteration_order (env_ord_check env2)"
    and "env_now_check env2 < env_now_insert env + rc_retention c"
  shows "fst (drive_server_handshake cr2 env2 kp2 tls2 io2) = Inl (SdkHandshake (HtReplay ''ClientHello'')) \<and>
    dr_sent (snd (drive_server_handshake cr2 env2 kp2 tls2 io2)) = dr_sent io2"
proof -
  let ?k = "make_key (ch_agent_id ch) (ch_nonce ch)" and ?T = "env_now_insert env + rc_retention c"
  obtain ch' hd1 b1 r1 where r: "dr_recv io = hd1 @ b1 @ r1" "announces hd1 b1" "decode_client_hello b1 = Inr ch'"
    "dr_cache io' = map_option (updated_cache env (ch_agent_id ch') (ch_nonce ch')) (dr_cache io)"
    by (rule server_run [OF assms(1)]) blast
  then have "ch' = ch" using assms(2,3) fst_read_handshake_frame [OF r(2,1)] by simp
  then have c1: "c1 = updated_cache env (ch_agent_id ch) (ch_nonce ch) c" using r(4) assms(4,5) by simp
  note cache = updated_cache_ok [OF assms(6), of env "ch_agent_id ch" "ch_nonce ch", folded c1]
    updated_cache_params [of env "ch_agent_id ch" "ch_nonce ch" c, folded c1]
    updated_cache_remembers [of "ch_agent_id ch" "ch_nonce ch" env c, folded c1]
  have "remembers ?k ?T (fold replay_step es c1) \<and> hm_ok (rc_entries (fold replay_step es c1))"
    by (rule remembers_run [where ?t0.0 = "env_now_insert env"])
      (use cache assms(7,8) in simp_all)
  then have "\<not> replay_fresh env2 (ch_agent_id ch2) (ch_nonce ch2) (dr_cache io2)"
    using check_reports [OF _ assms(15)] assms(9,12,13,16)
    by (fastforce simp: replay_fresh_def remembers_def is_expired_def)
  moreover obtain io3 where "read_handshake_frame io2 = (Inr ch_bytes2, io3)" "dr_sent io3 = dr_sent io2" "dr_cache io3 = dr_cache io2"
    using assms(10) by (cases "read_handshake_frame io2") (auto simp: read_handshake_frame_Inr)
  ultimately show ?thesis
    using assms(11,14) by (simp add: drive_server_handshake_def driver_eval)
qed

theorem hello_replay_refused_witness:
  "\<exists>io. fst (drive_server_handshake example_crypto (example_env 2) (example_keypair 2) [9] io) =
     Inl (SdkHandshake (HtReplay ''ClientHello''))"
proof -
  let ?drive = "drive_server_handshake example_crypto (example_env 2) (example_keypair 2) [9]"
  obtain c2s s p io' where
    "?drive \<lparr>dr_recv = c2s, dr_writes = [], dr_sent = [], dr_cache = Some ReplayCache_new\<rparr> = (Inr (s, p), io')"
    using example_run by blast
  then obtain io where run: "?drive io = (Inr (s, p), io')" "dr_cache io = Some ReplayCache_new" by force
  obtain ch b1 hd1 r1 where r: "dr_recv io = hd1 @ b1 @ r1" "announces hd1 b1" "decode_client_hello b1 = Inr ch"
    and c1: "dr_cache io' = map_option (updated_cache (example_env 2) (ch_agent_id ch) (ch_nonce ch)) (dr_cache io)"
    by (rule server_run [OF run(1)]) blast
  let ?c1 = "updated_cache (example_env 2) (ch_agent_id ch) (ch_nonce ch) ReplayCache_new"
  let ?io2 = "io\<lparr>dr_cache := Some ?c1\<rparr>"
  have f: "fst (read_handshake_frame io) = Inr b1" "fst (read_handshake_frame ?io2) = Inr b1"
    using r(1,2) by (simp_all add: fst_read_handshake_frame)
  have new: "hm_ok (rc_entries ReplayCache_new)" "hm_len (rc_entries ReplayCache_new) = 0"
    "rc_max_entries ReplayCache_new = 100000" "rc_retention ReplayCache_new = 300000000000"
    by (simp_all add: ReplayCache_new_def)
  have "hm_len (rc_entries ?c1) \<le> 1"
    using replay_step_len [OF new(1), of "RcCheck id 10 (ch_agent_id ch) (ch_nonce ch)"]
      replay_step_len [OF replay_step_ok [OF new(1)], of "RcInsert id 20 21 (ch_agent_id ch) (ch_nonce ch)"
        "RcCheck id 10 (ch_agent_id ch) (ch_nonce ch)"] new(2)
    by (simp add: updated_cache_def checked_cache_def example_env_def)
  with hello_replay_refused [OF run(1) f(1) r(3) run(2) _ new(1) _ _ _ f(2) r(3) refl refl, of ?c1 "[]" "example_env 2"]
  show ?thesis using c1 run(2) new by (simp add: example_env_fields iteration_order_def) blast
qed

text \<open>
  The check does not reserve the nonce: two handshakes that check before either inserts both pass,
  whatever the time between the two checks.
\<close>

lemma check_insert_race:
  assumes "hm_ok (rc_entries c)" and "iteration_order (env_ord_check env1)" and "iteration_order (env_ord_check env2)"
    and "env_now_check env1 \<le> env_now_check env2" and "replay_fresh env1 aid nonce (Some c)"
  shows "replay_fresh env2 aid nonce (Some (checked_cache env1 aid nonce c))"
proof -
  have "shrinks c (checked_cache env1 aid nonce c)"
    by (rule check_cases [OF assms(1), of "env_ord_check env1" "env_now_check env1" aid nonce])
      (use assms(1,5) lazy_evict_chain(2) [OF assms(1)] in
        \<open>simp_all add: checked_cache_def replay_fresh_def shrinks_lazy_evict\<close>)
  then have d: "hm_ok (rc_entries (checked_cache env1 aid nonce c))"
    "\<And>e. hm_get (rc_entries (checked_cache env1 aid nonce c)) (make_key aid nonce) = Some e \<Longrightarrow>
       hm_get (rc_entries c) (make_key aid nonce) = Some e"
    by (auto simp: shrinks_def)
  have "expires_at e \<le> env_now_check env1" if "hm_get (rc_entries c) (make_key aid nonce) = Some e" for e
    using assms(5) that check_reports [OF assms(1,2), of "env_now_check env1" aid nonce]
    by (auto simp: replay_fresh_def is_expired_def)
  then show ?thesis
    using assms(4) d(2) check_reports [OF d(1) assms(3), of "env_now_check env2" aid nonce]
    by (fastforce simp: replay_fresh_def is_expired_def)
qed

end
