(* ===== verification/Transport_Binding.thy ===== *)
theory Transport_Binding
  imports Handshake_Driver
begin

text \<open>
  Establishing a session and control frames: \<open>crates/aafp-sdk/src/transport_binding.rs\<close> and
  \<open>protocol_frames.rs\<close>. \<open>establish_session\<close> runs the handshake driver, asks the authorization
  provider and moves the session to messaging. The TLS exporter is an argument (\<open>None\<close>: it fails),
  as are the provider and the clock readings of the session transitions.

  QUIC connections are handles into the state \<open>quic\<close> of the transport: the bytes written to the
  finished streams of each connection, and how it was closed. Opening a stream fails on a closed
  connection, and whenever the argument \<open>stream_env\<close> says so.
\<close>

section \<open>Establishing a session\<close>

record establish_env =
  ee_handshake :: handshake_env
  ee_tls_binding :: "bytes option"
  ee_now_authorized :: instant
  ee_now_authenticated :: instant
  ee_now_messaging :: instant

type_synonym auth_provider = "AgentId \<Rightarrow> bytes \<Rightarrow> AuthorizationError + AuthorizationContext"

definition drive_handshake ::
    "crypto \<Rightarrow> handshake_env \<Rightarrow> AgentKeypair \<Rightarrow> bytes \<Rightarrow> bool \<Rightarrow> (Session \<times> PeerInfo) driver" where
  "drive_handshake cr env keypair tls_binding is_client =
     (if is_client then drive_client_handshake cr env keypair tls_binding
      else drive_server_handshake cr env keypair tls_binding)"

definition establish_session ::
    "crypto \<Rightarrow> establish_env \<Rightarrow> AgentKeypair \<Rightarrow> auth_provider \<Rightarrow> bool \<Rightarrow> (Session \<times> PeerInfo) driver" where
  "establish_session cr env keypair auth_provider is_client =
     then_with (lift_result (case ee_tls_binding env of
         None \<Rightarrow> Inl (SdkHandshake HtTlsBinding) | Some tls_binding \<Rightarrow> Inr tls_binding)) (\<lambda>tls_binding.
     then_with (drive_handshake cr (ee_handshake env) keypair tls_binding is_client) (\<lambda>(session, peer_info).
     then_with (lift_result (map_err (SdkHandshake \<circ> HtAuthorizationDenied)
       (auth_provider (pi_agent_id peer_info) (pi_public_key peer_info)))) (\<lambda>auth_ctx.
     then_with (lift_result (session_result (on_authorization_verified (ee_now_authorized env) auth_ctx session))) (\<lambda>session.
     then_with (lift_result (session_result (on_authenticated (ee_now_authenticated env) session))) (\<lambda>session.
     then_with (lift_result (session_result (on_messaging_enabled (ee_now_messaging env) session))) (\<lambda>session.
     lift_result (Inr (session, peer_info))))))))"

definition messaging_session :: "establish_env \<Rightarrow> AuthorizationContext \<Rightarrow> PeerInfo \<Rightarrow> Session" where
  "messaging_session env ctx p =
     (verified (ee_handshake env) (pi_agent_id p) (pi_session_id p))\<lparr>se_authorization_context := Some ctx,
       se_state := MessagingEnabled, se_last_activity := ee_now_messaging env\<rparr>"

lemma enable_messaging:
  "session_result (on_authorization_verified t ctx (verified env a i)) =
     Inr ((verified env a i)\<lparr>se_state := AuthorizationVerified, se_authorization_context := Some ctx, se_last_activity := t\<rparr>)"
  "se_state s = AuthorizationVerified \<Longrightarrow>
     session_result (on_authenticated t s) = Inr (s\<lparr>se_state := Authenticated, se_last_activity := t\<rparr>)"
  "se_state s = Authenticated \<Longrightarrow>
     session_result (on_messaging_enabled t s) = Inr (s\<lparr>se_state := MessagingEnabled, se_last_activity := t\<rparr>)"
  by (simp_all add: session_result_def session_ops verified_def established_def Session_new_def)

lemma drive_handshake_verified:
  "drive_handshake cr env kp tls is_client io = (Inr (s, p), io') \<Longrightarrow> s = verified env (pi_agent_id p) (pi_session_id p)"
  by (cases is_client)
    (auto simp: drive_handshake_def elim!: client_run, erule server_run, metis PeerInfo.select_convs(3))

lemma establish_session_Inr:
  "establish_session cr env kp prov is_client io = (Inr (s, p), io') \<longleftrightarrow>
     (\<exists>tls s0 ctx. ee_tls_binding env = Some tls \<and>
        drive_handshake cr (ee_handshake env) kp tls is_client io = (Inr (s0, p), io') \<and>
        prov (pi_agent_id p) (pi_public_key p) = Inr ctx \<and> s = messaging_session env ctx p)"
  (is "?l = ?r")
proof
  assume ?l
  then obtain tls s0 ctx where
    d: "ee_tls_binding env = Some tls" "drive_handshake cr (ee_handshake env) kp tls is_client io = (Inr (s0, p), io')"
      "prov (pi_agent_id p) (pi_public_key p) = Inr ctx"
    and s: "bind_result (session_result (on_authorization_verified (ee_now_authorized env) ctx s0)) (\<lambda>s.
       bind_result (session_result (on_authenticated (ee_now_authenticated env) s)) (\<lambda>s.
       session_result (on_messaging_enabled (ee_now_messaging env) s))) = Inr s"
    unfolding establish_session_def then_with_Inr_iff lift_result_Inr
    by (auto simp: then_with_Inr_iff lift_result_Inr split: option.splits)
  have "s0 = verified (ee_handshake env) (pi_agent_id p) (pi_session_id p)"
    using d(2) by (rule drive_handshake_verified)
  with s have "s = messaging_session env ctx p" by (auto simp: enable_messaging messaging_session_def)
  with d show ?r by blast
next
  assume ?r
  then obtain tls s0 ctx where d: "ee_tls_binding env = Some tls" "prov (pi_agent_id p) (pi_public_key p) = Inr ctx"
      "drive_handshake cr (ee_handshake env) kp tls is_client io = (Inr (s0, p), io')"
      "s = messaging_session env ctx p" by blast
  moreover have "s0 = verified (ee_handshake env) (pi_agent_id p) (pi_session_id p)"
    using d(3) by (rule drive_handshake_verified)
  ultimately show ?l
    by (simp add: establish_session_def then_with_def lift_result_def enable_messaging messaging_session_def)
qed

lemma drive_handshake_identity:
  assumes "drive_handshake cr env kp tls is_client io = (Inr (s, p), io')"
  shows "pi_agent_id p = sha256 cr (pi_public_key p)" and "length (pi_agent_id p) = 32"
proof -
  have "pi_agent_id p = sha256 cr (pi_public_key p) \<and> length (pi_agent_id p) = 32"
  proof (cases is_client)
    case True
    with assms have "drive_client_handshake cr env kp tls io = (Inr (s, p), io')" by (simp add: drive_handshake_def)
    then show ?thesis by (rule client_run) (metis verify_server_hello_iff PeerInfo.select_convs(2))
  next
    case False
    with assms have "drive_server_handshake cr env kp tls io = (Inr (s, p), io')" by (simp add: drive_handshake_def)
    then show ?thesis by (rule server_run) (metis verify_client_hello_iff PeerInfo.select_convs(2))
  qed
  then show "pi_agent_id p = sha256 cr (pi_public_key p)" "length (pi_agent_id p) = 32" by blast+
qed

lemma messaging_session_fields [simp]:
  "se_state (messaging_session env ctx p) = MessagingEnabled"
  "se_peer_agent_id (messaging_session env ctx p) = Some (pi_agent_id p)"
  "se_session_id (messaging_session env ctx p) = Some (pi_session_id p)"
  "se_authorization_context (messaging_session env ctx p) = Some ctx"
  by (simp_all add: messaging_session_def verified_def)

text \<open>
  C12. A session that \<open>establish_session\<close> returns, on either side, has messaging enabled, and the
  peer it names is authenticated and authorized: the agent id is the hash of the peer's public
  key, the handshake driver accepted that peer over the TLS channel binding of this very
  connection, and the authorization provider, asked about that agent id and key, returned the context
  the session uses to decide on capabilities.
\<close>

theorem established_session_authorized:
  assumes "establish_session cr env kp prov is_client io = (Inr (s, p), io')"
  shows "\<exists>tls s0 ctx. ee_tls_binding env = Some tls \<and>
    (if is_client then drive_client_handshake cr (ee_handshake env) kp tls io
     else drive_server_handshake cr (ee_handshake env) kp tls io) = (Inr (s0, p), io') \<and>
    pi_agent_id p = sha256 cr (pi_public_key p) \<and>
    prov (pi_agent_id p) (pi_public_key p) = Inr ctx \<and>
    se_state s = MessagingEnabled \<and> se_peer_agent_id s = Some (pi_agent_id p) \<and>
    se_session_id s = Some (pi_session_id p) \<and>
    (\<forall>capability. Session_is_authorized s capability = ctx_is_authorized ctx capability)"
proof -
  from assms obtain tls s0 ctx where e: "ee_tls_binding env = Some tls"
      "drive_handshake cr (ee_handshake env) kp tls is_client io = (Inr (s0, p), io')"
      "prov (pi_agent_id p) (pi_public_key p) = Inr ctx" "s = messaging_session env ctx p"
    unfolding establish_session_Inr by blast
  moreover have "\<forall>capability. Session_is_authorized s capability = ctx_is_authorized ctx capability"
    by (simp add: e(4) Session_is_authorized_def)
  ultimately show ?thesis
    using drive_handshake_identity(1) [OF e(2)] e(2) unfolding drive_handshake_def by (auto split: if_splits)
qed

text \<open>
  Two connected parties proceed in rounds. In each round a party has received what the other had sent at the end of the
  round before, and sends all it can before it waits for more: what its run on the bytes received so far has sent. Nothing is
  in flight at the beginning.
\<close>

definition sent_on :: "'a driver \<Rightarrow> ReplayCache option \<Rightarrow> bytes \<Rightarrow> bytes" where
  "sent_on drv cache received = dr_sent (snd (drv \<lparr>dr_recv = received, dr_writes = [], dr_sent = [], dr_cache = cache\<rparr>))"

fun exchange :: "(bytes \<Rightarrow> bytes) \<Rightarrow> (bytes \<Rightarrow> bytes) \<Rightarrow> nat \<Rightarrow> bytes \<times> bytes" where
  "exchange client server 0 = ([], [])"
| "exchange client server (Suc n) = (client (snd (exchange client server n)), server (fst (exchange client server n)))"

lemma establish_session_sent:
  "ee_tls_binding env = Some tls \<Longrightarrow>
     dr_sent (snd (establish_session cr env kp prov is_client io)) = dr_sent (snd (drive_handshake cr (ee_handshake env) kp tls is_client io))"
  by (simp add: establish_session_def then_with_def lift_result_def split: prod.split sum.split)

lemma exchange_completes:
  assumes "c [] = hello" and "s [] = []" and "s hello = s2c" and "c s2c = c2s"
  shows "exchange c s 3 = (c2s, s2c)"
  using assms by (simp add: numeral_3_eq_3)

text \<open>
  C8. Two honest agents connected to each other reach messaging. With valid key pairs, 32-byte nonces that the other side has not seen, the same
  TLS channel binding, clocks less than an hour apart, streams that open and take what is written, and providers that admit the other
  agent, three rounds of exchange, which start with nothing in flight, bring \<open>establish_session\<close> to success on both sides, with nothing left
  unread: each knows the other's agent id and key, both have the same session id, and messaging is enabled.
\<close>

theorem honest_sessions:
  assumes "crypto_ok cr" and "keypair_ok cr kc" and "keypair_ok cr ks"
    and "env_stream_opens (ee_handshake ec)" and "env_stream_opens (ee_handshake es)"
    and "length (env_nonce (ee_handshake ec)) = 32" and "length (env_nonce (ee_handshake es)) = 32"
    and "env_unix_verify (ee_handshake es) < env_unix_hello (ee_handshake ec) + 3600"
    and "env_unix_verify (ee_handshake ec) < env_unix_hello (ee_handshake es) + 3600"
    and "replay_fresh (ee_handshake es) (sha256 cr (kp_public_key kc)) (env_nonce (ee_handshake ec)) server_cache"
    and "replay_fresh (ee_handshake ec) (sha256 cr (kp_public_key ks)) (env_nonce (ee_handshake es)) client_cache"
    and "ee_tls_binding ec = Some tls" and "ee_tls_binding es = Some tls"
    and "client_prov (sha256 cr (kp_public_key ks)) (kp_public_key ks) = Inr client_ctx"
    and "server_prov (sha256 cr (kp_public_key kc)) (kp_public_key kc) = Inr server_ctx"
  shows "\<exists>c2s s2c sid cs cp ci ss sp si.
    exchange (sent_on (establish_session cr ec kc client_prov True) client_cache)
      (sent_on (establish_session cr es ks server_prov False) server_cache) 3 = (c2s, s2c) \<and>
    establish_session cr ec kc client_prov True
      \<lparr>dr_recv = s2c, dr_writes = [], dr_sent = [], dr_cache = client_cache\<rparr> = (Inr (cs, cp), ci) \<and>
    establish_session cr es ks server_prov False
      \<lparr>dr_recv = c2s, dr_writes = [], dr_sent = [], dr_cache = server_cache\<rparr> = (Inr (ss, sp), si) \<and>
    dr_sent ci = c2s \<and> dr_sent si = s2c \<and> dr_recv ci = [] \<and> dr_recv si = [] \<and>
    cp = \<lparr>pi_agent_id = sha256 cr (kp_public_key ks), pi_public_key = kp_public_key ks, pi_session_id = sid\<rparr> \<and>
    sp = \<lparr>pi_agent_id = sha256 cr (kp_public_key kc), pi_public_key = kp_public_key kc, pi_session_id = sid\<rparr> \<and>
    se_state cs = MessagingEnabled \<and> se_state ss = MessagingEnabled \<and>
    se_session_id cs = Some sid \<and> se_session_id ss = Some sid"
proof -
  let ?c = "\<lambda>r. \<lparr>dr_recv = r, dr_writes = [], dr_sent = [], dr_cache = client_cache\<rparr>"
  let ?s = "\<lambda>r. \<lparr>dr_recv = r, dr_writes = [], dr_sent = [], dr_cache = server_cache\<rparr>"
  from honest_run [OF assms(1-11), of tls] obtain hello c2s s2c sid cc sc where
    "dr_sent (snd (drive_handshake cr (ee_handshake ec) kc tls True (?c []))) = hello"
    "dr_sent (snd (drive_handshake cr (ee_handshake es) ks tls False (?s []))) = []"
    "dr_sent (snd (drive_handshake cr (ee_handshake es) ks tls False (?s hello))) = s2c"
    "drive_handshake cr (ee_handshake ec) kc tls True (?c s2c) =
      (Inr (verified (ee_handshake ec) (sha256 cr (kp_public_key ks)) sid,
         \<lparr>pi_agent_id = sha256 cr (kp_public_key ks), pi_public_key = kp_public_key ks, pi_session_id = sid\<rparr>),
       \<lparr>dr_recv = [], dr_writes = [], dr_sent = c2s, dr_cache = cc\<rparr>)"
    "drive_handshake cr (ee_handshake es) ks tls False (?s c2s) =
      (Inr (verified (ee_handshake es) (sha256 cr (kp_public_key kc)) sid,
         \<lparr>pi_agent_id = sha256 cr (kp_public_key kc), pi_public_key = kp_public_key kc, pi_session_id = sid\<rparr>),
       \<lparr>dr_recv = [], dr_writes = [], dr_sent = s2c, dr_cache = sc\<rparr>)"
    unfolding drive_handshake_def by auto
  note first = this(1-3) and client = this(4) and server = this(5)
  let ?cp = "\<lparr>pi_agent_id = sha256 cr (kp_public_key ks), pi_public_key = kp_public_key ks, pi_session_id = sid\<rparr>"
  let ?sp = "\<lparr>pi_agent_id = sha256 cr (kp_public_key kc), pi_public_key = kp_public_key kc, pi_session_id = sid\<rparr>"
  have "exchange (sent_on (establish_session cr ec kc client_prov True) client_cache)
      (sent_on (establish_session cr es ks server_prov False) server_cache) 3 = (c2s, s2c)"
    using first client by (intro exchange_completes)
      (simp_all add: sent_on_def establish_session_sent [OF assms(12)] establish_session_sent [OF assms(13)])
  moreover have "establish_session cr ec kc client_prov True (?c s2c) =
      (Inr (messaging_session ec client_ctx ?cp, ?cp), \<lparr>dr_recv = [], dr_writes = [], dr_sent = c2s, dr_cache = cc\<rparr>)"
    unfolding establish_session_Inr using client assms(12,14) by simp
  moreover have "establish_session cr es ks server_prov False (?s c2s) =
      (Inr (messaging_session es server_ctx ?sp, ?sp), \<lparr>dr_recv = [], dr_writes = [], dr_sent = s2c, dr_cache = sc\<rparr>)"
    unfolding establish_session_Inr using server assms(13,15) by simp
  ultimately show ?thesis by fastforce
qed

text \<open>Example: the environments of the handshake example, and a provider that admits everyone.\<close>

definition example_establish :: "byte \<Rightarrow> establish_env" where
  "example_establish b = \<lparr>ee_handshake = example_env b, ee_tls_binding = Some [9], ee_now_authorized = 50,
     ee_now_authenticated = 51, ee_now_messaging = 52\<rparr>"

lemma example_establish_fields:
  "ee_handshake (example_establish b) = example_env b" "ee_tls_binding (example_establish b) = Some [9]"
  by (simp_all add: example_establish_def)

theorem honest_sessions_witness:
  "\<exists>c2s s2c cs cp ci.
    exchange (sent_on (establish_session example_crypto (example_establish 1) (example_keypair 1) TestingAuthProvider_authorize True) None)
      (sent_on (establish_session example_crypto (example_establish 2) (example_keypair 2) TestingAuthProvider_authorize False) None) 3 = (c2s, s2c) \<and>
    establish_session example_crypto (example_establish 1) (example_keypair 1) TestingAuthProvider_authorize True
      \<lparr>dr_recv = s2c, dr_writes = [], dr_sent = [], dr_cache = None\<rparr> = (Inr (cs, cp), ci) \<and>
    se_state cs = MessagingEnabled \<and> pi_public_key cp = replicate 1952 2"
proof -
  have key: "kp_public_key (example_keypair 2) = replicate 1952 2" by (simp add: example_keypair_def)
  show ?thesis
    using honest_sessions [where ec = "example_establish 1" and es = "example_establish 2", unfolded example_establish_fields,
      OF example_crypto_ok example_keypair_ok example_keypair_ok example_env_fields(1,1,2,2,3,3) replay_fresh_None replay_fresh_None refl refl,
      of TestingAuthProvider_authorize 2 "AuthorizationContext AllowAllAuthContext_is_authorized"
        TestingAuthProvider_authorize 1 "AuthorizationContext AllowAllAuthContext_is_authorized"]
    unfolding TestingAuthProvider_authorize_def key by auto
qed

theorem established_session_authorized_witness:
  "\<exists>io s p io'. establish_session example_crypto (example_establish 1) (example_keypair 1) TestingAuthProvider_authorize True io =
     (Inr (s, p), io') \<and> pi_agent_id p = sha256 example_crypto (pi_public_key p) \<and> se_state s = MessagingEnabled"
proof -
  obtain io s p io' where
    run: "drive_handshake example_crypto (example_env 1) (example_keypair 1) [9] True io = (Inr (s, p), io')"
    using example_run unfolding drive_handshake_def by auto
  have "\<exists>s. establish_session example_crypto (example_establish 1) (example_keypair 1) TestingAuthProvider_authorize True io =
      (Inr (s, p), io')"
    unfolding establish_session_Inr
    by (simp add: example_establish_fields TestingAuthProvider_authorize_def run)
  with established_session_authorized show ?thesis by blast
qed

section \<open>QUIC connections\<close>

type_synonym conn_id = nat

record quic =
  q_streams :: "conn_id \<Rightarrow> bytes list"
  q_closed :: "conn_id \<Rightarrow> (u32 \<times> bytes) option"

record stream_env =
  so_opens :: bool
  so_writes :: bool
  so_reply :: bytes

definition open_bi :: "stream_env \<Rightarrow> conn_id \<Rightarrow> quic \<Rightarrow> (SdkError + unit) \<times> quic" where
  "open_bi so conn q = (if \<not> so_opens so \<or> q_closed q conn \<noteq> None then Inl stream_error else Inr (), q)"

text \<open>Write the bytes and finish the stream; a failed write leaves nothing for the peer.\<close>

definition write_and_finish :: "stream_env \<Rightarrow> conn_id \<Rightarrow> bytes \<Rightarrow> quic \<Rightarrow> (SdkError + unit) \<times> quic" where
  "write_and_finish so conn data q =
     (if \<not> so_writes so then (Inl stream_error, q)
      else (Inr (), q\<lparr>q_streams := (q_streams q)(conn := q_streams q conn @ [data])\<rparr>))"

definition send_on_stream :: "stream_env \<Rightarrow> conn_id \<Rightarrow> bytes \<Rightarrow> quic \<Rightarrow> (SdkError + unit) \<times> quic" where
  "send_on_stream so conn data = then_with (open_bi so conn) (\<lambda>_. write_and_finish so conn data)"

text \<open>Only the first close of a connection has an effect.\<close>

definition quic_close :: "conn_id \<Rightarrow> u32 \<Rightarrow> bytes \<Rightarrow> quic \<Rightarrow> quic" where
  "quic_close conn code reason q =
     (if q_closed q conn = None then q\<lparr>q_closed := (q_closed q)(conn \<mapsto> (code, reason))\<rparr> else q)"

section \<open>Control frames\<close>

datatype ControlFrame =
    ControlError ErrorMessage
  | ControlClose CloseMessage

definition send_error_frame :: "stream_env \<Rightarrow> conn_id \<Rightarrow> ProtocolError \<Rightarrow> quic \<Rightarrow> (SdkError + unit) \<times> quic" where
  "send_error_frame so conn error =
     (let msg = \<lparr>em_code = pe_code error, em_message = pe_message error, em_data = pe_data error,
            em_fatal = pe_fatal error\<rparr>
      in then_with (lift_result (map_err (SdkMessaging \<circ> MtErrorEncode) (ErrorMessage_encode msg))) (\<lambda>payload.
         let frame = \<lparr>frame_type = FtError, fr_flags = 0, fr_stream_id = 0, fr_extensions = [], fr_payload = payload\<rparr> in
         then_with (lift_result (map_err SdkFrame (encode_frame frame))) (\<lambda>frame_bytes.
         send_on_stream so conn frame_bytes)))"

definition send_close_frame ::
    "stream_env \<Rightarrow> conn_id \<Rightarrow> u32 \<Rightarrow> ustring \<Rightarrow> quic \<Rightarrow> (SdkError + unit) \<times> quic" where
  "send_close_frame so conn code message =
     (let msg = CloseMessage_new code message
      in then_with (lift_result (map_err (SdkMessaging \<circ> MtCloseEncode) (CloseMessage_encode msg))) (\<lambda>payload.
         let frame = \<lparr>frame_type = FtClose, fr_flags = 0, fr_stream_id = 0, fr_extensions = [], fr_payload = payload\<rparr> in
         then_with (lift_result (map_err SdkFrame (encode_frame frame))) (\<lambda>frame_bytes.
         send_on_stream so conn frame_bytes)))"

definition parse_control_frame :: "Frame \<Rightarrow> SdkError + ControlFrame" where
  "parse_control_frame frame =
     (case frame_type frame of
        FtError \<Rightarrow>
          bind_result (map_err (SdkMessaging \<circ> MtErrorDecode) (ErrorMessage_decode (fr_payload frame))) (\<lambda>msg.
          Inr (ControlError msg))
      | FtClose \<Rightarrow>
          bind_result (map_err (SdkMessaging \<circ> MtCloseDecode) (CloseMessage_decode (fr_payload frame))) (\<lambda>msg.
          Inr (ControlClose msg))
      | other \<Rightarrow> Inl (SdkMessaging (MtUnexpectedFrame other)))"

lemma send_on_stream_Inr:
  "send_on_stream so conn data q = (Inr (), q') \<longleftrightarrow> so_opens so \<and> so_writes so \<and> q_closed q conn = None \<and>
     q' = q\<lparr>q_streams := (q_streams q)(conn := q_streams q conn @ [data])\<rparr>"
  by (cases "q_closed q conn") (auto simp: send_on_stream_def open_bi_def write_and_finish_def then_with_def)

lemma sent_frame_decodes:
  assumes "encode_frame f = Inr bs" and "frame_type f \<in> {FtData, FtError, FtClose}"
  shows "decode_frame bs = Inr (f, length bs)"
proof -
  have "frame_ok f" using assms by (auto simp: encode_frame_Inr frame_ok_def)
  with assms(1) show ?thesis using decode_frame_bytes [of f "[]"] by (simp add: encode_frame_ok)
qed

lemma encode_frame_fits: "encode_frame f = Inr bs \<Longrightarrow> fits (fr_payload f)"
  by (simp add: encode_frame_Inr)

lemma close_frame_sent:
  assumes "utf8_valid message" and "send_close_frame so conn code message q = (Inr (), q')"
  obtains bs frame where "q' = q\<lparr>q_streams := (q_streams q)(conn := q_streams q conn @ [bs])\<rparr>"
    "decode_frame bs = Inr (frame, length bs)"
    "parse_control_frame frame = Inr (ControlClose \<lparr>cl_code = code, cl_message = message\<rparr>)"
proof -
  from assms(2) obtain payload bs where p: "CloseMessage_encode (CloseMessage_new code message) = Inr payload"
    and f: "encode_frame \<lparr>frame_type = FtClose, fr_flags = 0, fr_stream_id = 0, fr_extensions = [], fr_payload = payload\<rparr> = Inr bs"
    and q: "q' = q\<lparr>q_streams := (q_streams q)(conn := q_streams q conn @ [bs])\<rparr>"
    unfolding send_close_frame_def Let_def then_with_Inr_iff lift_result_Inr send_on_stream_Inr by auto
  have "CloseMessage_decode payload = Inr (CloseMessage_new code message)"
    using close_message.bytes_roundtrip [of "CloseMessage_new code message" RpcCbor payload "[]"] p assms(1)
      encode_frame_fits [OF f]
    by (simp add: CloseMessage_encode_def CloseMessage_decode_def CloseMessage_ok_def CloseMessage_new_def)
  then show ?thesis
    using that [OF q sent_frame_decodes [OF f]] by (simp add: parse_control_frame_def CloseMessage_new_def)
qed

lemma error_frame_sent:
  assumes "utf8_valid (pe_message error)" and "send_error_frame so conn error q = (Inr (), q')"
  obtains bs frame where "q' = q\<lparr>q_streams := (q_streams q)(conn := q_streams q conn @ [bs])\<rparr>"
    "decode_frame bs = Inr (frame, length bs)"
    "parse_control_frame frame = Inr (ControlError \<lparr>em_code = pe_code error, em_message = pe_message error,
       em_data = pe_data error, em_fatal = pe_fatal error\<rparr>)"
proof -
  let ?msg = "\<lparr>em_code = pe_code error, em_message = pe_message error, em_data = pe_data error, em_fatal = pe_fatal error\<rparr>"
  from assms(2) obtain payload bs where p: "ErrorMessage_encode ?msg = Inr payload"
    and f: "encode_frame \<lparr>frame_type = FtError, fr_flags = 0, fr_stream_id = 0, fr_extensions = [], fr_payload = payload\<rparr> = Inr bs"
    and q: "q' = q\<lparr>q_streams := (q_streams q)(conn := q_streams q conn @ [bs])\<rparr>"
    unfolding send_error_frame_def Let_def then_with_Inr_iff lift_result_Inr send_on_stream_Inr by auto
  have "ErrorMessage_decode payload = Inr ?msg"
    using error_message.bytes_roundtrip [of ?msg RpcCbor payload "[]"] p assms(1) encode_frame_fits [OF f]
    by (simp add: ErrorMessage_encode_def ErrorMessage_decode_def ErrorMessage_ok_def)
  then show ?thesis using that [OF q sent_frame_decodes [OF f]] by (simp add: parse_control_frame_def)
qed

text \<open>
  Control frames arrive as they were sent: when \<open>send_close_frame\<close> or \<open>send_error_frame\<close>
  succeeds, one stream was added to the connection and nothing else changed, and a receiver that
  decodes the frame on that stream and parses it gets the code and message, and for an error also
  the data and the fatal flag of the protocol error.
\<close>

lemma control_frame_delivery:
  assumes "utf8_valid message" and "utf8_valid (pe_message error)"
  shows "(send_close_frame so conn code message q = (Inr (), q') \<longrightarrow>
      (\<exists>bs frame. q' = q\<lparr>q_streams := (q_streams q)(conn := q_streams q conn @ [bs])\<rparr> \<and>
        decode_frame bs = Inr (frame, length bs) \<and>
        parse_control_frame frame = Inr (ControlClose \<lparr>cl_code = code, cl_message = message\<rparr>))) \<and>
    (send_error_frame so conn error q = (Inr (), q') \<longrightarrow>
      (\<exists>bs frame. q' = q\<lparr>q_streams := (q_streams q)(conn := q_streams q conn @ [bs])\<rparr> \<and>
        decode_frame bs = Inr (frame, length bs) \<and>
        parse_control_frame frame = Inr (ControlError \<lparr>em_code = pe_code error, em_message = pe_message error,
          em_data = pe_data error, em_fatal = pe_fatal error\<rparr>)))"
  using close_frame_sent [OF assms(1)] error_frame_sent [OF assms(2)] by (intro conjI impI) metis+

definition example_quic :: quic where
  "example_quic = \<lparr>q_streams = (\<lambda>_. []), q_closed = (\<lambda>_. None)\<rparr>"

definition example_stream :: stream_env where
  "example_stream = \<lparr>so_opens = True, so_writes = True, so_reply = []\<rparr>"

lemma control_frame_delivery_example:
  "\<exists>q' bs frame. send_close_frame example_stream 3 8009 (str ''bye'') example_quic = (Inr (), q') \<and>
     q_streams q' 3 = [bs] \<and> decode_frame bs = Inr (frame, length bs) \<and>
     parse_control_frame frame = Inr (ControlClose \<lparr>cl_code = 8009, cl_message = str ''bye''\<rparr>)"
proof -
  have "fst (send_close_frame example_stream 3 8009 (str ''bye'') example_quic) = Inr ()" by code_simp
  then obtain q' where q: "send_close_frame example_stream 3 8009 (str ''bye'') example_quic = (Inr (), q')"
    by (metis prod.collapse)
  have "utf8_valid (str ''bye'') \<and> utf8_valid (pe_message (ProtocolError_new 8009 []))" by code_simp
  with control_frame_delivery [of "str ''bye''" "ProtocolError_new 8009 []" example_stream 3 8009 example_quic q'] q
  obtain bs frame where "q' = example_quic\<lparr>q_streams := (q_streams example_quic)(3 := q_streams example_quic 3 @ [bs])\<rparr>"
    "decode_frame bs = Inr (frame, length bs)"
    "parse_control_frame frame = Inr (ControlClose \<lparr>cl_code = 8009, cl_message = str ''bye''\<rparr>)" by blast
  with q show ?thesis by (simp add: example_quic_def)
qed

end
