(* ===== verification/Peer_Table.thy ===== *)
theory Peer_Table
  imports Transport_Binding Hash_Map
begin

text \<open>
  Tables of authenticated peers, as the client, the server and the connection pool keep them: hash
  maps from agent ids to records that hold a session. What the sessions in these tables owe to the handshake.
\<close>

text \<open>
  Every entry is keyed by the agent id its session verified; the id is the hash of a public key;
  and while its session can send, it has the context the provider returned for that id and key.
\<close>

definition authenticated_entry :: "crypto \<Rightarrow> auth_provider \<Rightarrow> AgentId \<Rightarrow> Session \<Rightarrow> bool" where
  "authenticated_entry cr prov a s \<longleftrightarrow> se_peer_agent_id s = Some a \<and> se_state s \<in> {MessagingEnabled, SessionClosed} \<and>
     (\<exists>pk ctx. a = sha256 cr pk \<and> prov a pk = Inr ctx \<and> se_authorization_context s = Some ctx)"

lemma established_entry:
  assumes "establish_session cr env kp prov is_client io = (Inr (s, p), io')"
  shows "authenticated_entry cr prov (pi_agent_id p) s"
  using assms drive_handshake_identity(1)
  unfolding establish_session_Inr authenticated_entry_def by fastforce

text \<open>
  What a client has checked when it keeps a session: among the bytes received on the connection is a ServerHello
  of the peer that had not expired, whose agent id is the hash of its public key, and whose signature verifies under that key over the transcript of
  the TLS channel binding of this connection, the client's own hello and the ServerHello.
\<close>

definition verified_server ::
    "crypto \<Rightarrow> establish_env \<Rightarrow> AgentKeypair \<Rightarrow> bytes \<Rightarrow> AgentId \<Rightarrow> bytes \<Rightarrow> bytes \<Rightarrow> bool" where
  "verified_server cr env kp received a pk sid \<longleftrightarrow>
     (\<exists>tls sh hd1 sh_bytes rest. ee_tls_binding env = Some tls \<and>
        received = hd1 @ sh_bytes @ rest \<and> decode_server_hello sh_bytes = Inr sh \<and>
        sh_agent_id sh = a \<and> sh_public_key sh = pk \<and> sh_session_id sh = sid \<and> a = sha256 cr pk \<and>
        MlDsa65_verify cr pk
          (signature_input (h_server_hello cr tls (own_client_hello cr (ee_handshake env) kp) sh)) (sh_signature sh) \<and>
        env_unix_verify (ee_handshake env) < sh_expires_at sh)"

text \<open>The session is that of such a handshake, and has the context the provider returned for its peer and key.\<close>

definition server_entry ::
    "crypto \<Rightarrow> auth_provider \<Rightarrow> establish_env \<Rightarrow> AgentKeypair \<Rightarrow> bytes \<Rightarrow> AgentId \<Rightarrow> Session \<Rightarrow> bool" where
  "server_entry cr prov env kp received a s \<longleftrightarrow>
     (\<exists>pk ctx sid. verified_server cr env kp received a pk sid \<and> prov a pk = Inr ctx \<and>
        se_peer_agent_id s = Some a \<and> se_session_id s = Some sid \<and> se_authorization_context s = Some ctx)"

lemma established_server_entry:
  assumes "establish_session cr env kp prov True io = (Inr (s, p), io')"
  shows "server_entry cr prov env kp (dr_recv io) (pi_agent_id p) s"
proof -
  from assms obtain tls s0 ctx where e: "ee_tls_binding env = Some tls"
      "drive_client_handshake cr (ee_handshake env) kp tls io = (Inr (s0, p), io')"
      "prov (pi_agent_id p) (pi_public_key p) = Inr ctx" "s = messaging_session env ctx p"
    unfolding establish_session_Inr drive_handshake_def by auto
  from e(2) have "verified_server cr env kp (dr_recv io) (pi_agent_id p) (pi_public_key p) (pi_session_id p)"
  proof (rule client_run)
    fix sh hd1 sh_bytes
    assume "dr_recv io = hd1 @ sh_bytes @ dr_recv io'" "decode_server_hello sh_bytes = Inr sh"
      "verify_server_hello cr sh (h_server_hello cr tls (own_client_hello cr (ee_handshake env) kp) sh)
         (env_unix_verify (ee_handshake env)) = Inr (pi_agent_id p, pi_session_id p)"
      and p: "p = \<lparr>pi_agent_id = pi_agent_id p, pi_public_key = sh_public_key sh, pi_session_id = pi_session_id p\<rparr>"
    moreover have "pi_public_key p = sh_public_key sh" by (subst p) simp
    ultimately show ?thesis
      using e(1) unfolding verified_server_def verify_server_hello_iff
      by (intro exI [of _ tls] exI [of _ sh] exI [of _ hd1] exI [of _ sh_bytes] exI [of _ "dr_recv io'"]) simp
  qed
  moreover have "se_peer_agent_id s = Some (pi_agent_id p)" "se_session_id s = Some (pi_session_id p)"
    "se_authorization_context s = Some ctx" by (simp_all add: e(4))
  ultimately show ?thesis using e(3) unfolding server_entry_def by blast
qed

lemma server_entry_touch [simp]:
  "server_entry cr prov env kp received a (Session_touch now s) = server_entry cr prov env kp received a s"
  by (simp add: server_entry_def Session_touch_def)

lemma server_entry_close [simp]:
  "server_entry cr prov env kp received a (snd (Session_close s)) = server_entry cr prov env kp received a s"
  by (simp add: server_entry_def Session_close_def Session_transition_to_def)

text \<open>A table in which every entry is authenticated; \<open>ses\<close> selects the session of an entry.\<close>

definition authenticated_table :: "crypto \<Rightarrow> auth_provider \<Rightarrow> ('e \<Rightarrow> Session) \<Rightarrow> (AgentId, 'e) hash_map \<Rightarrow> bool" where
  "authenticated_table cr prov ses m \<longleftrightarrow> hm_ok m \<and>
     (\<forall>a e. hm_get m a = Some e \<longrightarrow> authenticated_entry cr prov a (ses e))"

lemma authenticated_table_empty [simp]: "authenticated_table cr prov ses []"
  by (simp add: authenticated_table_def)

lemma authenticated_table_insert:
  "authenticated_table cr prov ses m \<Longrightarrow> authenticated_entry cr prov a (ses e) \<Longrightarrow>
     authenticated_table cr prov ses (hm_insert a e m)"
  by (auto simp: authenticated_table_def hm.get_put hm.put_ok)

text \<open>Examples: the sessions both sides of the example handshake establish.\<close>

lemma example_client_session:
  obtains incoming s p io' where
    "establish_session example_crypto (example_establish 1) (example_keypair 1) TestingAuthProvider_authorize True
       \<lparr>dr_recv = incoming, dr_writes = [], dr_sent = [], dr_cache = None\<rparr> = (Inr (s, p), io')"
    "pi_agent_id p = sha256 example_crypto (kp_public_key (example_keypair 2))" "se_state s = MessagingEnabled"
proof -
  obtain incoming s p io' where
    run: "drive_handshake example_crypto (example_env 1) (example_keypair 1) [9] True
        \<lparr>dr_recv = incoming, dr_writes = [], dr_sent = [], dr_cache = None\<rparr> = (Inr (s, p), io')"
    and p: "pi_agent_id p = sha256 example_crypto (kp_public_key (example_keypair 2))"
    using example_run unfolding drive_handshake_def by fastforce
  let ?s = "messaging_session (example_establish 1) (AuthorizationContext AllowAllAuthContext_is_authorized) p"
  have "establish_session example_crypto (example_establish 1) (example_keypair 1) TestingAuthProvider_authorize True
      \<lparr>dr_recv = incoming, dr_writes = [], dr_sent = [], dr_cache = None\<rparr> = (Inr (?s, p), io')"
    unfolding establish_session_Inr by (simp add: example_establish_fields TestingAuthProvider_authorize_def run)
  then show ?thesis using that [of incoming ?s p io'] p by simp
qed

lemma example_server_session:
  obtains incoming s p io' where
    "establish_session example_crypto (example_establish 2) (example_keypair 2) TestingAuthProvider_authorize False
       \<lparr>dr_recv = incoming, dr_writes = [], dr_sent = [], dr_cache = None\<rparr> = (Inr (s, p), io')"
    "pi_agent_id p = sha256 example_crypto (kp_public_key (example_keypair 1))" "se_state s = MessagingEnabled"
proof -
  obtain incoming s p io' where
    run: "drive_handshake example_crypto (example_env 2) (example_keypair 2) [9] False
        \<lparr>dr_recv = incoming, dr_writes = [], dr_sent = [], dr_cache = None\<rparr> = (Inr (s, p), io')"
    and p: "pi_agent_id p = sha256 example_crypto (kp_public_key (example_keypair 1))"
    using honest_run [where kc = "example_keypair 1" and ks = "example_keypair 2" and ec = "example_env 1" and
      es = "example_env 2" and tls = "[9]", OF example_crypto_ok example_keypair_ok example_keypair_ok
      example_env_fields(1,1,2,2,3,3) replay_fresh_None replay_fresh_None]
    unfolding drive_handshake_def by fastforce
  let ?s = "messaging_session (example_establish 2) (AuthorizationContext AllowAllAuthContext_is_authorized) p"
  have "establish_session example_crypto (example_establish 2) (example_keypair 2) TestingAuthProvider_authorize False
      \<lparr>dr_recv = incoming, dr_writes = [], dr_sent = [], dr_cache = None\<rparr> = (Inr (?s, p), io')"
    unfolding establish_session_Inr by (simp add: example_establish_fields TestingAuthProvider_authorize_def run)
  then show ?thesis using that [of incoming ?s p io'] p by simp
qed

end
