(* ===== verification/Agent_Client.thy ===== *)
theory Agent_Client
  imports Peer_Table
begin

text \<open>
  The client of an agent, \<open>crates/aafp-sdk/src/client.rs\<close>: a table of connections by verified agent
  id, and the operations on it, each under the lock of the table. Dialling is an argument (the
  error, or the handle of the new connection), as is what the peer sends during the handshake.
  The client runs the handshake without a replay cache.

  The theorems show that whatever a client sends as application data goes out on a connection on which the peer
  completed a verified handshake, and to a peer that is authorized, and that a request cannot read an answer in the frame format.
\<close>

section \<open>A peer connection\<close>

record PeerConnection =
  pc_session :: Session
  pc_conn :: conn_id

definition is_messaging_active :: "PeerConnection \<Rightarrow> bool" where
  "is_messaging_active pc = SessionState_is_messaging_active (se_state (pc_session pc))"

definition is_authorized :: "PeerConnection \<Rightarrow> ustring \<Rightarrow> bool" where
  "is_authorized pc capability = Session_is_authorized (pc_session pc) capability"

definition PeerConnection_begin_close ::
    "stream_env \<Rightarrow> instant \<Rightarrow> PeerConnection \<times> quic \<Rightarrow> (SdkError + unit) \<times> PeerConnection \<times> quic" where
  "PeerConnection_begin_close so now = (\<lambda>(pc, q).
     case begin_close now (pc_session pc) of
       (Inl e, s) \<Rightarrow> (Inl (SdkHandshake (HtSessionClose e)), pc\<lparr>pc_session := s\<rparr>, q)
     | (Inr _, s) \<Rightarrow>
         (case send_close_frame so (pc_conn pc) 0 (str ''graceful shutdown'') q of
            (Inl e, q) \<Rightarrow> (Inl e, pc\<lparr>pc_session := s\<rparr>, q)
          | (Inr _, q) \<Rightarrow> (Inr (), pc\<lparr>pc_session := snd (Session_close s)\<rparr>,
              quic_close (pc_conn pc) 0 (str ''session closed'') q)))"

definition PeerConnection_send_error ::
    "stream_env \<Rightarrow> ProtocolError \<Rightarrow> PeerConnection \<times> quic \<Rightarrow> (SdkError + unit) \<times> PeerConnection \<times> quic" where
  "PeerConnection_send_error so error = (\<lambda>(pc, q).
     case send_error_frame so (pc_conn pc) error q of
       (Inl e, q) \<Rightarrow> (Inl e, pc, q)
     | (Inr _, q) \<Rightarrow>
         if ProtocolError_is_fatal error
         then (Inr (), pc\<lparr>pc_session := snd (Session_close (pc_session pc))\<rparr>,
           quic_close (pc_conn pc) 0 (str ''fatal error'') q)
         else (Inr (), pc, q))"

definition PeerConnection_close :: "PeerConnection \<times> quic \<Rightarrow> PeerConnection \<times> quic" where
  "PeerConnection_close = (\<lambda>(pc, q).
     (pc\<lparr>pc_session := snd (Session_close (pc_session pc))\<rparr>,
      quic_close (pc_conn pc) 0 (str ''session closed'') q))"

section \<open>The client\<close>

record AgentClient =
  ac_connections :: "(AgentId, PeerConnection) hash_map"
  ac_auth_provider :: auth_provider

definition AgentClient_with_auth_provider :: "auth_provider \<Rightarrow> AgentClient" where
  "AgentClient_with_auth_provider prov = \<lparr>ac_connections = [], ac_auth_provider = prov\<rparr>"

definition AgentClient_new :: AgentClient where
  "AgentClient_new = AgentClient_with_auth_provider TestingAuthProvider_authorize"

definition AgentClient_connect ::
    "crypto \<Rightarrow> establish_env \<Rightarrow> AgentKeypair \<Rightarrow> Error + conn_id \<Rightarrow> bytes \<Rightarrow> bool list \<Rightarrow> AgentClient \<Rightarrow>
     (SdkError + AgentId) \<times> AgentClient" where
  "AgentClient_connect cr env keypair dial incoming writes c =
     (case dial of
        Inl e \<Rightarrow> (Inl (SdkCore e), c)
      | Inr conn \<Rightarrow>
          (case fst (establish_session cr env keypair (ac_auth_provider c) True
               \<lparr>dr_recv = incoming, dr_writes = writes, dr_sent = [], dr_cache = None\<rparr>) of
             Inl e \<Rightarrow> (Inl e, c)
           | Inr (session, peer_info) \<Rightarrow>
               let peer_id = pi_agent_id peer_info;
                   peer_conn = \<lparr>pc_session = session, pc_conn = conn\<rparr>
               in (Inr peer_id, c\<lparr>ac_connections := hm_insert peer_id peer_conn (ac_connections c)\<rparr>)))"

text \<open>The entry of a peer that may receive messages, with its session touched.\<close>

definition messaging_peer :: "AgentId \<Rightarrow> AgentClient \<Rightarrow> SdkError + PeerConnection" where
  "messaging_peer peer_id c =
     (case hm_get (ac_connections c) peer_id of
        None \<Rightarrow> Inl SdkNotConnected
      | Some peer \<Rightarrow> if \<not> is_messaging_active peer then Inl SdkNotAuthenticated else Inr peer)"

definition touch_peer :: "instant \<Rightarrow> AgentId \<Rightarrow> PeerConnection \<Rightarrow> AgentClient \<Rightarrow> AgentClient" where
  "touch_peer now peer_id peer c =
     c\<lparr>ac_connections := hm_insert peer_id (peer\<lparr>pc_session := Session_touch now (pc_session peer)\<rparr>) (ac_connections c)\<rparr>"

definition send_data_frame :: "stream_env \<Rightarrow> conn_id \<Rightarrow> bytes \<Rightarrow> quic \<Rightarrow> (SdkError + unit) \<times> quic" where
  "send_data_frame so conn data =
     then_with (open_bi so conn) (\<lambda>_.
     let frame = Frame_data 0 data in
     then_with (lift_result (map_err SdkFrame (encode_frame frame))) (\<lambda>frame_bytes.
     write_and_finish so conn frame_bytes))"

definition AgentClient_send ::
    "stream_env \<Rightarrow> instant \<Rightarrow> AgentId \<Rightarrow> bytes \<Rightarrow> AgentClient \<times> quic \<Rightarrow> (SdkError + unit) \<times> AgentClient \<times> quic" where
  "AgentClient_send so now peer_id data = (\<lambda>(c, q).
     case messaging_peer peer_id c of
       Inl e \<Rightarrow> (Inl e, c, q)
     | Inr peer \<Rightarrow>
         let c = touch_peer now peer_id peer c;
             (r, q) = send_data_frame so (pc_conn peer) data q
         in (r, c, q))"

definition read_reply :: "bytes \<Rightarrow> SdkError + bytes" where
  "read_reply reply =
     (if length reply < 4 then Inl stream_error
      else
        let len = be_val (take 4 reply) in
        if length (drop 4 reply) < len then Inl stream_error else Inr (take len (drop 4 reply)))"

definition send_and_receive ::
    "stream_env \<Rightarrow> instant \<Rightarrow> AgentId \<Rightarrow> bytes \<Rightarrow> AgentClient \<times> quic \<Rightarrow> (SdkError + bytes) \<times> AgentClient \<times> quic" where
  "send_and_receive so now peer_id data = (\<lambda>(c, q).
     case messaging_peer peer_id c of
       Inl e \<Rightarrow> (Inl e, c, q)
     | Inr peer \<Rightarrow>
         let c = touch_peer now peer_id peer c;
             (r, q) = send_data_frame so (pc_conn peer) data q
         in (bind_result r (\<lambda>_. read_reply (so_reply so)), c, q))"

definition AgentClient_disconnect ::
    "stream_env \<Rightarrow> instant \<Rightarrow> AgentId \<Rightarrow> AgentClient \<times> quic \<Rightarrow> (SdkError + unit) \<times> AgentClient \<times> quic" where
  "AgentClient_disconnect so now peer_id = (\<lambda>(c, q).
     case hm_get (ac_connections c) peer_id of
       None \<Rightarrow> (Inr (), c, q)
     | Some peer \<Rightarrow>
         let c = c\<lparr>ac_connections := hm_remove peer_id (ac_connections c)\<rparr>;
             (r, peer, q) = PeerConnection_begin_close so now (peer, q)
         in (r, c, q))"

definition AgentClient_send_error ::
    "stream_env \<Rightarrow> AgentId \<Rightarrow> ProtocolError \<Rightarrow> AgentClient \<times> quic \<Rightarrow> (SdkError + unit) \<times> AgentClient \<times> quic" where
  "AgentClient_send_error so peer_id error = (\<lambda>(c, q).
     case messaging_peer peer_id c of
       Inl e \<Rightarrow> (Inl e, c, q)
     | Inr peer \<Rightarrow>
         let (r, peer, q) = PeerConnection_send_error so error (peer, q)
         in (r, c\<lparr>ac_connections := hm_insert peer_id peer (ac_connections c)\<rparr>, q))"

definition connection_count :: "AgentClient \<Rightarrow> nat" where
  "connection_count c = hm_len (ac_connections c)"

definition is_connected :: "AgentId \<Rightarrow> AgentClient \<Rightarrow> bool" where
  "is_connected peer_id c \<longleftrightarrow> hm_get (ac_connections c) peer_id \<noteq> None"

definition session_state :: "AgentId \<Rightarrow> AgentClient \<Rightarrow> SessionState option" where
  "session_state peer_id c = map_option (\<lambda>p. se_state (pc_session p)) (hm_get (ac_connections c) peer_id)"

section \<open>Runs of a client\<close>

datatype client_event =
    CConnect establish_env AgentKeypair "Error + conn_id" bytes "bool list"
  | CSend stream_env instant AgentId bytes
  | CSendReceive stream_env instant AgentId bytes
  | CDisconnect stream_env instant AgentId
  | CSendError stream_env AgentId ProtocolError

fun client_step :: "crypto \<Rightarrow> client_event \<Rightarrow> AgentClient \<times> quic \<Rightarrow> AgentClient \<times> quic" where
  "client_step cr (CConnect env kp dial incoming writes) (c, q) =
     (snd (AgentClient_connect cr env kp dial incoming writes c), q)"
| "client_step cr (CSend so now peer data) (c, q) = snd (AgentClient_send so now peer data (c, q))"
| "client_step cr (CSendReceive so now peer data) (c, q) = snd (send_and_receive so now peer data (c, q))"
| "client_step cr (CDisconnect so now peer) (c, q) = snd (AgentClient_disconnect so now peer (c, q))"
| "client_step cr (CSendError so peer e) (c, q) = snd (AgentClient_send_error so peer e (c, q))"

text \<open>
  Every entry comes from a connect among the events \<open>H\<close>: its connection is the one dialled there, and its session that
  of the handshake on that connection.
\<close>

definition client_origin :: "crypto \<Rightarrow> auth_provider \<Rightarrow> client_event set \<Rightarrow> AgentId \<Rightarrow> PeerConnection \<Rightarrow> bool" where
  "client_origin cr prov H a pc \<longleftrightarrow>
     (\<exists>env kp incoming writes. CConnect env kp (Inr (pc_conn pc)) incoming writes \<in> H \<and>
        server_entry cr prov env kp incoming a (pc_session pc))"

definition client_inv :: "crypto \<Rightarrow> auth_provider \<Rightarrow> client_event set \<Rightarrow> AgentClient \<Rightarrow> bool" where
  "client_inv cr prov H c \<longleftrightarrow> ac_auth_provider c = prov \<and> hm_ok (ac_connections c) \<and>
     (\<forall>a pc. hm_get (ac_connections c) a = Some pc \<longrightarrow> client_origin cr prov H a pc)"

lemma client_origin_session [simp]:
  "client_origin cr prov H a (pc\<lparr>pc_session := Session_touch now (pc_session pc)\<rparr>) = client_origin cr prov H a pc"
  "client_origin cr prov H a (pc\<lparr>pc_session := snd (Session_close (pc_session pc))\<rparr>) = client_origin cr prov H a pc"
  by (simp_all add: client_origin_def)

lemma client_inv_insert:
  "client_inv cr prov H c \<Longrightarrow> client_origin cr prov H a pc \<Longrightarrow>
     client_inv cr prov H (c\<lparr>ac_connections := hm_insert a pc (ac_connections c)\<rparr>)"
  by (simp add: client_inv_def hm.get_put hm.put_ok)

lemma client_inv_remove:
  "client_inv cr prov H c \<Longrightarrow> client_inv cr prov H (c\<lparr>ac_connections := hm_remove a (ac_connections c)\<rparr>)"
  by (simp add: client_inv_def hm.get_del hm.del_ok)

lemma client_inv_get:
  "client_inv cr prov H c \<Longrightarrow> hm_get (ac_connections c) a = Some pc \<Longrightarrow> client_origin cr prov H a pc"
  by (simp add: client_inv_def)

lemma messaging_peer_Inr:
  "messaging_peer a c = Inr pc \<longleftrightarrow>
     hm_get (ac_connections c) a = Some pc \<and> se_state (pc_session pc) = MessagingEnabled"
  by (auto simp: messaging_peer_def is_messaging_active_def SessionState_is_messaging_active_def split: option.splits)

lemma client_inv_touch:
  assumes "client_inv cr prov H c" and "messaging_peer a c = Inr pc"
  shows "client_inv cr prov H (touch_peer now a pc c)"
proof -
  have "client_origin cr prov H a pc" using assms by (simp add: client_inv_get messaging_peer_Inr)
  then show ?thesis
    unfolding touch_peer_def by (intro client_inv_insert [OF assms(1)]) simp
qed

lemma connect_origin:
  assumes "CConnect env kp (Inr conn) incoming writes \<in> H"
    and "fst (establish_session cr env kp prov True
      \<lparr>dr_recv = incoming, dr_writes = writes, dr_sent = [], dr_cache = None\<rparr>) = Inr (s, p)"
  shows "client_origin cr prov H (pi_agent_id p) \<lparr>pc_session = s, pc_conn = conn\<rparr>"
  using assms established_server_entry [OF prod_eqI, of cr env kp prov "\<lparr>dr_recv = incoming, dr_writes = writes, dr_sent = [], dr_cache = None\<rparr>" s p]
  by (auto simp: client_origin_def)

lemma client_step_inv:
  assumes "client_inv cr prov H c" and "ev \<in> H"
  shows "client_inv cr prov H (fst (client_step cr ev (c, q)))"
proof (cases ev)
  case (CConnect env kp dial incoming writes)
  have "ac_auth_provider c = prov" using assms(1) by (simp add: client_inv_def)
  then show ?thesis
    using assms CConnect connect_origin [of env kp _ incoming writes H cr prov]
    by (auto simp: AgentClient_connect_def Let_def intro!: client_inv_insert split: sum.split)
next
  case (CSend so now a data)
  then show ?thesis
    using assms client_inv_touch [OF assms(1)]
    by (auto simp: AgentClient_send_def Let_def split: sum.split prod.split)
next
  case (CSendReceive so now a data)
  then show ?thesis
    using assms client_inv_touch [OF assms(1)]
    by (auto simp: send_and_receive_def Let_def split: sum.split prod.split)
next
  case (CDisconnect so now a)
  then show ?thesis
    using assms client_inv_remove [OF assms(1)]
    by (auto simp: AgentClient_disconnect_def Let_def split: option.split prod.split)
next
  case (CSendError so a e)
  have "client_origin cr prov H a pc'"
    if "messaging_peer a c = Inr pc" "PeerConnection_send_error so e (pc, q) = (r, pc', q')" for pc pc' r q'
  proof -
    have "client_origin cr prov H a pc" using that(1) assms(1) by (simp add: client_inv_get messaging_peer_Inr)
    then show ?thesis
      using that(2) by (auto simp: PeerConnection_send_error_def split: prod.splits sum.splits if_splits)
  qed
  then show ?thesis
    using assms CSendError
    by (auto simp: AgentClient_send_error_def Let_def intro!: client_inv_insert split: sum.split prod.split)
qed

lemma client_run_inv:
  "client_inv cr prov H (fst w) \<Longrightarrow> set evs \<subseteq> H \<Longrightarrow> client_inv cr prov H (fst (fold (client_step cr) evs w))"
proof (induction evs arbitrary: w)
  case (Cons ev evs)
  then show ?case using client_step_inv [of cr prov H "fst w" ev "snd w"] by simp
qed simp

lemma client_new_inv: "client_inv cr prov H (AgentClient_with_auth_provider prov)"
  by (simp add: client_inv_def AgentClient_with_auth_provider_def)

text \<open>
  C13. Application data goes only to authenticated and authorized peers: whatever connections,
  messages, disconnections and errors came before, if \<open>send\<close> to a peer succeeds, then one of the connects before completed a
  handshake with this peer, whose ServerHello, received on the connection dialled there, verifies under the peer's key for the channel
  binding of that connection; the data goes out on that connection: exactly one stream was added, to it, which decodes
  to a DATA frame with the data. The session is the one of that handshake, names the peer and has messaging enabled, and
  the client's provider authorized the peer with that key, and its context decides on capabilities.
\<close>

theorem client_sends_authenticated:
  assumes "fold (client_step cr) evs (AgentClient_with_auth_provider prov, q0) = (c, q)"
    and "AgentClient_send so now peer data (c, q) = (Inr (), c', q')"
  shows "\<exists>pc env kp incoming writes pk sid ctx bs. hm_get (ac_connections c) peer = Some pc \<and>
    CConnect env kp (Inr (pc_conn pc)) incoming writes \<in> set evs \<and> verified_server cr env kp incoming peer pk sid \<and>
    peer = sha256 cr pk \<and> se_state (pc_session pc) = MessagingEnabled \<and> se_peer_agent_id (pc_session pc) = Some peer \<and>
    se_session_id (pc_session pc) = Some sid \<and> prov peer pk = Inr ctx \<and>
    (\<forall>capability. is_authorized pc capability = ctx_is_authorized ctx capability) \<and>
    q' = q\<lparr>q_streams := (q_streams q)(pc_conn pc := q_streams q (pc_conn pc) @ [bs])\<rparr> \<and>
    decode_frame bs = Inr (Frame_data 0 data, length bs)"
proof -
  from assms(2) obtain pc where pc: "messaging_peer peer c = Inr pc" "send_data_frame so (pc_conn pc) data q = (Inr (), q')"
    by (auto simp: AgentClient_send_def Let_def split: sum.splits prod.splits)
  then obtain bs where bs: "encode_frame (Frame_data 0 data) = Inr bs"
      "q' = q\<lparr>q_streams := (q_streams q)(pc_conn pc := q_streams q (pc_conn pc) @ [bs])\<rparr>"
    by (auto simp: send_data_frame_def then_with_Inr_iff lift_result_Inr Let_def open_bi_def write_and_finish_def
        split: if_splits)
  have "client_inv cr prov (set evs) c"
    using client_run_inv [of cr prov "set evs" "(AgentClient_with_auth_provider prov, q0)" evs] assms(1)
    by (simp add: client_new_inv)
  then have "client_origin cr prov (set evs) peer pc"
    using pc(1) by (simp add: client_inv_get messaging_peer_Inr)
  then obtain env kp incoming writes pk ctx sid where
      "CConnect env kp (Inr (pc_conn pc)) incoming writes \<in> set evs" "verified_server cr env kp incoming peer pk sid"
      "prov peer pk = Inr ctx" "se_peer_agent_id (pc_session pc) = Some peer" "se_session_id (pc_session pc) = Some sid"
      and ctx: "se_authorization_context (pc_session pc) = Some ctx"
    unfolding client_origin_def server_entry_def by blast
  moreover have "\<forall>capability. is_authorized pc capability = ctx_is_authorized ctx capability"
    using ctx by (simp add: is_authorized_def Session_is_authorized_def)
  moreover have "peer = sha256 cr pk" using \<open>verified_server cr env kp incoming peer pk sid\<close> by (auto simp: verified_server_def)
  moreover have "decode_frame bs = Inr (Frame_data 0 data, length bs)"
    using bs(1) by (rule sent_frame_decodes) (simp add: Frame_data_def)
  ultimately show ?thesis
    using pc(1) bs(2) unfolding messaging_peer_Inr by blast
qed

text \<open>Example: one connection, to the agent with the second key pair.\<close>

lemma example_client_connected:
  obtains incoming pc where
    "client_step example_crypto (CConnect (example_establish 1) (example_keypair 1) (Inr 3) incoming [])
       (AgentClient_with_auth_provider TestingAuthProvider_authorize, q) =
     (\<lparr>ac_connections = [(sha256 example_crypto (kp_public_key (example_keypair 2)), pc)],
       ac_auth_provider = TestingAuthProvider_authorize\<rparr>, q)"
    "se_state (pc_session pc) = MessagingEnabled" "pc_conn pc = 3"
proof -
  obtain incoming s p io' where
    "establish_session example_crypto (example_establish 1) (example_keypair 1) TestingAuthProvider_authorize True
       \<lparr>dr_recv = incoming, dr_writes = [], dr_sent = [], dr_cache = None\<rparr> = (Inr (s, p), io')"
    "pi_agent_id p = sha256 example_crypto (kp_public_key (example_keypair 2))" "se_state s = MessagingEnabled"
    by (rule example_client_session)
  then show ?thesis
    using that [of incoming "\<lparr>pc_session = s, pc_conn = 3\<rparr>"]
    by (simp add: AgentClient_connect_def AgentClient_with_auth_provider_def hm_insert_def Let_def)
qed

theorem client_sends_authenticated_witness:
  "\<exists>incoming c q c' q' bs.
     fold (client_step example_crypto) [CConnect (example_establish 1) (example_keypair 1) (Inr 3) incoming []]
       (AgentClient_with_auth_provider TestingAuthProvider_authorize, example_quic) = (c, q) \<and>
     AgentClient_send example_stream 60 (sha256 example_crypto (kp_public_key (example_keypair 2))) [7] (c, q) =
       (Inr (), c', q') \<and>
     q_streams q' 3 = [bs] \<and> decode_frame bs = Inr (Frame_data 0 [7], length bs)"
proof -
  let ?peer = "sha256 example_crypto (kp_public_key (example_keypair 2))"
  obtain incoming pc where c: "client_step example_crypto (CConnect (example_establish 1) (example_keypair 1) (Inr 3) incoming [])
       (AgentClient_with_auth_provider TestingAuthProvider_authorize, example_quic) =
     (\<lparr>ac_connections = [(?peer, pc)], ac_auth_provider = TestingAuthProvider_authorize\<rparr>, example_quic)"
    and pc: "se_state (pc_session pc) = MessagingEnabled" "pc_conn pc = 3"
    by (rule example_client_connected)
  let ?c = "\<lparr>ac_connections = [(?peer, pc)], ac_auth_provider = TestingAuthProvider_authorize\<rparr>"
  have get: "hm_get (ac_connections ?c) ?peer = Some pc" by (simp add: hm_get_def)
  have enc: "encode_frame (Frame_data 0 [7]) = Inr (frame_bytes (Frame_data 0 [7]))" by (simp add: encode_frame_Inr Frame_data_def)
  have send: "\<exists>c' q'. AgentClient_send example_stream 60 ?peer [7] (?c, example_quic) = (Inr (), c', q')"
    using get pc by (simp add: AgentClient_send_def messaging_peer_def is_messaging_active_def
        SessionState_is_messaging_active_def send_data_frame_def open_bi_def write_and_finish_def then_with_def
        lift_result_def enc example_stream_def example_quic_def Let_def)
  then obtain c' q' where s: "AgentClient_send example_stream 60 ?peer [7] (?c, example_quic) = (Inr (), c', q')" by blast
  have run: "fold (client_step example_crypto) [CConnect (example_establish 1) (example_keypair 1) (Inr 3) incoming []]
      (AgentClient_with_auth_provider TestingAuthProvider_authorize, example_quic) = (?c, example_quic)"
    using c by simp
  from client_sends_authenticated [OF run s] obtain pc' bs where "hm_get (ac_connections ?c) ?peer = Some pc'"
    "q' = example_quic\<lparr>q_streams := (q_streams example_quic)(pc_conn pc' := q_streams example_quic (pc_conn pc') @ [bs])\<rparr>"
    "decode_frame bs = Inr (Frame_data 0 [7], length bs)"
    by blast
  moreover have "pc' = pc" using get \<open>hm_get _ _ = Some pc'\<close> by (metis option.inject)
  ultimately have "q' = example_quic\<lparr>q_streams := (q_streams example_quic)(3 := q_streams example_quic 3 @ [bs])\<rparr>"
    "decode_frame bs = Inr (Frame_data 0 [7], length bs)" using pc(2) by simp_all
  then have "q_streams q' 3 = [bs]" by (simp add: example_quic_def)
  with run s \<open>decode_frame bs = _\<close> show ?thesis by blast
qed

text \<open>
  The reply of \<open>send_and_receive\<close> is read with a length prefix of four bytes, while peers answer
  with frames: the first bytes of any frame announce more bytes than a frame can have, so no
  answer in the frame format is ever read.
\<close>

lemma framed_reply_refused:
  assumes "encode_frame f = Inr (so_reply so)"
  shows "fst (send_and_receive so now peer data w) \<noteq> Inr bs"
proof -
  have bs: "so_reply so = frame_bytes f" "length (fr_payload f) \<le> 1048576" "length (fr_extensions f) \<le> 65536"
    using assms by (simp_all add: encode_frame_Inr)
  have len: "length (frame_bytes f) = 28 + length (fr_extensions f) + length (fr_payload f)"
    by (simp add: frame_bytes_def frame_header_def)
  have "2 ^ 24 \<le> be_val (take 4 (frame_bytes f))"
    by (simp add: frame_bytes_def frame_header_def be_val_def)
  then have "read_reply (so_reply so) = Inl stream_error"
    using bs len by (simp add: read_reply_def)
  then show ?thesis
    by (auto simp: send_and_receive_def bind_result_Inr_iff Let_def split: prod.splits sum.splits)
qed

end
