(* ===== verification/Agent_Server.thy ===== *)
theory Agent_Server
  imports Peer_Table
begin

text \<open>
  The server of an agent, \<open>crates/aafp-sdk/src/server.rs\<close>: the rate limiter for handshake attempts
  and the table of accepted peers. Accepting a connection takes the locks several times; what other
  tasks do in between is an argument of \<open>accept_one\<close>. The clock, the address of the peer and what it
  sends are arguments. The server runs the handshake without a replay cache.

  The theorems bound the attempts the limiter admits in any period of one window and show that,
  however calls interleave, the table holds authenticated and authorized peers only.
\<close>

section \<open>The rate limiter\<close>

record HandshakeRateLimiter =
  hl_windows :: "(ustring, u32 \<times> instant) hash_map"
  hl_max_attempts :: u32
  hl_window :: duration
  hl_max_entries :: nat
  hl_check_counter :: u64

definition HandshakeRateLimiter_new :: "u32 \<Rightarrow> HandshakeRateLimiter" where
  "HandshakeRateLimiter_new max_attempts_per_sec =
     \<lparr>hl_windows = [], hl_max_attempts = max_attempts_per_sec, hl_window = 1000000000,
      hl_max_entries = 10000, hl_check_counter = 0\<rparr>"

definition evict_expired :: "instant \<Rightarrow> u64 \<Rightarrow> HandshakeRateLimiter \<Rightarrow> (ustring, u32 \<times> instant) hash_map" where
  "evict_expired now counter l =
     (if counter mod 100 = 0 \<or> hm_len (hl_windows l) > hl_max_entries l
      then hm_retain (\<lambda>_ (_, start). now - start < hl_window l) (hl_windows l)
      else hl_windows l)"

definition HandshakeRateLimiter_check :: "ustring \<Rightarrow> instant \<Rightarrow> HandshakeRateLimiter \<Rightarrow> bool \<times> HandshakeRateLimiter" where
  "HandshakeRateLimiter_check ip now l =
     (let counter = hl_check_counter l + 1;
          windows = evict_expired now counter l;
          l = l\<lparr>hl_check_counter := counter, hl_windows := windows\<rparr>
      in case hm_get windows ip of
           Some (attempts, start) \<Rightarrow>
             if now - start \<ge> hl_window l then (True, l\<lparr>hl_windows := hm_insert ip (1, now) windows\<rparr>)
             else if attempts < hl_max_attempts l then (True, l\<lparr>hl_windows := hm_insert ip (attempts + 1, start) windows\<rparr>)
             else (False, l)
         | None \<Rightarrow> (True, l\<lparr>hl_windows := hm_insert ip (1, now) windows\<rparr>))"

definition count_for :: "HandshakeRateLimiter \<Rightarrow> ustring \<Rightarrow> u32" where
  "count_for l ip = (case hm_get (hl_windows l) ip of Some (c, _) \<Rightarrow> c | None \<Rightarrow> 0)"

section \<open>The server\<close>

record ServerConfig =
  sc_max_connections :: nat
  sc_handshake_rate_limit :: u32

definition ServerConfig_default :: ServerConfig where
  "ServerConfig_default = \<lparr>sc_max_connections = 100, sc_handshake_rate_limit = 10\<rparr>"

record ServerPeerConnection =
  sp_session :: Session
  sp_conn :: conn_id

record AgentServer =
  sv_running :: bool
  sv_accepted_count :: u64
  sv_connections :: "(AgentId, ServerPeerConnection) hash_map"
  sv_auth_provider :: auth_provider
  sv_config :: ServerConfig
  sv_rate_limiter :: HandshakeRateLimiter

definition with_auth_provider_and_config :: "auth_provider \<Rightarrow> ServerConfig \<Rightarrow> AgentServer" where
  "with_auth_provider_and_config prov config =
     \<lparr>sv_running = False, sv_accepted_count = 0, sv_connections = [], sv_auth_provider = prov,
      sv_config = config, sv_rate_limiter = HandshakeRateLimiter_new (sc_handshake_rate_limit config)\<rparr>"

definition with_auth_provider :: "auth_provider \<Rightarrow> AgentServer" where
  "with_auth_provider prov = with_auth_provider_and_config prov ServerConfig_default"

definition AgentServer_new :: AgentServer where
  "AgentServer_new = with_auth_provider TestingAuthProvider_authorize"

definition AgentServer_with_config :: "ServerConfig \<Rightarrow> AgentServer" where
  "AgentServer_with_config config = with_auth_provider_and_config TestingAuthProvider_authorize config"

definition AgentServer_start :: "AgentServer \<Rightarrow> (SdkError + unit) \<times> AgentServer" where
  "AgentServer_start sv = (Inr (), sv\<lparr>sv_running := True\<rparr>)"

definition AgentServer_stop :: "AgentServer \<Rightarrow> AgentServer" where
  "AgentServer_stop sv = sv\<lparr>sv_running := False\<rparr>"

text \<open>The three parts of \<open>accept_one\<close> that access the shared state, each under its lock.\<close>

definition connection_limit :: "AgentServer \<Rightarrow> SdkError + unit" where
  "connection_limit sv =
     (if hm_len (sv_connections sv) \<ge> sc_max_connections (sv_config sv)
      then Inl (SdkHandshake HtConnectionLimit) else Inr ())"

definition admit_attempt :: "ustring \<Rightarrow> instant \<Rightarrow> conn_id \<Rightarrow> AgentServer \<times> quic \<Rightarrow> (SdkError + unit) \<times> AgentServer \<times> quic" where
  "admit_attempt ip now conn = (\<lambda>(sv, q).
     let (allowed, limiter) = HandshakeRateLimiter_check ip now (sv_rate_limiter sv);
         sv = sv\<lparr>sv_rate_limiter := limiter\<rparr>
     in if \<not> allowed
        then (Inl (SdkHandshake (HtRateLimit ip)), sv, quic_close conn 0x0100 (str ''rate limited'') q)
        else (Inr (), sv\<lparr>sv_accepted_count := sv_accepted_count sv + 1\<rparr>, q))"

definition store_peer :: "AgentId \<Rightarrow> Session \<Rightarrow> conn_id \<Rightarrow> AgentServer \<Rightarrow> AgentServer" where
  "store_peer peer_id session conn sv =
     sv\<lparr>sv_connections := hm_insert peer_id \<lparr>sp_session = session, sp_conn = conn\<rparr> (sv_connections sv)\<rparr>"

record accept_env =
  ae_accepted :: "Error + conn_id"
  ae_ip :: ustring
  ae_now :: instant
  ae_establish :: establish_env
  ae_incoming :: bytes
  ae_writes :: "bool list"

definition handshake_outcome ::
    "crypto \<Rightarrow> accept_env \<Rightarrow> AgentKeypair \<Rightarrow> AgentServer \<Rightarrow> SdkError + Session \<times> PeerInfo" where
  "handshake_outcome cr env keypair sv =
     fst (establish_session cr (ae_establish env) keypair (sv_auth_provider sv) False
       \<lparr>dr_recv = ae_incoming env, dr_writes = ae_writes env, dr_sent = [], dr_cache = None\<rparr>)"

definition finish_accept ::
    "crypto \<Rightarrow> accept_env \<Rightarrow> AgentKeypair \<Rightarrow> conn_id \<Rightarrow> AgentServer \<times> quic \<Rightarrow> (SdkError + AgentId) \<times> AgentServer \<times> quic" where
  "finish_accept cr env keypair conn w =
     (case handshake_outcome cr env keypair (fst w) of
        Inl e \<Rightarrow> (Inl e, w)
      | Inr (session, peer_info) \<Rightarrow>
          let peer_id = pi_agent_id peer_info in
          (Inr peer_id, store_peer peer_id session conn (fst w), snd w))"

definition accept_one ::
    "crypto \<Rightarrow> accept_env \<Rightarrow> AgentKeypair \<Rightarrow> (AgentServer \<times> quic \<Rightarrow> AgentServer \<times> quic) \<Rightarrow>
     (AgentServer \<times> quic \<Rightarrow> AgentServer \<times> quic) \<Rightarrow> AgentServer \<times> quic \<Rightarrow> (SdkError + AgentId) \<times> AgentServer \<times> quic" where
  "accept_one cr env keypair others others' w =
     (case connection_limit (fst w) of
        Inl e \<Rightarrow> (Inl e, w)
      | Inr _ \<Rightarrow>
          let w = others w in
          (case ae_accepted env of
             Inl e \<Rightarrow> (Inl (SdkCore e), w)
           | Inr conn \<Rightarrow>
               (case admit_attempt (ae_ip env) (ae_now env) conn w of
                  (Inl e, w) \<Rightarrow> (Inl e, w)
                | (Inr _, w) \<Rightarrow> finish_accept cr env keypair conn (others' w))))"

definition connected_peers :: "AgentServer \<Rightarrow> AgentId list" where
  "connected_peers sv = map fst (sv_connections sv)"

definition server_connection_count :: "AgentServer \<Rightarrow> nat" where
  "server_connection_count sv = hm_len (sv_connections sv)"

definition server_session_state :: "AgentId \<Rightarrow> AgentServer \<Rightarrow> SessionState option" where
  "server_session_state peer_id sv = map_option (\<lambda>p. se_state (sp_session p)) (hm_get (sv_connections sv) peer_id)"

section \<open>Attempts admitted in a window\<close>

text \<open>The admissions of one address as windows: a start and the times admitted in it.\<close>

definition windowed :: "duration \<Rightarrow> nat \<Rightarrow> (instant \<times> instant list) list \<Rightarrow> bool" where
  "windowed w m bs \<longleftrightarrow> successively (\<lambda>b c. fst b + w \<le> fst c) bs \<and>
     (\<forall>(s, ts) \<in> set bs. length ts \<le> m \<and> ts \<noteq> [] \<and> hd ts = s \<and> (\<forall>t \<in> set ts. s \<le> t \<and> t < s + w))"

definition in_period :: "instant \<Rightarrow> duration \<Rightarrow> instant list \<Rightarrow> nat" where
  "in_period t0 w ts = length (filter (\<lambda>t. t0 \<le> t \<and> t < t0 + w) ts)"

lemma in_period_simps [simp]:
  "in_period t0 w [] = 0"
  "in_period t0 w (ts @ us) = in_period t0 w ts + in_period t0 w us"
  by (simp_all add: in_period_def)

lemma in_period_le: "in_period t0 w ts \<le> length ts"
  by (simp add: in_period_def)

lemma in_period_0: "\<forall>t \<in> set ts. \<not> (t0 \<le> t \<and> t < t0 + w) \<Longrightarrow> in_period t0 w ts = 0"
  by (simp add: in_period_def filter_empty_conv)

lemma windowed_Cons:
  "windowed w m (b # bs) \<longleftrightarrow> windowed w m bs \<and> (bs = [] \<or> fst b + w \<le> fst (hd bs)) \<and>
     length (snd b) \<le> m \<and> snd b \<noteq> [] \<and> hd (snd b) = fst b \<and> (\<forall>t \<in> set (snd b). fst b \<le> t \<and> t < fst b + w)"
  by (cases b; cases bs) (auto simp: windowed_def)

lemma windowed_late:
  "windowed w m bs \<Longrightarrow> bs \<noteq> [] \<Longrightarrow> t0 + w \<le> fst (hd bs) \<Longrightarrow> in_period t0 w (concat (map snd bs)) = 0"
proof (induction bs)
  case (Cons b bs)
  have "in_period t0 w (snd b) = 0" using Cons.prems by (intro in_period_0) (fastforce simp: windowed_Cons)
  moreover have "in_period t0 w (concat (map snd bs)) = 0"
    using Cons by (cases "bs = []") (auto simp: windowed_Cons)
  ultimately show ?case by simp
qed simp

lemma windowed_one:
  assumes "windowed w m bs" and "bs \<noteq> []" and "t0 \<le> fst (hd bs)"
  shows "in_period t0 w (concat (map snd bs)) \<le> m"
proof (cases bs)
  case (Cons b cs)
  have "in_period t0 w (concat (map snd cs)) = 0"
    using assms Cons windowed_late [of w m cs t0] by (cases "cs = []") (auto simp: windowed_Cons)
  then show ?thesis using assms Cons in_period_le [of t0 w "snd b"] by (simp add: windowed_Cons)
qed (use assms in simp)

lemma in_period_after_first:
  assumes "ts \<noteq> []" and "hd ts < t0"
  shows "in_period t0 w ts < length ts"
  using assms in_period_le [of t0 w "tl ts"] by (cases ts) (auto simp: in_period_def intro: le_imp_less_Suc)

lemma windowed_two: "windowed w m bs \<Longrightarrow> 0 < m \<Longrightarrow> in_period t0 w (concat (map snd bs)) < 2 * m"
proof (induction bs)
  case (Cons b bs)
  have b: "windowed w m bs" "length (snd b) \<le> m" "snd b \<noteq> []" "hd (snd b) = fst b"
    using Cons.prems by (simp_all add: windowed_Cons)
  consider "t0 \<le> fst b" | "fst b < t0" "bs = [] \<or> t0 \<le> fst (hd bs)" | "bs \<noteq> []" "fst (hd bs) < t0" by fastforce
  then show ?case
  proof cases
    case 1
    then show ?thesis using windowed_one [OF Cons.prems(1), of t0] Cons.prems(2) by simp
  next
    case 2
    then have "in_period t0 w (concat (map snd bs)) \<le> m" using windowed_one [OF b(1)] by (cases "bs = []") auto
    then show ?thesis using b in_period_after_first [of "snd b" t0 w] 2(1) by simp
  next
    case 3
    then have "in_period t0 w (snd b) = 0" using Cons.prems by (intro in_period_0) (fastforce simp: windowed_Cons)
    then show ?thesis using Cons.IH [OF b(1) Cons.prems(2)] by simp
  qed
qed simp

lemma windowed_snoc:
  "windowed w m (bs @ [b]) \<longleftrightarrow> windowed w m bs \<and> (bs = [] \<or> fst (last bs) + w \<le> fst b) \<and>
     length (snd b) \<le> m \<and> snd b \<noteq> [] \<and> hd (snd b) = fst b \<and> (\<forall>t \<in> set (snd b). fst b \<le> t \<and> t < fst b + w)"
  by (cases b) (auto simp: windowed_def successively_append_iff)

text \<open>A run of the limiter on a sequence of attempts: the attempts it admits.\<close>

fun limiter_run :: "(ustring \<times> instant) list \<Rightarrow> HandshakeRateLimiter \<Rightarrow> (ustring \<times> instant) list" where
  "limiter_run [] l = []"
| "limiter_run ((ip, now) # es) l =
     (let (allowed, l) = HandshakeRateLimiter_check ip now l
      in if allowed then (ip, now) # limiter_run es l else limiter_run es l)"

definition admitted_times :: "ustring \<Rightarrow> (ustring \<times> instant) list \<Rightarrow> instant list" where
  "admitted_times ip es = map snd (filter (\<lambda>e. fst e = ip) es)"

definition window_state :: "duration \<Rightarrow> instant \<Rightarrow> (u32 \<times> instant) option \<Rightarrow> (instant \<times> instant list) list \<Rightarrow> bool" where
  "window_state w clock v bs =
     (case v of
        Some (c, s) \<Rightarrow> \<exists>cs ts. bs = cs @ [(s, ts)] \<and> length ts = unat c \<and> s \<le> clock
      | None \<Rightarrow> bs = [] \<or> fst (last bs) + w \<le> clock)"

definition limiter_inv :: "ustring \<Rightarrow> duration \<Rightarrow> u32 \<Rightarrow> instant \<Rightarrow> HandshakeRateLimiter \<Rightarrow> (instant \<times> instant list) list \<Rightarrow> bool" where
  "limiter_inv ip w k clock l bs \<longleftrightarrow> hl_window l = w \<and> hl_max_attempts l = k \<and> hm_ok (hl_windows l) \<and>
     windowed w (max 1 (unat k)) bs \<and> window_state w clock (hm_get (hl_windows l) ip) bs"

text \<open>Evicting an expired window and passing of time keep the relation.\<close>

lemma window_state_later:
  "window_state w clock v bs \<Longrightarrow> clock \<le> now \<Longrightarrow> window_state w now v bs"
  by (auto simp: window_state_def split: option.splits)

lemma window_state_evict:
  assumes "window_state w clock (Some (c, s)) bs" and "clock \<le> now" and "w \<le> now - s"
  shows "window_state w now None bs"
proof -
  obtain cs ts where "bs = cs @ [(s, ts)]" "s \<le> now" using assms(1,2) by (auto simp: window_state_def)
  then show ?thesis using assms(3) by (simp add: window_state_def)
qed

lemma window_open:
  assumes "windowed w m bs" and "window_state w now None bs" and "0 < w" and "0 < m"
  shows "windowed w m (bs @ [(now, [now])]) \<and> window_state w now (Some (1, now)) (bs @ [(now, [now])])"
  using assms by (auto simp: windowed_snoc window_state_def)

lemma window_extend:
  assumes "windowed w (max 1 (unat k)) bs" and "window_state w now (Some (c, s)) bs" and "now - s < w" and "c < k"
  shows "\<exists>bs'. windowed w (max 1 (unat k)) bs' \<and> window_state w now (Some (c + 1, s)) bs' \<and>
    concat (map snd bs') = concat (map snd bs) @ [now]"
proof -
  obtain cs ts where bs: "bs = cs @ [(s, ts)]" "length ts = unat c" "s \<le> now"
    using assms(2) by (auto simp: window_state_def)
  have c: "unat c < unat k" using assms(4) by (simp add: word_less_nat_alt)
  then have "unat (c + 1) = unat c + 1" using unat_less [of k] by (simp add: unat_word_ariths)
  then show ?thesis
    using assms(1,3) bs c by (intro exI [of _ "cs @ [(s, ts @ [now])]"]) (auto simp: windowed_snoc window_state_def)
qed

lemma evict_expired_state:
  assumes "limiter_inv ip w k clock l bs" and "clock \<le> now"
  shows "hm_ok (evict_expired now n l) \<and> window_state w now (hm_get (evict_expired now n l) ip) bs"
  using assms window_state_later [OF _ assms(2)] window_state_evict [OF _ assms(2)]
  by (auto simp: evict_expired_def limiter_inv_def hm_get_retain hm_retain_ok not_less split: option.splits)

text \<open>One check of the limiter, seen from the address it is made for.\<close>

lemma limiter_check_same:
  assumes l: "hl_window l = w" "hl_max_attempts l = k" and "0 < w"
    and win: "windowed w (max 1 (unat k)) bs"
    and st: "window_state w now (hm_get (evict_expired now (hl_check_counter l + 1) l) ip) bs"
    and run: "HandshakeRateLimiter_check ip now l = (allowed, l')"
  shows "\<exists>bs'. windowed w (max 1 (unat k)) bs' \<and> window_state w now (hm_get (hl_windows l') ip) bs' \<and>
    concat (map snd bs') = concat (map snd bs) @ (if allowed then [now] else [])"
proof -
  have m: "0 < max 1 (unat k)" by simp
  consider (new) "window_state w now None bs" "allowed" "hm_get (hl_windows l') ip = Some (1, now)"
    | (more) c s where "window_state w now (Some (c, s)) bs" "now - s < w" "c < k" "allowed" "hm_get (hl_windows l') ip = Some (c + 1, s)"
    | (full) "\<not> allowed" "hm_get (hl_windows l') ip = hm_get (evict_expired now (hl_check_counter l + 1) l) ip"
    using run st l window_state_evict [of w now _ _ bs now]
    by (auto simp: HandshakeRateLimiter_check_def Let_def hm.get_put not_le split: option.splits if_splits)
  then show ?thesis
  proof cases
    case new
    then show ?thesis
      using window_open [OF win new(1) assms(3) m] by (intro exI [of _ "bs @ [(now, [now])]"]) simp
  next
    case more
    then show ?thesis using window_extend [OF win more(1-3)] by simp
  next
    case full
    then show ?thesis using win st by (intro exI [of _ bs]) simp
  qed
qed

lemma limiter_check_frame:
  assumes "HandshakeRateLimiter_check ip' now l = (allowed, l')" and "hm_ok (evict_expired now (hl_check_counter l + 1) l)"
  shows "hl_window l' = hl_window l \<and> hl_max_attempts l' = hl_max_attempts l \<and> hm_ok (hl_windows l') \<and>
    (ip' \<noteq> ip \<longrightarrow> hm_get (hl_windows l') ip = hm_get (evict_expired now (hl_check_counter l + 1) l) ip)"
  using assms by (auto simp: HandshakeRateLimiter_check_def Let_def hm.get_put hm.put_ok split: option.splits if_splits)

lemma limiter_check_inv:
  assumes inv: "limiter_inv ip w k clock l bs" and clock: "clock \<le> now" and w: "0 < w"
    and run: "HandshakeRateLimiter_check ip' now l = (allowed, l')"
  shows "\<exists>bs'. limiter_inv ip w k now l' bs' \<and>
    concat (map snd bs') = concat (map snd bs) @ (if allowed \<and> ip' = ip then [now] else [])"
proof -
  note e = evict_expired_state [OF inv clock, of "hl_check_counter l + 1"]
  have l: "hl_window l = w" "hl_max_attempts l = k" "windowed w (max 1 (unat k)) bs"
    using inv by (auto simp: limiter_inv_def)
  note f = limiter_check_frame [OF run, of ip]
  show ?thesis
  proof (cases "ip' = ip")
    case True
    show ?thesis using limiter_check_same [OF l(1,2) w l(3), of now ip allowed l'] e f run l True
      by (auto simp: limiter_inv_def)
  next
    case False
    then show ?thesis using e f l by (intro exI [of _ bs]) (simp add: limiter_inv_def)
  qed
qed

lemma limiter_run_blocks:
  assumes "limiter_inv ip w k clock l bs" and "0 < w" and "sorted (clock # map snd es)"
  shows "\<exists>bs'. windowed w (max 1 (unat k)) bs' \<and>
    concat (map snd bs') = concat (map snd bs) @ admitted_times ip (limiter_run es l)"
  using assms
proof (induction es arbitrary: clock l bs)
  case Nil
  then show ?case by (intro exI [of _ bs]) (simp add: limiter_inv_def admitted_times_def)
next
  case (Cons e es)
  obtain ip' now where e: "e = (ip', now)" by (cases e)
  obtain allowed l' where run: "HandshakeRateLimiter_check ip' now l = (allowed, l')" by fastforce
  have "clock \<le> now" "sorted (now # map snd es)" using Cons.prems(3) e by simp_all
  then obtain bs1 where 1: "limiter_inv ip w k now l' bs1"
    "concat (map snd bs1) = concat (map snd bs) @ (if allowed \<and> ip' = ip then [now] else [])"
    using limiter_check_inv [OF Cons.prems(1) _ Cons.prems(2) run] by blast
  obtain bs2 where "windowed w (max 1 (unat k)) bs2"
    "concat (map snd bs2) = concat (map snd bs1) @ admitted_times ip (limiter_run es l')"
    using Cons.IH [OF 1(1) Cons.prems(2) \<open>sorted (now # map snd es)\<close>] by blast
  then show ?case using 1(2) run e by (intro exI [of _ bs2]) (simp add: admitted_times_def)
qed

text \<open>
  C26. The rate limiter of the server bounds the handshakes of one address: whatever attempts arrive
  from whatever addresses, in the order of the clock, fewer than twice the configured number are admitted for one
  address within any second; a configured number of zero counts as one here, since the first attempt of
  each window is admitted without a look at the limit.
\<close>

theorem rate_limit_bound:
  assumes "sorted (map snd es)"
  shows "in_period t0 1000000000 (admitted_times ip (limiter_run es (HandshakeRateLimiter_new n))) < 2 * max 1 (unat n)"
proof -
  have "limiter_inv ip 1000000000 n 0 (HandshakeRateLimiter_new n) []"
    by (simp add: limiter_inv_def HandshakeRateLimiter_new_def windowed_def window_state_def)
  then show ?thesis
    using limiter_run_blocks [of ip 1000000000 n 0 "HandshakeRateLimiter_new n" "[]" es] assms
      windowed_two [of 1000000000 "max 1 (unat n)" _ t0] by fastforce
qed

definition example_attempts :: "(ustring \<times> instant) list" where
  "example_attempts = map (\<lambda>t. (str ''10.0.0.1'', t)) [0, 900000000, 950000000, 1000000000, 1100000000, 1200000000]"

text \<open>The bound is reached: three attempts within one second at a limit of two.\<close>

lemma rate_limit_two_windows:
  "in_period 900000000 1000000000 (admitted_times (str ''10.0.0.1'')
     (limiter_run example_attempts (HandshakeRateLimiter_new 2))) = 3"
  by code_simp

text \<open>A limit of zero admits the first attempt of every window.\<close>

lemma rate_limit_zero:
  "admitted_times (str ''10.0.0.1'') (limiter_run example_attempts (HandshakeRateLimiter_new 0)) = [0, 1000000000]"
  by code_simp

theorem rate_limit_bound_witness:
  "in_period 900000000 1000000000 (admitted_times (str ''10.0.0.1'')
     (limiter_run example_attempts (HandshakeRateLimiter_new 2))) < 4"
  using rate_limit_bound [of example_attempts 900000000 "str ''10.0.0.1''" 2] by (simp add: example_attempts_def)

section \<open>The table of accepted peers\<close>

text \<open>
  The steps of concurrent calls: each accesses the shared state under one lock. What runs between
  two steps of an \<open>accept_one\<close> is a sequence of such steps of other calls.
\<close>

datatype server_event =
    SvAdmit ustring instant conn_id
  | SvFinish accept_env AgentKeypair conn_id
  | SvStart
  | SvStop

fun server_step :: "crypto \<Rightarrow> server_event \<Rightarrow> AgentServer \<times> quic \<Rightarrow> AgentServer \<times> quic" where
  "server_step cr (SvAdmit ip now conn) w = snd (admit_attempt ip now conn w)"
| "server_step cr (SvFinish env kp conn) w = snd (finish_accept cr env kp conn w)"
| "server_step cr SvStart (sv, q) = (snd (AgentServer_start sv), q)"
| "server_step cr SvStop (sv, q) = (AgentServer_stop sv, q)"

abbreviation server_run :: "crypto \<Rightarrow> server_event list \<Rightarrow> AgentServer \<times> quic \<Rightarrow> AgentServer \<times> quic" where
  "server_run cr \<equiv> fold (server_step cr)"

text \<open>A whole \<open>accept_one\<close> with others in between is itself a sequence of steps.\<close>

lemma accept_one_steps:
  "\<exists>es. snd (accept_one cr env kp (server_run cr es1) (server_run cr es2) w) = server_run cr es w"
proof -
  let ?admit = "\<lambda>conn. SvAdmit (ae_ip env) (ae_now env) conn"
  consider e where "connection_limit (fst w) = Inl e"
    | e where "connection_limit (fst w) = Inr ()" "ae_accepted env = Inl e"
    | conn e w' where "connection_limit (fst w) = Inr ()" "ae_accepted env = Inr conn"
        "admit_attempt (ae_ip env) (ae_now env) conn (server_run cr es1 w) = (Inl e, w')"
    | conn w' where "connection_limit (fst w) = Inr ()" "ae_accepted env = Inr conn"
        "admit_attempt (ae_ip env) (ae_now env) conn (server_run cr es1 w) = (Inr (), w')"
  proof (cases "connection_limit (fst w)"; cases "ae_accepted env")
    fix u conn
    assume "connection_limit (fst w) = Inr u" "ae_accepted env = Inr conn"
    then show thesis
      using that(3,4) [of conn] by (cases "admit_attempt (ae_ip env) (ae_now env) conn (server_run cr es1 w)"; cases "fst (admit_attempt (ae_ip env) (ae_now env) conn (server_run cr es1 w))") auto
  qed (use that(1,2) in auto)
  then show ?thesis
  proof cases
    case 1
    then show ?thesis by (intro exI [of _ "[]"]) (simp add: accept_one_def)
  next
    case 2
    then show ?thesis by (intro exI [of _ es1]) (simp add: accept_one_def)
  next
    case (3 conn e w')
    then show ?thesis by (intro exI [of _ "es1 @ [?admit conn]"]) (simp add: accept_one_def)
  next
    case (4 conn w')
    then show ?thesis
      by (intro exI [of _ "es1 @ [?admit conn] @ es2 @ [SvFinish env kp conn]"]) (simp add: accept_one_def)
  qed
qed

definition server_inv :: "crypto \<Rightarrow> auth_provider \<Rightarrow> AgentServer \<Rightarrow> bool" where
  "server_inv cr prov sv \<longleftrightarrow> sv_auth_provider sv = prov \<and> authenticated_table cr prov sp_session (sv_connections sv) \<and>
     (\<forall>a p. hm_get (sv_connections sv) a = Some p \<longrightarrow> se_state (sp_session p) = MessagingEnabled)"

lemma handshake_outcome_authenticated:
  assumes "handshake_outcome cr env kp sv = Inr (s, p)"
  shows "authenticated_entry cr (sv_auth_provider sv) (pi_agent_id p) s \<and> se_state s = MessagingEnabled"
proof -
  obtain io' where "establish_session cr (ae_establish env) kp (sv_auth_provider sv) False
      \<lparr>dr_recv = ae_incoming env, dr_writes = ae_writes env, dr_sent = [], dr_cache = None\<rparr> = (Inr (s, p), io')"
    using assms by (metis handshake_outcome_def prod.collapse)
  then show ?thesis using established_entry establish_session_Inr messaging_session_fields(1) by metis
qed

lemma store_peer_inv:
  assumes "server_inv cr prov sv" and "authenticated_entry cr prov a s" and "se_state s = MessagingEnabled"
  shows "server_inv cr prov (store_peer a s conn sv)"
  using assms by (auto simp: server_inv_def store_peer_def hm.get_put authenticated_table_insert)

lemma admit_attempt_connections [simp]:
  "sv_connections (fst (snd (admit_attempt ip now conn w))) = sv_connections (fst w)"
  "sv_auth_provider (fst (snd (admit_attempt ip now conn w))) = sv_auth_provider (fst w)"
  "sv_config (fst (snd (admit_attempt ip now conn w))) = sv_config (fst w)"
  by (auto simp: admit_attempt_def Let_def split: prod.splits)

lemma finish_accept_inv:
  assumes "server_inv cr prov (fst w)"
  shows "server_inv cr prov (fst (snd (finish_accept cr env kp conn w)))"
proof (cases "handshake_outcome cr env kp (fst w)")
  case (Inr r)
  obtain s p where r: "r = (s, p)" by (cases r)
  have "sv_auth_provider (fst w) = prov" using assms by (simp add: server_inv_def)
  then have "server_inv cr prov (store_peer (pi_agent_id p) s conn (fst w))"
    using handshake_outcome_authenticated [of cr env kp "fst w" s p] Inr r by (intro store_peer_inv [OF assms]) simp_all
  then show ?thesis using Inr r by (simp add: finish_accept_def Let_def)
qed (use assms in \<open>simp add: finish_accept_def\<close>)

lemma server_step_inv:
  assumes "server_inv cr prov (fst w)"
  shows "server_inv cr prov (fst (server_step cr ev w))"
proof (cases ev)
  case (SvFinish env kp conn)
  then show ?thesis using finish_accept_inv [OF assms] by simp
qed (use assms in \<open>cases w; auto simp: server_inv_def AgentServer_start_def AgentServer_stop_def\<close>)+

lemma server_run_inv: "server_inv cr prov (fst w) \<Longrightarrow> server_inv cr prov (fst (server_run cr es w))"
  by (induction es arbitrary: w) (simp_all add: server_step_inv)

lemma server_new_inv: "server_inv cr prov (with_auth_provider_and_config prov config)"
  by (simp add: server_inv_def with_auth_provider_and_config_def)

text \<open>
  C25. Whatever calls run on a server and however their steps interleave with those of an
  \<open>accept_one\<close>, every peer in the table afterwards has messaging enabled, is stored under the agent
  id its session verified, which is the hash of a public key, and was authorized by the server's
  provider for that id and key; the id \<open>accept_one\<close> returns is that of a peer in the table.
\<close>

theorem server_peers_authenticated:
  assumes "accept_one cr env kp (server_run cr es1) (server_run cr es2)
      (server_run cr es (with_auth_provider_and_config prov config, q)) = (r, sv, q')"
  shows "(\<forall>a p. hm_get (sv_connections sv) a = Some p \<longrightarrow>
      server_session_state a sv = Some MessagingEnabled \<and> se_peer_agent_id (sp_session p) = Some a \<and>
      (\<exists>pk ctx. a = sha256 cr pk \<and> prov a pk = Inr ctx \<and> se_authorization_context (sp_session p) = Some ctx)) \<and>
    (\<forall>a. r = Inr a \<longrightarrow> hm_get (sv_connections sv) a \<noteq> None)"
proof
  have "(sv, q') = snd (accept_one cr env kp (server_run cr es1) (server_run cr es2)
      (server_run cr es (with_auth_provider_and_config prov config, q)))" using assms by simp
  then obtain es' where "(sv, q') = server_run cr es' (server_run cr es (with_auth_provider_and_config prov config, q))"
    using accept_one_steps by metis
  then have "server_inv cr prov sv"
    using server_run_inv [of cr prov "server_run cr es (with_auth_provider_and_config prov config, q)" es']
      server_run_inv [of cr prov "(with_auth_provider_and_config prov config, q)" es]
    by (metis fst_conv server_new_inv)
  then show "\<forall>a p. hm_get (sv_connections sv) a = Some p \<longrightarrow>
      server_session_state a sv = Some MessagingEnabled \<and> se_peer_agent_id (sp_session p) = Some a \<and>
      (\<exists>pk ctx. a = sha256 cr pk \<and> prov a pk = Inr ctx \<and> se_authorization_context (sp_session p) = Some ctx)"
    by (auto simp: server_inv_def authenticated_table_def authenticated_entry_def server_session_state_def)
  show "\<forall>a. r = Inr a \<longrightarrow> hm_get (sv_connections sv) a \<noteq> None"
    using assms
    by (auto simp: accept_one_def finish_accept_def Let_def store_peer_def hm.get_put split: sum.splits prod.splits)
qed

text \<open>Example: a server that accepts the agent with the first key pair.\<close>

definition example_accept :: "nat \<Rightarrow> bytes \<Rightarrow> accept_env" where
  "example_accept conn incoming = \<lparr>ae_accepted = Inr conn, ae_ip = str ''10.0.0.1'', ae_now = 40,
     ae_establish = example_establish 2, ae_incoming = incoming, ae_writes = []\<rparr>"

definition example_server :: AgentServer where
  "example_server = with_auth_provider_and_config TestingAuthProvider_authorize
     \<lparr>sc_max_connections = 1, sc_handshake_rate_limit = 10\<rparr>"

abbreviation example_peer :: AgentId where
  "example_peer \<equiv> sha256 example_crypto (kp_public_key (example_keypair 1))"

lemma example_finish:
  obtains incoming s where
    "\<And>sv q. sv_auth_provider sv = TestingAuthProvider_authorize \<Longrightarrow>
       finish_accept example_crypto (example_accept conn incoming) (example_keypair 2) conn (sv, q) =
         (Inr example_peer, store_peer example_peer s conn sv, q)"
proof -
  obtain incoming s p io' where
    "establish_session example_crypto (example_establish 2) (example_keypair 2) TestingAuthProvider_authorize False
       \<lparr>dr_recv = incoming, dr_writes = [], dr_sent = [], dr_cache = None\<rparr> = (Inr (s, p), io')"
    "pi_agent_id p = example_peer"
    by (rule example_server_session)
  then show ?thesis
    by (intro that [of incoming s]) (simp add: finish_accept_def handshake_outcome_def example_accept_def Let_def)
qed

lemma example_admit:
  "\<exists>l. admit_attempt (str ''10.0.0.1'') 40 conn (example_server, q) =
     (Inr (), example_server\<lparr>sv_rate_limiter := l, sv_accepted_count := 1\<rparr>, q)"
  by (simp add: admit_attempt_def example_server_def with_auth_provider_and_config_def HandshakeRateLimiter_check_def
      HandshakeRateLimiter_new_def evict_expired_def Let_def)

lemma example_accepted:
  obtains incoming s l where
    "accept_one example_crypto (example_accept 3 incoming) (example_keypair 2) id id (example_server, q) =
       (Inr example_peer, store_peer example_peer s 3 (example_server\<lparr>sv_rate_limiter := l, sv_accepted_count := 1\<rparr>), q)"
proof -
  obtain incoming s where f: "\<And>sv q. sv_auth_provider sv = TestingAuthProvider_authorize \<Longrightarrow>
       finish_accept example_crypto (example_accept 3 incoming) (example_keypair 2) 3 (sv, q) =
         (Inr example_peer, store_peer example_peer s 3 sv, q)" using example_finish by blast
  obtain l where l: "admit_attempt (str ''10.0.0.1'') 40 3 (example_server, q) =
     (Inr (), example_server\<lparr>sv_rate_limiter := l, sv_accepted_count := 1\<rparr>, q)" using example_admit by blast
  have "sv_auth_provider (example_server\<lparr>sv_rate_limiter := l, sv_accepted_count := 1\<rparr>) = TestingAuthProvider_authorize"
    "connection_limit example_server = Inr ()" "ae_accepted (example_accept 3 incoming) = Inr 3"
    "ae_ip (example_accept 3 incoming) = str ''10.0.0.1''" "ae_now (example_accept 3 incoming) = 40"
    by (simp_all add: example_server_def with_auth_provider_and_config_def connection_limit_def example_accept_def)
  with f l show ?thesis by (intro that [of incoming s l]) (simp add: accept_one_def)
qed

theorem server_peers_authenticated_witness:
  "\<exists>incoming sv q p. accept_one example_crypto (example_accept 3 incoming) (example_keypair 2)
      (server_run example_crypto []) (server_run example_crypto []) (server_run example_crypto [] (example_server, example_quic)) =
      (Inr example_peer, sv, q) \<and>
    hm_get (sv_connections sv) example_peer = Some p \<and> server_session_state example_peer sv = Some MessagingEnabled \<and>
    se_peer_agent_id (sp_session p) = Some example_peer"
proof -
  obtain incoming s l where run: "accept_one example_crypto (example_accept 3 incoming) (example_keypair 2) id id (example_server, example_quic) =
       (Inr example_peer, store_peer example_peer s 3 (example_server\<lparr>sv_rate_limiter := l, sv_accepted_count := 1\<rparr>), example_quic)"
    by (rule example_accepted)
  let ?sv = "store_peer example_peer s 3 (example_server\<lparr>sv_rate_limiter := l, sv_accepted_count := 1\<rparr>)"
  have run': "accept_one example_crypto (example_accept 3 incoming) (example_keypair 2)
      (server_run example_crypto []) (server_run example_crypto []) (server_run example_crypto [] (example_server, example_quic)) =
      (Inr example_peer, ?sv, example_quic)" using run by (simp add: id_def)
  from server_peers_authenticated [OF this [unfolded example_server_def [symmetric], unfolded example_server_def]]
  have "hm_get (sv_connections ?sv) example_peer = Some p \<Longrightarrow> server_session_state example_peer ?sv = Some MessagingEnabled \<and>
      se_peer_agent_id (sp_session p) = Some example_peer" for p by (simp add: example_server_def)
  moreover have "hm_get (sv_connections ?sv) example_peer = Some \<lparr>sp_session = s, sp_conn = 3\<rparr>"
    by (simp add: store_peer_def hm.get_put)
  ultimately show ?thesis using run' by blast
qed

section \<open>The connection limit\<close>

lemma store_peer_len:
  assumes "hm_ok (sv_connections sv)"
  shows "hm_len (sv_connections (store_peer a s conn sv)) \<le> hm_len (sv_connections sv) + 1"
  using assms by (simp add: store_peer_def hm.len_put)

lemma finish_accept_frame:
  "sv_config (fst (snd (finish_accept cr env kp conn w))) = sv_config (fst w)"
  "hm_ok (sv_connections (fst w)) \<Longrightarrow> hm_ok (sv_connections (fst (snd (finish_accept cr env kp conn w))))"
  "hm_ok (sv_connections (fst w)) \<Longrightarrow>
     hm_len (sv_connections (fst (snd (finish_accept cr env kp conn w)))) \<le> hm_len (sv_connections (fst w)) + 1"
  by (auto simp: finish_accept_def Let_def store_peer_def hm.put_ok hm.len_put split: sum.split prod.split)

definition within_limit :: "AgentServer \<Rightarrow> bool" where
  "within_limit sv \<longleftrightarrow> hm_ok (sv_connections sv) \<and> server_connection_count sv \<le> sc_max_connections (sv_config sv)"

lemma accept_one_within_limit:
  assumes "within_limit (fst w)"
  shows "within_limit (fst (snd (accept_one cr env kp id id w)))"
proof (cases "connection_limit (fst w)"; cases "ae_accepted env")
  fix u conn
  assume c: "connection_limit (fst w) = Inr u" "ae_accepted env = Inr conn"
  obtain r w' where a: "admit_attempt (ae_ip env) (ae_now env) conn w = (r, w')"
    by (cases "admit_attempt (ae_ip env) (ae_now env) conn w")
  then have w': "sv_connections (fst w') = sv_connections (fst w)" "sv_config (fst w') = sv_config (fst w)"
    using admit_attempt_connections [of "ae_ip env" "ae_now env" conn w] by simp_all
  have "hm_len (sv_connections (fst w)) < sc_max_connections (sv_config (fst w))"
    using c(1) by (auto simp: connection_limit_def not_le split: if_splits)
  then have "within_limit (fst (snd (finish_accept cr env kp conn w')))"
    using assms w' finish_accept_frame [where w = w' and cr = cr and env = env and kp = kp and conn = conn] by (simp add: within_limit_def server_connection_count_def)
  then show ?thesis
    using c a w' assms by (simp add: accept_one_def within_limit_def server_connection_count_def split: sum.split)
qed (use assms in \<open>simp_all add: accept_one_def\<close>)

lemma accept_one_config: "sv_config (fst (snd (accept_one cr env kp id id w))) = sv_config (fst w)"
proof (cases "connection_limit (fst w)"; cases "ae_accepted env")
  fix u conn
  assume c: "connection_limit (fst w) = Inr u" "ae_accepted env = Inr conn"
  obtain r w' where a: "admit_attempt (ae_ip env) (ae_now env) conn w = (r, w')"
    by (cases "admit_attempt (ae_ip env) (ae_now env) conn w")
  then have "sv_config (fst w') = sv_config (fst w)"
    using admit_attempt_connections(3) [of "ae_ip env" "ae_now env" conn w] by simp
  then show ?thesis using c a by (simp add: accept_one_def finish_accept_frame(1) split: sum.split)
qed (simp_all add: accept_one_def)

primrec accept_sequence :: "crypto \<Rightarrow> (accept_env \<times> AgentKeypair) list \<Rightarrow> AgentServer \<times> quic \<Rightarrow> AgentServer \<times> quic" where
  "accept_sequence cr [] w = w"
| "accept_sequence cr (c # calls) w = accept_sequence cr calls (snd (accept_one cr (fst c) (snd c) id id w))"

lemma accept_sequence_within_limit:
  "within_limit (fst w) \<Longrightarrow> within_limit (fst (accept_sequence cr calls w)) \<and>
     sv_config (fst (accept_sequence cr calls w)) = sv_config (fst w)"
  by (induction calls arbitrary: w) (simp_all add: accept_one_within_limit accept_one_config)

text \<open>
  A server that accepts its connections one after the other, with any outcome of each, never
  holds more than the configured number of authenticated connections.
\<close>

lemma server_connection_bound:
  "server_connection_count (fst (accept_sequence cr calls (with_auth_provider_and_config prov config, q)))
     \<le> sc_max_connections config"
  using accept_sequence_within_limit [of "(with_auth_provider_and_config prov config, q)" cr calls]
  by (auto simp: within_limit_def server_connection_count_def with_auth_provider_and_config_def)

text \<open>
  The limit does not hold for concurrent calls: the check does not reserve a place, so two calls
  that both passed it with one place left store two peers.
\<close>

lemma connection_limit_race:
  assumes "hm_ok (sv_connections sv)" and "server_connection_count sv + 1 = sc_max_connections (sv_config sv)"
    and "handshake_outcome cr env1 kp sv = Inr (s1, p1)" and "handshake_outcome cr env2 kp sv = Inr (s2, p2)"
    and "pi_agent_id p1 \<noteq> pi_agent_id p2"
    and "hm_get (sv_connections sv) (pi_agent_id p1) = None" and "hm_get (sv_connections sv) (pi_agent_id p2) = None"
  shows "connection_limit sv = Inr ()"
    and "server_connection_count (fst (server_run cr [SvFinish env1 kp c1, SvFinish env2 kp c2] (sv, q))) =
      sc_max_connections (sv_config sv) + 1"
proof -
  show "connection_limit sv = Inr ()" using assms(2) by (simp add: connection_limit_def server_connection_count_def)
  have "handshake_outcome cr env2 kp (store_peer (pi_agent_id p1) s1 c1 sv) = Inr (s2, p2)"
    using assms(4) by (simp add: handshake_outcome_def store_peer_def)
  then show "server_connection_count (fst (server_run cr [SvFinish env1 kp c1, SvFinish env2 kp c2] (sv, q))) =
      sc_max_connections (sv_config sv) + 1"
    using assms by (simp add: finish_accept_def Let_def server_connection_count_def store_peer_def hm.len_put hm.put_ok hm.get_put)
qed

end
