(* ===== verification/Connection_Pool.thy ===== *)
theory Connection_Pool
  imports Peer_Table
begin

text \<open>
  The pool of connections, \<open>crates/aafp-sdk/src/connection_pool.rs\<close>: completed connections are kept
  under the agent id of the peer and handed out again for the address they were dialled for.
  \<open>get_or_connect\<close> releases the lock of the table while it dials and runs the handshake; what other
  calls do in between is its argument \<open>others\<close>. The clock, the iteration order of the hash map, the
  result of dialling and what the peer sends are arguments.

  The theorems show that, however calls interleave, a connection that is handed out was dialled for
  the requested address, had a verified handshake with the peer and was not closed by the pool,
  that the pool stays within its size, and that the least recently used connection makes room.
\<close>

section \<open>The pool\<close>

record PooledConnection =
  po_conn :: conn_id
  po_session :: Session
  po_last_used :: instant
  po_addr :: ustring

type_synonym pool_table = "(AgentId, PooledConnection) hash_map"

record PoolConfig =
  pf_max_size :: nat
  pf_idle_timeout :: duration

definition PoolConfig_default :: PoolConfig where
  "PoolConfig_default = \<lparr>pf_max_size = 100, pf_idle_timeout = 60 * 1000000000\<rparr>"

definition HEALTH_CHECK_THRESHOLD :: duration where
  "HEALTH_CHECK_THRESHOLD = 5 * 1000000000"

record ConnectionPool =
  cp_connections :: pool_table
  cp_config :: PoolConfig
  cp_auth_provider :: auth_provider

definition pool_with_auth_provider :: "PoolConfig \<Rightarrow> auth_provider \<Rightarrow> ConnectionPool" where
  "pool_with_auth_provider config prov = \<lparr>cp_connections = [], cp_config = config, cp_auth_provider = prov\<rparr>"

definition ConnectionPool_new :: "PoolConfig \<Rightarrow> ConnectionPool" where
  "ConnectionPool_new config = pool_with_auth_provider config TestingAuthProvider_authorize"

text \<open>Remove an entry and close its connection, as eviction and removal do.\<close>

definition remove_and_close :: "bytes \<Rightarrow> AgentId \<Rightarrow> pool_table \<times> quic \<Rightarrow> pool_table \<times> quic" where
  "remove_and_close reason peer = (\<lambda>(conns, q).
     case hm_get conns peer of
       Some pc \<Rightarrow> (hm_remove peer conns, quic_close (po_conn pc) 0 reason q)
     | None \<Rightarrow> (conns, q))"

type_synonym pool_order = "pool_table \<Rightarrow> (AgentId \<times> PooledConnection) list"

definition evict_idle_locked :: "pool_order \<Rightarrow> instant \<Rightarrow> PoolConfig \<Rightarrow> pool_table \<times> quic \<Rightarrow> nat \<times> pool_table \<times> quic" where
  "evict_idle_locked ord now config w =
     (let timeout = pf_idle_timeout config;
          to_evict = map fst (filter (\<lambda>(_, pc). now - po_last_used pc > timeout) (ord (fst w)))
      in (length to_evict, fold (remove_and_close (str ''idle timeout'')) to_evict w))"

definition is_healthy :: "stream_env \<Rightarrow> conn_id \<Rightarrow> quic \<Rightarrow> bool" where
  "is_healthy so conn q = (case fst (open_bi so conn q) of Inr _ \<Rightarrow> True | Inl _ \<Rightarrow> False)"

text \<open>\<open>Iterator::min_by_key\<close>: the first element with the least key.\<close>

fun min_by_key :: "('a \<Rightarrow> nat) \<Rightarrow> 'a list \<Rightarrow> 'a option" where
  "min_by_key key [] = None"
| "min_by_key key (x # xs) =
     (case min_by_key key xs of
        None \<Rightarrow> Some x
      | Some y \<Rightarrow> if key y < key x then Some y else Some x)"

record pool_env =
  pe_ord_evict :: pool_order
  pe_now_evict :: instant
  pe_ord_find :: pool_order
  pe_now_check :: instant
  pe_probe :: stream_env
  pe_now_reuse :: instant
  pe_dial :: "Error + conn_id"
  pe_establish :: establish_env
  pe_incoming :: bytes
  pe_writes :: "bool list"
  pe_ord_evict_late :: pool_order
  pe_now_evict_late :: instant
  pe_ord_oldest :: pool_order
  pe_now_insert :: instant

text \<open>The first part of \<open>get_or_connect\<close>, under the lock: a connection for the address, if any.\<close>

definition reuse_pooled ::
    "pool_env \<Rightarrow> ustring \<Rightarrow> PoolConfig \<Rightarrow> pool_table \<times> quic \<Rightarrow> (AgentId \<times> conn_id) option \<times> pool_table \<times> quic" where
  "reuse_pooled env addr config w =
     (let (conns, q) = snd (evict_idle_locked (pe_ord_evict env) (pe_now_evict env) config w);
          existing_peer_id = map_option fst (find (\<lambda>(_, pc). po_addr pc = addr) (pe_ord_find env conns))
      in case existing_peer_id of
           None \<Rightarrow> (None, conns, q)
         | Some peer_id \<Rightarrow>
             (case hm_get conns peer_id of
                None \<Rightarrow> (None, conns, q)
              | Some pc \<Rightarrow>
                  let needs_health_check = pe_now_check env - po_last_used pc > HEALTH_CHECK_THRESHOLD in
                  if needs_health_check
                  then
                    (if is_healthy (pe_probe env) (po_conn pc) q
                     then (Some (peer_id, po_conn pc), hm_insert peer_id (pc\<lparr>po_last_used := pe_now_reuse env\<rparr>) conns, q)
                     else (None, hm_remove peer_id conns, q))
                  else (Some (peer_id, po_conn pc), hm_insert peer_id (pc\<lparr>po_last_used := pe_now_reuse env\<rparr>) conns, q)))"

text \<open>The last part, under the lock again: make room and store the new connection.\<close>

definition make_pool_room :: "pool_order \<Rightarrow> PoolConfig \<Rightarrow> pool_table \<times> quic \<Rightarrow> pool_table \<times> quic" where
  "make_pool_room ord config w =
     (if hm_len (fst w) \<ge> pf_max_size config
      then (case map_option fst (min_by_key (\<lambda>(_, pc). po_last_used pc) (ord (fst w))) of
              Some oldest_id \<Rightarrow> remove_and_close (str ''pool eviction'') oldest_id w
            | None \<Rightarrow> w)
      else w)"

definition store_pooled ::
    "pool_env \<Rightarrow> ustring \<Rightarrow> PoolConfig \<Rightarrow> AgentId \<Rightarrow> Session \<Rightarrow> conn_id \<Rightarrow> pool_table \<times> quic \<Rightarrow> pool_table \<times> quic" where
  "store_pooled env addr config peer_id session conn w =
     (let w = snd (evict_idle_locked (pe_ord_evict_late env) (pe_now_evict_late env) config w);
          (conns, q) = make_pool_room (pe_ord_oldest env) config w
      in (hm_insert peer_id
            \<lparr>po_conn = conn, po_session = session, po_last_used = pe_now_insert env, po_addr = addr\<rparr> conns, q))"

definition locked :: "(pool_table \<times> quic \<Rightarrow> 'a \<times> pool_table \<times> quic) \<Rightarrow> ConnectionPool \<times> quic \<Rightarrow> 'a \<times> ConnectionPool \<times> quic" where
  "locked f = (\<lambda>(pool, q).
     let (r, conns, q) = f (cp_connections pool, q) in (r, pool\<lparr>cp_connections := conns\<rparr>, q))"

definition connect_pooled ::
    "crypto \<Rightarrow> pool_env \<Rightarrow> AgentKeypair \<Rightarrow> ustring \<Rightarrow> ConnectionPool \<times> quic \<Rightarrow> (SdkError + AgentId \<times> conn_id) \<times> ConnectionPool \<times> quic" where
  "connect_pooled cr env keypair addr w =
     (case pe_dial env of
        Inl e \<Rightarrow> (Inl (SdkCore e), w)
      | Inr conn \<Rightarrow>
          (case fst (establish_session cr (pe_establish env) keypair (cp_auth_provider (fst w)) True
                  \<lparr>dr_recv = pe_incoming env, dr_writes = pe_writes env, dr_sent = [], dr_cache = None\<rparr>) of
             Inl e \<Rightarrow> (Inl e, w)
           | Inr (session, peer_info) \<Rightarrow>
               let peer_id = pi_agent_id peer_info in
               (Inr (peer_id, conn),
                snd (locked (\<lambda>w'. ((), store_pooled env addr (cp_config (fst w)) peer_id session conn w')) w))))"

definition get_or_connect ::
    "crypto \<Rightarrow> pool_env \<Rightarrow> AgentKeypair \<Rightarrow> ustring \<Rightarrow> (ConnectionPool \<times> quic \<Rightarrow> ConnectionPool \<times> quic) \<Rightarrow>
     ConnectionPool \<times> quic \<Rightarrow> (SdkError + AgentId \<times> conn_id) \<times> ConnectionPool \<times> quic" where
  "get_or_connect cr env keypair addr others w =
     (case locked (reuse_pooled env addr (cp_config (fst w))) w of
        (Some r, w) \<Rightarrow> (Inr r, w)
      | (None, w) \<Rightarrow> connect_pooled cr env keypair addr (others w))"

definition release :: "instant \<Rightarrow> AgentId \<Rightarrow> ConnectionPool \<Rightarrow> ConnectionPool" where
  "release now peer_id pool =
     (case hm_get (cp_connections pool) peer_id of
        Some pc \<Rightarrow> pool\<lparr>cp_connections := hm_insert peer_id (pc\<lparr>po_last_used := now\<rparr>) (cp_connections pool)\<rparr>
      | None \<Rightarrow> pool)"

definition pool_remove :: "AgentId \<Rightarrow> ConnectionPool \<times> quic \<Rightarrow> ConnectionPool \<times> quic" where
  "pool_remove peer_id w = snd (locked (\<lambda>w. ((), remove_and_close (str ''pool removal'') peer_id w)) w)"

definition evict_idle :: "pool_order \<Rightarrow> instant \<Rightarrow> ConnectionPool \<times> quic \<Rightarrow> nat \<times> ConnectionPool \<times> quic" where
  "evict_idle ord now w = locked (evict_idle_locked ord now (cp_config (fst w))) w"

definition pool_len :: "ConnectionPool \<Rightarrow> nat" where
  "pool_len pool = hm_len (cp_connections pool)"

definition pool_is_empty :: "ConnectionPool \<Rightarrow> bool" where
  "pool_is_empty pool \<longleftrightarrow> cp_connections pool = []"

definition pool_peers :: "ConnectionPool \<Rightarrow> AgentId list" where
  "pool_peers pool = map fst (cp_connections pool)"

section \<open>The invariant of the table\<close>

text \<open>The steps of concurrent calls; each holds the lock of the table from start to end.\<close>

datatype pool_event =
    PReuse pool_env ustring
  | PConnect pool_env AgentKeypair ustring
  | PRelease instant AgentId
  | PRemove AgentId
  | PEvict pool_order instant

text \<open>
  A connection and a session come from one of the steps \<open>H\<close> that connects to an address: the connection is the one dialled there,
  and the session that of the handshake on that connection.
\<close>

definition pool_origin ::
    "crypto \<Rightarrow> auth_provider \<Rightarrow> pool_event set \<Rightarrow> AgentId \<Rightarrow> ustring \<Rightarrow> conn_id \<Rightarrow> Session \<Rightarrow> bool" where
  "pool_origin cr prov H a addr conn s \<longleftrightarrow>
     (\<exists>env kp. PConnect env kp addr \<in> H \<and> pe_dial env = Inr conn \<and>
        server_entry cr prov (pe_establish env) kp (pe_incoming env) a s)"

text \<open>
  \<open>D\<close> holds the handles that later dials will return. Every pooled entry has such an origin and has
  messaging enabled; its connection is open, in no other entry, and not one that is still to be dialled.
\<close>

definition pooled_ok :: "crypto \<Rightarrow> auth_provider \<Rightarrow> pool_event set \<Rightarrow> conn_id set \<Rightarrow> pool_table \<times> quic \<Rightarrow> bool" where
  "pooled_ok cr prov H D = (\<lambda>(conns, q). hm_ok conns \<and>
     (\<forall>a pc. hm_get conns a = Some pc \<longrightarrow> pool_origin cr prov H a (po_addr pc) (po_conn pc) (po_session pc) \<and>
        se_state (po_session pc) = MessagingEnabled \<and> q_closed q (po_conn pc) = None \<and> po_conn pc \<notin> D) \<and>
     (\<forall>a b pc pd. hm_get conns a = Some pc \<and> hm_get conns b = Some pd \<and> po_conn pc = po_conn pd \<longrightarrow> a = b) \<and>
     (\<forall>d \<in> D. q_closed q d = None))"

lemma pooled_ok_table: "pooled_ok cr prov H D (conns, q) \<Longrightarrow> hm_ok conns"
  by (simp add: pooled_ok_def)

lemma pooled_ok_remove:
  "pooled_ok cr prov H D (conns, q) \<Longrightarrow> pooled_ok cr prov H D (hm_remove a conns, q)"
  by (auto simp: pooled_ok_def hm.get_del hm.del_ok)

lemma pooled_ok_close:
  assumes "pooled_ok cr prov H D (conns, q)" and "hm_get conns a = Some pc"
  shows "pooled_ok cr prov H D (hm_remove a conns, quic_close (po_conn pc) code reason q)"
  using assms by (auto simp: pooled_ok_def hm.get_del hm.del_ok quic_close_def)

lemma pooled_ok_touch:
  assumes "pooled_ok cr prov H D (conns, q)" and "hm_get conns a = Some pc"
  shows "pooled_ok cr prov H D (hm_insert a (pc\<lparr>po_last_used := now\<rparr>) conns, q)"
  using assms unfolding pooled_ok_def by (auto simp: hm.get_put hm.put_ok)

lemma pooled_ok_new:
  assumes "pooled_ok cr prov H D (conns, q)" and "conn \<in> D" and "pool_origin cr prov H a addr conn s" and "se_state s = MessagingEnabled"
  shows "pooled_ok cr prov H (D - {conn}) (hm_insert a \<lparr>po_conn = conn, po_session = s, po_last_used = t, po_addr = addr\<rparr> conns, q)"
  using assms unfolding pooled_ok_def by (auto simp: hm.get_put hm.put_ok)

lemma remove_and_close_ok: "pooled_ok cr prov H D w \<Longrightarrow> pooled_ok cr prov H D (remove_and_close reason a w)"
  by (cases w) (auto simp: remove_and_close_def pooled_ok_close split: option.split)

lemma remove_and_close_len:
  "hm_ok (fst w) \<Longrightarrow> hm_ok (fst (remove_and_close reason a w)) \<and> hm_len (fst (remove_and_close reason a w)) \<le> hm_len (fst w)"
  by (cases w) (auto simp: remove_and_close_def hm.del_ok hm.len_del split: option.split)

lemma remove_all_ok:
  "pooled_ok cr prov H D w \<Longrightarrow> pooled_ok cr prov H D (fold (remove_and_close reason) as w)"
  by (induction as arbitrary: w) (simp_all add: remove_and_close_ok)

lemma remove_all_len:
  "hm_ok (fst w) \<Longrightarrow> hm_ok (fst (fold (remove_and_close reason) as w)) \<and>
     hm_len (fst (fold (remove_and_close reason) as w)) \<le> hm_len (fst w)"
proof (induction as arbitrary: w)
  case (Cons a as)
  have "hm_ok (fst (remove_and_close reason a w))" "hm_len (fst (remove_and_close reason a w)) \<le> hm_len (fst w)"
    using remove_and_close_len [OF Cons.prems] by auto
  then show ?case using Cons.IH [of "remove_and_close reason a w"] by simp
qed simp

lemma evict_idle_locked_ok:
  "pooled_ok cr prov H D w \<Longrightarrow> pooled_ok cr prov H D (snd (evict_idle_locked ord now config w))"
  by (simp add: evict_idle_locked_def Let_def remove_all_ok)

lemma evict_idle_locked_len:
  "hm_ok (fst w) \<Longrightarrow> hm_ok (fst (snd (evict_idle_locked ord now config w))) \<and>
     hm_len (fst (snd (evict_idle_locked ord now config w))) \<le> hm_len (fst w)"
  by (simp add: evict_idle_locked_def Let_def remove_all_len)

text \<open>The outcomes of a lookup: nothing, or an entry of the table for the address, now used.\<close>

lemma reuse_pooled_cases:
  assumes run: "reuse_pooled env addr config w = (r, conns', q')" and ord: "iteration_order (pe_ord_find env)"
    and ok: "hm_ok (fst w)"
  obtains (none) conns where "snd (evict_idle_locked (pe_ord_evict env) (pe_now_evict env) config w) = (conns, q')"
      "r = None" "conns' = conns \<or> (\<exists>a. conns' = hm_remove a conns)"
    | (reused) conns a pc where "snd (evict_idle_locked (pe_ord_evict env) (pe_now_evict env) config w) = (conns, q')"
      "hm_get conns a = Some pc" "po_addr pc = addr" "r = Some (a, po_conn pc)"
      "conns' = hm_insert a (pc\<lparr>po_last_used := pe_now_reuse env\<rparr>) conns"
proof -
  obtain conns q where e: "snd (evict_idle_locked (pe_ord_evict env) (pe_now_evict env) config w) = (conns, q)"
    by (cases "snd (evict_idle_locked (pe_ord_evict env) (pe_now_evict env) config w)")
  have conns: "hm_ok conns" using evict_idle_locked_len [OF ok] e by (metis fst_conv)
  show thesis
  proof (cases "find (\<lambda>(_, pc). po_addr pc = addr) (pe_ord_find env conns)")
    case None
    then show thesis using run e none [of conns] by (simp add: reuse_pooled_def)
  next
    case (Some x)
    obtain a pc where x: "x = (a, pc)" by fastforce
    have "(a, pc) \<in> set (pe_ord_find env conns)" "po_addr pc = addr"
      using Some x by (auto simp: find_Some_iff) (metis nth_mem)
    then have get: "hm_get conns a = Some pc"
      using iteration_order_set [OF ord] conns by (simp add: hm_get_iff)
    then show thesis
      using run e Some x \<open>po_addr pc = addr\<close> none [of conns] reused [of conns a pc]
      by (auto simp: reuse_pooled_def Let_def split: if_splits)
  qed
qed

lemma min_by_key_Some:
  "xs \<noteq> [] \<Longrightarrow> \<exists>x. min_by_key key xs = Some x \<and> x \<in> set xs \<and> (\<forall>y \<in> set xs. key x \<le> key y)"
proof (induction key xs rule: min_by_key.induct)
  case (2 key x xs)
  then show ?case by (cases xs) (fastforce split: option.split)+
qed simp

text \<open>At capacity one entry leaves the pool, and no entry that stays was used less recently.\<close>

lemma make_pool_room_full:
  assumes "hm_ok conns" and "iteration_order ord" and "pf_max_size config \<le> hm_len conns" and "conns \<noteq> []"
  obtains a pc where "hm_get conns a = Some pc"
    "make_pool_room ord config (conns, q) = (hm_remove a conns, quic_close (po_conn pc) 0 (str ''pool eviction'') q)"
    "\<And>b pd. hm_get conns b = Some pd \<Longrightarrow> po_last_used pc \<le> po_last_used pd"
proof -
  have "ord conns \<noteq> []" using assms(2,4) by (metis iteration_order_length length_0_conv)
  then obtain a pc where m: "min_by_key (\<lambda>(_, pc). po_last_used pc) (ord conns) = Some (a, pc)" "(a, pc) \<in> set (ord conns)"
      "\<forall>(b, pd) \<in> set (ord conns). po_last_used pc \<le> po_last_used pd"
    using min_by_key_Some [of "ord conns" "\<lambda>(_, pc). po_last_used pc"] by (auto simp: split_beta)
  have set: "set (ord conns) = set conns" using assms(2) by (rule iteration_order_set)
  have get: "hm_get conns a = Some pc" using m(2) set assms(1) by (simp add: hm_get_iff)
  show thesis
    using that [OF get] get m(1,3) set assms(1,3) by (auto simp: make_pool_room_def remove_and_close_def hm_get_iff)
qed

lemma make_pool_room_ok: "pooled_ok cr prov H D w \<Longrightarrow> pooled_ok cr prov H D (make_pool_room ord config w)"
  by (auto simp: make_pool_room_def remove_and_close_ok split: option.split)

lemma make_pool_room_len:
  assumes "hm_ok (fst w)" and "iteration_order ord" and "hm_len (fst w) \<le> max 1 (pf_max_size config)"
  shows "hm_ok (fst (make_pool_room ord config w)) \<and> hm_len (fst (make_pool_room ord config w)) < max 1 (pf_max_size config)"
proof (cases "pf_max_size config \<le> hm_len (fst w) \<and> fst w \<noteq> []")
  case True
  obtain conns q where w: "w = (conns, q)" by (cases w)
  obtain a pc where "hm_get conns a = Some pc" "fst (make_pool_room ord config w) = hm_remove a conns"
    using make_pool_room_full [of conns ord config q] assms w True by (metis fst_conv)
  moreover have "0 < hm_len conns" using True w by (simp add: hm_len_def)
  ultimately show ?thesis using assms w by (auto simp: hm.del_ok hm.len_del)
next
  case False
  then show ?thesis
    using assms(1,2) iteration_order_length [OF assms(2), of "[]"] by (auto simp: make_pool_room_def hm_len_def)
qed

section \<open>Runs of the pool\<close>

fun pool_step :: "crypto \<Rightarrow> pool_event \<Rightarrow> ConnectionPool \<times> quic \<Rightarrow> ConnectionPool \<times> quic" where
  "pool_step cr (PReuse env addr) w = snd (locked (reuse_pooled env addr (cp_config (fst w))) w)"
| "pool_step cr (PConnect env kp addr) w = snd (connect_pooled cr env kp addr w)"
| "pool_step cr (PRelease now a) w = (release now a (fst w), snd w)"
| "pool_step cr (PRemove a) w = pool_remove a w"
| "pool_step cr (PEvict ord now) w = snd (evict_idle ord now w)"

abbreviation pool_run :: "crypto \<Rightarrow> pool_event list \<Rightarrow> ConnectionPool \<times> quic \<Rightarrow> ConnectionPool \<times> quic" where
  "pool_run cr \<equiv> fold (pool_step cr)"

text \<open>The handles that the dials of a run return, and the iteration orders it uses.\<close>

definition dialled :: "pool_env \<Rightarrow> conn_id list" where
  "dialled env = (case pe_dial env of Inr conn \<Rightarrow> [conn] | Inl _ \<Rightarrow> [])"

definition orders_ok :: "pool_env \<Rightarrow> bool" where
  "orders_ok env \<longleftrightarrow> iteration_order (pe_ord_evict env) \<and> iteration_order (pe_ord_find env) \<and>
     iteration_order (pe_ord_evict_late env) \<and> iteration_order (pe_ord_oldest env)"

fun event_dials :: "pool_event \<Rightarrow> conn_id list" where
  "event_dials (PConnect env kp addr) = dialled env"
| "event_dials _ = []"

abbreviation run_dials :: "pool_event list \<Rightarrow> conn_id list" where
  "run_dials es \<equiv> concat (map event_dials es)"

fun event_orders_ok :: "pool_event \<Rightarrow> bool" where
  "event_orders_ok (PReuse env addr) = orders_ok env"
| "event_orders_ok (PConnect env kp addr) = orders_ok env"
| "event_orders_ok (PEvict ord now) = iteration_order ord"
| "event_orders_ok _ = True"

definition pool_inv :: "crypto \<Rightarrow> auth_provider \<Rightarrow> pool_event set \<Rightarrow> PoolConfig \<Rightarrow> conn_id set \<Rightarrow> ConnectionPool \<times> quic \<Rightarrow> bool" where
  "pool_inv cr prov H config D = (\<lambda>(pool, q). cp_auth_provider pool = prov \<and> cp_config pool = config \<and>
     pooled_ok cr prov H D (cp_connections pool, q) \<and> pool_len pool \<le> max 1 (pf_max_size config))"

lemma pool_inv_locked:
  assumes "pool_inv cr prov H config D w"
    and "\<And>conns q. pooled_ok cr prov H D (conns, q) \<Longrightarrow> hm_len conns \<le> max 1 (pf_max_size config) \<Longrightarrow>
      pooled_ok cr prov H D' (snd (f (conns, q))) \<and> hm_len (fst (snd (f (conns, q)))) \<le> max 1 (pf_max_size config)"
  shows "pool_inv cr prov H config D' (snd (locked f w))"
  using assms by (cases w; cases "f (cp_connections (fst w), snd w)") (fastforce simp: pool_inv_def locked_def pool_len_def)

lemma reuse_pooled_ok:
  assumes "pooled_ok cr prov H D (conns, q)" and "hm_len conns \<le> n" and "orders_ok env"
  shows "pooled_ok cr prov H D (snd (reuse_pooled env addr config (conns, q))) \<and>
    hm_len (fst (snd (reuse_pooled env addr config (conns, q)))) \<le> n"
proof -
  obtain r conns' q' where r: "reuse_pooled env addr config (conns, q) = (r, conns', q')"
    by (cases "reuse_pooled env addr config (conns, q)")
  note hm = pooled_ok_table [OF assms(1)]
  have ord: "iteration_order (pe_ord_find env)" using assms(3) by (simp add: orders_ok_def)
  note e = evict_idle_locked_ok [OF assms(1), of "pe_ord_evict env" "pe_now_evict env" config]
    evict_idle_locked_len [of "(conns, q)" "pe_ord_evict env" "pe_now_evict env" config]
  from r ord show ?thesis
  proof (rule reuse_pooled_cases)
    show "hm_ok (fst (conns, q))" using hm by simp
  next
    fix conns1
    assume "snd (evict_idle_locked (pe_ord_evict env) (pe_now_evict env) config (conns, q)) = (conns1, q')"
      "conns' = conns1 \<or> (\<exists>a. conns' = hm_remove a conns1)"
    then show ?thesis using e hm r assms(2) by (auto simp: pooled_ok_remove hm.len_del)
  next
    fix conns1 a pc
    assume "snd (evict_idle_locked (pe_ord_evict env) (pe_now_evict env) config (conns, q)) = (conns1, q')"
      "hm_get conns1 a = Some pc" "conns' = hm_insert a (pc\<lparr>po_last_used := pe_now_reuse env\<rparr>) conns1"
    then show ?thesis using e hm r assms(2) by (auto simp: pooled_ok_touch hm.len_put)
  qed
qed

lemma store_pooled_ok:
  assumes "pooled_ok cr prov H D (conns, q)" and "hm_len conns \<le> max 1 (pf_max_size config)" and "orders_ok env"
    and "conn \<in> D" and "pool_origin cr prov H a addr conn s" and "se_state s = MessagingEnabled"
  shows "pooled_ok cr prov H (D - {conn}) (store_pooled env addr config a s conn (conns, q)) \<and>
    hm_len (fst (store_pooled env addr config a s conn (conns, q))) \<le> max 1 (pf_max_size config)"
proof -
  let ?w = "snd (evict_idle_locked (pe_ord_evict_late env) (pe_now_evict_late env) config (conns, q))"
  have w: "pooled_ok cr prov H D ?w" using assms(1) by (rule evict_idle_locked_ok)
  have len: "hm_ok (fst ?w)" "hm_len (fst ?w) \<le> max 1 (pf_max_size config)"
    using evict_idle_locked_len [of "(conns, q)" "pe_ord_evict_late env" "pe_now_evict_late env" config]
      pooled_ok_table [OF assms(1)] assms(2) by auto
  obtain conns' q' where r: "make_pool_room (pe_ord_oldest env) config ?w = (conns', q')"
    by (cases "make_pool_room (pe_ord_oldest env) config ?w")
  have "pooled_ok cr prov H D (conns', q')" using make_pool_room_ok [OF w] r by metis
  moreover have "hm_ok conns' \<and> hm_len conns' < max 1 (pf_max_size config)"
    using make_pool_room_len [OF len(1) _ len(2), of "pe_ord_oldest env"] assms(3) r by (simp add: orders_ok_def)
  ultimately show ?thesis
    using pooled_ok_new [OF _ assms(4-6)] r by (simp add: store_pooled_def Let_def hm.len_put)
qed

lemma connect_pooled_cases:
  assumes "PConnect env kp addr \<in> H"
  obtains (failed) e where "connect_pooled cr env kp addr w = (Inl e, w)"
    | (stored) conn s a where "pe_dial env = Inr conn" "pool_origin cr (cp_auth_provider (fst w)) H a addr conn s"
      "se_state s = MessagingEnabled"
      "connect_pooled cr env kp addr w =
        (Inr (a, conn), snd (locked (\<lambda>w'. ((), store_pooled env addr (cp_config (fst w)) a s conn w')) w))"
proof (cases "pe_dial env")
  case (Inr conn)
  note Inr_conn = this
  obtain r io' where e: "establish_session cr (pe_establish env) kp (cp_auth_provider (fst w)) True
      \<lparr>dr_recv = pe_incoming env, dr_writes = pe_writes env, dr_sent = [], dr_cache = None\<rparr> = (r, io')"
    by (meson surj_pair)
  show thesis
  proof (cases r)
    case (Inr x)
    obtain s p where "x = (s, p)" by (cases x)
    with e Inr have s: "establish_session cr (pe_establish env) kp (cp_auth_provider (fst w)) True
      \<lparr>dr_recv = pe_incoming env, dr_writes = pe_writes env, dr_sent = [], dr_cache = None\<rparr> = (Inr (s, p), io')" by simp
    have "se_state s = MessagingEnabled" using s establish_session_Inr messaging_session_fields(1) by metis
    moreover have "pool_origin cr (cp_auth_provider (fst w)) H (pi_agent_id p) addr conn s"
      using established_server_entry [OF s] assms Inr_conn unfolding pool_origin_def by auto
    ultimately show thesis
      using stored [of conn "pi_agent_id p" s] Inr_conn s by (simp add: connect_pooled_def Let_def)
  qed (use Inr e failed in \<open>simp add: connect_pooled_def\<close>)
qed (use failed in \<open>simp add: connect_pooled_def\<close>)

lemma pool_inv_mono: "pool_inv cr prov H config D w \<Longrightarrow> E \<subseteq> D \<Longrightarrow> pool_inv cr prov H config E w"
  by (auto simp: pool_inv_def pooled_ok_def)

lemma connect_pooled_inv:
  assumes "pool_inv cr prov H config D w" and "orders_ok env" and "set (dialled env) \<subseteq> D"
    and "PConnect env kp addr \<in> H"
  shows "pool_inv cr prov H config (D - set (dialled env)) (snd (connect_pooled cr env kp addr w))"
proof (rule connect_pooled_cases [OF assms(4), of cr w])
  fix e
  assume "connect_pooled cr env kp addr w = (Inl e, w)"
  then show ?thesis using assms(1) pool_inv_mono [of cr prov H config D w] by simp
next
  fix conn s a
  assume c: "pe_dial env = Inr conn" "pool_origin cr (cp_auth_provider (fst w)) H a addr conn s" "se_state s = MessagingEnabled"
    "connect_pooled cr env kp addr w =
      (Inr (a, conn), snd (locked (\<lambda>w'. ((), store_pooled env addr (cp_config (fst w)) a s conn w')) w))"
  have w: "cp_auth_provider (fst w) = prov" "cp_config (fst w) = config" using assms(1) by (auto simp: pool_inv_def)
  have d: "dialled env = [conn]" using c(1) by (simp add: dialled_def)
  have "pool_inv cr prov H config (D - {conn}) (snd (locked (\<lambda>w'. ((), store_pooled env addr config a s conn w')) w))"
    using assms(1)
  proof (rule pool_inv_locked)
    fix conns q
    assume "pooled_ok cr prov H D (conns, q)" "hm_len conns \<le> max 1 (pf_max_size config)"
    then show "pooled_ok cr prov H (D - {conn}) (snd ((), store_pooled env addr config a s conn (conns, q))) \<and>
        hm_len (fst (snd ((), store_pooled env addr config a s conn (conns, q)))) \<le> max 1 (pf_max_size config)"
      using store_pooled_ok [of cr prov H D conns q config env conn a addr s] assms(2,3) c(2,3) w d by simp
  qed
  then show ?thesis using c(4) w d by simp
qed

lemma release_inv:
  assumes "pool_inv cr prov H config D (pool, q)"
  shows "pool_inv cr prov H config D (release now a pool, q)"
  using assms pooled_ok_table pooled_ok_touch
  by (fastforce simp: release_def pool_inv_def pool_len_def hm.len_put split: option.split)

lemma pool_step_inv:
  assumes "pool_inv cr prov H config D w" and "event_orders_ok ev" and "set (event_dials ev) \<subseteq> D"
    and "\<And>env kp addr. ev = PConnect env kp addr \<Longrightarrow> ev \<in> H"
  shows "pool_inv cr prov H config (D - set (event_dials ev)) (pool_step cr ev w)"
proof (cases ev)
  case (PReuse env addr)
  have "cp_config (fst w) = config" using assms(1) by (auto simp: pool_inv_def)
  then have "pool_inv cr prov H config D (snd (locked (reuse_pooled env addr (cp_config (fst w))) w))"
    using assms PReuse by (intro pool_inv_locked [OF assms(1)] reuse_pooled_ok) simp_all
  then show ?thesis using PReuse by simp
next
  case (PConnect env kp addr)
  then show ?thesis using connect_pooled_inv [OF assms(1)] assms(2-4) by simp
next
  case (PRelease now a)
  then show ?thesis using release_inv [of cr prov H config D "fst w" "snd w"] assms(1) by simp
next
  case (PRemove a)
  have "pool_inv cr prov H config D (pool_remove a w)"
    unfolding pool_remove_def using assms(1)
  proof (rule pool_inv_locked)
    fix conns q
    assume "pooled_ok cr prov H D (conns, q)" "hm_len conns \<le> max 1 (pf_max_size config)"
    then show "pooled_ok cr prov H D (snd ((), remove_and_close (str ''pool removal'') a (conns, q))) \<and>
        hm_len (fst (snd ((), remove_and_close (str ''pool removal'') a (conns, q)))) \<le> max 1 (pf_max_size config)"
      using remove_and_close_len [of "(conns, q)" "str ''pool removal''" a] pooled_ok_table [of cr prov H D conns q]
      by (simp add: remove_and_close_ok)
  qed
  then show ?thesis using PRemove by simp
next
  case (PEvict ord now)
  have "pool_inv cr prov H config D (snd (evict_idle ord now w))"
    unfolding evict_idle_def using assms(1)
  proof (rule pool_inv_locked)
    fix conns q
    assume "pooled_ok cr prov H D (conns, q)" "hm_len conns \<le> max 1 (pf_max_size config)"
    then show "pooled_ok cr prov H D (snd (evict_idle_locked ord now (cp_config (fst w)) (conns, q))) \<and>
        hm_len (fst (snd (evict_idle_locked ord now (cp_config (fst w)) (conns, q)))) \<le> max 1 (pf_max_size config)"
      using evict_idle_locked_len [of "(conns, q)" ord now "cp_config (fst w)"] pooled_ok_table [of cr prov H D conns q]
      by (simp add: evict_idle_locked_ok)
  qed
  then show ?thesis using PEvict by simp
qed

lemma pool_run_inv:
  assumes "pool_inv cr prov H config D w" and "\<forall>ev \<in> set es. event_orders_ok ev"
    and "set (run_dials es) \<subseteq> D" and "distinct (run_dials es)" and "set es \<subseteq> H"
  shows "pool_inv cr prov H config (D - set (run_dials es)) (pool_run cr es w)"
  using assms
proof (induction es arbitrary: D w)
  case (Cons ev es)
  have "pool_inv cr prov H config (D - set (event_dials ev)) (pool_step cr ev w)"
    using Cons.prems(2,3,5) by (intro pool_step_inv [OF Cons.prems(1)]) simp_all
  moreover have "set (run_dials es) \<subseteq> D - set (event_dials ev)" using Cons.prems(3,4) by auto
  ultimately have "pool_inv cr prov H config (D - set (event_dials ev) - set (run_dials es)) (pool_run cr es (pool_step cr ev w))"
    using Cons.IH Cons.prems(2,4,5) by simp
  then show ?case by (simp add: Diff_eq Int_assoc)
qed simp

lemma pool_new_inv:
  "\<forall>d \<in> D. q_closed q d = None \<Longrightarrow> pool_inv cr prov H config D (pool_with_auth_provider config prov, q)"
  by (simp add: pool_inv_def pool_with_auth_provider_def pooled_ok_def pool_len_def)

lemma pool_inv_entry:
  assumes "pool_inv cr prov H config D (pool, q)" and "hm_get (cp_connections pool) a = Some pc"
  shows "q_closed q (po_conn pc) = None" "se_state (po_session pc) = MessagingEnabled"
    "pool_len pool \<le> max 1 (pf_max_size config)" "pool_origin cr prov H a (po_addr pc) (po_conn pc) (po_session pc)"
  using assms by (auto simp: pool_inv_def pooled_ok_def)

text \<open>What \<open>get_or_connect\<close> returns is the entry of the table for the address.\<close>

lemma reused_entry:
  assumes "locked (reuse_pooled env addr config) w = (Some (a, conn), pool, q)" and "orders_ok env"
    and "hm_ok (cp_connections (fst w))"
  shows "\<exists>pc. hm_get (cp_connections pool) a = Some pc \<and> po_conn pc = conn \<and> po_addr pc = addr"
proof -
  obtain conns where r: "reuse_pooled env addr config (cp_connections (fst w), snd w) = (Some (a, conn), conns, q)"
      "cp_connections pool = conns"
    using assms(1) by (cases w) (auto simp: locked_def split: prod.splits)
  have ord: "iteration_order (pe_ord_find env)" using assms(2) by (simp add: orders_ok_def)
  from r(1) ord show ?thesis
    by (rule reuse_pooled_cases) (use assms(3) r(2) in \<open>auto simp: hm.get_put\<close>)
qed

lemma connected_entry:
  assumes "connect_pooled cr env kp addr w = (Inr (a, conn), pool, q)"
  shows "\<exists>pc. hm_get (cp_connections pool) a = Some pc \<and> po_conn pc = conn \<and> po_addr pc = addr"
  using assms
  by (cases rule: connect_pooled_cases [where env = env and kp = kp and addr = addr and cr = cr and w = w, OF UNIV_I])
    (auto simp: locked_def store_pooled_def Let_def hm.get_put split_beta)

text \<open>
  C27. Whatever calls used the pool before and run while \<open>get_or_connect\<close> dials, the connection
  that it returns is in the pool under the agent id returned with it, was dialled for the
  requested address, and is not closed by the pool. The peer completed a handshake on it: the ServerHello received on that connection, when
  it was dialled by one of these calls, verifies under the peer's key for the channel binding of the connection; the session
  is the one of that handshake, has messaging enabled and the context with which the pool's provider authorized the peer with that key. The pool holds at most the
  configured number of connections, except that it holds one when zero is configured. The hypotheses are that each dial gives a
  new connection and that the iteration orders are those of a hash map.
\<close>

theorem pool_connection_usable:
  assumes "\<forall>ev \<in> set (es @ es'). event_orders_ok ev" and "orders_ok env"
    and "distinct (run_dials (es @ es') @ dialled env)"
    and "\<forall>d \<in> set (run_dials (es @ es') @ dialled env). q_closed q0 d = None"
    and run: "get_or_connect cr env kp addr (pool_run cr es') (pool_run cr es (pool_with_auth_provider config prov, q0)) =
      (Inr (a, conn), pool, q)"
  shows "\<exists>pc env' kp' pk sid ctx. hm_get (cp_connections pool) a = Some pc \<and> po_conn pc = conn \<and> po_addr pc = addr \<and>
    PConnect env' kp' addr \<in> set (es @ es') \<union> {PConnect env kp addr} \<and> pe_dial env' = Inr conn \<and>
    verified_server cr (pe_establish env') kp' (pe_incoming env') a pk sid \<and> a = sha256 cr pk \<and>
    q_closed q conn = None \<and> se_state (po_session pc) = MessagingEnabled \<and> se_peer_agent_id (po_session pc) = Some a \<and>
    se_session_id (po_session pc) = Some sid \<and> prov a pk = Inr ctx \<and> se_authorization_context (po_session pc) = Some ctx \<and>
    pool_len pool \<le> max 1 (pf_max_size config)"
proof -
  let ?w = "pool_run cr es (pool_with_auth_provider config prov, q0)"
  let ?H = "set (es @ es') \<union> {PConnect env kp addr}"
  let ?D = "set (run_dials es') \<union> set (dialled env)"
  have "?D \<inter> set (run_dials es) = {}" using assms(3) by auto
  then have sub: "?D \<subseteq> set (run_dials (es @ es') @ dialled env) - set (run_dials es)" by auto
  have "pool_inv cr prov ?H config (set (run_dials (es @ es') @ dialled env) - set (run_dials es)) ?w"
    using assms(1,3) by (intro pool_run_inv pool_new_inv assms(4)) auto
  then have w: "pool_inv cr prov ?H config ?D ?w" using sub by (rule pool_inv_mono)
  obtain r w1 where r: "locked (reuse_pooled env addr (cp_config (fst ?w))) ?w = (r, w1)"
    by (cases "locked (reuse_pooled env addr (cp_config (fst ?w))) ?w")
  have w1: "pool_inv cr prov ?H config ?D w1"
    using pool_step_inv [OF w, of "PReuse env addr"] assms(2) r by simp
  have "pool_inv cr prov ?H config {} (pool, q) \<and>
      (\<exists>pc. hm_get (cp_connections pool) a = Some pc \<and> po_conn pc = conn \<and> po_addr pc = addr)"
  proof (cases r)
    case (Some x)
    then have "x = (a, conn)" "w1 = (pool, q)" using run r by (auto simp: get_or_connect_def)
    moreover have "hm_ok (cp_connections (fst ?w))"
      using w pooled_ok_table by (fastforce simp: pool_inv_def split_beta)
    ultimately show ?thesis using r Some w1 reused_entry [OF _ assms(2)] pool_inv_mono [OF w1, of "{}"] by auto
  next
    case None
    then have c: "connect_pooled cr env kp addr (pool_run cr es' w1) = (Inr (a, conn), pool, q)"
      using run r by (simp add: get_or_connect_def)
    have "set (dialled env) \<subseteq> ?D - set (run_dials es')" using assms(3) by auto
    moreover have "pool_inv cr prov ?H config (?D - set (run_dials es')) (pool_run cr es' w1)"
      using assms(1,3) by (intro pool_run_inv [OF w1]) auto
    ultimately have "pool_inv cr prov ?H config (set (dialled env)) (pool_run cr es' w1)" by (metis pool_inv_mono)
    then have "pool_inv cr prov ?H config {} (pool, q)"
      using connect_pooled_inv [of cr prov ?H config "set (dialled env)" "pool_run cr es' w1" env kp addr] assms(2) c by simp
    then show ?thesis using connected_entry [OF c] by simp
  qed
  then obtain pc where pc: "hm_get (cp_connections pool) a = Some pc" "po_conn pc = conn" "po_addr pc = addr"
    and inv: "pool_inv cr prov ?H config {} (pool, q)" by blast
  obtain env' kp' pk sid ctx where o: "PConnect env' kp' addr \<in> ?H" "pe_dial env' = Inr conn"
      "verified_server cr (pe_establish env') kp' (pe_incoming env') a pk sid" "prov a pk = Inr ctx"
      "se_peer_agent_id (po_session pc) = Some a" "se_session_id (po_session pc) = Some sid"
      "se_authorization_context (po_session pc) = Some ctx"
    using pool_inv_entry(4) [OF inv pc(1)] pc(2,3) unfolding pool_origin_def server_entry_def by blast
  moreover have "a = sha256 cr pk" using o(3) by (auto simp: verified_server_def)
  ultimately show ?thesis using pc pool_inv_entry(1-3) [OF inv pc(1)] by blast
qed

text \<open>Example: the pool dials the agent with the second key pair.\<close>

definition example_pool_env :: "bytes \<Rightarrow> pool_env" where
  "example_pool_env incoming = \<lparr>pe_ord_evict = id, pe_now_evict = 30, pe_ord_find = id, pe_now_check = 31,
     pe_probe = \<lparr>so_opens = True, so_writes = True, so_reply = []\<rparr>, pe_now_reuse = 32, pe_dial = Inr 3,
     pe_establish = example_establish 1, pe_incoming = incoming, pe_writes = [], pe_ord_evict_late = id,
     pe_now_evict_late = 60, pe_ord_oldest = id, pe_now_insert = 61\<rparr>"

definition example_pool :: ConnectionPool where
  "example_pool = pool_with_auth_provider \<lparr>pf_max_size = 2, pf_idle_timeout = 60\<rparr> TestingAuthProvider_authorize"

lemma example_pool_connects:
  obtains incoming pool where
    "get_or_connect example_crypto (example_pool_env incoming) (example_keypair 1) (str ''quic://peer'')
       (pool_run example_crypto []) (pool_run example_crypto [] (example_pool, q)) =
     (Inr (sha256 example_crypto (kp_public_key (example_keypair 2)), 3), pool, q)"
proof -
  obtain incoming s p io' where
    e: "establish_session example_crypto (example_establish 1) (example_keypair 1) TestingAuthProvider_authorize True
       \<lparr>dr_recv = incoming, dr_writes = [], dr_sent = [], dr_cache = None\<rparr> = (Inr (s, p), io')"
    "pi_agent_id p = sha256 example_crypto (kp_public_key (example_keypair 2))"
    by (rule example_client_session)
  have "locked (reuse_pooled (example_pool_env incoming) (str ''quic://peer'') (cp_config example_pool)) (example_pool, q) =
      (None, example_pool, q)"
    by (simp add: locked_def reuse_pooled_def evict_idle_locked_def example_pool_def pool_with_auth_provider_def
        example_pool_env_def Let_def)
  moreover have "\<exists>pool. connect_pooled example_crypto (example_pool_env incoming) (example_keypair 1) (str ''quic://peer'')
      (example_pool, q) = (Inr (sha256 example_crypto (kp_public_key (example_keypair 2)), 3), pool, q)"
    by (simp add: connect_pooled_def example_pool_env_def example_pool_def pool_with_auth_provider_def e locked_def
        store_pooled_def evict_idle_locked_def make_pool_room_def Let_def)
  ultimately have "\<exists>pool. get_or_connect example_crypto (example_pool_env incoming) (example_keypair 1) (str ''quic://peer'')
       (pool_run example_crypto []) (pool_run example_crypto [] (example_pool, q)) =
     (Inr (sha256 example_crypto (kp_public_key (example_keypair 2)), 3), pool, q)" by (simp add: get_or_connect_def)
  then show thesis using that by blast
qed

theorem pool_connection_usable_witness:
  "\<exists>incoming pool q pc. get_or_connect example_crypto (example_pool_env incoming) (example_keypair 1) (str ''quic://peer'')
      (pool_run example_crypto []) (pool_run example_crypto [] (example_pool, \<lparr>q_streams = \<lambda>_. [], q_closed = \<lambda>_. None\<rparr>)) =
      (Inr (sha256 example_crypto (kp_public_key (example_keypair 2)), 3), pool, q) \<and>
    hm_get (cp_connections pool) (sha256 example_crypto (kp_public_key (example_keypair 2))) = Some pc \<and> po_conn pc = 3 \<and>
    q_closed q 3 = None \<and> se_state (po_session pc) = MessagingEnabled \<and> pool_len pool \<le> 2"
proof -
  let ?q = "\<lparr>q_streams = \<lambda>_. [], q_closed = \<lambda>_. None\<rparr> :: quic"
  obtain incoming pool where
    run: "get_or_connect example_crypto (example_pool_env incoming) (example_keypair 1) (str ''quic://peer'')
       (pool_run example_crypto []) (pool_run example_crypto [] (example_pool, ?q)) =
     (Inr (sha256 example_crypto (kp_public_key (example_keypair 2)), 3), pool, ?q)" by (rule example_pool_connects)
  have "orders_ok (example_pool_env incoming)"
    by (simp add: orders_ok_def example_pool_env_def iteration_order_def)
  moreover have "dialled (example_pool_env incoming) = [3]" by (simp add: dialled_def example_pool_env_def)
  ultimately have "\<exists>pc. hm_get (cp_connections pool) (sha256 example_crypto (kp_public_key (example_keypair 2))) = Some pc \<and>
      po_conn pc = 3 \<and> q_closed ?q 3 = None \<and> se_state (po_session pc) = MessagingEnabled \<and> pool_len pool \<le> 2"
    using pool_connection_usable [of "[]" "[]" "example_pool_env incoming" ?q, OF _ _ _ _ run [unfolded example_pool_def]]
    by (simp add: numeral_2_eq_2) blast
  with run show ?thesis by blast
qed

section \<open>Idle connections\<close>

lemma remove_and_close_effect:
  assumes "remove_and_close reason a (conns, q) = (conns', q')"
  shows "hm_get conns' b = (if b = a then None else hm_get conns b)"
    and "q_closed q' c = (if q_closed q c = None \<and> (\<exists>pc. hm_get conns a = Some pc \<and> po_conn pc = c)
      then Some (0, reason) else q_closed q c)"
    and "q_streams q' = q_streams q"
  using assms by (auto simp: remove_and_close_def hm.get_del quic_close_def split: option.splits if_splits)

lemma remove_all_effect:
  assumes "fold (remove_and_close reason) as (conns, q) = (conns', q')"
  shows "hm_get conns' b = (if b \<in> set as then None else hm_get conns b) \<and>
    q_closed q' c = (if q_closed q c = None \<and> (\<exists>a \<in> set as. \<exists>pc. hm_get conns a = Some pc \<and> po_conn pc = c)
      then Some (0, reason) else q_closed q c) \<and> q_streams q' = q_streams q"
  using assms
proof (induction as arbitrary: conns q)
  case (Cons a as)
  obtain conns1 q1 where 1: "remove_and_close reason a (conns, q) = (conns1, q1)"
    by (cases "remove_and_close reason a (conns, q)")
  have run: "fold (remove_and_close reason) as (conns1, q1) = (conns', q')" using Cons.prems 1 by simp
  note e = remove_and_close_effect [OF 1]
  have "hm_get conns' b = (if b \<in> set (a # as) then None else hm_get conns b)"
    using Cons.IH [OF run] by (simp add: e(1))
  moreover have "q_closed q' c = (if q_closed q c = None \<and> (\<exists>x \<in> set (a # as). \<exists>pc. hm_get conns x = Some pc \<and> po_conn pc = c)
      then Some (0, reason) else q_closed q c)"
  proof (cases "q_closed q c = None \<and> (\<exists>pc. hm_get conns a = Some pc \<and> po_conn pc = c)")
    case True
    then show ?thesis using Cons.IH [OF run] e(2) [of c] by simp
  next
    case False
    then have "q_closed q1 c = q_closed q c" using e(2) [of c] by auto
    then show ?thesis using Cons.IH [OF run] False by (auto simp: e(1))
  qed
  ultimately show ?case using Cons.IH [OF run] e(3) by simp
qed simp

text \<open>
  \<open>evict_idle\<close> removes exactly the connections that were not used for longer than the idle
  timeout and closes exactly them, returns their number, and leaves every other entry and every
  other connection as it was.
\<close>

lemma evict_idle_exact:
  assumes "iteration_order ord" and "hm_ok (cp_connections pool)"
    and "evict_idle ord now (pool, q) = (n, pool', q')"
  shows "n = length (filter (\<lambda>(_, pc). now - po_last_used pc > pf_idle_timeout (cp_config pool)) (cp_connections pool)) \<and>
    (\<forall>a. hm_get (cp_connections pool') a =
       (case hm_get (cp_connections pool) a of
          Some pc \<Rightarrow> if now - po_last_used pc > pf_idle_timeout (cp_config pool) then None else Some pc
        | None \<Rightarrow> None)) \<and>
    (\<forall>c. q_closed q' c =
       (if q_closed q c = None \<and> (\<exists>a pc. hm_get (cp_connections pool) a = Some pc \<and> po_conn pc = c \<and>
            now - po_last_used pc > pf_idle_timeout (cp_config pool))
        then Some (0, str ''idle timeout'') else q_closed q c)) \<and>
    q_streams q' = q_streams q"
proof -
  let ?idle = "\<lambda>(_ :: AgentId, pc). now - po_last_used pc > pf_idle_timeout (cp_config pool)"
  define keys where "keys = map fst (filter ?idle (ord (cp_connections pool)))"
  have mem: "a \<in> set keys \<longleftrightarrow> (\<exists>pc. hm_get (cp_connections pool) a = Some pc \<and> ?idle (a, pc))" for a
    using iteration_order_set [OF assms(1), of "cp_connections pool"] assms(2) by (force simp: keys_def hm_get_iff)
  have "mset (filter ?idle (ord (cp_connections pool))) = mset (filter ?idle (cp_connections pool))"
    using assms(1) by (simp add: iteration_order_def)
  then have n: "length keys = length (filter ?idle (cp_connections pool))"
    unfolding keys_def by (metis length_map size_mset)
  have run: "n = length keys" "fold (remove_and_close (str ''idle timeout'')) keys (cp_connections pool, q) = (cp_connections pool', q')"
    using assms(3) by (auto simp: evict_idle_def locked_def evict_idle_locked_def Let_def split_beta keys_def)
  note e = remove_all_effect [OF run(2)]
  show ?thesis
  proof (intro conjI allI)
    show "n = length (filter ?idle (cp_connections pool))" using n run(1) by simp
    show "hm_get (cp_connections pool') a =
       (case hm_get (cp_connections pool) a of
          Some pc \<Rightarrow> if now - po_last_used pc > pf_idle_timeout (cp_config pool) then None else Some pc
        | None \<Rightarrow> None)" for a
      using e [of a] mem [of a] by (auto split: option.split)
    show "q_closed q' c =
       (if q_closed q c = None \<and> (\<exists>a pc. hm_get (cp_connections pool) a = Some pc \<and> po_conn pc = c \<and>
            now - po_last_used pc > pf_idle_timeout (cp_config pool))
        then Some (0, str ''idle timeout'') else q_closed q c)" for c
    proof -
      have "(\<exists>a \<in> set keys. \<exists>pc. hm_get (cp_connections pool) a = Some pc \<and> po_conn pc = c) \<longleftrightarrow>
          (\<exists>a pc. hm_get (cp_connections pool) a = Some pc \<and> po_conn pc = c \<and>
            now - po_last_used pc > pf_idle_timeout (cp_config pool))"
        unfolding Bex_def mem by fastforce
      then show ?thesis using e [of _ c] by simp
    qed
    show "q_streams q' = q_streams q" using e by simp
  qed
qed

text \<open>Example: of two pooled connections, one was used within the timeout.\<close>

definition example_pooled :: "nat \<Rightarrow> instant \<Rightarrow> PooledConnection" where
  "example_pooled conn used = \<lparr>po_conn = conn, po_session = Session_new 0, po_last_used = used, po_addr = str ''quic://peer''\<rparr>"

definition example_full :: ConnectionPool where
  "example_full = example_pool\<lparr>cp_connections := [([1], example_pooled 3 10), ([2], example_pooled 4 90)]\<rparr>"

lemma evict_idle_exact_example:
  "\<exists>pool' q'. evict_idle id 100 (example_full, \<lparr>q_streams = \<lambda>_. [], q_closed = \<lambda>_. None\<rparr>) = (1, pool', q') \<and>
    hm_get (cp_connections pool') [1] = None \<and> hm_get (cp_connections pool') [2] = Some (example_pooled 4 90) \<and>
    q_closed q' 3 = Some (0, str ''idle timeout'') \<and> q_closed q' 4 = None"
proof -
  let ?q = "\<lparr>q_streams = \<lambda>_. [], q_closed = \<lambda>_. None\<rparr> :: quic"
  obtain n pool' q' where run: "evict_idle id 100 (example_full, ?q) = (n, pool', q')"
    by (cases "evict_idle id 100 (example_full, ?q)")
  have full: "cp_connections example_full = [([1], example_pooled 3 10), ([2], example_pooled 4 90)]"
      "pf_idle_timeout (cp_config example_full) = 60"
    by (simp_all add: example_full_def example_pool_def pool_with_auth_provider_def)
  have "iteration_order id" "hm_ok (cp_connections example_full)"
    by (simp_all add: iteration_order_def full hm_ok_def)
  note e = evict_idle_exact [OF this run]
  have "n = 1" "hm_get (cp_connections pool') [1] = None" "hm_get (cp_connections pool') [2] = Some (example_pooled 4 90)"
    using e by (simp_all add: full hm_get_def example_pooled_def)
  moreover have "q_closed q' 3 = Some (0, str ''idle timeout'')"
  proof -
    have "\<exists>a pc. hm_get (cp_connections example_full) a = Some pc \<and> po_conn pc = 3 \<and>
        100 - po_last_used pc > pf_idle_timeout (cp_config example_full)"
      by (intro exI [of _ "[1]"] exI [of _ "example_pooled 3 10"]) (simp add: full hm_get_def example_pooled_def)
    then show ?thesis using e by simp
  qed
  moreover have "q_closed q' 4 = None"
    using e by (auto simp: full hm_get_def example_pooled_def split: if_splits)
  ultimately show ?thesis using run by blast
qed

end
