(* ===== verification/Plan.thy ===== *)
theory Plan
  imports Cbor_Message Crypto
begin

text \<open>
  Execution plans, \<open>crates/aafp-sdk/src/execution/plan.rs\<close>: tasks with their resources and status,
  plans as tasks and dependency edges, and their CBOR forms. All errors of the decoders are
  \<open>SdkError::Messaging\<close> with a text; the texts are enumerated by \<open>plan_error\<close>. The hash is the
  argument of the definitions that derive an identifier.

  The message types are instances of the interface \<open>cbor_message\<close>; the round trip of a whole plan is
  the theorem of this theory. The graph algorithms on plans are in the theory \<open>Plan_Graph\<close>.
\<close>

section \<open>Types\<close>

datatype plan_error =
    PlMissing string string
  | PlNotUint string string
  | PlOverflow string string
  | PlBadLength string string nat
  | PlUnknownVariant string Value
  | PlInvalidEdge
  | PlEdgeFromBounds nat nat
  | PlEdgeToBounds nat nat
  | PlCycle nat nat

type_synonym PlanId = bytes
type_synonym TaskId = bytes

definition PlanId_zero :: PlanId where
  "PlanId_zero = replicate 32 0"

definition TaskId_from_seed :: "crypto \<Rightarrow> bytes \<Rightarrow> TaskId" where
  "TaskId_from_seed cr seed = sha256 cr seed"

datatype TaskStatus =
    Pending
  | Assigned
  | Running
  | Completed bytes
  | Failed ustring
  | Cancelled

definition TaskStatus_is_terminal :: "TaskStatus \<Rightarrow> bool" where
  "TaskStatus_is_terminal s = (case s of Completed _ \<Rightarrow> True | Failed _ \<Rightarrow> True | Cancelled \<Rightarrow> True | _ \<Rightarrow> False)"

definition TaskStatus_variant_tag :: "TaskStatus \<Rightarrow> u64" where
  "TaskStatus_variant_tag s =
     (case s of Pending \<Rightarrow> 0 | Assigned \<Rightarrow> 1 | Running \<Rightarrow> 2 | Completed _ \<Rightarrow> 3 | Failed _ \<Rightarrow> 4 | Cancelled \<Rightarrow> 5)"

definition TaskStatus_to_cbor :: "TaskStatus \<Rightarrow> Value" where
  "TaskStatus_to_cbor s =
     int_map ([(1, Unsigned (TaskStatus_variant_tag s))] @
       (case s of
          Completed data \<Rightarrow> [(2, ByteString data)]
        | Failed msg \<Rightarrow> [(2, TextString msg)]
        | _ \<Rightarrow> []))"

definition TaskStatus_from_cbor :: "Value \<Rightarrow> plan_error + TaskStatus" where
  "TaskStatus_from_cbor val =
     bind_result
       (case int_map_get val 1 of
          Some (Unsigned n) \<Rightarrow> Inr n
        | _ \<Rightarrow> Inl (PlMissing ''TaskStatus'' ''variant tag'')) (\<lambda>tag.
     if tag = 0 then Inr Pending
     else if tag = 1 then Inr Assigned
     else if tag = 2 then Inr Running
     else if tag = 3 then
       (case int_map_get val 2 of
          Some (ByteString b) \<Rightarrow> Inr (Completed b)
        | _ \<Rightarrow> Inl (PlMissing ''TaskStatus::Completed'' ''output''))
     else if tag = 4 then
       (case int_map_get val 2 of
          Some (TextString s) \<Rightarrow> Inr (Failed s)
        | _ \<Rightarrow> Inl (PlMissing ''TaskStatus::Failed'' ''message''))
     else if tag = 5 then Inr Cancelled
     else Inl (PlUnknownVariant ''TaskStatus'' (Unsigned tag)))"

datatype DependencyType = DataDependency | ControlDependency | ResourceDependency

definition DependencyType_variant_tag :: "DependencyType \<Rightarrow> u64" where
  "DependencyType_variant_tag d =
     (case d of DataDependency \<Rightarrow> 0 | ControlDependency \<Rightarrow> 1 | ResourceDependency \<Rightarrow> 2)"

definition DependencyType_to_cbor :: "DependencyType \<Rightarrow> Value" where
  "DependencyType_to_cbor d = Unsigned (DependencyType_variant_tag d)"

definition DependencyType_from_cbor :: "Value \<Rightarrow> plan_error + DependencyType" where
  "DependencyType_from_cbor val =
     (if val = Unsigned 0 then Inr DataDependency
      else if val = Unsigned 1 then Inr ControlDependency
      else if val = Unsigned 2 then Inr ResourceDependency
      else Inl (PlUnknownVariant ''DependencyType'' val))"

section \<open>Resources\<close>

record GpuRequirement =
  min_vram_mb :: u32
  compute_capability :: "ustring option"

definition GpuRequirement_to_cbor :: "GpuRequirement \<Rightarrow> Value" where
  "GpuRequirement_to_cbor g =
     int_map ([(1, Unsigned (ucast (min_vram_mb g)))] @
       (case compute_capability g of Some cc \<Rightarrow> [(2, TextString cc)] | None \<Rightarrow> []))"

definition GpuRequirement_from_cbor :: "Value \<Rightarrow> plan_error + GpuRequirement" where
  "GpuRequirement_from_cbor val =
     bind_result
       (case int_map_get val 1 of
          Some (Unsigned n) \<Rightarrow>
            if unat n > 2 ^ 32 - 1 then Inl (PlOverflow ''GpuRequirement'' ''min_vram_mb'') else Inr (ucast n)
        | _ \<Rightarrow> Inl (PlMissing ''GpuRequirement'' ''min_vram_mb'')) (\<lambda>vram.
     Inr \<lparr>min_vram_mb = vram,
       compute_capability = (case int_map_get val 2 of Some (TextString s) \<Rightarrow> Some s | _ \<Rightarrow> None)\<rparr>)"

record ResourceRequirements =
  cpu_cores :: "u32 option"
  memory_mb :: "u32 option"
  gpu :: "GpuRequirement option"
  disk_mb :: "u64 option"
  network :: bool

definition ResourceRequirements_default :: ResourceRequirements where
  "ResourceRequirements_default =
     \<lparr>cpu_cores = None, memory_mb = None, gpu = None, disk_mb = None, network = False\<rparr>"

definition ResourceRequirements_to_cbor :: "ResourceRequirements \<Rightarrow> Value" where
  "ResourceRequirements_to_cbor r =
     int_map ((case cpu_cores r of Some cpu \<Rightarrow> [(1, Unsigned (ucast cpu))] | None \<Rightarrow> []) @
       (case memory_mb r of Some mem \<Rightarrow> [(2, Unsigned (ucast mem))] | None \<Rightarrow> []) @
       (case gpu r of Some g \<Rightarrow> [(3, GpuRequirement_to_cbor g)] | None \<Rightarrow> []) @
       (case disk_mb r of Some disk \<Rightarrow> [(4, Unsigned disk)] | None \<Rightarrow> []) @
       (if network r then [(5, Bool True)] else []))"

definition opt_u32 :: "string \<Rightarrow> string \<Rightarrow> Value option \<Rightarrow> plan_error + u32 option" where
  "opt_u32 ty field v =
     (case v of
        Some (Unsigned n) \<Rightarrow> if unat n > 2 ^ 32 - 1 then Inl (PlOverflow ty field) else Inr (Some (ucast n))
      | _ \<Rightarrow> Inr None)"

definition ResourceRequirements_from_cbor :: "Value \<Rightarrow> plan_error + ResourceRequirements" where
  "ResourceRequirements_from_cbor val =
     bind_result (opt_u32 ''ResourceRequirements'' ''cpu_cores'' (int_map_get val 1)) (\<lambda>cpu.
     bind_result (opt_u32 ''ResourceRequirements'' ''memory_mb'' (int_map_get val 2)) (\<lambda>mem.
     bind_result
       (case int_map_get val 3 of
          Some v \<Rightarrow> bind_result (GpuRequirement_from_cbor v) (\<lambda>g. Inr (Some g))
        | None \<Rightarrow> Inr None) (\<lambda>g.
     Inr \<lparr>cpu_cores = cpu, memory_mb = mem, gpu = g,
       disk_mb = (case int_map_get val 4 of Some (Unsigned n) \<Rightarrow> Some n | _ \<Rightarrow> None),
       network = (int_map_get val 5 = Some (Bool True))\<rparr>)))"

definition max_option :: "'a::len word option \<Rightarrow> 'a word option \<Rightarrow> 'a word option" where
  "max_option existing req =
     (case (case existing of None \<Rightarrow> req | Some e \<Rightarrow> Some (max e (case req of None \<Rightarrow> 0 | Some r \<Rightarrow> r))) of
        None \<Rightarrow> req | Some x \<Rightarrow> Some x)"

definition aggregate_step :: "ResourceRequirements \<Rightarrow> ResourceRequirements \<Rightarrow> ResourceRequirements" where
  "aggregate_step req result =
     \<lparr>cpu_cores = max_option (cpu_cores result) (cpu_cores req),
      memory_mb = max_option (memory_mb result) (memory_mb req),
      gpu = (case (gpu result, gpu req) of
          (Some a, Some b) \<Rightarrow> if min_vram_mb b > min_vram_mb a then Some b else Some a
        | (None, Some b) \<Rightarrow> Some b
        | _ \<Rightarrow> gpu result),
      disk_mb = max_option (disk_mb result) (disk_mb req),
      network = (network result \<or> network req)\<rparr>"

definition ResourceRequirements_aggregate :: "ResourceRequirements list \<Rightarrow> ResourceRequirements" where
  "ResourceRequirements_aggregate requirements = fold aggregate_step requirements ResourceRequirements_default"

section \<open>Tasks\<close>

record TaskNode =
  tn_id :: TaskId
  tn_capability :: ustring
  tn_input :: bytes
  tn_estimated_duration_ms :: u64
  tn_resources :: ResourceRequirements
  tn_assigned_agent :: "bytes option"
  tn_status :: TaskStatus
  tn_retry_count :: u32

definition TaskNode_new :: "crypto \<Rightarrow> ustring \<Rightarrow> bytes \<Rightarrow> u64 \<Rightarrow> TaskNode" where
  "TaskNode_new cr capability input duration =
     (let seed = capability @ input @ u64_to_be_bytes duration in
      \<lparr>tn_id = TaskId_from_seed cr seed, tn_capability = capability, tn_input = input,
       tn_estimated_duration_ms = duration, tn_resources = ResourceRequirements_default,
       tn_assigned_agent = None, tn_status = Pending, tn_retry_count = 0\<rparr>)"

definition TaskNode_to_cbor :: "TaskNode \<Rightarrow> Value" where
  "TaskNode_to_cbor t =
     int_map [(1, ByteString (tn_id t)), (2, TextString (tn_capability t)), (3, ByteString (tn_input t)),
       (4, Unsigned (tn_estimated_duration_ms t)), (5, ResourceRequirements_to_cbor (tn_resources t)),
       (6, case tn_assigned_agent t of Some agent \<Rightarrow> ByteString agent | None \<Rightarrow> Null),
       (7, TaskStatus_to_cbor (tn_status t)), (8, Unsigned (ucast (tn_retry_count t)))]"

definition bytes_32 :: "string \<Rightarrow> string \<Rightarrow> bytes \<Rightarrow> plan_error + bytes" where
  "bytes_32 ty field b = (if length b \<noteq> 32 then Inl (PlBadLength ty field (length b)) else Inr b)"

definition req_bytes_32 :: "string \<Rightarrow> string \<Rightarrow> Value option \<Rightarrow> plan_error + bytes" where
  "req_bytes_32 ty field v =
     (case v of Some (ByteString b) \<Rightarrow> bytes_32 ty field b | _ \<Rightarrow> Inl (PlMissing ty field))"

definition req_text :: "string \<Rightarrow> string \<Rightarrow> Value option \<Rightarrow> plan_error + ustring" where
  "req_text ty field v = (case v of Some (TextString s) \<Rightarrow> Inr s | _ \<Rightarrow> Inl (PlMissing ty field))"

definition TaskNode_from_cbor :: "Value \<Rightarrow> plan_error + TaskNode" where
  "TaskNode_from_cbor val =
     bind_result (req_bytes_32 ''TaskNode'' ''id'' (int_map_get val 1)) (\<lambda>task_id.
     bind_result (req_text ''TaskNode'' ''capability'' (int_map_get val 2)) (\<lambda>capability.
     bind_result
       (case int_map_get val 3 of Some (ByteString b) \<Rightarrow> Inr b | _ \<Rightarrow> Inl (PlMissing ''TaskNode'' ''input'')) (\<lambda>input.
     bind_result
       (case int_map_get val 4 of Some (Unsigned n) \<Rightarrow> Inr n
        | _ \<Rightarrow> Inl (PlMissing ''TaskNode'' ''estimated_duration_ms'')) (\<lambda>duration.
     bind_result
       (case int_map_get val 5 of Some v \<Rightarrow> ResourceRequirements_from_cbor v
        | None \<Rightarrow> Inr ResourceRequirements_default) (\<lambda>resources.
     bind_result
       (case int_map_get val 6 of
          Some (ByteString b) \<Rightarrow> bind_result (bytes_32 ''TaskNode'' ''assigned_agent'' b) (\<lambda>a. Inr (Some a))
        | _ \<Rightarrow> Inr None) (\<lambda>agent.
     bind_result
       (case int_map_get val 7 of Some v \<Rightarrow> TaskStatus_from_cbor v | None \<Rightarrow> Inr Pending) (\<lambda>status.
     bind_result
       (case int_map_get val 8 of
          Some (Unsigned n) \<Rightarrow> if unat n > 2 ^ 32 - 1 then Inl (PlOverflow ''TaskNode'' ''retry_count'') else Inr (ucast n)
        | _ \<Rightarrow> Inr 0) (\<lambda>retries.
     Inr \<lparr>tn_id = task_id, tn_capability = capability, tn_input = input,
       tn_estimated_duration_ms = duration, tn_resources = resources, tn_assigned_agent = agent,
       tn_status = status, tn_retry_count = retries\<rparr>))))))))"

section \<open>Plans\<close>

type_synonym edge = "nat \<times> nat \<times> DependencyType"

record ExecutionPlan =
  pl_id :: PlanId
  pl_goal :: ustring
  pl_tasks :: "TaskNode list"
  pl_edges :: "edge list"
  pl_estimated_cost :: u64
  pl_estimated_latency_ms :: u64
  pl_resource_requirements :: ResourceRequirements
  pl_created_at :: u64
  pl_version :: u32

definition edge_to_cbor :: "edge \<Rightarrow> Value" where
  "edge_to_cbor = (\<lambda>(from, to, dep).
     Array [Unsigned (word_of_nat from), Unsigned (word_of_nat to), DependencyType_to_cbor dep])"

definition ExecutionPlan_content_cbor :: "ExecutionPlan \<Rightarrow> Value" where
  "ExecutionPlan_content_cbor p =
     int_map [(2, TextString (pl_goal p)), (3, Array (map TaskNode_to_cbor (pl_tasks p))),
       (4, Array (map edge_to_cbor (pl_edges p))), (5, Unsigned (pl_estimated_cost p)),
       (6, Unsigned (pl_estimated_latency_ms p)),
       (7, ResourceRequirements_to_cbor (pl_resource_requirements p)),
       (9, Unsigned (ucast (pl_version p)))]"

definition ExecutionPlan_to_cbor :: "ExecutionPlan \<Rightarrow> Value" where
  "ExecutionPlan_to_cbor p =
     int_map [(1, ByteString (pl_id p)), (2, TextString (pl_goal p)),
       (3, Array (map TaskNode_to_cbor (pl_tasks p))), (4, Array (map edge_to_cbor (pl_edges p))),
       (5, Unsigned (pl_estimated_cost p)), (6, Unsigned (pl_estimated_latency_ms p)),
       (7, ResourceRequirements_to_cbor (pl_resource_requirements p)),
       (8, Unsigned (pl_created_at p)), (9, Unsigned (ucast (pl_version p)))]"

definition edge_from_cbor :: "Value \<Rightarrow> plan_error + edge" where
  "edge_from_cbor item =
     (case item of
        Array [from, to, dep] \<Rightarrow>
          bind_result (case from of Unsigned n \<Rightarrow> Inr (unat n) | _ \<Rightarrow> Inl (PlNotUint ''ExecutionPlan'' ''edge from'')) (\<lambda>f.
          bind_result (case to of Unsigned n \<Rightarrow> Inr (unat n) | _ \<Rightarrow> Inl (PlNotUint ''ExecutionPlan'' ''edge to'')) (\<lambda>t.
          bind_result (DependencyType_from_cbor dep) (\<lambda>d. Inr (f, t, d))))
      | _ \<Rightarrow> Inl PlInvalidEdge)"

definition uint_or :: "u64 \<Rightarrow> string \<Rightarrow> Value option \<Rightarrow> plan_error + u64" where
  "uint_or d field v =
     (case v of Some (Unsigned n) \<Rightarrow> Inr n | None \<Rightarrow> Inr d | _ \<Rightarrow> Inl (PlNotUint ''ExecutionPlan'' field))"

definition ExecutionPlan_from_cbor :: "Value \<Rightarrow> plan_error + ExecutionPlan" where
  "ExecutionPlan_from_cbor val =
     bind_result (req_bytes_32 ''ExecutionPlan'' ''id'' (int_map_get val 1)) (\<lambda>plan_id.
     bind_result (req_text ''ExecutionPlan'' ''goal'' (int_map_get val 2)) (\<lambda>goal.
     bind_result
       (case int_map_get val 3 of Some (Array arr) \<Rightarrow> decode_all TaskNode_from_cbor arr
        | _ \<Rightarrow> Inl (PlMissing ''ExecutionPlan'' ''tasks'')) (\<lambda>tasks.
     bind_result
       (case int_map_get val 4 of Some (Array arr) \<Rightarrow> decode_all edge_from_cbor arr
        | _ \<Rightarrow> Inl (PlMissing ''ExecutionPlan'' ''edges'')) (\<lambda>edges.
     bind_result (uint_or 0 ''estimated_cost'' (int_map_get val 5)) (\<lambda>cost.
     bind_result (uint_or 0 ''estimated_latency_ms'' (int_map_get val 6)) (\<lambda>latency.
     bind_result
       (case int_map_get val 7 of Some v \<Rightarrow> ResourceRequirements_from_cbor v
        | None \<Rightarrow> Inr ResourceRequirements_default) (\<lambda>resources.
     bind_result (uint_or 0 ''created_at'' (int_map_get val 8)) (\<lambda>created.
     bind_result
       (bind_result (uint_or 1 ''version'' (int_map_get val 9)) (\<lambda>n.
          if unat n > 2 ^ 32 - 1 then Inl (PlOverflow ''ExecutionPlan'' ''version'') else Inr (ucast n))) (\<lambda>version.
     Inr \<lparr>pl_id = plan_id, pl_goal = goal, pl_tasks = tasks, pl_edges = edges,
       pl_estimated_cost = cost, pl_estimated_latency_ms = latency, pl_resource_requirements = resources,
       pl_created_at = created, pl_version = version\<rparr>)))))))))"

section \<open>Round trip\<close>

definition TaskStatus_ok :: "TaskStatus \<Rightarrow> bool" where
  "TaskStatus_ok s = (case s of Failed msg \<Rightarrow> utf8_valid msg | _ \<Rightarrow> True)"

definition Gpu_ok :: "GpuRequirement \<Rightarrow> bool" where
  "Gpu_ok g = (case compute_capability g of Some cc \<Rightarrow> utf8_valid cc | None \<Rightarrow> True)"

definition Resources_ok :: "ResourceRequirements \<Rightarrow> bool" where
  "Resources_ok r = (case gpu r of Some g \<Rightarrow> Gpu_ok g | None \<Rightarrow> True)"

definition TaskNode_ok :: "TaskNode \<Rightarrow> bool" where
  "TaskNode_ok t \<longleftrightarrow> length (tn_id t) = 32 \<and> utf8_valid (tn_capability t) \<and> Resources_ok (tn_resources t) \<and>
     (case tn_assigned_agent t of Some a \<Rightarrow> length a = 32 | None \<Rightarrow> True) \<and> TaskStatus_ok (tn_status t)"

definition edge_ok :: "edge \<Rightarrow> bool" where
  "edge_ok = (\<lambda>(from, to, _). from \<le> USIZE_MAX \<and> to \<le> USIZE_MAX)"

definition ExecutionPlan_ok :: "ExecutionPlan \<Rightarrow> bool" where
  "ExecutionPlan_ok p \<longleftrightarrow> length (pl_id p) = 32 \<and> utf8_valid (pl_goal p) \<and>
     list_all TaskNode_ok (pl_tasks p) \<and> list_all edge_ok (pl_edges p) \<and>
     Resources_ok (pl_resource_requirements p)"

text \<open>The values, at any depth the plan uses, and reading them back.\<close>

lemma TaskStatus_value_ok: "TaskStatus_ok s \<Longrightarrow> d < 99 \<Longrightarrow> value_ok d (TaskStatus_to_cbor s)"
  by (cases s) (simp_all add: TaskStatus_to_cbor_def TaskStatus_ok_def int_map_def)

lemma TaskStatus_from_to: "TaskStatus_from_cbor (canon (TaskStatus_to_cbor s)) = Inr s"
  by (cases s) (simp_all add: TaskStatus_from_cbor_def TaskStatus_to_cbor_def TaskStatus_variant_tag_def
      int_map_get_canon)

lemma DependencyType_from_to [simp]: "DependencyType_from_cbor (canon (DependencyType_to_cbor d)) = Inr d"
  by (cases d) (simp_all add: DependencyType_from_cbor_def DependencyType_to_cbor_def DependencyType_variant_tag_def)

lemma Gpu_value_ok: "Gpu_ok g \<Longrightarrow> d < 99 \<Longrightarrow> value_ok d (GpuRequirement_to_cbor g)"
  by (cases "compute_capability g") (simp_all add: GpuRequirement_to_cbor_def Gpu_ok_def int_map_def)

lemma Gpu_from_to: "GpuRequirement_from_cbor (canon (GpuRequirement_to_cbor g)) = Inr g"
  using unat_u32_le [of "min_vram_mb g"]
  by (cases "compute_capability g")
    (simp_all add: GpuRequirement_from_cbor_def GpuRequirement_to_cbor_def int_map_get_canon)

lemma Resources_value_ok: "Resources_ok r \<Longrightarrow> d < 98 \<Longrightarrow> value_ok d (ResourceRequirements_to_cbor r)"
  by (cases "cpu_cores r"; cases "memory_mb r"; cases "gpu r"; cases "disk_mb r"; cases "network r")
    (simp_all add: ResourceRequirements_to_cbor_def Resources_ok_def int_map_def Gpu_value_ok)

lemma Resources_from_to: "ResourceRequirements_from_cbor (canon (ResourceRequirements_to_cbor r)) = Inr r"
  using unat_u32_le
  by (cases "cpu_cores r"; cases "memory_mb r"; cases "gpu r"; cases "disk_mb r"; cases "network r")
    (simp_all add: ResourceRequirements_from_cbor_def ResourceRequirements_to_cbor_def opt_u32_def
      int_map_get_canon Gpu_from_to not_less)

lemma TaskNode_value_ok: "TaskNode_ok t \<Longrightarrow> d < 97 \<Longrightarrow> value_ok d (TaskNode_to_cbor t)"
  by (cases "tn_assigned_agent t")
    (simp_all add: TaskNode_to_cbor_def TaskNode_ok_def int_map_def Resources_value_ok TaskStatus_value_ok)

lemma TaskNode_from_to: "TaskNode_ok t \<Longrightarrow> TaskNode_from_cbor (canon (TaskNode_to_cbor t)) = Inr t"
  using unat_u32_le [of "tn_retry_count t"]
  by (cases "tn_assigned_agent t")
    (simp_all add: TaskNode_from_cbor_def TaskNode_to_cbor_def TaskNode_ok_def req_bytes_32_def bytes_32_def
      req_text_def int_map_get_canon Resources_from_to TaskStatus_from_to)

lemma edge_value_ok: "d < 99 \<Longrightarrow> value_ok d (edge_to_cbor e)"
  by (cases e) (simp add: edge_to_cbor_def DependencyType_to_cbor_def)

lemma edge_from_to: "edge_ok e \<Longrightarrow> edge_from_cbor (canon (edge_to_cbor e)) = Inr e"
  by (cases e) (simp add: edge_from_cbor_def edge_to_cbor_def edge_ok_def unsigned_of_nat take_bit_nat_eq_self)

interpretation task_message: cbor_message TaskNode_to_cbor TaskNode_from_cbor TaskNode_ok id
  by unfold_locales (simp_all add: TaskNode_value_ok TaskNode_from_to)

interpretation plan_message: cbor_message ExecutionPlan_to_cbor ExecutionPlan_from_cbor ExecutionPlan_ok id
proof
  fix p
  assume p: "ExecutionPlan_ok p"
  then show "value_ok 0 (ExecutionPlan_to_cbor p)"
    by (auto simp: ExecutionPlan_to_cbor_def ExecutionPlan_ok_def int_map_def list_all_iff
        Resources_value_ok TaskNode_value_ok edge_value_ok)
  have "decode_all TaskNode_from_cbor (map (canon \<circ> TaskNode_to_cbor) (pl_tasks p)) = Inr (pl_tasks p)"
    "decode_all edge_from_cbor (map (canon \<circ> edge_to_cbor) (pl_edges p)) = Inr (pl_edges p)"
    using p by (auto simp: ExecutionPlan_ok_def list_all_iff TaskNode_from_to edge_from_to intro!: decode_all_map)
  then show "ExecutionPlan_from_cbor (canon (ExecutionPlan_to_cbor p)) = Inr (id p)"
    using p unat_u32_le [of "pl_version p"]
    by (simp add: ExecutionPlan_from_cbor_def ExecutionPlan_to_cbor_def ExecutionPlan_ok_def
        req_bytes_32_def bytes_32_def req_text_def uint_or_def int_map_get_canon Resources_from_to)
qed

definition example_task :: "u64 \<Rightarrow> TaskNode" where
  "example_task d = \<lparr>tn_id = replicate 32 7, tn_capability = str ''c'', tn_input = [], tn_estimated_duration_ms = d,
     tn_resources = ResourceRequirements_default, tn_assigned_agent = None, tn_status = Pending, tn_retry_count = 0\<rparr>"

definition example_plan :: ExecutionPlan where
  "example_plan = \<lparr>pl_id = PlanId_zero, pl_goal = str ''g'',
     pl_tasks = [example_task 10, example_task 20, example_task 5, example_task 1],
     pl_edges = [(0, 1, DataDependency), (0, 2, ControlDependency), (1, 3, DataDependency), (2, 3, DataDependency)],
     pl_estimated_cost = 36, pl_estimated_latency_ms = 31, pl_resource_requirements = ResourceRequirements_default,
     pl_created_at = 0, pl_version = 1\<rparr>"

lemma example_plan_ok: "ExecutionPlan_ok example_plan"
proof -
  have "utf8_valid (str ''g'')" "utf8_valid (str ''c'')" by code_simp+
  then show ?thesis
    by (simp add: ExecutionPlan_ok_def TaskNode_ok_def TaskStatus_ok_def edge_ok_def Resources_ok_def
        example_plan_def example_task_def PlanId_zero_def ResourceRequirements_default_def)
qed

section \<open>Decoded plans\<close>

lemma TaskStatus_decoded: "TaskStatus_from_cbor val = Inr s \<Longrightarrow> texts_ok val \<Longrightarrow> TaskStatus_ok s"
  by (auto simp: TaskStatus_from_cbor_def TaskStatus_ok_def bind_result_Inr_iff
      dest!: int_map_get_texts split: option.splits Value.splits if_splits)

lemma Gpu_decoded: "GpuRequirement_from_cbor val = Inr g \<Longrightarrow> texts_ok val \<Longrightarrow> Gpu_ok g"
  by (auto simp: GpuRequirement_from_cbor_def Gpu_ok_def bind_result_Inr_iff
      dest!: int_map_get_texts [of val 2] split: option.splits Value.splits if_splits)

lemma Resources_decoded: "ResourceRequirements_from_cbor val = Inr r \<Longrightarrow> texts_ok val \<Longrightarrow> Resources_ok r"
  by (auto simp: ResourceRequirements_from_cbor_def Resources_ok_def bind_result_Inr_iff
      dest: Gpu_decoded int_map_get_texts split: option.splits)

lemma Resources_default_ok: "Resources_ok ResourceRequirements_default"
  by (simp add: Resources_ok_def ResourceRequirements_default_def)

lemma req_bytes_32_Inr: "req_bytes_32 ty field v = Inr b \<longleftrightarrow> v = Some (ByteString b) \<and> length b = 32"
  by (auto simp: req_bytes_32_def bytes_32_def split: option.splits Value.splits)

lemma req_text_Inr: "req_text ty field v = Inr s \<longleftrightarrow> v = Some (TextString s)"
  by (auto simp: req_text_def split: option.splits Value.splits)

lemma resources_field_decoded:
  "(case v of Some w \<Rightarrow> ResourceRequirements_from_cbor w | None \<Rightarrow> Inr ResourceRequirements_default) = Inr r \<Longrightarrow>
     pred_option texts_ok v \<Longrightarrow> Resources_ok r"
  by (cases v) (auto simp: Resources_default_ok Resources_decoded)

lemma status_field_decoded:
  "(case v of Some w \<Rightarrow> TaskStatus_from_cbor w | None \<Rightarrow> Inr Pending) = Inr s \<Longrightarrow>
     pred_option texts_ok v \<Longrightarrow> TaskStatus_ok s"
  using TaskStatus_decoded by (cases v) (auto simp: TaskStatus_ok_def [of Pending])

lemma agent_field_decoded:
  "(case v of Some (ByteString b) \<Rightarrow> bind_result (bytes_32 ty field b) (\<lambda>a. Inr (Some a)) | _ \<Rightarrow> Inr None) = Inr a \<Longrightarrow>
     (case a of Some b \<Rightarrow> length b = 32 | None \<Rightarrow> True)"
  by (auto simp: bytes_32_def bind_result_Inr_iff split: option.splits Value.splits if_splits)

lemma field_texts: "texts_ok val \<Longrightarrow> pred_option texts_ok (int_map_get val k)"
  using int_map_get_texts by (cases "int_map_get val k") auto

lemma TaskNode_decoded:
  assumes "TaskNode_from_cbor val = Inr t" and "texts_ok val"
  shows "TaskNode_ok t"
proof -
  note field = field_texts [OF assms(2)]
  have "\<exists>i c inp d r a st n. int_map_get val 1 = Some (ByteString i) \<and> length i = 32 \<and>
      int_map_get val 2 = Some (TextString c) \<and>
      (case int_map_get val 5 of Some v \<Rightarrow> ResourceRequirements_from_cbor v
        | None \<Rightarrow> Inr ResourceRequirements_default) = Inr r \<and>
      (case int_map_get val 6 of
          Some (ByteString b) \<Rightarrow> bind_result (bytes_32 ''TaskNode'' ''assigned_agent'' b) (\<lambda>a. Inr (Some a))
        | _ \<Rightarrow> Inr None) = Inr a \<and>
      (case int_map_get val 7 of Some v \<Rightarrow> TaskStatus_from_cbor v | None \<Rightarrow> Inr Pending) = Inr st \<and>
      t = \<lparr>tn_id = i, tn_capability = c, tn_input = inp, tn_estimated_duration_ms = d, tn_resources = r,
        tn_assigned_agent = a, tn_status = st, tn_retry_count = n\<rparr>"
    using assms(1) unfolding TaskNode_from_cbor_def bind_result_Inr_iff req_bytes_32_Inr req_text_Inr sum.inject
    by (elim exE conjE) (intro exI conjI, assumption+, erule sym)
  then show ?thesis
    using resources_field_decoded [OF _ field [of 5]] agent_field_decoded [where v = "int_map_get val 6"]
      status_field_decoded [OF _ field [of 7]] field [of 2]
    by (elim exE conjE) (simp add: TaskNode_ok_def)
qed

lemma decode_all_wf:
  "decode_all f vs = Inr xs \<Longrightarrow> (\<And>v x. v \<in> set vs \<Longrightarrow> f v = Inr x \<Longrightarrow> P x) \<Longrightarrow> list_all P xs"
proof (induction vs arbitrary: xs)
  case (Cons v vs)
  then show ?case by (fastforce simp: bind_result_Inr_iff)
qed simp

lemma edge_decoded: "edge_from_cbor v = Inr e \<Longrightarrow> edge_ok e"
proof -
  have "unat (n :: u64) \<le> USIZE_MAX" for n using unat_less [of n] by simp
  then show "edge_from_cbor v = Inr e \<Longrightarrow> edge_ok e"
    by (auto simp: edge_from_cbor_def edge_ok_def bind_result_Inr_iff split: Value.splits list.splits)
qed

text \<open>Every plan that is decoded from bytes is well formed: identifiers of 32 bytes, UTF-8 texts, edge indices of machine size.\<close>

lemma decoded_plan_ok:
  assumes "decode data = Inr (val, n)" and "ExecutionPlan_from_cbor val = Inr p"
  shows "ExecutionPlan_ok p"
proof -
  have texts: "texts_ok val" using assms(1) by (rule decode_texts)
  note field = field_texts [OF texts]
  have tasks: "list_all TaskNode_ok ts"
    if "(case int_map_get val 3 of Some (Array arr) \<Rightarrow> decode_all TaskNode_from_cbor arr
        | _ \<Rightarrow> Inl (PlMissing ''ExecutionPlan'' ''tasks'')) = Inr ts" for ts
    using that field [of 3] by (auto elim!: decode_all_wf intro: TaskNode_decoded split: option.splits Value.splits)
  have edges: "list_all edge_ok es"
    if "(case int_map_get val 4 of Some (Array arr) \<Rightarrow> decode_all edge_from_cbor arr
        | _ \<Rightarrow> Inl (PlMissing ''ExecutionPlan'' ''edges'')) = Inr es" for es
    using that by (auto elim!: decode_all_wf intro: edge_decoded split: option.splits Value.splits)
  have "\<exists>i g ts es c l r d n. int_map_get val 1 = Some (ByteString i) \<and> length i = 32 \<and>
      int_map_get val 2 = Some (TextString g) \<and>
      (case int_map_get val 3 of Some (Array arr) \<Rightarrow> decode_all TaskNode_from_cbor arr
        | _ \<Rightarrow> Inl (PlMissing ''ExecutionPlan'' ''tasks'')) = Inr ts \<and>
      (case int_map_get val 4 of Some (Array arr) \<Rightarrow> decode_all edge_from_cbor arr
        | _ \<Rightarrow> Inl (PlMissing ''ExecutionPlan'' ''edges'')) = Inr es \<and>
      (case int_map_get val 7 of Some v \<Rightarrow> ResourceRequirements_from_cbor v
        | None \<Rightarrow> Inr ResourceRequirements_default) = Inr r \<and>
      p = \<lparr>pl_id = i, pl_goal = g, pl_tasks = ts, pl_edges = es, pl_estimated_cost = c,
        pl_estimated_latency_ms = l, pl_resource_requirements = r, pl_created_at = d, pl_version = n\<rparr>"
    using assms(2) unfolding ExecutionPlan_from_cbor_def bind_result_Inr_iff req_bytes_32_Inr req_text_Inr sum.inject
    by (elim exE conjE) (intro exI conjI, assumption+, erule sym)
  then show ?thesis
    using resources_field_decoded [OF _ field [of 7]] field [of 2] tasks edges
    by (elim exE conjE) (simp add: ExecutionPlan_ok_def)
qed

text \<open>
  C24. Round trip of plans: encoding a plan that is well formed (\<open>ExecutionPlan_ok\<close>: identifiers of 32 bytes, UTF-8 texts, edge indices of machine
  size), or that was itself decoded from some bytes, succeeds, and decoding any buffer of a representable size that starts with the encoding
  gives the same plan back, with all its tasks, their status, assignment and resources, and its edges.
\<close>

theorem ExecutionPlan_roundtrip:
  assumes "ExecutionPlan_ok p \<or> (\<exists>data val n. decode data = Inr (val, n) \<and> ExecutionPlan_from_cbor val = Inr p)"
  shows "\<exists>bs. encode (ExecutionPlan_to_cbor p) = Inr bs \<and>
    (\<forall>rest. fits (bs @ rest) \<longrightarrow> (\<exists>val. decode (bs @ rest) = Inr (val, length bs) \<and> ExecutionPlan_from_cbor val = Inr p))"
proof -
  have ok: "ExecutionPlan_ok p" using assms decoded_plan_ok by blast
  have "\<exists>val. decode (cbor_bytes (ExecutionPlan_to_cbor p) @ rest) = Inr (val, length (cbor_bytes (ExecutionPlan_to_cbor p))) \<and>
      ExecutionPlan_from_cbor val = Inr p" if "fits (cbor_bytes (ExecutionPlan_to_cbor p) @ rest)" for rest
    using plan_message.decode_encoded [OF ok encode_eq that] plan_message.from_to_cbor [OF ok] by simp
  then show ?thesis by (auto simp: encode_eq)
qed

theorem ExecutionPlan_roundtrip_witness:
  "\<exists>bs val. encode (ExecutionPlan_to_cbor example_plan) = Inr bs \<and> decode (bs @ [9]) = Inr (val, length bs) \<and>
     ExecutionPlan_from_cbor val = Inr example_plan"
proof -
  have "fits (cbor_bytes (ExecutionPlan_to_cbor example_plan) @ [9])"
    by (rule fits_small) (simp add: ExecutionPlan_to_cbor_def TaskNode_to_cbor_def ResourceRequirements_to_cbor_def
        TaskStatus_to_cbor_def DependencyType_to_cbor_def edge_to_cbor_def int_map_def example_plan_def
        example_task_def PlanId_zero_def ResourceRequirements_default_def str_def)
  moreover obtain bs where "encode (ExecutionPlan_to_cbor example_plan) = Inr bs"
    "\<forall>rest. fits (bs @ rest) \<longrightarrow> (\<exists>val. decode (bs @ rest) = Inr (val, length bs) \<and> ExecutionPlan_from_cbor val = Inr example_plan)"
    using ExecutionPlan_roundtrip [OF disjI1 [OF example_plan_ok]] by blast
  ultimately show ?thesis by (metis encode_eq sum.inject(2))
qed

section \<open>Aggregated resources\<close>

text \<open>
  \<open>covers r q\<close>: what \<open>r\<close> asks for is at least what \<open>q\<close> asks for. The compute capability of a GPU is
  not part of it, see \<open>aggregate_drops_capability\<close>.
\<close>

definition opt_le :: "'a::len word option \<Rightarrow> 'a word option \<Rightarrow> bool" where
  "opt_le a b = (case a of None \<Rightarrow> True | Some x \<Rightarrow> (case b of None \<Rightarrow> False | Some y \<Rightarrow> x \<le> y))"

definition covers :: "ResourceRequirements \<Rightarrow> ResourceRequirements \<Rightarrow> bool" where
  "covers r q \<longleftrightarrow> opt_le (cpu_cores q) (cpu_cores r) \<and> opt_le (memory_mb q) (memory_mb r) \<and>
     opt_le (map_option min_vram_mb (gpu q)) (map_option min_vram_mb (gpu r)) \<and>
     opt_le (disk_mb q) (disk_mb r) \<and> (network q \<longrightarrow> network r)"

lemma opt_le_max_option: "opt_le (max_option a b) c \<longleftrightarrow> opt_le a c \<and> opt_le b c"
  by (auto simp: opt_le_def max_option_def split: option.splits)

lemma covers_default: "covers r ResourceRequirements_default"
  by (simp add: covers_def opt_le_def ResourceRequirements_default_def)

lemma covers_step: "covers r (aggregate_step req result) \<longleftrightarrow> covers r req \<and> covers r result"
proof -
  have "opt_le (map_option min_vram_mb (gpu (aggregate_step req result))) c \<longleftrightarrow>
      opt_le (map_option min_vram_mb (gpu req)) c \<and> opt_le (map_option min_vram_mb (gpu result)) c" for c
    by (auto simp: opt_le_def aggregate_step_def split: option.splits)
  then show ?thesis
    by (auto simp: covers_def aggregate_step_def opt_le_max_option)
qed

text \<open>the aggregated requirements are the least that cover every input: a host covers them exactly when it covers each of the inputs.\<close>

lemma aggregate_least_cover:
  "covers host (ResourceRequirements_aggregate requirements) \<longleftrightarrow> list_all (covers host) requirements"
proof -
  have "covers host (fold aggregate_step requirements r) \<longleftrightarrow> list_all (covers host) requirements \<and> covers host r" for r
    by (induction requirements arbitrary: r) (auto simp: covers_step)
  then show ?thesis by (simp add: ResourceRequirements_aggregate_def covers_default)
qed

text \<open>
  The aggregate keeps the compute capability of the GPU with most memory only: the one that another
  task needs is lost.
\<close>

lemma aggregate_drops_capability:
  "gpu (ResourceRequirements_aggregate
      [ResourceRequirements_default\<lparr>gpu := Some \<lparr>min_vram_mb = 8, compute_capability = None\<rparr>\<rparr>,
       ResourceRequirements_default\<lparr>gpu := Some \<lparr>min_vram_mb = 4, compute_capability = Some (str ''8.6'')\<rparr>\<rparr>]) =
     Some \<lparr>min_vram_mb = 8, compute_capability = None\<rparr>"
  by (simp add: ResourceRequirements_aggregate_def aggregate_step_def ResourceRequirements_default_def)

end
