(* ===== verification/Kahn.thy ===== *)
theory Kahn
  imports Hash_Map "HOL-Library.While_Combinator"
begin

text \<open>
  The queue loop of Kahn's algorithm as \<open>crates/aafp-sdk/src/execution/plan.rs\<close> writes it three
  times (\<open>topological_sort\<close>, \<open>parallel_groups\<close>, \<open>compute_critical_path_duration\<close>). The three
  loops differ in the data they keep beside the queue and the in-degrees: \<open>visit\<close> is what a loop
  does with a node taken from the queue and \<open>relax\<close> what it does with each of its successors before
  the in-degree is decremented. A loop is a \<open>while_option\<close>: \<open>None\<close> would be a run that does not end.

  Shown once for all three: from the initial state the loop ends, it visits each node that is not
  downstream of a cycle exactly once and after all its predecessors, and the data it computes are
  those of a plain traversal of the visiting order.
\<close>

section \<open>The loop\<close>

type_synonym adjacency = "(nat, nat list) hash_map"

definition succs :: "adjacency \<Rightarrow> nat \<Rightarrow> nat list" where
  "succs adj node = (case hm_get adj node of Some ss \<Rightarrow> ss | None \<Rightarrow> [])"

definition add_edge :: "nat \<Rightarrow> nat \<times> nat \<Rightarrow> adjacency \<times> nat list \<Rightarrow> adjacency \<times> nat list" where
  "add_edge n = (\<lambda>(from, to) (adj, in_degree).
     if from < n \<and> to < n
     then (hm_insert from (succs adj from @ [to]) adj,
           in_degree[to := min USIZE_MAX (in_degree ! to + 1)])
     else (adj, in_degree))"

definition build_graph :: "nat \<Rightarrow> (nat \<times> nat) list \<Rightarrow> adjacency \<times> nat list" where
  "build_graph n es = fold (add_edge n) es ([], replicate n 0)"

record 'a kahn =
  kn_queue :: "nat list"
  kn_degree :: "nat list"
  kn_data :: 'a

definition kahn_relax :: "(nat \<Rightarrow> nat \<Rightarrow> 'a \<Rightarrow> 'a) \<Rightarrow> nat \<Rightarrow> nat \<Rightarrow> 'a kahn \<Rightarrow> 'a kahn" where
  "kahn_relax relax node succ st =
     (let in_degree = (kn_degree st)[succ := kn_degree st ! succ - 1] in
      \<lparr>kn_queue = (if in_degree ! succ = 0 then kn_queue st @ [succ] else kn_queue st),
       kn_degree = in_degree, kn_data = relax node succ (kn_data st)\<rparr>)"

definition kahn_step ::
    "(nat \<Rightarrow> 'a \<Rightarrow> 'a) \<Rightarrow> (nat \<Rightarrow> nat \<Rightarrow> 'a \<Rightarrow> 'a) \<Rightarrow> adjacency \<Rightarrow> 'a kahn \<Rightarrow> 'a kahn" where
  "kahn_step visit relax adj st =
     (case kn_queue st of
        [] \<Rightarrow> st
      | node # queue \<Rightarrow>
          fold (kahn_relax relax node) (succs adj node)
            (st\<lparr>kn_queue := queue, kn_data := visit node (kn_data st)\<rparr>))"

definition kahn ::
    "(nat \<Rightarrow> 'a \<Rightarrow> 'a) \<Rightarrow> (nat \<Rightarrow> nat \<Rightarrow> 'a \<Rightarrow> 'a) \<Rightarrow> nat \<Rightarrow> (nat \<times> nat) list \<Rightarrow> 'a \<Rightarrow> 'a option" where
  "kahn visit relax n es init =
     (let (adj, in_degree) = build_graph n es;
          queue = filter (\<lambda>i. in_degree ! i = 0) [0..<n]
      in map_option kn_data
           (while_option (\<lambda>st. kn_queue st \<noteq> []) (kahn_step visit relax adj)
             \<lparr>kn_queue = queue, kn_degree = in_degree, kn_data = init\<rparr>))"

definition kahn_order :: "nat \<Rightarrow> (nat \<times> nat) list \<Rightarrow> nat list option" where
  "kahn_order n es = kahn (\<lambda>node order. order @ [node]) (\<lambda>_ _ order. order) n es []"

section \<open>The graph\<close>

definition in_range :: "nat \<Rightarrow> (nat \<times> nat) list \<Rightarrow> (nat \<times> nat) list" where
  "in_range n es = filter (\<lambda>(u, v). u < n \<and> v < n) es"

definition targets :: "(nat \<times> nat) list \<Rightarrow> nat \<Rightarrow> nat list" where
  "targets L u = map snd (filter (\<lambda>e. fst e = u) L)"

definition pending :: "(nat \<times> nat) list \<Rightarrow> nat set \<Rightarrow> nat \<Rightarrow> nat" where
  "pending L D v = length (filter (\<lambda>e. snd e = v \<and> fst e \<notin> D) L)"

lemma succs_put: "succs (hm_insert k ss adj) u = (if u = k then ss else succs adj u)"
  by (simp add: succs_def hm.get_put)

lemma pending_0_iff: "pending L D v = 0 \<longleftrightarrow> (\<forall>u. (u, v) \<in> set L \<longrightarrow> u \<in> D)"
  by (auto simp: pending_def filter_empty_conv)

lemma pending_insert:
  "u \<notin> D \<Longrightarrow> pending L (insert u D) v + count_list (targets L u) v = pending L D v"
  by (induction L) (auto simp: pending_def targets_def)

lemma pending_le: "pending L D v \<le> length L"
  by (simp add: pending_def)

lemma build_graph_snoc: "build_graph n (es @ [e]) = add_edge n e (build_graph n es)"
  by (simp add: build_graph_def)

lemma build_graph_correct:
  assumes "length es \<le> USIZE_MAX" and "build_graph n es = (adj, deg)"
  shows "length deg = n" "succs adj = targets (in_range n es)"
    "v < n \<Longrightarrow> deg ! v = pending (in_range n es) {} v"
proof -
  define M where "M = USIZE_MAX"
  note add = add_edge_def [of n, folded M_def]
  have "length deg = n \<and> succs adj = targets (in_range n es) \<and>
    (\<forall>v < n. deg ! v = pending (in_range n es) {} v)"
    using assms unfolding M_def [symmetric]
  proof (induction es arbitrary: adj deg rule: rev_induct)
    case Nil
    then show ?case by (auto simp: build_graph_def in_range_def targets_def pending_def succs_def hm_get_def)
  next
    case (snoc e es)
    obtain adj' deg' where b: "build_graph n es = (adj', deg')" by fastforce
    obtain u v where e: "e = (u, v)" by fastforce
    have ih: "length deg' = n" "succs adj' = targets (in_range n es)"
      "\<forall>v < n. deg' ! v = pending (in_range n es) {} v"
      using snoc.IH [OF _ b] snoc.prems(1) by auto
    have "pending (in_range n es) {} v \<le> length es"
      using pending_le [of "in_range n es" "{}" v] length_filter_le [of _ es] unfolding in_range_def by (rule le_trans)
    then have "v < n \<Longrightarrow> min M (deg' ! v + 1) = pending (in_range n es) {} v + 1"
      using ih(3) snoc.prems(1) by simp
    then have new: "v < n \<Longrightarrow> deg'[v := min M (deg' ! v + 1)] = deg'[v := pending (in_range n es) {} v + 1]"
      by (simp only:)
    show ?case
    proof (cases "u < n \<and> v < n")
      case True
      then have "adj = hm_insert u (succs adj' u @ [v]) adj'" "deg = deg'[v := pending (in_range n es) {} v + 1]"
        "in_range n (es @ [e]) = in_range n es @ [e]"
        using snoc.prems(2) new by (simp_all add: build_graph_snoc b e add in_range_def)
      then show ?thesis
        using ih e by (simp add: succs_put targets_def pending_def nth_list_update fun_eq_iff)
    next
      case False
      then have "adj = adj'" "deg = deg'" "in_range n (es @ [e]) = in_range n es"
        using snoc.prems(2) by (auto simp: build_graph_snoc b e add in_range_def)
      then show ?thesis using ih by simp
    qed
  qed
  then show "length deg = n" "succs adj = targets (in_range n es)"
    "v < n \<Longrightarrow> deg ! v = pending (in_range n es) {} v" by auto
qed

section \<open>One pass over the successors\<close>

lemma relax_all:
  assumes "\<forall>v \<in> set ws. v < length (kn_degree st) \<and> count_list ws v \<le> kn_degree st ! v"
  shows "\<exists>new. kn_queue (fold (kahn_relax relax node) ws st) = kn_queue st @ new \<and> distinct new \<and>
      set new = {v \<in> set ws. kn_degree st ! v = count_list ws v} \<and>
      length (kn_degree (fold (kahn_relax relax node) ws st)) = length (kn_degree st) \<and>
      (\<forall>v < length (kn_degree st).
         kn_degree (fold (kahn_relax relax node) ws st) ! v = kn_degree st ! v - count_list ws v)"
  using assms
proof (induction ws arbitrary: st)
  case (Cons w ws)
  let ?st = "kahn_relax relax node w st" and ?d = "kn_degree st"
  have w: "w < length ?d" "1 + count_list ws w \<le> ?d ! w" using Cons.prems by auto
  have d: "kn_degree ?st = ?d[w := ?d ! w - 1]" by (simp add: kahn_relax_def Let_def)
  have q: "kn_queue ?st = (if ?d ! w = 1 then kn_queue st @ [w] else kn_queue st)"
    using w by (auto simp: kahn_relax_def Let_def)
  have "\<forall>v \<in> set ws. v < length (kn_degree ?st) \<and> count_list ws v \<le> kn_degree ?st ! v"
    using Cons.prems w by (auto simp: d nth_list_update)
  from Cons.IH [OF this] obtain new where new:
    "kn_queue (fold (kahn_relax relax node) ws ?st) = kn_queue ?st @ new" "distinct new"
    "set new = {v \<in> set ws. kn_degree ?st ! v = count_list ws v}"
    "length (kn_degree (fold (kahn_relax relax node) ws ?st)) = length ?d"
    "\<forall>v < length ?d. kn_degree (fold (kahn_relax relax node) ws ?st) ! v = kn_degree ?st ! v - count_list ws v"
    by (auto simp: d)
  have deg: "\<forall>v < length ?d.
      kn_degree (fold (kahn_relax relax node) (w # ws) st) ! v = ?d ! v - count_list (w # ws) v"
    using new(5) w by (auto simp: d nth_list_update)
  have other: "v \<in> set new \<longleftrightarrow> v \<in> set ws \<and> ?d ! v = count_list (w # ws) v" if "v \<noteq> w" for v
    using that by (simp add: new(3) d)
  show ?case
  proof (cases "?d ! w = 1")
    case True
    then have "w \<notin> set ws" using w by (simp add: count_list_0_iff)
    then have "x \<in> set (w # new) \<longleftrightarrow> x \<in> set (w # ws) \<and> ?d ! x = count_list (w # ws) x" for x
      using True other [of x] by (cases "x = w") simp_all
    then have "set (w # new) = {v \<in> set (w # ws). ?d ! v = count_list (w # ws) v}" by blast
    moreover have "distinct (w # new)" using new(2,3) \<open>w \<notin> set ws\<close> by simp
    ultimately show ?thesis using new(1,4) deg q True by (intro exI [of _ "w # new"]) simp
  next
    case False
    then have "w \<in> set new \<longleftrightarrow> ?d ! w = count_list (w # ws) w"
      using w by (cases "w \<in> set ws") (auto simp: new(3) d count_list_0_iff)
    then have "x \<in> set new \<longleftrightarrow> x \<in> set (w # ws) \<and> ?d ! x = count_list (w # ws) x" for x
      using other [of x] by (cases "x = w") simp_all
    then have "set new = {v \<in> set (w # ws). ?d ! v = count_list (w # ws) v}" by blast
    then show ?thesis using new(1,2,4) deg q False by (intro exI [of _ new]) simp
  qed
qed simp

lemma relax_all_data:
  "kn_data (fold (kahn_relax relax node) ws st) = fold (relax node) ws (kn_data st)"
  by (induction ws arbitrary: st) (simp_all add: kahn_relax_def Let_def)

section \<open>The invariant of the loop\<close>

text \<open>A list in which every node comes after all its predecessors.\<close>

definition topological :: "(nat \<times> nat) set \<Rightarrow> nat list \<Rightarrow> bool" where
  "topological E order \<longleftrightarrow> (\<forall>xs v ys u. order = xs @ v # ys \<and> (u, v) \<in> E \<longrightarrow> u \<in> set xs)"

lemma topological_Nil [simp]: "topological E []"
  by (simp add: topological_def)

lemma topological_snoc:
  "topological E (order @ [v]) \<longleftrightarrow> topological E order \<and> (\<forall>u. (u, v) \<in> E \<longrightarrow> u \<in> set order)"
  (is "?l = ?r")
proof
  assume l: ?l
  have "u \<in> set xs" if "order = xs @ w # ys" "(u, w) \<in> E" for xs w ys u
    using l [unfolded topological_def, rule_format, of xs w "ys @ [v]" u] that by simp
  moreover have "u \<in> set order" if "(u, v) \<in> E" for u
    using l [unfolded topological_def, rule_format, of order v "[]" u] that by simp
  ultimately show ?r unfolding topological_def by blast
next
  assume r: ?r
  show ?l unfolding topological_def
  proof (intro allI impI, elim conjE)
    fix xs w ys u
    assume eq: "order @ [v] = xs @ w # ys" and e: "(u, w) \<in> E"
    show "u \<in> set xs"
    proof (cases ys rule: rev_cases)
      case Nil
      then show ?thesis using eq e r by simp
    next
      case (snoc zs z)
      then have "order = xs @ w # zs" using eq by (metis append_assoc append_Cons butlast_snoc)
      then show ?thesis using e r unfolding topological_def by blast
    qed
  qed
qed

text \<open>What the plain traversal of an order computes.\<close>

definition traverse ::
    "(nat \<Rightarrow> 'a \<Rightarrow> 'a) \<Rightarrow> (nat \<Rightarrow> nat \<Rightarrow> 'a \<Rightarrow> 'a) \<Rightarrow> (nat \<times> nat) list \<Rightarrow> nat list \<Rightarrow> 'a \<Rightarrow> 'a" where
  "traverse visit relax L order a =
     fold (\<lambda>node a. fold (relax node) (targets L node) (visit node a)) order a"

definition kahn_inv :: "nat \<Rightarrow> (nat \<times> nat) list \<Rightarrow> nat list \<Rightarrow> 'a kahn \<Rightarrow> bool" where
  "kahn_inv n L order st \<longleftrightarrow>
     distinct (order @ kn_queue st) \<and> set (order @ kn_queue st) \<subseteq> {..<n} \<and> length (kn_degree st) = n \<and>
     (\<forall>v < n. kn_degree st ! v = pending L (set order) v) \<and>
     (\<forall>v < n. v \<in> set (order @ kn_queue st) \<longleftrightarrow> pending L (set order) v = 0) \<and>
     topological (set L) order"

lemma kahn_step_inv:
  assumes inv: "kahn_inv n L order st" and q: "kn_queue st = node # queue"
    and adj: "succs adj = targets L" and L: "set L \<subseteq> {..<n} \<times> {..<n}"
  shows "kahn_inv n L (order @ [node]) (kahn_step visit relax adj st)"
proof -
  let ?st = "st\<lparr>kn_queue := queue, kn_data := visit node (kn_data st)\<rparr>"
  let ?st' = "kahn_step visit relax adj st" and ?ws = "targets L node"
  have step: "?st' = fold (kahn_relax relax node) ?ws ?st" using q adj by (simp add: kahn_step_def)
  have node: "node < n" "node \<notin> set order" using inv q by (auto simp: kahn_inv_def)
  have deg: "\<forall>v < n. kn_degree st ! v = pending L (insert node (set order)) v + count_list ?ws v"
    using inv pending_insert [OF node(2), of L] by (simp add: kahn_inv_def)
  have ws: "set ?ws \<subseteq> {..<n}" using L by (auto simp: targets_def)
  have len: "length (kn_degree st) = n" using inv by (simp add: kahn_inv_def)
  have "\<forall>v \<in> set ?ws. v < length (kn_degree ?st) \<and> count_list ?ws v \<le> kn_degree ?st ! v"
  proof
    fix v
    assume "v \<in> set ?ws"
    then have "v < n" using ws by auto
    then show "v < length (kn_degree ?st) \<and> count_list ?ws v \<le> kn_degree ?st ! v"
      using deg len by simp
  qed
  from relax_all [OF this, of relax node, folded step] obtain new where new:
    "kn_queue ?st' = queue @ new" "distinct new"
    "set new = {v \<in> set ?ws. kn_degree st ! v = count_list ?ws v}"
    "length (kn_degree ?st') = length (kn_degree st)"
    "\<forall>v < length (kn_degree st). kn_degree ?st' ! v = kn_degree st ! v - count_list ?ws v"
    by auto
  have D: "set (order @ kn_queue st) = insert node (set order \<union> set queue)" using q by auto
  have zero: "v \<in> insert node (set order \<union> set queue) \<longleftrightarrow>
      pending L (insert node (set order)) v + count_list ?ws v = 0" if "v < n" for v
    using inv deg that unfolding kahn_inv_def D by (metis (no_types, lifting))
  have "set new \<inter> insert node (set order \<union> set queue) = {}"
    using ws zero by (auto simp: new(3) count_list_0_iff)
  moreover have "v \<in> insert node (set order \<union> set queue \<union> set new) \<longleftrightarrow>
      pending L (insert node (set order)) v = 0" if "v < n" for v
    using that zero deg by (auto simp: new(3) count_list_0_iff)
  moreover have "topological (set L) (order @ [node])"
    using inv node q by (auto simp: kahn_inv_def topological_snoc pending_0_iff)
  ultimately show ?thesis
    using inv new q deg ws unfolding kahn_inv_def by (auto simp: Un_assoc)
qed

section \<open>The loop ends, and what it has visited\<close>

lemma kahn_initial:
  assumes "length es \<le> USIZE_MAX" and "build_graph n es = (adj, deg)"
  shows "kahn_inv n (in_range n es) []
    \<lparr>kn_queue = filter (\<lambda>i. deg ! i = 0) [0..<n], kn_degree = deg, kn_data = a\<rparr>"
  using build_graph_correct [OF assms] by (auto simp: kahn_inv_def)

lemma in_range_subset: "set (in_range n es) \<subseteq> {..<n} \<times> {..<n}"
  by (auto simp: in_range_def)

lemma kahn_inv_length: "kahn_inv n L order st \<Longrightarrow> length (order @ kn_queue st) \<le> n"
  using distinct_card [of "order @ kn_queue st"] card_mono [of "{..<n}" "set (order @ kn_queue st)"]
  by (auto simp: kahn_inv_def)

text \<open>What is known of the visiting order when the queue is empty.\<close>

definition visiting_order :: "nat \<Rightarrow> (nat \<times> nat) list \<Rightarrow> nat list \<Rightarrow> bool" where
  "visiting_order n L order \<longleftrightarrow> distinct order \<and> set order \<subseteq> {..<n} \<and> topological (set L) order \<and>
     (\<forall>v < n. v \<notin> set order \<longrightarrow> (\<exists>u. (u, v) \<in> set L \<and> u \<notin> set order))"

lemma kahn_inv_empty: "kahn_inv n L order st \<Longrightarrow> kn_queue st = [] \<Longrightarrow> visiting_order n L order"
  by (auto simp: kahn_inv_def visiting_order_def pending_0_iff)

text \<open>Data that determine other data: the loops that compute them run in step.\<close>

lemma kahn_relax_project:
  assumes "\<And>node succ a. h (relax node succ a) = relax' node succ (h a)"
  shows "\<lparr>kn_queue = kn_queue (fold (kahn_relax relax node) ws st),
      kn_degree = kn_degree (fold (kahn_relax relax node) ws st),
      kn_data = h (kn_data (fold (kahn_relax relax node) ws st))\<rparr> =
    fold (kahn_relax relax' node) ws \<lparr>kn_queue = kn_queue st, kn_degree = kn_degree st, kn_data = h (kn_data st)\<rparr>"
proof (induction ws arbitrary: st)
  case (Cons w ws)
  show ?case unfolding fold.simps o_apply Cons by (simp add: kahn_relax_def Let_def assms)
qed simp

lemma kahn_project:
  assumes "\<And>node a. h (visit node a) = visit' node (h a)"
    and "\<And>node succ a. h (relax node succ a) = relax' node succ (h a)"
  shows "map_option h (kahn visit relax n es a) = kahn visit' relax' n es (h a)"
proof -
  let ?f = "\<lambda>st. \<lparr>kn_queue = kn_queue st, kn_degree = kn_degree st, kn_data = h (kn_data st)\<rparr>"
  let ?run = "\<lambda>visit relax adj. while_option (\<lambda>st. kn_queue st \<noteq> []) (kahn_step visit relax adj)"
  have "?f (kahn_step visit relax adj st) = kahn_step visit' relax' adj (?f st)" for adj st
    by (simp add: kahn_step_def kahn_relax_project [where relax' = relax'] assms split: list.split)
  then have "map_option ?f (?run visit relax adj st) = ?run visit' relax' adj (?f st)" for adj st
    by (intro while_option_commute) simp_all
  then have "map_option (kn_data \<circ> ?f) (?run visit relax adj st) = map_option kn_data (?run visit' relax' adj (?f st))"
    for adj st by (metis option.map_comp)
  then show ?thesis
    by (simp add: kahn_def Let_def option.map_comp comp_def split: prod.split)
qed

text \<open>
  The loop run with the visiting order beside the data: it ends, and the data are those of the
  traversal of the order.
\<close>

lemma kahn_with_order:
  assumes "length es \<le> USIZE_MAX"
  shows "\<exists>order. kahn (\<lambda>node (order, a). (order @ [node], visit node a))
      (\<lambda>node succ (order, a). (order, relax node succ a)) n es ([], a) =
      Some (order, traverse visit relax (in_range n es) order a) \<and> visiting_order n (in_range n es) order"
proof -
  let ?L = "in_range n es"
  let ?visit = "\<lambda>node (order, a). (order @ [node], visit node a)"
  let ?relax = "\<lambda>node succ (order, a). (order, relax node succ a)"
  let ?P = "\<lambda>st. kahn_inv n ?L (fst (kn_data st)) st \<and>
    snd (kn_data st) = traverse visit relax ?L (fst (kn_data st)) a"
  obtain adj deg where g: "build_graph n es = (adj, deg)" by fastforce
  let ?init = "\<lparr>kn_queue = filter (\<lambda>i. deg ! i = 0) [0..<n], kn_degree = deg, kn_data = ([], a)\<rparr>"
  note adj = build_graph_correct(2) [OF assms g]
  have fold_relax: "fold (?relax node) ws (order, b) = (order, fold (relax node) ws b)" for node ws order b
    by (induction ws arbitrary: b) simp_all
  have step: "?P (kahn_step ?visit ?relax adj st) \<and>
      n - length (fst (kn_data (kahn_step ?visit ?relax adj st))) < n - length (fst (kn_data st))"
    if P: "?P st" and b: "kn_queue st \<noteq> []" for st
  proof -
    obtain node queue where q: "kn_queue st = node # queue" using b by (cases "kn_queue st") auto
    obtain order b where d: "kn_data st = (order, b)" by fastforce
    have data: "kn_data (kahn_step ?visit ?relax adj st) =
        (order @ [node], fold (relax node) (targets ?L node) (visit node b))"
      using q d by (simp add: kahn_step_def relax_all_data adj fold_relax)
    show ?thesis
      using kahn_step_inv [OF _ q adj in_range_subset, where visit = ?visit and relax = ?relax and order = order]
        P kahn_inv_length [of n ?L order st] q d
      by (auto simp: data traverse_def)
  qed
  have init: "?P ?init" using kahn_initial [OF assms g] by (simp add: traverse_def)
  then obtain st where st: "while_option (\<lambda>st. kn_queue st \<noteq> []) (kahn_step ?visit ?relax adj) ?init = Some st"
    using measure_while_option_Some [of ?P "\<lambda>st. kn_queue st \<noteq> []" "kahn_step ?visit ?relax adj"
        "\<lambda>st. n - length (fst (kn_data st))"] step by blast
  have "?P st" using while_option_rule [of ?P, OF _ st init] step by blast
  moreover have "kn_queue st = []" using while_option_stop [OF st] by simp
  ultimately show ?thesis
    using st kahn_inv_empty [of n ?L "fst (kn_data st)" st]
    by (intro exI [of _ "fst (kn_data st)"]) (simp add: kahn_def g prod_eq_iff)
qed

lemma kahn_ends:
  assumes "length es \<le> USIZE_MAX"
  shows "\<exists>order. kahn_order n es = Some order \<and> visiting_order n (in_range n es) order \<and>
    kahn visit relax n es a = Some (traverse visit relax (in_range n es) order a)"
proof -
  let ?visit = "\<lambda>node (order, a). (order @ [node], visit node a)"
  let ?relax = "\<lambda>node succ (order, a). (order, relax node succ a)"
  obtain order where order: "kahn ?visit ?relax n es ([], a) = Some (order, traverse visit relax (in_range n es) order a)"
    "visiting_order n (in_range n es) order" using kahn_with_order [OF assms, where visit = visit and relax = relax and a = a and n = n] by blast
  have "map_option fst (kahn ?visit ?relax n es ([], a)) = kahn_order n es"
    unfolding kahn_order_def by (subst kahn_project) auto
  moreover have "map_option snd (kahn ?visit ?relax n es ([], a)) = kahn visit relax n es a"
    by (subst kahn_project) auto
  ultimately show ?thesis using order by (intro exI [of _ order]) simp
qed

section \<open>Cycles\<close>

lemma topological_index:
  assumes "topological E order" and "(u, v) \<in> E" and "i < length order" and "order ! i = v"
  shows "\<exists>j < i. order ! j = u"
proof -
  have "order = take i order @ v # drop (Suc i) order" using assms(3,4) id_take_nth_drop by blast
  then have "u \<in> set (take i order)" using assms(1,2) unfolding topological_def by blast
  then show ?thesis using assms(3) by (auto simp: in_set_conv_nth)
qed

lemma topological_closed: "(u, v) \<in> E\<^sup>* \<Longrightarrow> topological E order \<Longrightarrow> v \<in> set order \<Longrightarrow> u \<in> set order"
proof (induction rule: converse_rtrancl_induct)
  case (step x y)
  then obtain i where i: "i < length order" "order ! i = y" by (auto simp: in_set_conv_nth)
  then obtain j where "j < i" "order ! j = x" using topological_index [OF step.prems(1) step.hyps(1)] by blast
  then show ?case using i nth_mem [of j order] by simp
qed

lemma topological_trancl:
  "(u, v) \<in> E\<^sup>+ \<Longrightarrow> topological E order \<Longrightarrow> i < length order \<Longrightarrow> order ! i = v \<Longrightarrow> \<exists>j < i. order ! j = u"
proof (induction arbitrary: i rule: trancl_induct)
  case (base y)
  then show ?case using topological_index by blast
next
  case (step y z)
  obtain j where "j < i" "order ! j = y" using topological_index [OF step.prems(1) step.hyps(2)] step.prems by blast
  moreover from this obtain k where "k < j" "order ! k = u" using step.IH [of j] step.prems by auto
  ultimately show ?case by (intro exI [of _ k]) simp
qed

text \<open>The nodes that cannot be ordered: those that a node on a cycle leads to.\<close>

definition downstream_of_cycle :: "(nat \<times> nat) set \<Rightarrow> nat \<Rightarrow> bool" where
  "downstream_of_cycle E v \<longleftrightarrow> (\<exists>c. (c, c) \<in> E\<^sup>+ \<and> (c, v) \<in> E\<^sup>*)"

lemma visiting_order_set:
  assumes "visiting_order n L order" and L: "set L \<subseteq> {..<n} \<times> {..<n}"
  shows "set order = {v. v < n \<and> \<not> downstream_of_cycle (set L) v}"
proof -
  have t: "topological (set L) order" "distinct order" "set order \<subseteq> {..<n}"
    and next': "\<And>v. v < n \<Longrightarrow> v \<notin> set order \<Longrightarrow> \<exists>u. (u, v) \<in> set L \<and> u \<notin> set order"
    using assms(1) by (auto simp: visiting_order_def)
  have "\<not> downstream_of_cycle (set L) v" if v: "v \<in> set order" for v
  proof
    assume "downstream_of_cycle (set L) v"
    then obtain c where c: "(c, c) \<in> (set L)\<^sup>+" "(c, v) \<in> (set L)\<^sup>*" by (auto simp: downstream_of_cycle_def)
    then obtain i where i: "i < length order" "order ! i = c"
      using topological_closed [OF c(2) t(1) v] by (auto simp: in_set_conv_nth)
    then obtain j where "j < i" "order ! j = c" using topological_trancl [OF c(1) t(1)] by blast
    then show False using i t(2) nth_eq_iff_index_eq [of order i j] by simp
  qed
  moreover have "downstream_of_cycle (set L) v" if v: "v < n" "v \<notin> set order" for v
  proof (rule ccontr)
    assume no: "\<not> downstream_of_cycle (set L) v"
    define S where "S = {u. u \<notin> set order \<and> (u, v) \<in> (set L)\<^sup>*}"
    let ?R = "set L \<inter> S \<times> S"
    have "acyclic ?R"
    proof (rule acyclicI, intro allI notI)
      fix c
      assume c: "(c, c) \<in> ?R\<^sup>+"
      then have "c \<in> S" using tranclD [OF c] by auto
      moreover have "(c, c) \<in> (set L)\<^sup>+" using c by (rule trancl_mono) simp
      ultimately show False using no unfolding S_def downstream_of_cycle_def by blast
    qed
    then have wf: "wf ?R" by (intro finite_acyclic_wf) simp_all
    have "v \<in> S" using v by (simp add: S_def)
    from wfE_min [OF wf this] obtain z where z: "z \<in> S" "\<And>y. (y, z) \<in> ?R \<Longrightarrow> y \<notin> S" by metis
    have "(z, v) \<in> (set L)\<^sup>*" using z(1) by (simp add: S_def)
    then have "z < n" by (cases rule: converse_rtranclE) (use v(1) L in auto)
    then obtain u where u: "(u, z) \<in> set L" "u \<notin> set order" using next' z(1) by (auto simp: S_def)
    have "(u, v) \<in> (set L)\<^sup>*" using u(1) \<open>(z, v) \<in> (set L)\<^sup>*\<close> by (rule converse_rtrancl_into_rtrancl)
    then have "u \<in> S" using u(2) by (simp add: S_def)
    then show False using z(2) [of u] z(1) u(1) by simp
  qed
  ultimately show ?thesis using t(3) by auto
qed

lemma visiting_order_complete:
  assumes "visiting_order n L order" and L: "set L \<subseteq> {..<n} \<times> {..<n}"
  shows "length order = n \<longleftrightarrow> acyclic (set L)"
proof -
  have o: "distinct order" "set order \<subseteq> {..<n}" using assms(1) by (auto simp: visiting_order_def)
  then have "length order = n \<longleftrightarrow> set order = {..<n}"
    by (metis card_lessThan card_subset_eq distinct_card finite_lessThan)
  also have "\<dots> \<longleftrightarrow> (\<forall>v < n. \<not> downstream_of_cycle (set L) v)"
    using visiting_order_set [OF assms] by auto
  also have "\<dots> \<longleftrightarrow> acyclic (set L)"
  proof -
    have "c < n" if "(c, c) \<in> (set L)\<^sup>+" for c
      using tranclD [OF that] L by auto
    then show ?thesis by (auto simp: acyclic_def downstream_of_cycle_def)
  qed
  finally show ?thesis .
qed

end
