(* ===== verification/Longest_Chain.thy ===== *)
theory Longest_Chain
  imports Kahn
begin

text \<open>
  The longest-path computations of \<open>crates/aafp-sdk/src/execution/plan.rs\<close>: along a topological
  order each node adds its own weight to the value that its predecessors have left in it, and hands
  the sum on to its successors. \<open>critical_path\<close> and \<open>compute_critical_path_duration\<close> do this with
  durations and saturating addition, \<open>parallel_groups\<close> with one unit per edge. The interface
  \<open>longest_chain\<close> says what the addition has to satisfy for the values to be those of longest chains.
\<close>

section \<open>Visiting a node\<close>

type_synonym node_values = "nat list \<times> nat option list"

definition visit_node :: "(nat \<Rightarrow> nat) \<Rightarrow> (nat \<Rightarrow> nat) \<Rightarrow> nat \<Rightarrow> nat list \<Rightarrow> nat list" where
  "visit_node sat d node f = f[node := sat (f ! node + d node)]"

definition relax_node :: "nat \<Rightarrow> nat \<Rightarrow> nat \<Rightarrow> node_values \<Rightarrow> node_values" where
  "relax_node c node succ = (\<lambda>(f, p).
     if f ! node + c > f ! succ then (f[succ := f ! node + c], p[succ := Some node]) else (f, p))"

definition visit_node_pred :: "(nat \<Rightarrow> nat) \<Rightarrow> (nat \<Rightarrow> nat) \<Rightarrow> nat \<Rightarrow> node_values \<Rightarrow> node_values" where
  "visit_node_pred sat d node = (\<lambda>(f, p). (visit_node sat d node f, p))"

lemma relax_node_pair:
  "relax_node c node succ (f, p) =
     (if f ! node + c > f ! succ then (f[succ := f ! node + c], p[succ := Some node]) else (f, p))"
  by (simp add: relax_node_def)

lemma relax_node_length:
  "fold (relax_node c node) ts (f, p) = (f', p') \<Longrightarrow> length f' = length f \<and> length p' = length p"
  by (induction ts arbitrary: f p) (fastforce simp: relax_node_pair split: if_splits)+

lemma relax_node_all:
  assumes "fold (relax_node c node) ts (f, p) = (f', p')"
    and "node \<notin> set ts" and "\<forall>t \<in> set ts. t < length f \<and> t < length p"
  shows "f' ! v = (if v \<in> set ts then max (f ! v) (f ! node + c) else f ! v)"
    and "p' ! v = (if v \<in> set ts \<and> f ! v < f ! node + c then Some node else p ! v)"
proof -
  have "f' ! v = (if v \<in> set ts then max (f ! v) (f ! node + c) else f ! v) \<and>
    p' ! v = (if v \<in> set ts \<and> f ! v < f ! node + c then Some node else p ! v)"
    using assms
  proof (induction ts arbitrary: f p)
    case (Cons t ts)
    have t: "t < length f" "t < length p" "node \<noteq> t" using Cons.prems by auto
    show ?case
    proof (cases "f ! t < f ! node + c")
      case True
      then have "fold (relax_node c node) ts (f[t := f ! node + c], p[t := Some node]) = (f', p')"
        using Cons.prems(1) by (simp add: relax_node_pair)
      from Cons.IH [OF this] show ?thesis
        using Cons.prems t True by (cases "v = t") (auto simp: nth_list_update)
    next
      case False
      then have "fold (relax_node c node) ts (f, p) = (f', p')"
        using Cons.prems(1) by (simp add: relax_node_pair)
      from Cons.IH [OF this] show ?thesis
        using Cons.prems t False by (cases "v = t") auto
    qed
  qed simp
  then show "f' ! v = (if v \<in> set ts then max (f ! v) (f ! node + c) else f ! v)"
    "p' ! v = (if v \<in> set ts \<and> f ! v < f ! node + c then Some node else p ! v)" by auto
qed

section \<open>Chains\<close>

definition chain :: "(nat \<times> nat) set \<Rightarrow> nat list \<Rightarrow> bool" where
  "chain E xs \<longleftrightarrow> xs \<noteq> [] \<and> successively (\<lambda>u v. (u, v) \<in> E) xs"

definition chain_weight :: "(nat \<Rightarrow> nat) \<Rightarrow> nat \<Rightarrow> nat list \<Rightarrow> nat" where
  "chain_weight d c xs = sum_list (map d xs) + c * (length xs - 1)"

lemma chain_single [simp]: "chain E [v]"
  by (simp add: chain_def)

lemma chain_snoc: "xs \<noteq> [] \<Longrightarrow> chain E (xs @ [v]) \<longleftrightarrow> chain E xs \<and> (last xs, v) \<in> E"
  by (auto simp: chain_def successively_append_iff)

lemma chain_weight_single [simp]: "chain_weight d c [v] = d v"
  by (simp add: chain_weight_def)

lemma chain_weight_snoc: "xs \<noteq> [] \<Longrightarrow> chain_weight d c (xs @ [v]) = chain_weight d c xs + (c + d v)"
  by (cases xs) (simp_all add: chain_weight_def)

section \<open>Values along a topological order\<close>

text \<open>
  \<open>settled E c D f p v b\<close>: \<open>b\<close> is what the nodes of \<open>D\<close> have handed on to \<open>v\<close>, and \<open>p\<close> records from
  which of them it comes.
\<close>

definition settled :: "(nat \<times> nat) set \<Rightarrow> nat \<Rightarrow> nat set \<Rightarrow> nat list \<Rightarrow> nat option list \<Rightarrow> nat \<Rightarrow> nat \<Rightarrow> bool" where
  "settled E c D f p v b \<longleftrightarrow> (\<forall>u \<in> D. (u, v) \<in> E \<longrightarrow> f ! u + c \<le> b) \<and>
     (case p ! v of None \<Rightarrow> b = 0 | Some u \<Rightarrow> u \<in> D \<and> (u, v) \<in> E \<and> b = f ! u + c)"

definition values_inv ::
    "(nat \<Rightarrow> nat) \<Rightarrow> (nat \<Rightarrow> nat) \<Rightarrow> nat \<Rightarrow> nat \<Rightarrow> (nat \<times> nat) set \<Rightarrow> nat set \<Rightarrow> node_values \<Rightarrow> bool" where
  "values_inv sat d c n E D = (\<lambda>(f, p). length f = n \<and> length p = n \<and>
     (\<forall>v < n. if v \<in> D then \<exists>b. f ! v = sat (b + d v) \<and> settled E c D f p v b
       else settled E c D f p v (f ! v)))"

lemma values_inv_done:
  "values_inv sat d c n E D (f, p) \<Longrightarrow> v < n \<Longrightarrow> v \<in> D \<Longrightarrow> \<exists>b. f ! v = sat (b + d v) \<and> settled E c D f p v b"
  by (simp add: values_inv_def)

lemma values_inv_open:
  "values_inv sat d c n E D (f, p) \<Longrightarrow> v < n \<Longrightarrow> v \<notin> D \<Longrightarrow> settled E c D f p v (f ! v)"
  by (simp add: values_inv_def)

lemma settled_cong:
  assumes "p' ! v = p ! v" and "\<And>u. u \<in> D \<Longrightarrow> f' ! u = f ! u"
  shows "settled E c D f' p' v b \<longleftrightarrow> settled E c D f p v b"
  using assms by (auto simp: settled_def split: option.split)

lemma settled_insert:
  assumes "settled E c D f p v b" and "(w, v) \<notin> E"
  shows "settled E c (insert w D) f p v b"
  using assms by (auto simp: settled_def split: option.splits)

lemma visit_values_inv:
  assumes inv: "values_inv sat d c n (set L) D (f, p)" and L: "set L \<subseteq> {..<n} \<times> {..<n}"
    and w: "w < n" "w \<notin> D" "\<forall>u. (u, w) \<in> set L \<longrightarrow> u \<in> D"
    and closed: "\<forall>u v. (u, v) \<in> set L \<longrightarrow> v \<in> D \<longrightarrow> u \<in> D"
    and run: "fold (relax_node c w) (targets L w) (visit_node_pred sat d w (f, p)) = (f', p')"
  shows "values_inv sat d c n (set L) (insert w D) (f', p')"
proof -
  let ?E = "set L" and ?f = "visit_node sat d w f"
  have len: "length f = n" "length p = n" using inv by (auto simp: values_inv_def)
  have ts: "t \<in> set (targets L w) \<longleftrightarrow> (w, t) \<in> ?E" for t by (force simp: targets_def)
  have run': "fold (relax_node c w) (targets L w) (?f, p) = (f', p')" using run by (simp add: visit_node_pred_def)
  have out: "w \<notin> set (targets L w)" "\<forall>t \<in> set (targets L w). t < length ?f \<and> t < length p"
    using w(2,3) L len by (auto simp: ts visit_node_def)
  note new = relax_node_all [OF run' out]
  have fw: "f' ! w = sat (f ! w + d w)" using new(1) [of w] out(1) w(1) len by (simp add: visit_node_def)
  have fold_D: "f' ! u = f ! u" "p' ! u = p ! u" if "u \<in> D" for u
    using new(1,2) [of u] that w closed by (cases "u = w"; auto simp: ts visit_node_def)+
  have pw: "p' ! w = p ! w" using new(2) [of w] out(1) by simp
  have "if v \<in> insert w D then \<exists>b. f' ! v = sat (b + d v) \<and> settled ?E c (insert w D) f' p' v b
      else settled ?E c (insert w D) f' p' v (f' ! v)" if v: "v < n" for v
  proof -
    consider (w) "v = w" | (old) "v \<in> D" "v \<noteq> w" | (new) "v \<notin> D" "v \<noteq> w" by blast
    then show ?thesis
    proof cases
      case w
      have "settled ?E c D f' p' w (f ! w)"
        using values_inv_open [OF inv assms(3,4)] fold_D(1) pw settled_cong [of p' w p D f' f] by blast
      then have "settled ?E c (insert w D) f' p' w (f ! w)" using out(1) ts settled_insert by blast
      then show ?thesis using w fw by auto
    next
      case old
      then obtain b where "f ! v = sat (b + d v)" "settled ?E c D f p v b"
        using values_inv_done [OF inv v] by blast
      moreover have "(w, v) \<notin> ?E" using old(1) closed assms(4) by blast
      ultimately show ?thesis
        using old fold_D settled_cong [of p' v p D f' f] settled_insert by (metis insertCI)
    next
      case new': new
      then have s: "settled ?E c D f p v (f ! v)" using values_inv_open [OF inv v] by simp
      have fv: "f' ! v = (if (w, v) \<in> ?E then max (f ! v) (f' ! w + c) else f ! v)"
        "p' ! v = (if (w, v) \<in> ?E \<and> f ! v < f' ! w + c then Some w else p ! v)"
        using new [of v] new' fw assms(3) len by (auto simp: ts visit_node_def)
      show ?thesis
        using s new' fold_D(1) by (auto simp: settled_def fv split: option.splits)
    qed
  qed
  then show ?thesis
    using relax_node_length [OF run'] len by (simp add: values_inv_def visit_node_def)
qed

lemma traverse_snoc:
  "traverse visit relax L (order @ [node]) a =
     fold (relax node) (targets L node) (visit node (traverse visit relax L order a))"
  by (simp add: traverse_def)

lemma topological_preds: "topological E order \<Longrightarrow> (u, v) \<in> E \<Longrightarrow> v \<in> set order \<Longrightarrow> u \<in> set order"
  using topological_closed [of u v E order] by auto

lemma traverse_values_inv:
  assumes "topological (set L) order" and "distinct order" and "set order \<subseteq> {..<n}"
    and "set L \<subseteq> {..<n} \<times> {..<n}"
  shows "values_inv sat d c n (set L) (set order)
    (traverse (visit_node_pred sat d) (relax_node c) L order (replicate n 0, replicate n None))"
  using assms(1-3)
proof (induction order rule: rev_induct)
  case Nil
  then show ?case by (simp add: traverse_def values_inv_def settled_def)
next
  case (snoc w order)
  let ?t = "\<lambda>order. traverse (visit_node_pred sat d) (relax_node c) L order (replicate n 0, replicate n None)"
  obtain f p where fp: "?t order = (f, p)" by fastforce
  obtain f' p' where fp': "?t (order @ [w]) = (f', p')" by fastforce
  have "values_inv sat d c n (set L) (set order) (f, p)"
    using snoc by (simp add: topological_snoc flip: fp)
  from visit_values_inv [OF this assms(4), of w f' p'] show ?case
    using snoc.prems topological_preds [of "set L" order] fp'
    by (simp add: topological_snoc traverse_snoc fp)
qed

section \<open>Longest chains\<close>

text \<open>The loop that follows the recorded predecessors of \<open>current\<close>, with the path so far.\<close>

definition backtrack :: "nat option list \<Rightarrow> nat option \<Rightarrow> nat list \<Rightarrow> nat list option" where
  "backtrack predecessor current path =
     map_option snd (while_option (\<lambda>(current, path). current \<noteq> None)
       (\<lambda>(current, path). (predecessor ! the current, path @ [the current])) (current, path))"

lemma backtrack_simps:
  "backtrack p None path = Some path"
  "backtrack p (Some v) path = backtrack p (p ! v) (path @ [v])"
  unfolding backtrack_def by (subst while_option_unfold, simp)+

locale longest_chain =
  fixes sat :: "nat \<Rightarrow> nat"
  assumes sat_mono: "a \<le> b \<Longrightarrow> sat a \<le> sat b"
    and sat_absorb: "sat (sat a + b) = sat (a + b)"
begin

lemma sat_chain_snoc:
  "xs \<noteq> [] \<Longrightarrow> sat (chain_weight d c (xs @ [v])) = sat (sat (chain_weight d c xs) + c + d v)"
  by (simp add: chain_weight_snoc sat_absorb add.assoc)

text \<open>No chain is heavier than the value of its last node.\<close>

lemma chain_bound:
  assumes inv: "values_inv sat d c n E {..<n} (f, p)" and E: "E \<subseteq> {..<n} \<times> {..<n}"
  shows "chain E xs \<Longrightarrow> last xs < n \<Longrightarrow> sat (chain_weight d c xs) \<le> f ! last xs"
proof (induction xs rule: rev_induct)
  case (snoc v xs)
  obtain b where b: "f ! v = sat (b + d v)" "settled E c {..<n} f p v b"
    using values_inv_done [OF inv, of v] snoc.prems(2) by auto
  show ?case
  proof (cases "xs = []")
    case True
    then show ?thesis using b(1) sat_mono [of "d v" "b + d v"] by simp
  next
    case False
    then have e: "chain E xs" "(last xs, v) \<in> E" using snoc.prems(1) by (simp_all add: chain_snoc)
    then have "last xs < n" using E by auto
    then have "sat (chain_weight d c xs) + c + d v \<le> b + d v"
      using snoc.IH e b(2) by (fastforce simp: settled_def)
    then show ?thesis using b(1) sat_mono by (simp add: sat_chain_snoc [OF False])
  qed
qed (simp add: chain_def)

text \<open>Following the recorded predecessors gives a chain that attains the value.\<close>

lemma chain_attained:
  assumes inv: "values_inv sat d c n E {..<n} (f, p)" and E: "finite E" "acyclic E"
  shows "v < n \<Longrightarrow> \<exists>res. backtrack p (Some v) path = Some (path @ res) \<and>
    chain E (rev res) \<and> last (rev res) = v \<and> sat (chain_weight d c (rev res)) = f ! v"
proof (induction v arbitrary: path rule: wf_induct_rule [OF finite_acyclic_wf [OF E]])
  case (1 v)
  obtain b where b: "f ! v = sat (b + d v)" "settled E c {..<n} f p v b"
    using values_inv_done [OF inv 1(2)] 1(2) by auto
  show ?case
  proof (cases "p ! v")
    case None
    then show ?thesis using b by (intro exI [of _ "[v]"]) (simp add: settled_def backtrack_simps)
  next
    case (Some u)
    then have u: "(u, v) \<in> E" "u < n" "b = f ! u + c" using b(2) by (auto simp: settled_def)
    from 1(1) [OF u(1,2), of "path @ [v]"] obtain res where res:
      "backtrack p (Some u) (path @ [v]) = Some ((path @ [v]) @ res)"
      "chain E (rev res)" "last (rev res) = u" "sat (chain_weight d c (rev res)) = f ! u" by blast
    then have "rev res \<noteq> []" by (auto simp: chain_def)
    then show ?thesis
      using res u b(1) Some
      by (intro exI [of _ "v # res"]) (simp add: backtrack_simps(2) [of p v] chain_snoc sat_chain_snoc del: rev_is_Nil_conv)
  qed
qed

end

interpretation plain: longest_chain "\<lambda>a. a"
  by unfold_locales simp_all

interpretation saturating: longest_chain "min M" for M
  by unfold_locales auto

end
