(* ===== verification/Plan_Graph.thy ===== *)
theory Plan_Graph
  imports Complex_Main Plan Longest_Chain
begin

text \<open>
  The graph algorithms of \<open>crates/aafp-sdk/src/execution/plan.rs\<close> on a plan: topological order,
  validation, parallel groups, critical path, and the constructors of plans that use them. Each loop
  is an instance of the loop of the theory \<open>Kahn\<close>; a result \<open>None\<close> would be a loop that does not
  end, and the theorems show that there is none. \<open>dependencies_met\<close> has \<open>None\<close> for the index panic.
\<close>

section \<open>Model\<close>

abbreviation U64_MAX :: nat where "U64_MAX \<equiv> 2 ^ 64 - 1"

definition edge_pairs :: "edge list \<Rightarrow> (nat \<times> nat) list" where
  "edge_pairs = map (\<lambda>(from, to, _). (from, to))"

definition topological_sort :: "ExecutionPlan \<Rightarrow> nat list option" where
  "topological_sort p =
     kahn (\<lambda>node order. order @ [node]) (\<lambda>_ _ order. order) (length (pl_tasks p)) (edge_pairs (pl_edges p)) []"

definition task_duration :: "TaskNode list \<Rightarrow> nat \<Rightarrow> nat" where
  "task_duration tasks node = unat (tn_estimated_duration_ms (tasks ! node))"

text \<open>\<open>max_by_key\<close> of an iterator returns the last of the greatest elements.\<close>

definition max_by_key :: "('a \<Rightarrow> nat) \<Rightarrow> 'a list \<Rightarrow> 'a option" where
  "max_by_key key xs =
     fold (\<lambda>x best. case best of None \<Rightarrow> Some x | Some y \<Rightarrow> if key y \<le> key x then Some x else Some y) xs None"

definition critical_path :: "ExecutionPlan \<Rightarrow> nat list option" where
  "critical_path p =
     (let n = length (pl_tasks p) in
      if n = 0 then Some []
      else Option.bind (topological_sort p) (\<lambda>topo.
        if length topo < n then Some topo
        else
          let successors = fst (build_graph n (edge_pairs (pl_edges p)));
              (earliest_finish, predecessor) =
                fold (\<lambda>node a. fold (relax_node 0 node) (succs successors node)
                    (visit_node_pred (min U64_MAX) (task_duration (pl_tasks p)) node a))
                  topo (replicate n 0, replicate n None);
              end_node = (case max_by_key (\<lambda>i. earliest_finish ! i) [0..<n] of Some i \<Rightarrow> i | None \<Rightarrow> 0)
          in map_option rev (backtrack predecessor (Some end_node) [])))"

definition level_visit :: "nat \<Rightarrow> nat list \<times> nat \<Rightarrow> nat list \<times> nat" where
  "level_visit node = (\<lambda>(level, max_level). (level, if level ! node > max_level then level ! node else max_level))"

definition level_relax :: "nat \<Rightarrow> nat \<Rightarrow> nat list \<times> nat \<Rightarrow> nat list \<times> nat" where
  "level_relax node succ = (\<lambda>(level, max_level).
     (level[succ := max (level ! succ) (level ! node + 1)], max_level))"

definition parallel_groups :: "ExecutionPlan \<Rightarrow> nat list list option" where
  "parallel_groups p =
     (let n = length (pl_tasks p) in
      if n = 0 then Some []
      else map_option (\<lambda>(level, max_level).
          filter (\<lambda>g. g \<noteq> [])
            (fold (\<lambda>i groups. if level ! i \<le> max_level
                then groups[level ! i := groups ! (level ! i) @ [i]] else groups)
              [0..<n] (replicate (max_level + 1) [])))
        (kahn level_visit level_relax n (edge_pairs (pl_edges p)) (replicate n 0, 0)))"

fun check_edges :: "nat \<Rightarrow> edge list \<Rightarrow> plan_error + unit" where
  "check_edges n [] = Inr ()"
| "check_edges n ((from, to, _) # es) =
     (if from \<ge> n then Inl (PlEdgeFromBounds from n)
      else if to \<ge> n then Inl (PlEdgeToBounds to n)
      else check_edges n es)"

definition validate :: "ExecutionPlan \<Rightarrow> (plan_error + unit) option" where
  "validate p =
     (let n = length (pl_tasks p) in
      case check_edges n (pl_edges p) of
        Inl e \<Rightarrow> Some (Inl e)
      | Inr _ \<Rightarrow> map_option (\<lambda>topo. if length topo \<noteq> n then Inl (PlCycle (length topo) n) else Inr ())
          (topological_sort p))"

definition saturating_sum :: "TaskNode list \<Rightarrow> nat" where
  "saturating_sum tasks = fold (\<lambda>t acc. min U64_MAX (acc + unat (tn_estimated_duration_ms t))) tasks 0"

definition finish_visit :: "TaskNode list \<Rightarrow> nat \<Rightarrow> nat list \<times> nat \<Rightarrow> nat list \<times> nat" where
  "finish_visit tasks node = (\<lambda>(earliest_finish, processed).
     (visit_node (min U64_MAX) (task_duration tasks) node earliest_finish, processed + 1))"

definition finish_relax :: "nat \<Rightarrow> nat \<Rightarrow> nat list \<times> nat \<Rightarrow> nat list \<times> nat" where
  "finish_relax node succ = (\<lambda>(earliest_finish, processed).
     (if earliest_finish ! node > earliest_finish ! succ
      then earliest_finish[succ := earliest_finish ! node] else earliest_finish, processed))"

definition compute_critical_path_duration :: "TaskNode list \<Rightarrow> edge list \<Rightarrow> u64 option" where
  "compute_critical_path_duration tasks edges =
     (let n = length tasks in
      if n = 0 then Some 0
      else map_option (\<lambda>(earliest_finish, processed).
          if processed < n then word_of_nat (saturating_sum tasks)
          else word_of_nat (fold max earliest_finish 0))
        (kahn (finish_visit tasks) finish_relax n (edge_pairs edges) (replicate n 0, 0)))"

definition aggregate_resources :: "TaskNode list \<Rightarrow> ResourceRequirements" where
  "aggregate_resources tasks = ResourceRequirements_aggregate (map tn_resources tasks)"

definition data_dependencies :: "ExecutionPlan \<Rightarrow> nat \<Rightarrow> nat list" where
  "data_dependencies p task_idx =
     map fst (filter (\<lambda>(_, to, dep). to = task_idx \<and> dep = DataDependency) (pl_edges p))"

fun all_completed :: "TaskNode list \<Rightarrow> nat list \<Rightarrow> bool option" where
  "all_completed tasks [] = Some True"
| "all_completed tasks (dep # deps) =
     (if dep < length tasks
      then (case tn_status (tasks ! dep) of Completed _ \<Rightarrow> all_completed tasks deps | _ \<Rightarrow> Some False)
      else None)"

definition dependencies_met :: "ExecutionPlan \<Rightarrow> nat \<Rightarrow> bool option" where
  "dependencies_met p task_idx = all_completed (pl_tasks p) (data_dependencies p task_idx)"

text \<open>\<open>now\<close> is the Unix time in seconds, zero for a clock before the epoch.\<close>

definition ExecutionPlan_new ::
    "crypto \<Rightarrow> u64 \<Rightarrow> ustring \<Rightarrow> TaskNode list \<Rightarrow> edge list \<Rightarrow> ExecutionPlan option" where
  "ExecutionPlan_new cr now goal tasks edges =
     map_option (\<lambda>latency.
       let temp = \<lparr>pl_id = PlanId_zero, pl_goal = goal, pl_tasks = tasks, pl_edges = edges,
             pl_estimated_cost = word_of_nat (saturating_sum tasks), pl_estimated_latency_ms = latency,
             pl_resource_requirements = aggregate_resources tasks, pl_created_at = 0, pl_version = 1\<rparr>;
           content = (case encode (ExecutionPlan_content_cbor temp) of Inr bs \<Rightarrow> bs | Inl _ \<Rightarrow> [])
       in temp\<lparr>pl_id := sha256 cr content, pl_created_at := now\<rparr>)
       (compute_critical_path_duration tasks edges)"

text \<open>
  The fields of a planner's step that the conversion reads; a latency is a finite \<open>f64\<close>, or \<open>None\<close>
  for an infinity or a NaN.
\<close>

record PlannedStep =
  ps_capability_name :: ustring
  ps_agent_id :: bytes
  ps_depends_on :: "nat list"
  ps_estimated_latency_ms :: "rat option"

definition latency_to_u64 :: "rat option \<Rightarrow> u64" where
  "latency_to_u64 l =
     (case l of
        Some x \<Rightarrow> if x \<ge> 0 then word_of_nat (min U64_MAX (nat \<lfloor>x\<rfloor>)) else 0
      | None \<Rightarrow> 0)"

definition step_task :: "crypto \<Rightarrow> ustring \<Rightarrow> nat \<Rightarrow> PlannedStep \<Rightarrow> TaskNode" where
  "step_task cr goal i step =
     \<lparr>tn_id = TaskId_from_seed cr (goal @ ps_capability_name step @ u64_to_be_bytes (word_of_nat i)),
      tn_capability = ps_capability_name step, tn_input = [],
      tn_estimated_duration_ms = latency_to_u64 (ps_estimated_latency_ms step),
      tn_resources = ResourceRequirements_default,
      tn_assigned_agent = (if list_ex (\<lambda>b. b \<noteq> 0) (ps_agent_id step) then Some (ps_agent_id step) else None),
      tn_status = Pending, tn_retry_count = 0\<rparr>"

definition step_edges :: "nat \<Rightarrow> PlannedStep \<Rightarrow> edge list" where
  "step_edges i step = map (\<lambda>dep. (dep, i, DataDependency)) (filter (\<lambda>dep. dep < i) (ps_depends_on step))"

definition from_capability_graph ::
    "crypto \<Rightarrow> u64 \<Rightarrow> PlannedStep list \<Rightarrow> ustring \<Rightarrow> ExecutionPlan option" where
  "from_capability_graph cr now steps goal =
     ExecutionPlan_new cr now goal
       (map (\<lambda>(i, step). step_task cr goal i step) (enumerate 0 steps))
       (concat (map (\<lambda>(i, step). step_edges i step) (enumerate 0 steps)))"

section \<open>Topological order and validation\<close>

text \<open>A plan whose two tasks depend on each other, and an edge that leads nowhere.\<close>

definition cyclic_plan :: ExecutionPlan where
  "cyclic_plan = example_plan\<lparr>pl_edges := [(0, 1, DataDependency), (1, 0, DataDependency), (2, 9, DataDependency)]\<rparr>"

text \<open>The dependency relation of a plan: the edges whose two ends are tasks of the plan.\<close>

definition depends :: "TaskNode list \<Rightarrow> edge list \<Rightarrow> (nat \<times> nat) set" where
  "depends tasks edges = set (in_range (length tasks) (edge_pairs edges))"

abbreviation plan_depends :: "ExecutionPlan \<Rightarrow> (nat \<times> nat) set" where
  "plan_depends p \<equiv> depends (pl_tasks p) (pl_edges p)"

lemma depends_subset: "depends tasks edges \<subseteq> {..<length tasks} \<times> {..<length tasks}"
  by (simp add: depends_def in_range_subset)

lemma finite_depends: "finite (depends tasks edges)"
  by (simp add: depends_def)

lemma length_edge_pairs [simp]: "length (edge_pairs es) = length es"
  by (simp add: edge_pairs_def)

lemma topological_sort_kahn: "topological_sort p = kahn_order (length (pl_tasks p)) (edge_pairs (pl_edges p))"
  by (simp add: topological_sort_def kahn_order_def)

lemma topological_sort_order:
  assumes "length (pl_edges p) \<le> USIZE_MAX"
  obtains order where "topological_sort p = Some order"
    "visiting_order (length (pl_tasks p)) (in_range (length (pl_tasks p)) (edge_pairs (pl_edges p))) order"
  using kahn_ends [of "edge_pairs (pl_edges p)" "length (pl_tasks p)" "\<lambda>_ a. a" "\<lambda>_ _ a. a" "()"] assms
  by (auto simp: topological_sort_kahn)

lemma topological_sort_complete:
  assumes "length (pl_edges p) \<le> USIZE_MAX" and "topological_sort p = Some order"
  shows "length order = length (pl_tasks p) \<longleftrightarrow> acyclic (plan_depends p)"
  using topological_sort_order [OF assms(1)] assms(2)
  by (metis depends_def in_range_subset option.inject visiting_order_complete)

lemma check_edges_Inr:
  "check_edges n es = Inr () \<longleftrightarrow> (\<forall>(from, to, dep) \<in> set es. from < n \<and> to < n)"
  by (induction es) (auto split: if_splits)

text \<open>C20. topological_sort returns; the order has each task that is not downstream of a cycle exactly once, after all tasks it depends on.\<close>

theorem topological_sort_correct:
  assumes "length (pl_edges p) \<le> USIZE_MAX"
  shows "\<exists>order. topological_sort p = Some order \<and> distinct order \<and> topological (plan_depends p) order \<and>
    set order = {i. i < length (pl_tasks p) \<and> \<not> downstream_of_cycle (plan_depends p) i}"
proof -
  obtain order where o: "topological_sort p = Some order"
    "visiting_order (length (pl_tasks p)) (in_range (length (pl_tasks p)) (edge_pairs (pl_edges p))) order"
    using topological_sort_order [OF assms] .
  then show ?thesis
    using visiting_order_set [OF o(2) in_range_subset]
    by (intro exI [of _ order]) (simp add: visiting_order_def depends_def)
qed

theorem topological_sort_correct_witness:
  "topological_sort example_plan = Some [0, 1, 2, 3] \<and> topological (plan_depends example_plan) [0, 1, 2, 3] \<and>
   \<not> downstream_of_cycle (plan_depends example_plan) 3"
proof -
  have run: "topological_sort example_plan = Some [0, 1, 2, 3]" by code_simp
  have "length (pl_edges example_plan) \<le> USIZE_MAX" by (simp add: example_plan_def)
  from topological_sort_correct [OF this] have t: "topological (plan_depends example_plan) [0, 1, 2, 3]"
    and s: "set [0, 1, 2, 3] = {i. i < length (pl_tasks example_plan) \<and> \<not> downstream_of_cycle (plan_depends example_plan) i}"
    unfolding run by auto
  have "3 \<in> set [0, 1, 2, 3 :: nat]" by simp
  then show ?thesis using run t unfolding s by blast
qed

lemma validate_edges_error: "check_edges (length (pl_tasks p)) (pl_edges p) = Inl e \<Longrightarrow> validate p = Some (Inl e)"
  by (simp add: validate_def)

definition edges_in_range :: "ExecutionPlan \<Rightarrow> bool" where
  "edges_in_range p \<longleftrightarrow>
     (\<forall>(from, to, dep) \<in> set (pl_edges p). from < length (pl_tasks p) \<and> to < length (pl_tasks p))"

lemma valid_iff:
  assumes "length (pl_edges p) \<le> USIZE_MAX"
  shows "validate p = Some (Inr ()) \<longleftrightarrow> edges_in_range p \<and> acyclic (plan_depends p)"
proof -
  obtain order where o: "topological_sort p = Some order" using topological_sort_order [OF assms] .
  show ?thesis
  proof (cases "check_edges (length (pl_tasks p)) (pl_edges p)")
    case (Inl e)
    then show ?thesis using check_edges_Inr [of "length (pl_tasks p)" "pl_edges p"] by (simp add: validate_edges_error edges_in_range_def)
  next
    case (Inr u)
    then show ?thesis
      using o topological_sort_complete [OF assms o] check_edges_Inr [of "length (pl_tasks p)" "pl_edges p"]
      by (simp add: validate_def edges_in_range_def)
  qed
qed

text \<open>
  C21. validate accepts exactly the plans whose edges all have task indices at both ends and whose dependencies have no cycle; a plan with a cycle is refused with the number of tasks that can be ordered.
\<close>

theorem validate_correct:
  assumes "length (pl_edges p) \<le> USIZE_MAX"
  shows "(validate p = Some (Inr ()) \<longleftrightarrow> edges_in_range p \<and> acyclic (plan_depends p)) \<and>
    (edges_in_range p \<and> \<not> acyclic (plan_depends p) \<longrightarrow> validate p = Some (Inl (PlCycle
      (card {i. i < length (pl_tasks p) \<and> \<not> downstream_of_cycle (plan_depends p) i}) (length (pl_tasks p)))))"
proof -
  let ?n = "length (pl_tasks p)"
  obtain order where o: "topological_sort p = Some order"
    "visiting_order ?n (in_range ?n (edge_pairs (pl_edges p))) order"
    using topological_sort_order [OF assms] .
  have "card {i. i < ?n \<and> \<not> downstream_of_cycle (plan_depends p) i} = length order"
    using visiting_order_set [OF o(2) in_range_subset] o(2) distinct_card [of order]
    by (simp add: visiting_order_def depends_def)
  then show ?thesis
    using valid_iff [OF assms] o(1) topological_sort_complete [OF assms o(1)] check_edges_Inr [of ?n "pl_edges p"]
    by (auto simp: validate_def edges_in_range_def)
qed

theorem validate_correct_witness:
  "edges_in_range example_plan \<and> acyclic (plan_depends example_plan) \<and> validate example_plan = Some (Inr ())"
proof -
  have "length (pl_edges example_plan) \<le> USIZE_MAX" by (simp add: example_plan_def)
  moreover have "validate example_plan = Some (Inr ())" by code_simp
  ultimately show ?thesis using validate_correct by blast
qed

lemma example_plan_acyclic: "length (pl_edges example_plan) \<le> USIZE_MAX" "acyclic (plan_depends example_plan)"
proof -
  show "length (pl_edges example_plan) \<le> USIZE_MAX" by (simp add: example_plan_def)
  moreover have "validate example_plan = Some (Inr ())" by code_simp
  ultimately show "acyclic (plan_depends example_plan)" using valid_iff by blast
qed

lemma topological_sort_length:
  assumes "length (pl_edges p) \<le> USIZE_MAX" and "topological_sort p = Some order"
  shows "length order \<le> length (pl_tasks p)"
  using topological_sort_order [OF assms(1)] assms(2)
  by (metis card_lessThan card_mono distinct_card finite_lessThan option.inject visiting_order_def)

section \<open>Critical path\<close>

lemma traverse_project:
  assumes "\<And>node a. h (visit node a) = visit' node (h a)"
    and "\<And>node succ a. h (relax node succ a) = relax' node succ (h a)"
  shows "h (traverse visit relax L order a) = traverse visit' relax' L order (h a)"
proof -
  have "h (fold (relax node) ts a) = fold (relax' node) ts (h a)" for node ts a
    by (induction ts arbitrary: a) (simp_all add: assms)
  then show ?thesis
    unfolding traverse_def by (induction order arbitrary: a) (simp_all add: assms)
qed

text \<open>The finish times, with the recorded predecessors, of a traversal in the given order.\<close>

definition finish_times :: "TaskNode list \<Rightarrow> edge list \<Rightarrow> nat list \<Rightarrow> node_values" where
  "finish_times tasks edges order =
     traverse (visit_node_pred (min U64_MAX) (task_duration tasks)) (relax_node 0)
       (in_range (length tasks) (edge_pairs edges)) order (replicate (length tasks) 0, replicate (length tasks) None)"

lemma max_by_key_in:
  "xs \<noteq> [] \<Longrightarrow> \<exists>x \<in> set xs. max_by_key key xs = Some x \<and> (\<forall>y \<in> set xs. key y \<le> key x)"
proof (induction xs rule: rev_induct)
  case (snoc x xs)
  show ?case
  proof (cases "xs = []")
    case True
    then show ?thesis by (simp add: max_by_key_def)
  next
    case False
    then obtain y where "y \<in> set xs" "max_by_key key xs = Some y" "\<forall>z \<in> set xs. key z \<le> key y" using snoc.IH by blast
    then show ?thesis by (fastforce simp: max_by_key_def)
  qed
qed simp

lemma fold_max_eq: "fold max xs (a :: nat) = Max (insert a (set xs))"
  using Max.set_eq_fold [of a xs] by simp

lemma traverse_count: "traverse (\<lambda>_. Suc) (\<lambda>_ _ k. k) L order (k :: nat) = k + length order"
proof -
  have "fold (\<lambda>_ k. k) ts k = k" for ts :: "nat list" and k :: nat by (induction ts) simp_all
  then show ?thesis unfolding traverse_def by (induction order arbitrary: k) simp_all
qed

definition relax_list :: "nat \<Rightarrow> nat \<Rightarrow> nat \<Rightarrow> nat list \<Rightarrow> nat list" where
  "relax_list c node succ f = (if f ! node + c > f ! succ then f[succ := f ! node + c] else f)"

lemma fst_traverse_values:
  "fst (traverse (visit_node_pred sat d) (relax_node c) L order a) =
     traverse (visit_node sat d) (relax_list c) L order (fst a)"
  by (rule traverse_project) (simp_all add: visit_node_pred_def relax_node_def relax_list_def split_beta)

lemma traverse_finish:
  "traverse (finish_visit tasks) finish_relax L order (f, k) =
     (traverse (visit_node (min U64_MAX) (task_duration tasks)) (relax_list 0) L order f, k + length order)"
  (is "?t = _")
proof -
  have "fst ?t = traverse (visit_node (min U64_MAX) (task_duration tasks)) (relax_list 0) L order (fst (f, k))"
    by (rule traverse_project) (simp_all add: finish_visit_def finish_relax_def relax_list_def split_beta)
  moreover have "snd ?t = traverse (\<lambda>_. Suc) (\<lambda>_ _ k. k) L order (snd (f, k))"
    by (rule traverse_project) (simp_all add: finish_visit_def finish_relax_def split_beta)
  ultimately show ?thesis by (simp add: traverse_count prod_eq_iff)
qed

lemma acyclic_order:
  assumes "length (pl_edges p) \<le> USIZE_MAX" and "acyclic (plan_depends p)"
  obtains order where "topological_sort p = Some order" "set order = {..<length (pl_tasks p)}"
    "length order = length (pl_tasks p)" "distinct order" "topological (plan_depends p) order"
proof -
  let ?n = "length (pl_tasks p)"
  obtain order where o: "topological_sort p = Some order"
    "visiting_order ?n (in_range ?n (edge_pairs (pl_edges p))) order"
    using topological_sort_order [OF assms(1)] .
  have len: "length order = ?n" using topological_sort_complete [OF assms(1) o(1)] assms(2) by simp
  have d: "distinct order" "set order \<subseteq> {..<?n}" using o(2) by (auto simp: visiting_order_def)
  then have "set order = {..<?n}" using len by (intro card_subset_eq) (simp_all add: distinct_card)
  then show thesis using that o len d by (auto simp: visiting_order_def depends_def)
qed

lemma finish_times_inv:
  assumes "set order = {..<length tasks}" "distinct order" "topological (depends tasks edges) order"
  shows "values_inv (min U64_MAX) (task_duration tasks) 0 (length tasks) (depends tasks edges) {..<length tasks}
    (finish_times tasks edges order)"
  using traverse_values_inv [of "in_range (length tasks) (edge_pairs edges)" order "length tasks"] assms
  by (simp add: finish_times_def depends_def in_range_subset)

lemma critical_path_eq:
  assumes "length (pl_edges p) \<le> USIZE_MAX" and "topological_sort p = Some order"
    and "length order = length (pl_tasks p)" and "pl_tasks p \<noteq> []"
    and "finish_times (pl_tasks p) (pl_edges p) order = (f, pr)"
  shows "\<exists>v < length (pl_tasks p). (\<forall>i < length (pl_tasks p). f ! i \<le> f ! v) \<and>
    critical_path p = map_option rev (backtrack pr (Some v) [])"
proof -
  let ?n = "length (pl_tasks p)" and ?es = "edge_pairs (pl_edges p)"
  obtain adj deg where g: "build_graph ?n ?es = (adj, deg)" by fastforce
  have "succs adj = targets (in_range ?n ?es)" using build_graph_correct(2) [OF _ g] assms(1) by simp
  then have run: "fold (\<lambda>node a. fold (relax_node 0 node) (succs adj node)
      (visit_node_pred (min U64_MAX) (task_duration (pl_tasks p)) node a))
      order (replicate ?n 0, replicate ?n None) = (f, pr)"
    using assms(5) by (simp add: finish_times_def traverse_def)
  have ne: "[0..<?n] \<noteq> []" using assms(4) by simp
  obtain v where "v \<in> set [0..<?n]" "max_by_key (\<lambda>i. f ! i) [0..<?n] = Some v" "\<forall>i \<in> set [0..<?n]. f ! i \<le> f ! v"
    using max_by_key_in [OF ne, of "\<lambda>i. f ! i"] by blast
  then show ?thesis
    using assms(2-4) run by (intro exI [of _ v]) (simp add: critical_path_def Let_def g)
qed

lemma duration_eq:
  assumes "length edges \<le> USIZE_MAX" and "kahn_order (length tasks) (edge_pairs edges) = Some order"
    and "tasks \<noteq> []"
  shows "compute_critical_path_duration tasks edges = Some (word_of_nat
    (if length order < length tasks then saturating_sum tasks
     else fold max (fst (finish_times tasks edges order)) 0))"
  using kahn_ends [of "edge_pairs edges" "length tasks" "finish_visit tasks" finish_relax "(replicate (length tasks) 0, 0)"] assms
  by (auto simp: compute_critical_path_duration_def Let_def finish_times_def fst_traverse_values traverse_finish)

lemma values_bounded: "values_inv (min M) d 0 n E {..<n} (f, p) \<Longrightarrow> v < n \<Longrightarrow> f ! v \<le> M"
  using values_inv_done [of "min M" d 0 n E "{..<n}" f p v] by auto

lemma fold_max_nth:
  assumes "v < length f" and "\<forall>i < length f. f ! i \<le> (f ! v :: nat)"
  shows "fold max f 0 = f ! v"
  unfolding fold_max_eq using assms by (intro Max_eqI) (auto simp: in_set_conv_nth)

lemma critical_path_run:
  assumes "length (pl_edges p) \<le> USIZE_MAX" and "acyclic (plan_depends p)" and "pl_tasks p \<noteq> []"
  obtains path f pr where "critical_path p = Some path" "chain (plan_depends p) path" "last path < length (pl_tasks p)"
    "values_inv (min U64_MAX) (task_duration (pl_tasks p)) 0 (length (pl_tasks p)) (plan_depends p)
      {..<length (pl_tasks p)} (f, pr)"
    "min U64_MAX (chain_weight (task_duration (pl_tasks p)) 0 path) = f ! last path"
    "\<forall>i < length (pl_tasks p). f ! i \<le> f ! last path"
    "compute_critical_path_duration (pl_tasks p) (pl_edges p) = Some (word_of_nat (f ! last path))"
proof -
  let ?n = "length (pl_tasks p)" and ?d = "task_duration (pl_tasks p)" and ?R = "plan_depends p"
  obtain order where o: "topological_sort p = Some order" "set order = {..<?n}" "length order = ?n"
    "distinct order" "topological ?R order" using acyclic_order [OF assms(1,2)] .
  obtain f pr where f: "finish_times (pl_tasks p) (pl_edges p) order = (f, pr)" by fastforce
  have inv: "values_inv (min U64_MAX) ?d 0 ?n ?R {..<?n} (f, pr)"
    using finish_times_inv [OF o(2,4,5)] f by simp
  have len: "length f = ?n" using inv by (simp add: values_inv_def)
  obtain v where v: "v < ?n" "\<forall>i < ?n. f ! i \<le> f ! v"
    "critical_path p = map_option rev (backtrack pr (Some v) [])"
    using critical_path_eq [OF assms(1) o(1,3) assms(3) f] by blast
  obtain res where res: "backtrack pr (Some v) [] = Some ([] @ res)" "chain ?R (rev res)" "last (rev res) = v"
    "min U64_MAX (chain_weight ?d 0 (rev res)) = f ! v"
    using saturating.chain_attained [OF inv finite_depends assms(2) v(1), of "[]"] by blast
  have "compute_critical_path_duration (pl_tasks p) (pl_edges p) = Some (word_of_nat (f ! v))"
    using duration_eq [of "pl_edges p" "pl_tasks p" order] assms(1,3) o(1,3) fold_max_nth [of v f] v(1,2) len f
    by (simp add: topological_sort_kahn)
  then show thesis using that [of "rev res" f pr] v res inv by simp
qed

text \<open>
  C22. for a plan without cycles critical_path returns a chain of dependencies whose total duration, saturated at the width of the counter, is the estimated latency, and no chain of dependencies takes longer.
\<close>

theorem critical_path_correct:
  assumes "length (pl_edges p) \<le> USIZE_MAX" and "acyclic (plan_depends p)" and "pl_tasks p \<noteq> []"
  shows "\<exists>path latency. critical_path p = Some path \<and>
    compute_critical_path_duration (pl_tasks p) (pl_edges p) = Some latency \<and>
    chain (plan_depends p) path \<and> last path < length (pl_tasks p) \<and>
    unat latency = min U64_MAX (\<Sum>i \<leftarrow> path. task_duration (pl_tasks p) i) \<and>
    (\<forall>xs. chain (plan_depends p) xs \<and> last xs < length (pl_tasks p) \<longrightarrow>
      min U64_MAX (\<Sum>i \<leftarrow> xs. task_duration (pl_tasks p) i) \<le> unat latency)"
proof -
  let ?n = "length (pl_tasks p)" and ?d = "task_duration (pl_tasks p)" and ?R = "plan_depends p"
  obtain path f pr where r: "critical_path p = Some path" "chain ?R path" "last path < ?n"
    "values_inv (min U64_MAX) ?d 0 ?n ?R {..<?n} (f, pr)" "min U64_MAX (chain_weight ?d 0 path) = f ! last path"
    "\<forall>i < ?n. f ! i \<le> f ! last path"
    "compute_critical_path_duration (pl_tasks p) (pl_edges p) = Some (word_of_nat (f ! last path))"
    using critical_path_run [OF assms] .
  have "unat (word_of_nat (f ! last path) :: u64) = f ! last path"
    using values_bounded [OF r(4,3)] by (simp add: unsigned_of_nat take_bit_nat_eq_self)
  moreover have "min U64_MAX (chain_weight ?d 0 xs) \<le> f ! last path" if "chain ?R xs" "last xs < ?n" for xs
    using saturating.chain_bound [OF r(4) depends_subset that] r(6) that(2) by (meson le_trans)
  ultimately show ?thesis using r by (auto simp: chain_weight_def)
qed

theorem critical_path_correct_witness:
  "critical_path example_plan = Some [0, 1, 3] \<and> chain (plan_depends example_plan) [0, 1, 3] \<and>
   compute_critical_path_duration (pl_tasks example_plan) (pl_edges example_plan) = Some 31"
proof -
  have run: "critical_path example_plan = Some [0, 1, 3]"
    "compute_critical_path_duration (pl_tasks example_plan) (pl_edges example_plan) = Some 31" by code_simp+
  have "pl_tasks example_plan \<noteq> []" by (simp add: example_plan_def)
  from critical_path_correct [OF example_plan_acyclic this] show ?thesis using run by auto
qed

section \<open>Parallel groups\<close>

lemma fst_traverse_level:
  "fst (traverse level_visit level_relax L order (f, k)) =
     fst (traverse (visit_node_pred (\<lambda>a. a) (\<lambda>_. 0)) (relax_node 1) L order (f, pr))"
proof -
  have "max (f ! succ) (f ! node + 1) = f ! succ" if "\<not> f ! succ < f ! node + 1" for f :: "nat list" and node succ
    using that by simp
  then have relax: "level_relax node succ a = (relax_list 1 node succ (fst a), snd a)" for node succ a
    by (auto simp: level_relax_def relax_list_def split_beta max_def)
  have "fst (traverse level_visit level_relax L order (f, k)) =
      traverse (visit_node (\<lambda>a. a) (\<lambda>_. 0)) (relax_list 1) L order (fst (f, k))"
    by (rule traverse_project) (simp_all add: relax level_visit_def visit_node_def split_beta)
  then show ?thesis by (simp add: fst_traverse_values)
qed

lemma level_relax_all:
  "fold (level_relax node) ts (f, m) = (f', m') \<Longrightarrow> m' = m \<and> (\<forall>v. v \<notin> set ts \<longrightarrow> f' ! v = f ! v)"
  by (induction ts arbitrary: f) (fastforce simp: level_relax_def)+

lemma level_visit_pair: "level_visit node (f, m) = (f, max m (f ! node))"
  by (simp add: level_visit_def max_def)

lemma level_max:
  assumes "topological (set L) order" and "distinct order"
    and "traverse level_visit level_relax L order (f0, 0) = (f, m)"
  shows "(\<forall>v \<in> set order. f ! v \<le> m) \<and> (m = 0 \<or> (\<exists>v \<in> set order. f ! v = m))"
  using assms
proof (induction order arbitrary: f m rule: rev_induct)
  case (snoc w order)
  obtain g k where g: "traverse level_visit level_relax L order (f0, 0) = (g, k)" by fastforce
  have ih: "\<forall>v \<in> set order. g ! v \<le> k" "k = 0 \<or> (\<exists>v \<in> set order. g ! v = k)"
    using snoc.IH [OF _ _ g] snoc.prems(1,2) by (auto simp: topological_snoc)
  have "fold (level_relax w) (targets L w) (g, max k (g ! w)) = (f, m)"
    using snoc.prems(3) by (simp add: traverse_snoc g level_visit_pair)
  from level_relax_all [OF this] have f: "m = max k (g ! w)" "\<forall>v. (w, v) \<notin> set L \<longrightarrow> f ! v = g ! v"
    by (auto simp: targets_def image_iff)
  have "(w, v) \<notin> set L" if "v \<in> set (order @ [w])" for v
    using snoc.prems(1,2) that topological_preds [of "set L" order w v] by (auto simp: topological_snoc)
  then have "\<forall>v \<in> set (order @ [w]). f ! v = g ! v" using f(2) by blast
  then show ?case using ih f(1) by (auto simp: max_def)
qed (simp add: traverse_def)

lemma groups_fold_below:
  "fold (\<lambda>i groups. if level ! i < k then groups[level ! i := groups ! (level ! i) @ [i]] else groups)
     [0..<n] (replicate k []) = map (\<lambda>l. filter (\<lambda>i. level ! i = l) [0..<n]) [0..<k]"
proof (induction n)
  case 0
  then show ?case by (simp add: map_replicate_const)
next
  case (Suc n)
  show ?case
  proof (cases "level ! n < k")
    case True
    then show ?thesis by (simp add: Suc) (rule nth_equalityI; simp add: nth_list_update)
  next
    case False
    then show ?thesis by (simp add: Suc)
  qed
qed

text \<open>Each level up to the greatest has a task, when the levels are those of an acyclic plan.\<close>

lemma level_step:
  assumes "values_inv (\<lambda>a. a) (\<lambda>_. 0) 1 n E {..<n} (f, p)" and "E \<subseteq> {..<n} \<times> {..<n}" and "v < n"
  shows "(u, v) \<in> E \<Longrightarrow> f ! u < f ! v" and "f ! v = 0 \<or> (\<exists>u < n. (u, v) \<in> E \<and> f ! v = f ! u + 1)"
  using values_inv_done [OF assms(1,3)] assms(2,3) by (auto simp: settled_def split: option.splits)

lemma level_inhabited:
  assumes "values_inv (\<lambda>a. a) (\<lambda>_. 0) 1 n E {..<n} (f, p)" and "E \<subseteq> {..<n} \<times> {..<n}"
  shows "v < n \<Longrightarrow> l \<le> f ! v \<Longrightarrow> \<exists>i < n. f ! i = l"
proof (induction "f ! v" arbitrary: v)
  case 0
  then show ?case by auto
next
  case (Suc k)
  then obtain u where "u < n" "f ! v = f ! u + 1" using level_step(2) [OF assms, of v] by force
  then show ?case using Suc by (cases "l = f ! v") auto
qed

lemma levels:
  assumes "length (pl_edges p) \<le> USIZE_MAX" and "acyclic (plan_depends p)"
  shows "\<exists>level m pr. kahn level_visit level_relax (length (pl_tasks p)) (edge_pairs (pl_edges p))
      (replicate (length (pl_tasks p)) 0, 0) = Some (level, m) \<and>
    values_inv (\<lambda>a. a) (\<lambda>_. 0) 1 (length (pl_tasks p)) (plan_depends p) {..<length (pl_tasks p)} (level, pr) \<and>
    (\<forall>v < length (pl_tasks p). level ! v \<le> m) \<and> (m = 0 \<or> (\<exists>v < length (pl_tasks p). level ! v = m))"
proof -
  let ?n = "length (pl_tasks p)" and ?es = "edge_pairs (pl_edges p)"
  let ?L = "in_range ?n ?es"
  obtain order where o: "topological_sort p = Some order" "set order = {..<?n}" "length order = ?n"
    "distinct order" "topological (plan_depends p) order" using acyclic_order [OF assms] .
  let ?t = "traverse level_visit level_relax ?L order (replicate ?n 0, 0)"
  let ?v = "traverse (visit_node_pred (\<lambda>a. a) (\<lambda>_. 0)) (relax_node 1) ?L order (replicate ?n 0, replicate ?n None)"
  have "kahn level_visit level_relax ?n ?es (replicate ?n 0, 0) = Some ?t"
    using kahn_ends [of ?es ?n level_visit level_relax "(replicate ?n 0, 0)"] o(1) assms(1)
    by (auto simp: topological_sort_kahn)
  moreover have "values_inv (\<lambda>a. a) (\<lambda>_. 0) 1 ?n (plan_depends p) {..<?n} ?v"
    using traverse_values_inv [of ?L order ?n] o by (simp add: depends_def in_range_subset)
  moreover have "fst ?t = fst ?v" by (rule fst_traverse_level)
  moreover have "(\<forall>v < ?n. fst ?t ! v \<le> snd ?t) \<and> (snd ?t = 0 \<or> (\<exists>v < ?n. fst ?t ! v = snd ?t))"
    using level_max [of ?L order "replicate ?n 0" "fst ?t" "snd ?t"] o by (auto simp: depends_def)
  ultimately show ?thesis by (metis prod.collapse)
qed

lemma mset_by_level:
  "(\<forall>i < n. level ! i < k) \<Longrightarrow> mset (concat (map (\<lambda>l. filter (\<lambda>i. level ! i = l) [0..<n]) [0..<k])) = mset [0..<n]"
proof (induction n)
  case (Suc n)
  have "mset (concat (map (\<lambda>l. xs l @ (if level ! n = l then [n] else [])) [0..<k])) =
      mset (concat (map xs [0..<k])) + (if level ! n < k then {#n#} else {#})" for xs
    by (induction k) (auto simp: less_Suc_eq)
  moreover have "filter P [0..<Suc n] = filter P [0..<n] @ (if P n then [n] else [])" for P by simp
  ultimately show ?case using Suc by (simp only:) simp
qed (simp add: concat_eq_Nil_conv)

definition by_level :: "nat list \<Rightarrow> nat \<Rightarrow> nat \<Rightarrow> nat list" where
  "by_level level n l = filter (\<lambda>i. level ! i = l) [0..<n]"

lemma set_by_level: "set (by_level level n l) = {i. i < n \<and> level ! i = l}"
  by (auto simp: by_level_def)

lemma nth_by_level: "k < K \<Longrightarrow> map (by_level level n) [0..<K] ! k = by_level level n k"
  by simp

lemma by_level_inhabited:
  assumes "values_inv (\<lambda>a. a) (\<lambda>_. 0) 1 n E {..<n} (level, p)" and "E \<subseteq> {..<n} \<times> {..<n}" and "0 < n"
    and "m = 0 \<or> (\<exists>v < n. level ! v = m)" and "\<forall>v < n. level ! v \<le> m" and "l \<le> m"
  shows "by_level level n l \<noteq> []"
proof -
  obtain v where "v < n" "level ! v = m" using assms(3-5) by (cases "m = 0") auto
  then obtain i where "i < n" "level ! i = l" using level_inhabited [OF assms(1,2), of v l] assms(6) by blast
  then show ?thesis by (auto simp: by_level_def filter_empty_conv)
qed

lemma parallel_groups_levels:
  assumes "pl_tasks p \<noteq> []" and "kahn level_visit level_relax (length (pl_tasks p)) (edge_pairs (pl_edges p))
      (replicate (length (pl_tasks p)) 0, 0) = Some (level, m)"
    and "\<forall>l < Suc m. by_level level (length (pl_tasks p)) l \<noteq> []"
  shows "parallel_groups p = Some (map (by_level level (length (pl_tasks p))) [0..<Suc m])"
proof -
  define K where "K = Suc m"
  have le: "a \<le> m \<longleftrightarrow> a < K" for a by (auto simp: K_def)
  have "filter (\<lambda>g. g \<noteq> []) (map (by_level level (length (pl_tasks p))) [0..<K]) =
      map (by_level level (length (pl_tasks p))) [0..<K]"
    using assms(3) by (auto simp: filter_id_conv K_def simp del: upt_Suc)
  then show ?thesis
    using assms(1,2) groups_fold_below [of level K "length (pl_tasks p)"]
    by (simp add: parallel_groups_def Let_def le by_level_def [abs_def] K_def [symmetric] del: replicate_Suc upt_Suc)
qed

text \<open>
  for a plan without cycles parallel_groups returns groups that partition the tasks; what a task depends on is in earlier groups, and a task that is not in the first group depends on one of the group before its own.
\<close>

lemma parallel_groups_correct:
  assumes "length (pl_edges p) \<le> USIZE_MAX" and "acyclic (plan_depends p)"
  shows "\<exists>groups. parallel_groups p = Some groups \<and>
    mset (concat groups) = mset [0..<length (pl_tasks p)] \<and>
    (\<forall>k < length groups. \<forall>v \<in> set (groups ! k).
       (\<forall>u. (u, v) \<in> plan_depends p \<longrightarrow> (\<exists>j < k. u \<in> set (groups ! j))) \<and>
       (k = 0 \<or> (\<exists>u \<in> set (groups ! (k - 1)). (u, v) \<in> plan_depends p)))"
proof (cases "pl_tasks p = []")
  case True
  then show ?thesis by (simp add: parallel_groups_def)
next
  case False
  let ?n = "length (pl_tasks p)"
  obtain level m pr where run: "kahn level_visit level_relax ?n (edge_pairs (pl_edges p)) (replicate ?n 0, 0) = Some (level, m)"
    and inv: "values_inv (\<lambda>a. a) (\<lambda>_. 0) 1 ?n (plan_depends p) {..<?n} (level, pr)"
    and m: "\<forall>v < ?n. level ! v \<le> m" "m = 0 \<or> (\<exists>v < ?n. level ! v = m)" using levels [OF assms] by blast
  note step = level_step [OF inv depends_subset]
  let ?groups = "map (by_level level ?n) [0..<Suc m]"
  have "parallel_groups p = Some ?groups"
    using by_level_inhabited [OF inv depends_subset _ m(2,1)] False run
    by (intro parallel_groups_levels) (simp_all add: less_Suc_eq_le)
  moreover have "mset (concat ?groups) = mset [0..<?n]"
    using mset_by_level [of ?n level "Suc m"] m(1) by (simp add: by_level_def [abs_def] less_Suc_eq_le del: upt_Suc)
  moreover have "(\<forall>u. (u, v) \<in> plan_depends p \<longrightarrow> (\<exists>j < k. u \<in> set (?groups ! j))) \<and>
      (k = 0 \<or> (\<exists>u \<in> set (?groups ! (k - 1)). (u, v) \<in> plan_depends p))"
    if k: "k < Suc m" and v: "v \<in> set (?groups ! k)" for k v
  proof -
    have v': "v < ?n" "level ! v = k" using v k by (simp_all add: nth_by_level set_by_level del: upt_Suc)
    have "\<exists>j < k. u \<in> set (?groups ! j)" if u: "(u, v) \<in> plan_depends p" for u
      using step(1) [OF v'(1) u] u depends_subset [of "pl_tasks p" "pl_edges p"] v'(2) k
      by (intro exI [of _ "level ! u"]) (auto simp: nth_by_level set_by_level simp del: upt_Suc)
    moreover have "k = 0 \<or> (\<exists>u \<in> set (?groups ! (k - 1)). (u, v) \<in> plan_depends p)"
      using step(2) [OF v'(1)] v'(2) k by (auto simp: nth_by_level set_by_level simp del: upt_Suc)
    ultimately show ?thesis by blast
  qed
  ultimately show ?thesis by (intro exI [of _ ?groups]) (simp del: upt_Suc)
qed

lemma parallel_groups_correct_example:
  "parallel_groups example_plan = Some [[0], [1, 2], [3]] \<and>
   mset (concat [[0], [1, 2], [3]]) = mset [0..<length (pl_tasks example_plan)]"
proof -
  have "parallel_groups example_plan = Some [[0], [1, 2], [3]]" by code_simp
  then show ?thesis using parallel_groups_correct [OF example_plan_acyclic] by auto
qed

section \<open>Termination\<close>

text \<open>C23. on every plan, cyclic or not, with edges that are out of range or not, the loops of all four algorithms end.\<close>

theorem plan_algorithms_end:
  assumes "length (pl_edges p) \<le> USIZE_MAX"
  shows "topological_sort p \<noteq> None \<and> critical_path p \<noteq> None \<and> parallel_groups p \<noteq> None \<and>
    compute_critical_path_duration (pl_tasks p) (pl_edges p) \<noteq> None"
proof -
  let ?n = "length (pl_tasks p)"
  obtain order where o: "topological_sort p = Some order" using topological_sort_order [OF assms] .
  have "parallel_groups p \<noteq> None"
    using kahn_ends [of "edge_pairs (pl_edges p)" ?n level_visit level_relax "(replicate ?n 0, 0)"] assms
    by (auto simp: parallel_groups_def Let_def)
  moreover have "compute_critical_path_duration (pl_tasks p) (pl_edges p) \<noteq> None"
    using duration_eq [OF assms, of "pl_tasks p" order] o
    by (cases "pl_tasks p = []") (auto simp: compute_critical_path_duration_def topological_sort_kahn)
  moreover have "critical_path p \<noteq> None"
  proof (cases "pl_tasks p \<noteq> [] \<and> length order = ?n")
    case True
    then have "acyclic (plan_depends p)" using topological_sort_complete [OF assms o] by simp
    then show ?thesis using True critical_path_run [OF assms] by (metis option.discI)
  next
    case False
    then show ?thesis using o topological_sort_length [OF assms o] by (auto simp: critical_path_def Let_def)
  qed
  ultimately show ?thesis using o by simp
qed

theorem plan_algorithms_end_witness:
  "topological_sort cyclic_plan = Some [2, 3] \<and> critical_path cyclic_plan = Some [2, 3] \<and>
   parallel_groups cyclic_plan \<noteq> None"
proof -
  have "length (pl_edges cyclic_plan) \<le> USIZE_MAX" by (simp add: cyclic_plan_def)
  then have "parallel_groups cyclic_plan \<noteq> None" using plan_algorithms_end by blast
  moreover have "topological_sort cyclic_plan = Some [2, 3]" by code_simp
  moreover have "critical_path cyclic_plan = Some [2, 3]" by code_simp
  ultimately show ?thesis by blast
qed

section \<open>Plans from planner steps\<close>

lemma acyclic_increasing: "(\<And>u v. (u, v) \<in> E \<Longrightarrow> u < (v :: nat)) \<Longrightarrow> acyclic E"
  by (rule acyclic_subset [of less_than]) (auto simp: acyclic_def trans_less_than [THEN trancl_id])

lemma new_plan:
  assumes "length edges \<le> USIZE_MAX"
  obtains p where "ExecutionPlan_new cr now goal tasks edges = Some p" "pl_tasks p = tasks" "pl_edges p = edges"
proof -
  obtain order where "kahn_order (length tasks) (edge_pairs edges) = Some order"
    using kahn_ends [of "edge_pairs edges" "length tasks" "\<lambda>_ a. a" "\<lambda>_ _ a. a" "()"] assms by auto
  then have "compute_critical_path_duration tasks edges \<noteq> None"
    using duration_eq [OF assms, of tasks order] by (cases "tasks = []") (auto simp: compute_critical_path_duration_def)
  then show thesis using that by (auto simp: ExecutionPlan_new_def Let_def)
qed

lemma step_edges_range:
  "(from, to, dep) \<in> set (concat (map (\<lambda>(i, step). step_edges i step) (enumerate 0 steps))) \<Longrightarrow>
     from < to \<and> to < length steps"
  by (auto simp: step_edges_def in_set_enumerate_eq)

text \<open>the plan built from a planner's steps is valid, whatever dependencies the steps list.\<close>

lemma from_capability_graph_valid:
  assumes "(\<Sum>step \<leftarrow> steps. length (ps_depends_on step)) \<le> USIZE_MAX"
  shows "\<exists>p. from_capability_graph cr now steps goal = Some p \<and> validate p = Some (Inr ()) \<and>
    length (pl_tasks p) = length steps"
proof -
  let ?tasks = "map (\<lambda>(i, step). step_task cr goal i step) (enumerate 0 steps)"
  let ?edges = "concat (map (\<lambda>(i, step). step_edges i step) (enumerate 0 steps))"
  have "length ?edges \<le> (\<Sum>step \<leftarrow> steps. length (ps_depends_on step))"
  proof (induction steps rule: rev_induct)
    case (snoc step steps)
    have "length (step_edges (length steps) step) \<le> length (ps_depends_on step)" by (simp add: step_edges_def)
    with snoc show ?case by (simp add: enumerate_append_eq)
  qed simp
  then have len: "length ?edges \<le> USIZE_MAX" using assms by (rule le_trans)
  obtain p where p: "ExecutionPlan_new cr now goal ?tasks ?edges = Some p" "pl_tasks p = ?tasks" "pl_edges p = ?edges"
    using new_plan [OF len] .
  have e: "from < to \<and> to < length (pl_tasks p)" if "(from, to, dep) \<in> set (pl_edges p)" for "from" to dep
    using step_edges_range [of "from" to dep steps] that unfolding p by simp
  then have "acyclic (plan_depends p)"
    by (intro acyclic_increasing) (auto simp: depends_def in_range_def edge_pairs_def)
  then have "validate p = Some (Inr ())"
    using len e valid_iff [of p] unfolding p(3) [symmetric] by (fastforce simp: edges_in_range_def)
  then show ?thesis using p by (simp add: from_capability_graph_def)
qed

lemma from_capability_graph_valid_example:
  "\<exists>p. from_capability_graph example_crypto 0 [\<lparr>ps_capability_name = str ''a'', ps_agent_id = replicate 32 0, ps_depends_on = [5],
       ps_estimated_latency_ms = Some (3 / 2)\<rparr>] (str ''g'') = Some p \<and> validate p = Some (Inr ()) \<and> length (pl_tasks p) = 1"
  using from_capability_graph_valid [of "[\<lparr>ps_capability_name = str ''a'', ps_agent_id = replicate 32 0, ps_depends_on = [5],
       ps_estimated_latency_ms = Some (3 / 2)\<rparr>]"] by simp

end
