(* ===== verification/Account.thy ===== *)
theory Account
  imports Cbor_Message Hash_Map
begin

text \<open>
  Resource accounting, \<open>crates/aafp-economics/src/account.rs\<close>: usage records of six resources,
  limits, ledgers per agent, and the account with its debits, credits and transfers. The errors are
  those of \<open>EconomicsError\<close> in \<open>lib.rs\<close> that this component reports; the texts of an invalid field
  are enumerated. The order in which the ledgers are iterated is the argument \<open>ord\<close>.

  The theorems show the books are kept right in every run (net usage lies between debits minus
  credits and debits), that limits hold under the rejecting policy as long as nothing is transferred,
  that a transfer moves usage without creating or losing any, and that a saved account is restored.
\<close>

section \<open>Usage and limits\<close>

datatype econ_text = ExpectedUnsigned Value | ExpectedPolicy Value | ExpectedTextKey Value
  | ExpectedPair Value | ExpectedArray Value

datatype EconomicsError =
    CborDecode CborError
  | MissingField string
  | InvalidField string econ_text
  | LimitExceeded ustring string u64 u64
  | InsufficientBalance ustring u64 u64

definition dec_u64 :: "Value \<Rightarrow> string \<Rightarrow> EconomicsError + u64" where
  "dec_u64 val field = (case val of Unsigned n \<Rightarrow> Inr n | _ \<Rightarrow> Inl (InvalidField field (ExpectedUnsigned val)))"

definition req :: "Value \<Rightarrow> i64 \<Rightarrow> string \<Rightarrow> EconomicsError + Value" where
  "req m key field = (case int_map_get m key of Some v \<Rightarrow> Inr v | None \<Rightarrow> Inl (MissingField field))"

record ResourceUsage =
  ru_cpu_ms :: u64
  ru_memory_mb :: u64
  ru_storage_mb :: u64
  ru_network_kb :: u64
  ru_api_calls :: u64
  ru_inference_tokens :: u64

definition ResourceUsage_zero :: ResourceUsage where
  "ResourceUsage_zero = \<lparr>ru_cpu_ms = 0, ru_memory_mb = 0, ru_storage_mb = 0, ru_network_kb = 0,
     ru_api_calls = 0, ru_inference_tokens = 0\<rparr>"

definition ResourceUsage_add :: "ResourceUsage \<Rightarrow> ResourceUsage \<Rightarrow> ResourceUsage" where
  "ResourceUsage_add a b =
     \<lparr>ru_cpu_ms = sat_add (ru_cpu_ms a) (ru_cpu_ms b),
      ru_memory_mb = sat_add (ru_memory_mb a) (ru_memory_mb b),
      ru_storage_mb = sat_add (ru_storage_mb a) (ru_storage_mb b),
      ru_network_kb = sat_add (ru_network_kb a) (ru_network_kb b),
      ru_api_calls = sat_add (ru_api_calls a) (ru_api_calls b),
      ru_inference_tokens = sat_add (ru_inference_tokens a) (ru_inference_tokens b)\<rparr>"

definition ResourceUsage_saturating_sub :: "ResourceUsage \<Rightarrow> ResourceUsage \<Rightarrow> ResourceUsage" where
  "ResourceUsage_saturating_sub a b =
     \<lparr>ru_cpu_ms = sat_sub (ru_cpu_ms a) (ru_cpu_ms b),
      ru_memory_mb = sat_sub (ru_memory_mb a) (ru_memory_mb b),
      ru_storage_mb = sat_sub (ru_storage_mb a) (ru_storage_mb b),
      ru_network_kb = sat_sub (ru_network_kb a) (ru_network_kb b),
      ru_api_calls = sat_sub (ru_api_calls a) (ru_api_calls b),
      ru_inference_tokens = sat_sub (ru_inference_tokens a) (ru_inference_tokens b)\<rparr>"

definition ResourceUsage_is_zero :: "ResourceUsage \<Rightarrow> bool" where
  "ResourceUsage_is_zero u \<longleftrightarrow> ru_cpu_ms u = 0 \<and> ru_memory_mb u = 0 \<and> ru_storage_mb u = 0 \<and>
     ru_network_kb u = 0 \<and> ru_api_calls u = 0 \<and> ru_inference_tokens u = 0"

definition weighted_total :: "ResourceUsage \<Rightarrow> u64" where
  "weighted_total u =
     (let cpu = ru_cpu_ms u;
          mem = sat_mul (ru_memory_mb u) 10;
          storage = sat_mul (ru_storage_mb u) 2;
          net = sat_mul (ru_network_kb u) 5;
          api = sat_mul (ru_api_calls u) 100;
          tokens = ru_inference_tokens u
      in sat_add (sat_add (sat_add (sat_add (sat_add cpu mem) storage) net) api) tokens)"

definition ResourceUsage_to_cbor :: "ResourceUsage \<Rightarrow> Value" where
  "ResourceUsage_to_cbor u =
     int_map [(1, Unsigned (ru_cpu_ms u)), (2, Unsigned (ru_memory_mb u)), (3, Unsigned (ru_storage_mb u)),
       (4, Unsigned (ru_network_kb u)), (5, Unsigned (ru_api_calls u)), (6, Unsigned (ru_inference_tokens u))]"

definition req_u64 :: "Value \<Rightarrow> i64 \<Rightarrow> string \<Rightarrow> EconomicsError + u64" where
  "req_u64 val key field = bind_result (req val key field) (\<lambda>v. dec_u64 v field)"

definition ResourceUsage_from_cbor :: "Value \<Rightarrow> EconomicsError + ResourceUsage" where
  "ResourceUsage_from_cbor val =
     bind_result (req_u64 val 1 ''cpu_ms'') (\<lambda>cpu.
     bind_result (req_u64 val 2 ''memory_mb'') (\<lambda>mem.
     bind_result (req_u64 val 3 ''storage_mb'') (\<lambda>storage.
     bind_result (req_u64 val 4 ''network_kb'') (\<lambda>net.
     bind_result (req_u64 val 5 ''api_calls'') (\<lambda>api.
     bind_result (req_u64 val 6 ''inference_tokens'') (\<lambda>tokens.
     Inr \<lparr>ru_cpu_ms = cpu, ru_memory_mb = mem, ru_storage_mb = storage, ru_network_kb = net,
       ru_api_calls = api, ru_inference_tokens = tokens\<rparr>))))))"

definition ResourceUsage_to_bytes :: "ResourceUsage \<Rightarrow> EconomicsError + bytes" where
  "ResourceUsage_to_bytes u = map_err CborDecode (encode (ResourceUsage_to_cbor u))"

definition ResourceUsage_from_bytes :: "bytes \<Rightarrow> EconomicsError + ResourceUsage" where
  "ResourceUsage_from_bytes data =
     bind_result (map_err CborDecode (decode data)) (\<lambda>(val, _). ResourceUsage_from_cbor val)"

record ResourceLimits =
  rl_cpu_ms :: u64
  rl_memory_mb :: u64
  rl_storage_mb :: u64
  rl_network_kb :: u64
  rl_api_calls :: u64
  rl_inference_tokens :: u64

definition ResourceLimits_unlimited :: ResourceLimits where
  "ResourceLimits_unlimited = \<lparr>rl_cpu_ms = - 1, rl_memory_mb = - 1, rl_storage_mb = - 1, rl_network_kb = - 1,
     rl_api_calls = - 1, rl_inference_tokens = - 1\<rparr>"

definition ResourceLimits_zero :: ResourceLimits where
  "ResourceLimits_zero = \<lparr>rl_cpu_ms = 0, rl_memory_mb = 0, rl_storage_mb = 0, rl_network_kb = 0,
     rl_api_calls = 0, rl_inference_tokens = 0\<rparr>"

definition ResourceLimits_from_usage :: "ResourceUsage \<Rightarrow> ResourceLimits" where
  "ResourceLimits_from_usage u = \<lparr>rl_cpu_ms = ru_cpu_ms u, rl_memory_mb = ru_memory_mb u,
     rl_storage_mb = ru_storage_mb u, rl_network_kb = ru_network_kb u, rl_api_calls = ru_api_calls u,
     rl_inference_tokens = ru_inference_tokens u\<rparr>"

definition ResourceLimits_check :: "ResourceLimits \<Rightarrow> ResourceUsage \<Rightarrow> (string \<times> u64 \<times> u64) + unit" where
  "ResourceLimits_check l u =
     (if ru_cpu_ms u > rl_cpu_ms l then Inl (''cpu_ms'', ru_cpu_ms u, rl_cpu_ms l)
      else if ru_memory_mb u > rl_memory_mb l then Inl (''memory_mb'', ru_memory_mb u, rl_memory_mb l)
      else if ru_storage_mb u > rl_storage_mb l then Inl (''storage_mb'', ru_storage_mb u, rl_storage_mb l)
      else if ru_network_kb u > rl_network_kb l then Inl (''network_kb'', ru_network_kb u, rl_network_kb l)
      else if ru_api_calls u > rl_api_calls l then Inl (''api_calls'', ru_api_calls u, rl_api_calls l)
      else if ru_inference_tokens u > rl_inference_tokens l
      then Inl (''inference_tokens'', ru_inference_tokens u, rl_inference_tokens l)
      else Inr ())"

definition ResourceLimits_to_cbor :: "ResourceLimits \<Rightarrow> Value" where
  "ResourceLimits_to_cbor l =
     int_map [(1, Unsigned (rl_cpu_ms l)), (2, Unsigned (rl_memory_mb l)), (3, Unsigned (rl_storage_mb l)),
       (4, Unsigned (rl_network_kb l)), (5, Unsigned (rl_api_calls l)), (6, Unsigned (rl_inference_tokens l))]"

definition ResourceLimits_from_cbor :: "Value \<Rightarrow> EconomicsError + ResourceLimits" where
  "ResourceLimits_from_cbor val =
     bind_result (req_u64 val 1 ''cpu_ms'') (\<lambda>cpu.
     bind_result (req_u64 val 2 ''memory_mb'') (\<lambda>mem.
     bind_result (req_u64 val 3 ''storage_mb'') (\<lambda>storage.
     bind_result (req_u64 val 4 ''network_kb'') (\<lambda>net.
     bind_result (req_u64 val 5 ''api_calls'') (\<lambda>api.
     bind_result (req_u64 val 6 ''inference_tokens'') (\<lambda>tokens.
     Inr \<lparr>rl_cpu_ms = cpu, rl_memory_mb = mem, rl_storage_mb = storage, rl_network_kb = net,
       rl_api_calls = api, rl_inference_tokens = tokens\<rparr>))))))"

section \<open>Configuration\<close>

datatype OverflowPolicy = Reject | Allow | Warn

definition OverflowPolicy_to_cbor :: "OverflowPolicy \<Rightarrow> Value" where
  "OverflowPolicy_to_cbor p = Unsigned (case p of Reject \<Rightarrow> 0 | Allow \<Rightarrow> 1 | Warn \<Rightarrow> 2)"

definition OverflowPolicy_from_cbor :: "Value \<Rightarrow> EconomicsError + OverflowPolicy" where
  "OverflowPolicy_from_cbor val =
     (if val = Unsigned 0 then Inr Reject
      else if val = Unsigned 1 then Inr Allow
      else if val = Unsigned 2 then Inr Warn
      else Inl (InvalidField ''overflow_policy'' (ExpectedPolicy val)))"

record AccountConfig =
  cfg_default_limits :: ResourceLimits
  cfg_agent_limits :: "(ustring, ResourceLimits) hash_map"
  cfg_overflow_policy :: OverflowPolicy

definition AccountConfig_default :: AccountConfig where
  "AccountConfig_default = \<lparr>cfg_default_limits = ResourceLimits_unlimited, cfg_agent_limits = [],
     cfg_overflow_policy = Reject\<rparr>"

definition with_default_limits :: "ResourceLimits \<Rightarrow> AccountConfig \<Rightarrow> AccountConfig" where
  "with_default_limits l c = c\<lparr>cfg_default_limits := l\<rparr>"

definition with_overflow_policy :: "OverflowPolicy \<Rightarrow> AccountConfig \<Rightarrow> AccountConfig" where
  "with_overflow_policy p c = c\<lparr>cfg_overflow_policy := p\<rparr>"

definition with_agent_limit :: "ustring \<Rightarrow> ResourceLimits \<Rightarrow> AccountConfig \<Rightarrow> AccountConfig" where
  "with_agent_limit agent l c = c\<lparr>cfg_agent_limits := hm_insert agent l (cfg_agent_limits c)\<rparr>"

definition limits_for :: "AccountConfig \<Rightarrow> ustring \<Rightarrow> ResourceLimits" where
  "limits_for c agent = (case hm_get (cfg_agent_limits c) agent of Some l \<Rightarrow> l | None \<Rightarrow> cfg_default_limits c)"

text \<open>
  A table of agents as an array of pairs, sorted by agent. The source writes this once for the limits
  and once for the ledgers; \<open>f\<close> is the conversion of the values, \<open>field\<close> the name in the errors.
\<close>

definition table_to_cbor ::
    "((ustring, 'v) hash_map \<Rightarrow> (ustring \<times> 'v) list) \<Rightarrow> ('v \<Rightarrow> Value) \<Rightarrow> (ustring, 'v) hash_map \<Rightarrow> Value" where
  "table_to_cbor ord f m = Array (map (\<lambda>(k, v). Array [TextString k, f v]) (sort_key fst (ord m)))"

fun table_items ::
    "string \<Rightarrow> (Value \<Rightarrow> EconomicsError + 'v) \<Rightarrow> Value list \<Rightarrow> (ustring, 'v) hash_map \<Rightarrow>
     EconomicsError + (ustring, 'v) hash_map" where
  "table_items field f [] m = Inr m"
| "table_items field f (item # items) m =
     (case item of
        Array [key, val] \<Rightarrow>
          bind_result
            (case key of TextString s \<Rightarrow> Inr s | _ \<Rightarrow> Inl (InvalidField field (ExpectedTextKey key))) (\<lambda>k.
          bind_result (f val) (\<lambda>l. table_items field f items (hm_insert k l m)))
      | _ \<Rightarrow> Inl (InvalidField field (ExpectedPair item)))"

definition table_from_cbor ::
    "string \<Rightarrow> (Value \<Rightarrow> EconomicsError + 'v) \<Rightarrow> Value option \<Rightarrow> EconomicsError + (ustring, 'v) hash_map" where
  "table_from_cbor field f v =
     (case v of
        None \<Rightarrow> Inr []
      | Some v \<Rightarrow> (case v of Array arr \<Rightarrow> table_items field f arr [] | _ \<Rightarrow> Inl (InvalidField field (ExpectedArray v))))"

definition AccountConfig_to_cbor ::
    "((ustring, ResourceLimits) hash_map \<Rightarrow> (ustring \<times> ResourceLimits) list) \<Rightarrow> AccountConfig \<Rightarrow> Value" where
  "AccountConfig_to_cbor ord c =
     int_map [(1, ResourceLimits_to_cbor (cfg_default_limits c)),
       (2, table_to_cbor ord ResourceLimits_to_cbor (cfg_agent_limits c)),
       (3, OverflowPolicy_to_cbor (cfg_overflow_policy c))]"

definition AccountConfig_from_cbor :: "Value \<Rightarrow> EconomicsError + AccountConfig" where
  "AccountConfig_from_cbor val =
     bind_result (bind_result (req val 1 ''default_limits'') ResourceLimits_from_cbor) (\<lambda>limits.
     bind_result (case int_map_get val 3 of Some v \<Rightarrow> OverflowPolicy_from_cbor v | None \<Rightarrow> Inr Reject) (\<lambda>policy.
     bind_result (table_from_cbor ''agent_limits'' ResourceLimits_from_cbor (int_map_get val 2)) (\<lambda>agents.
     Inr \<lparr>cfg_default_limits = limits, cfg_agent_limits = agents, cfg_overflow_policy = policy\<rparr>)))"

section \<open>Ledgers and accounts\<close>

datatype LimitCheck = LimitOk | LimitWarning string u64 u64

record AgentLedger =
  al_net_usage :: ResourceUsage
  al_total_debited :: ResourceUsage
  al_total_credited :: ResourceUsage

definition AgentLedger_new :: AgentLedger where
  "AgentLedger_new = \<lparr>al_net_usage = ResourceUsage_zero, al_total_debited = ResourceUsage_zero,
     al_total_credited = ResourceUsage_zero\<rparr>"

definition AgentLedger_debit :: "ResourceUsage \<Rightarrow> AgentLedger \<Rightarrow> AgentLedger" where
  "AgentLedger_debit u l = l\<lparr>al_net_usage := ResourceUsage_add (al_net_usage l) u,
     al_total_debited := ResourceUsage_add (al_total_debited l) u\<rparr>"

definition AgentLedger_credit :: "ResourceUsage \<Rightarrow> AgentLedger \<Rightarrow> AgentLedger" where
  "AgentLedger_credit u l = l\<lparr>al_net_usage := ResourceUsage_saturating_sub (al_net_usage l) u,
     al_total_credited := ResourceUsage_add (al_total_credited l) u\<rparr>"

definition AgentLedger_to_cbor :: "AgentLedger \<Rightarrow> Value" where
  "AgentLedger_to_cbor l = int_map [(1, ResourceUsage_to_cbor (al_net_usage l)),
     (2, ResourceUsage_to_cbor (al_total_debited l)), (3, ResourceUsage_to_cbor (al_total_credited l))]"

definition AgentLedger_from_cbor :: "Value \<Rightarrow> EconomicsError + AgentLedger" where
  "AgentLedger_from_cbor val =
     bind_result (bind_result (req val 1 ''net_usage'') ResourceUsage_from_cbor) (\<lambda>net.
     bind_result (bind_result (req val 2 ''total_debited'') ResourceUsage_from_cbor) (\<lambda>debited.
     bind_result (bind_result (req val 3 ''total_credited'') ResourceUsage_from_cbor) (\<lambda>credited.
     Inr \<lparr>al_net_usage = net, al_total_debited = debited, al_total_credited = credited\<rparr>)))"

record ResourceAccount =
  ra_config :: AccountConfig
  ra_ledgers :: "(ustring, AgentLedger) hash_map"

definition ResourceAccount_new :: "AccountConfig \<Rightarrow> ResourceAccount" where
  "ResourceAccount_new c = \<lparr>ra_config = c, ra_ledgers = []\<rparr>"

text \<open>\<open>entry(agent).or_default()\<close> followed by an update of the ledger.\<close>

definition update_ledger :: "ustring \<Rightarrow> (AgentLedger \<Rightarrow> AgentLedger) \<Rightarrow> ResourceAccount \<Rightarrow> ResourceAccount" where
  "update_ledger agent f acc =
     acc\<lparr>ra_ledgers := hm_insert agent
       (f (case hm_get (ra_ledgers acc) agent of Some l \<Rightarrow> l | None \<Rightarrow> AgentLedger_new)) (ra_ledgers acc)\<rparr>"

definition ResourceAccount_register :: "ustring \<Rightarrow> ResourceAccount \<Rightarrow> bool \<times> ResourceAccount" where
  "ResourceAccount_register agent acc =
     (if hm_get (ra_ledgers acc) agent \<noteq> None then (False, acc)
      else (True, acc\<lparr>ra_ledgers := hm_insert agent AgentLedger_new (ra_ledgers acc)\<rparr>))"

definition ResourceAccount_contains :: "ResourceAccount \<Rightarrow> ustring \<Rightarrow> bool" where
  "ResourceAccount_contains acc agent \<longleftrightarrow> hm_get (ra_ledgers acc) agent \<noteq> None"

definition ResourceAccount_agents ::
    "((ustring, AgentLedger) hash_map \<Rightarrow> (ustring \<times> AgentLedger) list) \<Rightarrow> ResourceAccount \<Rightarrow> ustring list" where
  "ResourceAccount_agents ord acc = sort (map fst (ord (ra_ledgers acc)))"

definition ResourceAccount_balance :: "ResourceAccount \<Rightarrow> ustring \<Rightarrow> ResourceUsage" where
  "ResourceAccount_balance acc agent =
     (case hm_get (ra_ledgers acc) agent of Some l \<Rightarrow> al_net_usage l | None \<Rightarrow> ResourceUsage_zero)"

definition check_limits :: "ResourceAccount \<Rightarrow> ustring \<Rightarrow> ResourceUsage \<Rightarrow> (string \<times> u64 \<times> u64) + unit" where
  "check_limits acc agent usage =
     (let current = ResourceAccount_balance acc agent;
          projected = ResourceUsage_add current usage;
          limits = limits_for (ra_config acc) agent
      in ResourceLimits_check limits projected)"

definition debit_checked ::
    "ustring \<Rightarrow> ResourceUsage \<Rightarrow> ResourceAccount \<Rightarrow> (EconomicsError + LimitCheck) \<times> ResourceAccount" where
  "debit_checked agent usage acc =
     (let current = ResourceAccount_balance acc agent;
          projected = ResourceUsage_add current usage;
          limits = limits_for (ra_config acc) agent
      in case ResourceLimits_check limits projected of
           Inr _ \<Rightarrow> (Inr LimitOk, update_ledger agent (AgentLedger_debit usage) acc)
         | Inl (resource, would_be, limit) \<Rightarrow>
             (case cfg_overflow_policy (ra_config acc) of
                Reject \<Rightarrow> (Inl (LimitExceeded agent resource would_be limit), acc)
              | Allow \<Rightarrow> (Inr LimitOk, update_ledger agent (AgentLedger_debit usage) acc)
              | Warn \<Rightarrow> (Inr (LimitWarning resource would_be limit), update_ledger agent (AgentLedger_debit usage) acc)))"

definition ResourceAccount_debit ::
    "ustring \<Rightarrow> ResourceUsage \<Rightarrow> ResourceAccount \<Rightarrow> (EconomicsError + unit) \<times> ResourceAccount" where
  "ResourceAccount_debit agent usage acc =
     (let (r, acc) = debit_checked agent usage acc in (bind_result r (\<lambda>_. Inr ()), acc))"

definition ResourceAccount_credit :: "ustring \<Rightarrow> ResourceUsage \<Rightarrow> ResourceAccount \<Rightarrow> ResourceAccount" where
  "ResourceAccount_credit agent usage acc = update_ledger agent (AgentLedger_credit usage) acc"

definition ResourceAccount_transfer ::
    "ustring \<Rightarrow> ustring \<Rightarrow> ResourceUsage \<Rightarrow> ResourceAccount \<Rightarrow> (EconomicsError + unit) \<times> ResourceAccount" where
  "ResourceAccount_transfer from_agent to_agent usage acc =
     (let from_balance = ResourceAccount_balance acc from_agent in
      if ru_cpu_ms from_balance < ru_cpu_ms usage \<or> ru_memory_mb from_balance < ru_memory_mb usage \<or>
         ru_storage_mb from_balance < ru_storage_mb usage \<or> ru_network_kb from_balance < ru_network_kb usage \<or>
         ru_api_calls from_balance < ru_api_calls usage \<or>
         ru_inference_tokens from_balance < ru_inference_tokens usage
      then (Inl (InsufficientBalance from_agent (weighted_total from_balance) (weighted_total usage)), acc)
      else
        (Inr (), update_ledger to_agent (AgentLedger_debit usage)
          (update_ledger from_agent (AgentLedger_credit usage) acc)))"

definition ResourceAccount_reset :: "ustring \<Rightarrow> ResourceAccount \<Rightarrow> ResourceAccount" where
  "ResourceAccount_reset agent acc =
     (case hm_get (ra_ledgers acc) agent of
        Some _ \<Rightarrow> acc\<lparr>ra_ledgers := hm_insert agent AgentLedger_new (ra_ledgers acc)\<rparr>
      | None \<Rightarrow> acc)"

definition ResourceAccount_remove :: "ustring \<Rightarrow> ResourceAccount \<Rightarrow> bool \<times> ResourceAccount" where
  "ResourceAccount_remove agent acc =
     (hm_get (ra_ledgers acc) agent \<noteq> None, acc\<lparr>ra_ledgers := hm_remove agent (ra_ledgers acc)\<rparr>)"

definition ResourceAccount_to_bytes ::
    "((ustring, ResourceLimits) hash_map \<Rightarrow> (ustring \<times> ResourceLimits) list) \<Rightarrow>
     ((ustring, AgentLedger) hash_map \<Rightarrow> (ustring \<times> AgentLedger) list) \<Rightarrow> ResourceAccount \<Rightarrow> EconomicsError + bytes" where
  "ResourceAccount_to_bytes lord ord acc =
     map_err CborDecode (encode (int_map [(1, AccountConfig_to_cbor lord (ra_config acc)),
       (2, table_to_cbor ord AgentLedger_to_cbor (ra_ledgers acc))]))"

definition ResourceAccount_from_bytes :: "bytes \<Rightarrow> EconomicsError + ResourceAccount" where
  "ResourceAccount_from_bytes data =
     bind_result (map_err CborDecode (decode data)) (\<lambda>(val, _).
     bind_result (bind_result (req val 1 ''config'') AccountConfig_from_cbor) (\<lambda>config.
     bind_result (table_from_cbor ''ledgers'' AgentLedger_from_cbor (int_map_get val 2)) (\<lambda>ledgers.
     Inr \<lparr>ra_config = config, ra_ledgers = ledgers\<rparr>)))"

section \<open>The six resources\<close>

datatype resource = Cpu | Memory | Storage | Network | Api | Tokens

fun amount :: "resource \<Rightarrow> ResourceUsage \<Rightarrow> nat" where
  "amount Cpu u = unat (ru_cpu_ms u)"
| "amount Memory u = unat (ru_memory_mb u)"
| "amount Storage u = unat (ru_storage_mb u)"
| "amount Network u = unat (ru_network_kb u)"
| "amount Api u = unat (ru_api_calls u)"
| "amount Tokens u = unat (ru_inference_tokens u)"

fun limit_of :: "resource \<Rightarrow> ResourceLimits \<Rightarrow> nat" where
  "limit_of Cpu l = unat (rl_cpu_ms l)"
| "limit_of Memory l = unat (rl_memory_mb l)"
| "limit_of Storage l = unat (rl_storage_mb l)"
| "limit_of Network l = unat (rl_network_kb l)"
| "limit_of Api l = unat (rl_api_calls l)"
| "limit_of Tokens l = unat (rl_inference_tokens l)"

lemma all_resources: "(\<forall>r. P r) \<longleftrightarrow> P Cpu \<and> P Memory \<and> P Storage \<and> P Network \<and> P Api \<and> P Tokens"
  by (metis resource.exhaust)

lemma amount_ops [simp]:
  "amount r ResourceUsage_zero = 0"
  "amount r (ResourceUsage_add u v) = min USIZE_MAX (amount r u + amount r v)"
  "amount r (ResourceUsage_saturating_sub u v) = amount r u - amount r v"
  by (cases r; simp only: amount.simps ResourceUsage_zero_def ResourceUsage_add_def
      ResourceUsage_saturating_sub_def ResourceUsage.select_convs unat_sat_add unat_sat_sub unsigned_0)+

lemma amount_le: "amount r u \<le> USIZE_MAX"
  by (cases r) (simp_all only: amount.simps unat_u64_le)

lemma check_iff: "ResourceLimits_check l u = Inr () \<longleftrightarrow> (\<forall>r. amount r u \<le> limit_of r l)"
  by (auto simp: ResourceLimits_check_def all_resources word_less_nat_alt not_less)

section \<open>Runs of an account\<close>

datatype account_event =
    AeRegister ustring
  | AeDebit ustring ResourceUsage
  | AeCredit ustring ResourceUsage
  | AeTransfer ustring ustring ResourceUsage
  | AeReset ustring
  | AeRemove ustring
  | AeConfig AccountConfig

fun account_step :: "account_event \<Rightarrow> ResourceAccount \<Rightarrow> ResourceAccount" where
  "account_step (AeRegister a) acc = snd (ResourceAccount_register a acc)"
| "account_step (AeDebit a u) acc = snd (ResourceAccount_debit a u acc)"
| "account_step (AeCredit a u) acc = ResourceAccount_credit a u acc"
| "account_step (AeTransfer a b u) acc = snd (ResourceAccount_transfer a b u acc)"
| "account_step (AeReset a) acc = ResourceAccount_reset a acc"
| "account_step (AeRemove a) acc = snd (ResourceAccount_remove a acc)"
| "account_step (AeConfig c) acc = acc\<lparr>ra_config := c\<rparr>"

text \<open>Every operation leaves a ledger as it is, clears it, removes it, or debits or credits it.\<close>

definition ledgers_ok :: "(AgentLedger \<Rightarrow> bool) \<Rightarrow> ResourceAccount \<Rightarrow> bool" where
  "ledgers_ok P acc \<longleftrightarrow> (\<forall>a l. hm_get (ra_ledgers acc) a = Some l \<longrightarrow> P l)"

lemma get_update_ledger:
  "hm_get (ra_ledgers (update_ledger a f acc)) b =
     (if b = a then Some (f (case hm_get (ra_ledgers acc) a of Some l \<Rightarrow> l | None \<Rightarrow> AgentLedger_new))
      else hm_get (ra_ledgers acc) b)"
  by (simp add: update_ledger_def hm.get_put)

lemma update_ledger_ok:
  assumes "ledgers_ok P acc" and "P AgentLedger_new" and "\<And>l. P l \<Longrightarrow> P (f l)"
  shows "ledgers_ok P (update_ledger a f acc)"
  using assms by (auto simp: ledgers_ok_def get_update_ledger split: option.splits if_splits)

lemma debit_result:
  "ResourceAccount_debit a u acc = (Inr (), update_ledger a (AgentLedger_debit u) acc) \<and>
     (check_limits acc a u = Inr () \<or> cfg_overflow_policy (ra_config acc) \<noteq> Reject) \<or>
   (\<exists>e. ResourceAccount_debit a u acc = (Inl e, acc)) \<and> cfg_overflow_policy (ra_config acc) = Reject"
  by (cases "check_limits acc a u"; cases "cfg_overflow_policy (ra_config acc)")
    (auto simp: ResourceAccount_debit_def debit_checked_def check_limits_def Let_def)

lemma account_step_ledgers:
  assumes "ledgers_ok P acc" and "P AgentLedger_new"
    and "\<And>u l. P l \<Longrightarrow> P (AgentLedger_debit u l)" and "\<And>u l. P l \<Longrightarrow> P (AgentLedger_credit u l)"
  shows "ledgers_ok P (account_step e acc)"
proof (cases e)
  case (AeDebit a u)
  then show ?thesis using assms debit_result [of a u acc] by (auto intro!: update_ledger_ok)
next
  case (AeTransfer a b u)
  then show ?thesis
    using assms by (auto simp: ResourceAccount_transfer_def Let_def intro!: update_ledger_ok)
qed (use assms in \<open>auto simp: ResourceAccount_register_def ResourceAccount_credit_def ResourceAccount_reset_def
      ResourceAccount_remove_def ledgers_ok_def hm.get_put hm.get_del get_update_ledger split: option.splits if_splits\<close>)

text \<open>The books of an agent: net usage lies between debits minus credits and debits.\<close>

definition books_ok :: "AgentLedger \<Rightarrow> bool" where
  "books_ok l \<longleftrightarrow> (\<forall>r. amount r (al_net_usage l) \<le> amount r (al_total_debited l) \<and>
     amount r (al_total_debited l) \<le> amount r (al_net_usage l) + amount r (al_total_credited l))"

lemma books_arith:
  fixes n d c u M :: nat
  assumes "n \<le> d" and "d \<le> n + c" and "d \<le> M"
  shows "min M (n + u) \<le> min M (d + u)" "min M (d + u) \<le> min M (n + u) + c"
    "n - u \<le> d" "d \<le> (n - u) + min M (c + u)"
  using assms by (auto simp: min_def)

lemma books_step:
  assumes "books_ok l"
  shows "books_ok (AgentLedger_debit u l)" and "books_ok (AgentLedger_credit u l)"
proof -
  have l: "amount r (al_net_usage l) \<le> amount r (al_total_debited l)"
    "amount r (al_total_debited l) \<le> amount r (al_net_usage l) + amount r (al_total_credited l)" for r
    using assms by (auto simp: books_ok_def)
  show "books_ok (AgentLedger_debit u l)"
    using books_arith(1,2) [OF l amount_le]
    by (simp only: books_ok_def AgentLedger_debit_def AgentLedger.simps amount_ops) simp
  show "books_ok (AgentLedger_credit u l)"
    using books_arith(3,4) [OF l amount_le]
    by (simp only: books_ok_def AgentLedger_credit_def AgentLedger.simps amount_ops) simp
qed

lemma account_run_books: "ledgers_ok books_ok acc \<Longrightarrow> ledgers_ok books_ok (fold account_step es acc)"
proof (induction es arbitrary: acc)
  case (Cons e es)
  have "books_ok AgentLedger_new" by (simp add: books_ok_def AgentLedger_new_def)
  then show ?case using Cons account_step_ledgers [of books_ok] books_step by simp
qed simp

text \<open>
  Whatever debits, credits, transfers, resets, removals and changes of the configuration an account goes through, and even when its counters saturate, the net usage of every ledger is at most the debits and at least the debits minus the credits.
\<close>

lemma ledger_books:
  assumes "hm_get (ra_ledgers (fold account_step es (ResourceAccount_new c))) agent = Some l"
  shows "amount r (al_net_usage l) \<le> amount r (al_total_debited l) \<and>
    amount r (al_total_debited l) \<le> amount r (al_net_usage l) + amount r (al_total_credited l)"
  using account_run_books [of "ResourceAccount_new c" es] assms
  by (simp add: ledgers_ok_def books_ok_def ResourceAccount_new_def)

definition example_usage :: ResourceUsage where
  "example_usage = ResourceUsage_zero\<lparr>ru_cpu_ms := 5\<rparr>"

lemma ledger_books_example:
  "\<exists>l. hm_get (ra_ledgers (fold account_step [AeDebit (str ''a'') example_usage, AeCredit (str ''a'') example_usage,
       AeCredit (str ''a'') example_usage] (ResourceAccount_new AccountConfig_default))) (str ''a'') = Some l \<and>
     amount Cpu (al_total_debited l) \<le> amount Cpu (al_net_usage l) + amount Cpu (al_total_credited l)"
proof -
  let ?es = "[AeDebit (str ''a'') example_usage, AeCredit (str ''a'') example_usage, AeCredit (str ''a'') example_usage]"
  have "hm_get (ra_ledgers (fold account_step ?es (ResourceAccount_new AccountConfig_default))) (str ''a'') \<noteq> None"
    by code_simp
  then show ?thesis using ledger_books [where es = ?es and c = AccountConfig_default and agent = "str ''a''" and r = Cpu] by blast
qed

section \<open>Limits\<close>

definition within_limits :: "ResourceAccount \<Rightarrow> bool" where
  "within_limits acc \<longleftrightarrow>
     (\<forall>a r. amount r (ResourceAccount_balance acc a) \<le> limit_of r (limits_for (ra_config acc) a))"

definition keeps_config :: "account_event \<Rightarrow> bool" where
  "keeps_config e = (case e of AeConfig _ \<Rightarrow> False | _ \<Rightarrow> True)"

definition no_transfer :: "account_event \<Rightarrow> bool" where
  "no_transfer e = (case e of AeTransfer _ _ _ \<Rightarrow> False | _ \<Rightarrow> True)"

lemma balance_update_ledger:
  "ResourceAccount_balance (update_ledger a f acc) b =
     (if b = a then al_net_usage (f (case hm_get (ra_ledgers acc) a of Some l \<Rightarrow> l | None \<Rightarrow> AgentLedger_new))
      else ResourceAccount_balance acc b)"
  by (simp add: ResourceAccount_balance_def get_update_ledger)

lemma balance_debit [simp]:
  "ResourceAccount_balance (update_ledger a (AgentLedger_debit u) acc) b =
     (if b = a then ResourceUsage_add (ResourceAccount_balance acc a) u else ResourceAccount_balance acc b)"
  by (simp add: balance_update_ledger AgentLedger_debit_def)
    (simp add: ResourceAccount_balance_def AgentLedger_new_def split: option.splits)

lemma balance_credit [simp]:
  "ResourceAccount_balance (update_ledger a (AgentLedger_credit u) acc) b =
     (if b = a then ResourceUsage_saturating_sub (ResourceAccount_balance acc a) u else ResourceAccount_balance acc b)"
  by (simp add: balance_update_ledger AgentLedger_credit_def)
    (simp add: ResourceAccount_balance_def AgentLedger_new_def split: option.splits)

lemma config_update_ledger [simp]: "ra_config (update_ledger a f acc) = ra_config acc"
  by (simp add: update_ledger_def)

lemma account_step_config: "keeps_config e \<Longrightarrow> ra_config (account_step e acc) = ra_config acc"
proof (cases e)
  case (AeDebit a u)
  then show ?thesis using debit_result [of a u acc] by auto
qed (auto simp: keeps_config_def ResourceAccount_register_def ResourceAccount_credit_def ResourceAccount_transfer_def
    ResourceAccount_reset_def ResourceAccount_remove_def Let_def split: option.splits)

lemma account_step_within:
  assumes "within_limits acc" and "cfg_overflow_policy (ra_config acc) = Reject"
    and "keeps_config e" and "no_transfer e"
  shows "within_limits (account_step e acc)"
proof (cases e)
  case (AeDebit a u)
  show ?thesis
  proof (cases "check_limits acc a u")
    case (Inl x)
    then show ?thesis using AeDebit debit_result [of a u acc] assms by auto
  next
    case (Inr x)
    then have "\<forall>r. amount r (ResourceUsage_add (ResourceAccount_balance acc a) u) \<le> limit_of r (limits_for (ra_config acc) a)"
      using check_iff by (simp add: check_limits_def Let_def)
    then show ?thesis
      using AeDebit debit_result [of a u acc] assms(1) unfolding within_limits_def
      by (auto simp del: amount_ops)
  qed
next
  case (AeCredit a u)
  have "amount r (ResourceAccount_balance acc a) - k \<le> limit_of r (limits_for (ra_config acc) a)" for r k
    using assms(1) by (metis within_limits_def diff_le_self le_trans)
  then show ?thesis using AeCredit assms(1) by (auto simp: within_limits_def ResourceAccount_credit_def)
qed (use assms in \<open>auto simp: within_limits_def keeps_config_def no_transfer_def ResourceAccount_register_def
      ResourceAccount_reset_def ResourceAccount_remove_def ResourceAccount_balance_def AgentLedger_new_def
      hm.get_put hm.get_del split: option.splits\<close>)

text \<open>
  C28. Under the rejecting policy no agent's net usage exceeds its limits after any sequence of registrations, debits, credits, resets and removals.
\<close>

theorem account_within_limits:
  assumes "cfg_overflow_policy c = Reject" and "\<forall>e \<in> set es. keeps_config e \<and> no_transfer e"
  shows "amount r (ResourceAccount_balance (fold account_step es (ResourceAccount_new c)) agent) \<le> limit_of r (limits_for c agent)"
proof -
  have "within_limits (fold account_step es acc) \<and> ra_config (fold account_step es acc) = ra_config acc"
    if "within_limits acc" "cfg_overflow_policy (ra_config acc) = Reject" for acc
    using assms(2) that
  proof (induction es arbitrary: acc)
    case (Cons e es)
    then show ?case using account_step_within [of acc e] account_step_config [of e acc] by simp
  qed simp
  moreover have "within_limits (ResourceAccount_new c)" "ra_config (ResourceAccount_new c) = c"
    by (simp_all add: within_limits_def ResourceAccount_new_def ResourceAccount_balance_def)
  ultimately show ?thesis using assms(1) by (metis within_limits_def)
qed

theorem account_within_limits_witness:
  "amount Cpu (ResourceAccount_balance (fold account_step [AeDebit (str ''a'') example_usage, AeDebit (str ''a'') example_usage]
     (ResourceAccount_new (with_default_limits (ResourceLimits_from_usage example_usage) AccountConfig_default))) (str ''a'')) \<le> 5"
proof -
  let ?c = "with_default_limits (ResourceLimits_from_usage example_usage) AccountConfig_default"
  have "cfg_overflow_policy ?c = Reject" by code_simp
  moreover have "limit_of Cpu (limits_for ?c (str ''a'')) = 5" by code_simp
  ultimately show ?thesis
    using account_within_limits [of ?c "[AeDebit (str ''a'') example_usage, AeDebit (str ''a'') example_usage]" Cpu "str ''a''"]
    by (simp add: keeps_config_def no_transfer_def)
qed

section \<open>Transfers\<close>

text \<open>The usage of a resource that all agents together are charged with.\<close>

definition total_usage :: "resource \<Rightarrow> ResourceAccount \<Rightarrow> nat" where
  "total_usage r acc = (\<Sum>a \<in> dom (hm_get (ra_ledgers acc)). amount r (ResourceAccount_balance acc a))"

lemma finite_dom_hm: "finite (dom (hm_get m))"
  by (simp add: hm_get_def [abs_def] finite_dom_map_of)

lemma total_superset:
  assumes "finite S" and "dom (hm_get (ra_ledgers acc)) \<subseteq> S"
  shows "total_usage r acc = (\<Sum>a \<in> S. amount r (ResourceAccount_balance acc a))"
  unfolding total_usage_def using assms
  by (intro sum.mono_neutral_left) (auto simp: ResourceAccount_balance_def split: option.splits)

lemma transfer_result:
  "ResourceAccount_transfer a b u acc =
     (if \<forall>r. amount r u \<le> amount r (ResourceAccount_balance acc a)
      then (Inr (), update_ledger b (AgentLedger_debit u) (update_ledger a (AgentLedger_credit u) acc))
      else (Inl (InsufficientBalance a (weighted_total (ResourceAccount_balance acc a)) (weighted_total u)), acc))"
  by (auto simp: ResourceAccount_transfer_def Let_def all_resources word_less_nat_alt not_less)

text \<open>
  C29. A transfer that does not overflow the counter of the receiver neither creates nor loses usage: the total over all agents is the same, whether the transfer succeeds or is refused, and for different agents exactly the transferred amount moves.
\<close>

theorem transfer_conserves:
  assumes "amount r (ResourceAccount_balance acc to) + amount r usage \<le> USIZE_MAX"
    and "ResourceAccount_transfer from to usage acc = (res, acc')"
  shows "total_usage r acc' = total_usage r acc \<and>
    (res = Inr () \<and> from \<noteq> to \<longrightarrow>
      amount r (ResourceAccount_balance acc' from) + amount r usage = amount r (ResourceAccount_balance acc from) \<and>
      amount r (ResourceAccount_balance acc' to) = amount r (ResourceAccount_balance acc to) + amount r usage)"
proof (cases "\<forall>r. amount r usage \<le> amount r (ResourceAccount_balance acc from)")
  case False
  then show ?thesis using assms(2) unfolding transfer_result if_not_P [OF False] by auto
next
  case True
  then have acc': "acc' = update_ledger to (AgentLedger_debit usage) (update_ledger from (AgentLedger_credit usage) acc)"
    using assms(2) by (simp add: transfer_result)
  have le: "amount r usage \<le> amount r (ResourceAccount_balance acc from)" using True by blast
  let ?S = "dom (hm_get (ra_ledgers acc)) \<union> {from, to}" and ?b = "\<lambda>acc a. amount r (ResourceAccount_balance acc a)"
  have S: "finite ?S" "from \<in> ?S" "to \<in> ?S" by (simp_all add: finite_dom_hm)
  have "dom (hm_get (ra_ledgers acc')) \<subseteq> ?S" by (auto simp: acc' get_update_ledger split: if_splits)
  then have t: "total_usage r acc' = sum (?b acc') ?S" "total_usage r acc = sum (?b acc) ?S"
    using total_superset [OF S(1)] by auto
  show ?thesis
  proof (cases "from = to")
    case True
    have "?b acc' = ?b acc"
      using assms(1) le amount_le [of r "ResourceAccount_balance acc to"] True by (auto simp: acc' fun_eq_iff)
    then have "total_usage r acc' = total_usage r acc" unfolding t by (simp only:)
    then show ?thesis using True by simp
  next
    case False
    then have b: "?b acc' from + amount r usage = ?b acc from" "?b acc' to = ?b acc to + amount r usage"
      "\<And>a. a \<noteq> from \<Longrightarrow> a \<noteq> to \<Longrightarrow> ?b acc' a = ?b acc a"
      using assms(1) le by (auto simp: acc')
    have split: "sum f ?S = f from + (f to + sum f (?S - {from} - {to}))" for f :: "ustring \<Rightarrow> nat"
      using S False by (simp add: sum.remove [of _ "from"] sum.remove [of _ to])
    have "sum (?b acc') (?S - {from} - {to}) = sum (?b acc) (?S - {from} - {to})"
      by (rule sum.cong) (auto simp: b(3))
    then have "sum (?b acc') ?S = sum (?b acc) ?S" using b(1,2) by (simp only: split)
    then show ?thesis using t b by simp
  qed
qed

theorem transfer_conserves_witness:
  "\<exists>acc'. ResourceAccount_transfer (str ''a'') (str ''b'') example_usage
       (account_step (AeDebit (str ''a'') example_usage) (ResourceAccount_new AccountConfig_default)) = (Inr (), acc') \<and>
     total_usage Cpu acc' =
       total_usage Cpu (account_step (AeDebit (str ''a'') example_usage) (ResourceAccount_new AccountConfig_default))"
proof -
  let ?acc = "account_step (AeDebit (str ''a'') example_usage) (ResourceAccount_new AccountConfig_default)"
  obtain res acc' where t: "ResourceAccount_transfer (str ''a'') (str ''b'') example_usage ?acc = (res, acc')" by fastforce
  have "fst (ResourceAccount_transfer (str ''a'') (str ''b'') example_usage ?acc) = Inr ()" by code_simp
  moreover have "amount Cpu (ResourceAccount_balance ?acc (str ''b'')) = 0" "amount Cpu example_usage = 5" by code_simp+
  ultimately show ?thesis using transfer_conserves [of Cpu ?acc "str ''b''" example_usage "str ''a''" res acc'] t by simp
qed

text \<open>A transfer is not checked against the limits of the receiver.\<close>

lemma transfer_ignores_limits:
  "let u = ResourceUsage_zero\<lparr>ru_cpu_ms := 5\<rparr>;
       c = with_agent_limit (str ''b'') ResourceLimits_zero AccountConfig_default;
       acc = fold account_step [AeDebit (str ''a'') u, AeTransfer (str ''a'') (str ''b'') u] (ResourceAccount_new c)
   in cfg_overflow_policy c = Reject \<and> \<not> within_limits acc"
proof -
  let ?u = "ResourceUsage_zero\<lparr>ru_cpu_ms := 5\<rparr>"
  let ?c = "with_agent_limit (str ''b'') ResourceLimits_zero AccountConfig_default"
  let ?acc = "fold account_step [AeDebit (str ''a'') ?u, AeTransfer (str ''a'') (str ''b'') ?u] (ResourceAccount_new ?c)"
  have "\<not> amount Cpu (ResourceAccount_balance ?acc (str ''b'')) \<le> limit_of Cpu (limits_for (ra_config ?acc) (str ''b''))"
    by code_simp
  moreover have "cfg_overflow_policy ?c = Reject" by code_simp
  ultimately show ?thesis unfolding within_limits_def Let_def by blast
qed

section \<open>Saving and restoring\<close>

lemma req_u64_canon:
  "distinct (map fst es) \<Longrightarrow> map_of es k = Some (Unsigned n) \<Longrightarrow> req_u64 (canon (int_map es)) k field = Inr n"
  by (simp add: req_u64_def req_def dec_u64_def int_map_get_canon)

lemma ResourceUsage_from_to: "ResourceUsage_from_cbor (canon (ResourceUsage_to_cbor u)) = Inr u"
  by (simp add: ResourceUsage_from_cbor_def ResourceUsage_to_cbor_def req_u64_canon)

lemma ResourceLimits_from_to: "ResourceLimits_from_cbor (canon (ResourceLimits_to_cbor l)) = Inr l"
  by (simp add: ResourceLimits_from_cbor_def ResourceLimits_to_cbor_def req_u64_canon)

lemma usage_value_ok: "d < 99 \<Longrightarrow> value_ok d (ResourceUsage_to_cbor u)" "d < 99 \<Longrightarrow> value_ok d (ResourceLimits_to_cbor l)"
  by (simp_all add: ResourceUsage_to_cbor_def ResourceLimits_to_cbor_def int_map_def)

interpretation usage_message: cbor_message ResourceUsage_to_cbor ResourceUsage_from_cbor "\<lambda>_. True" id
  by unfold_locales (simp_all add: usage_value_ok ResourceUsage_from_to)

lemma AgentLedger_from_to: "AgentLedger_from_cbor (canon (AgentLedger_to_cbor l)) = Inr l"
  by (simp add: AgentLedger_from_cbor_def AgentLedger_to_cbor_def req_def int_map_get_canon ResourceUsage_from_to)

lemma AgentLedger_value_ok: "d < 98 \<Longrightarrow> value_ok d (AgentLedger_to_cbor l)"
  by (simp add: AgentLedger_to_cbor_def int_map_def usage_value_ok)

lemma OverflowPolicy_from_to: "OverflowPolicy_from_cbor (OverflowPolicy_to_cbor p) = Inr p"
  by (cases p) (simp_all add: OverflowPolicy_from_cbor_def OverflowPolicy_to_cbor_def)

lemma sort_key_fst_ord:
  assumes "iteration_order ord" and "hm_ok m"
  shows "sort_key fst (ord m) = sort_key fst (m :: ('k::linorder, 'v) hash_map)"
proof (rule sort_key_inj_key_eq)
  show "mset (ord m) = mset (sort_key fst m)" using assms(1) by (simp add: iteration_order_def)
  show "inj_on fst (set (ord m))"
    using iteration_order_distinct [OF assms] by (simp add: distinct_map)
qed simp

lemma table_items_map:
  assumes "\<And>v. f (g v) = Inr v"
  shows "table_items field f (map (\<lambda>(k, v). Array [TextString k, g v]) es) m = Inr (fold (\<lambda>(k, v). hm_insert k v) es m)"
  by (induction es arbitrary: m) (auto simp: assms)

lemma fold_hm_insert_get:
  "distinct (map fst es) \<Longrightarrow> hm_get (fold (\<lambda>(k, v). hm_insert k v) es m) k = (case map_of es k of Some v \<Rightarrow> Some v | None \<Rightarrow> hm_get m k)"
  by (induction es arbitrary: m) (auto simp: hm.get_put map_of_eq_None_iff rev_image_eqI split: option.splits)

lemma table_from_to:
  assumes "iteration_order ord" and "hm_ok m" and "\<And>v. f (canon (g v)) = Inr v"
  shows "\<exists>m'. table_from_cbor field f (Some (canon (table_to_cbor ord g m))) = Inr m' \<and> hm_get m' = hm_get m"
proof -
  let ?es = "sort_key fst m"
  have d: "distinct (map fst ?es)" using assms(2) by (simp add: hm_ok_def distinct_map)
  have "canon (table_to_cbor ord g m) = Array (map (\<lambda>(k, v). Array [TextString k, canon (g v)]) ?es)"
    by (simp add: table_to_cbor_def sort_key_fst_ord [OF assms(1,2)] split_beta comp_def)
  then have "table_from_cbor field f (Some (canon (table_to_cbor ord g m))) = Inr (fold (\<lambda>(k, v). hm_insert k v) ?es [])"
    using table_items_map [of f "\<lambda>v. canon (g v)" field ?es "[]"] assms(3) by (simp add: table_from_cbor_def)
  moreover have "hm_get (fold (\<lambda>(k, v). hm_insert k v) ?es []) = hm_get m"
  proof
    fix k
    have "map_of ?es = map_of m"
      using d assms(2) by (intro map_of_inject_set [THEN iffD2]) (simp_all add: hm_ok_def)
    then show "hm_get (fold (\<lambda>(k, v). hm_insert k v) ?es []) k = hm_get m k"
      using fold_hm_insert_get [OF d, of "[]" k] by (simp add: hm_get_def split: option.split)
  qed
  ultimately show ?thesis by blast
qed

definition account_ok :: "ResourceAccount \<Rightarrow> bool" where
  "account_ok acc \<longleftrightarrow> hm_ok (cfg_agent_limits (ra_config acc)) \<and> hm_ok (ra_ledgers acc) \<and>
     list_all (\<lambda>(k, _). utf8_valid k) (cfg_agent_limits (ra_config acc)) \<and>
     list_all (\<lambda>(k, _). utf8_valid k) (ra_ledgers acc)"

definition same_account :: "ResourceAccount \<Rightarrow> ResourceAccount \<Rightarrow> bool" where
  "same_account a b \<longleftrightarrow> hm_get (ra_ledgers a) = hm_get (ra_ledgers b) \<and>
     cfg_default_limits (ra_config a) = cfg_default_limits (ra_config b) \<and>
     hm_get (cfg_agent_limits (ra_config a)) = hm_get (cfg_agent_limits (ra_config b)) \<and>
     cfg_overflow_policy (ra_config a) = cfg_overflow_policy (ra_config b)"

lemma table_value_ok:
  assumes "iteration_order ord" and "list_all (\<lambda>(k, _). utf8_valid k) m" and "\<And>v. value_ok (Suc (Suc d)) (g v)" and "d < 98"
  shows "value_ok d (table_to_cbor ord g m)"
  using assms iteration_order_set [OF assms(1), of m] by (auto simp: table_to_cbor_def list_all_iff)

lemma AccountConfig_from_to:
  assumes "iteration_order lord" and "hm_ok (cfg_agent_limits c)"
  shows "\<exists>m. AccountConfig_from_cbor (canon (AccountConfig_to_cbor lord c)) =
      Inr \<lparr>cfg_default_limits = cfg_default_limits c, cfg_agent_limits = m, cfg_overflow_policy = cfg_overflow_policy c\<rparr> \<and>
    hm_get m = hm_get (cfg_agent_limits c)"
  using table_from_to [OF assms, of ResourceLimits_from_cbor ResourceLimits_to_cbor "''agent_limits''"]
    OverflowPolicy_from_to [of "cfg_overflow_policy c"]
  by (auto simp: AccountConfig_from_cbor_def AccountConfig_to_cbor_def req_def int_map_get_canon
      ResourceLimits_from_to OverflowPolicy_to_cbor_def)

lemma account_value:
  assumes "iteration_order lord" and "iteration_order ord" and "account_ok acc"
  defines "val \<equiv> int_map [(1, AccountConfig_to_cbor lord (ra_config acc)), (2, table_to_cbor ord AgentLedger_to_cbor (ra_ledgers acc))]"
  shows "value_ok 0 val" and "int_map_get (canon val) 1 = Some (canon (AccountConfig_to_cbor lord (ra_config acc)))"
    and "int_map_get (canon val) 2 = Some (canon (table_to_cbor ord AgentLedger_to_cbor (ra_ledgers acc)))"
proof -
  have "value_ok 1 (table_to_cbor ord AgentLedger_to_cbor (ra_ledgers acc))"
    using assms(2,3) by (intro table_value_ok) (simp_all add: account_ok_def AgentLedger_value_ok)
  moreover have "value_ok 2 (table_to_cbor lord ResourceLimits_to_cbor (cfg_agent_limits (ra_config acc)))"
    using assms(1,3) by (intro table_value_ok) (simp_all add: account_ok_def usage_value_ok)
  ultimately show "value_ok 0 val"
    by (simp add: val_def AccountConfig_to_cbor_def int_map_def usage_value_ok OverflowPolicy_to_cbor_def numeral_2_eq_2)
qed (simp_all add: val_def int_map_get_canon)

text \<open>
  A saved account is restored: the bytes do not depend on the order in which the hash maps are iterated, and reading them back gives an account with the same configuration, limits and ledgers.
\<close>

lemma account_restored:
  assumes "iteration_order lord" and "iteration_order ord" and "account_ok acc"
    and "ResourceAccount_to_bytes lord ord acc = Inr bs" and "fits bs"
  shows "(\<exists>acc'. ResourceAccount_from_bytes bs = Inr acc' \<and> same_account acc' acc) \<and>
    (iteration_order lord' \<and> iteration_order ord' \<longrightarrow> ResourceAccount_to_bytes lord' ord' acc = Inr bs)"
proof
  let ?val = "int_map [(1, AccountConfig_to_cbor lord (ra_config acc)), (2, table_to_cbor ord AgentLedger_to_cbor (ra_ledgers acc))]"
  note v = account_value [OF assms(1-3)]
  have ok: "hm_ok (cfg_agent_limits (ra_config acc))" "hm_ok (ra_ledgers acc)" using assms(3) by (simp_all add: account_ok_def)
  have bs: "bs = cbor_bytes ?val" using assms(4) by (simp add: ResourceAccount_to_bytes_def encode_eq)
  then have dec: "decode bs = Inr (canon ?val, length bs)" using decode_cbor_bytes [OF v(1), of "[]"] assms(5) by simp
  obtain m where m: "AccountConfig_from_cbor (canon (AccountConfig_to_cbor lord (ra_config acc))) =
      Inr \<lparr>cfg_default_limits = cfg_default_limits (ra_config acc), cfg_agent_limits = m,
        cfg_overflow_policy = cfg_overflow_policy (ra_config acc)\<rparr>" "hm_get m = hm_get (cfg_agent_limits (ra_config acc))"
    using AccountConfig_from_to [OF assms(1) ok(1)] by blast
  obtain ls where ls: "table_from_cbor ''ledgers'' AgentLedger_from_cbor
      (Some (canon (table_to_cbor ord AgentLedger_to_cbor (ra_ledgers acc)))) = Inr ls" "hm_get ls = hm_get (ra_ledgers acc)"
    using table_from_to [OF assms(2) ok(2) AgentLedger_from_to] by blast
  show "\<exists>acc'. ResourceAccount_from_bytes bs = Inr acc' \<and> same_account acc' acc"
    using m ls v(2,3) dec by (auto simp: ResourceAccount_from_bytes_def req_def same_account_def)
  show "iteration_order lord' \<and> iteration_order ord' \<longrightarrow> ResourceAccount_to_bytes lord' ord' acc = Inr bs"
    using bs sort_key_fst_ord [OF _ ok(1)] sort_key_fst_ord [OF _ ok(2)] assms(1,2)
    by (simp add: ResourceAccount_to_bytes_def encode_eq table_to_cbor_def AccountConfig_to_cbor_def)
qed

lemma account_restored_example:
  "\<exists>bs acc'. ResourceAccount_to_bytes id id \<lparr>ra_config = AccountConfig_default, ra_ledgers = [([0x61], AgentLedger_new)]\<rparr> = Inr bs \<and>
     ResourceAccount_from_bytes bs = Inr acc' \<and>
     same_account acc' \<lparr>ra_config = AccountConfig_default, ra_ledgers = [([0x61], AgentLedger_new)]\<rparr>"
proof -
  let ?acc = "\<lparr>ra_config = AccountConfig_default, ra_ledgers = [([0x61], AgentLedger_new)]\<rparr>"
  let ?val = "int_map [(1, AccountConfig_to_cbor id (ra_config ?acc)), (2, table_to_cbor id AgentLedger_to_cbor (ra_ledgers ?acc))]"
  have ok: "account_ok ?acc" by code_simp
  have ord: "iteration_order id" by (simp add: iteration_order_def)
  have "fits (cbor_bytes ?val @ [])"
    by (rule fits_small) (simp add: int_map_def AccountConfig_to_cbor_def AccountConfig_default_def table_to_cbor_def
        ResourceLimits_to_cbor_def OverflowPolicy_to_cbor_def AgentLedger_to_cbor_def ResourceUsage_to_cbor_def)
  then have fits: "fits (cbor_bytes ?val)" by simp
  have bs: "ResourceAccount_to_bytes id id ?acc = Inr (cbor_bytes ?val)" by (simp add: ResourceAccount_to_bytes_def encode_eq)
  show ?thesis using account_restored [OF ord ord ok bs fits] bs by blast
qed

end
