(* ===== verification/Cbor_Wire.thy ===== *)
theory Cbor_Wire
  imports Cbor_Message
begin

text \<open>
  Values as the receiver sees them. The codec reorders the entries of maps, and the empty map is
  read as a map with integer keys whatever it was before; \<open>wire v\<close> is the value that decoding the
  encoding of \<open>v\<close> gives. The interface \<open>wire_message\<close> is that of \<open>cbor_message\<close> for messages that
  may carry empty maps, and is an instance of it.
\<close>

section \<open>Empty maps\<close>

fun plain_maps :: "Value \<Rightarrow> Value" where
  "plain_maps (Array vs) = Array (map plain_maps vs)"
| "plain_maps (IntMap es) = IntMap (map (\<lambda>(k, v). (k, plain_maps v)) es)"
| "plain_maps (StrMap es) = (if es = [] then IntMap [] else StrMap (map (\<lambda>(k, v). (k, plain_maps v)) es))"
| "plain_maps v = v"

lemma cbor_bytes_plain_maps: "cbor_bytes (plain_maps v) = cbor_bytes v"
proof (induction v)
  case (Array vs)
  then show ?case by (simp add: items_bytes_concat comp_def cong: map_cong)
next
  case (IntMap es)
  then show ?case
    by (auto simp: int_entries_bytes_concat sort_keys_map_snd comp_def split_beta
        intro!: arg_cong [where f = concat] map_cong)
next
  case (StrMap es)
  show ?case
  proof (cases "es = []")
    case True
    then show ?thesis by (simp add: sort_int_keys_eq sort_str_keys_eq)
  next
    case False
    with StrMap show ?thesis
      by (auto simp: str_entries_bytes_concat sort_keys_map_snd comp_def split_beta
          intro!: arg_cong [where f = concat] map_cong)
  qed
qed simp_all

lemma plain_maps_idem [simp]: "plain_maps (plain_maps v) = plain_maps v"
  by (induction v) (auto simp: comp_def)

lemma plain_maps_canon: "plain_maps (canon v) = canon (plain_maps v)"
proof (induction v)
  case (IntMap es)
  then have "map (\<lambda>(k, v). (k, plain_maps v)) (map (\<lambda>(k, v). (k, canon v)) es) =
      map (\<lambda>(k, v). (k, canon v)) (map (\<lambda>(k, v). (k, plain_maps v)) es)" by auto
  then show ?case by (simp flip: sort_keys_map_snd del: map_map)
next
  case (StrMap es)
  then have "map (\<lambda>(k, v). (k, plain_maps v)) (map (\<lambda>(k, v). (k, canon v)) es) =
      map (\<lambda>(k, v). (k, canon v)) (map (\<lambda>(k, v). (k, plain_maps v)) es)" by auto
  moreover have "sort_str_keys (map (\<lambda>(k, v). (k, canon v)) es) = [] \<longleftrightarrow> es = []"
    by (metis length_0_conv length_map length_sort_keys(2))
  ultimately show ?case by (simp flip: sort_keys_map_snd add: sort_int_keys_eq del: map_map)
qed (auto simp: comp_def)

section \<open>The value on the wire\<close>

definition wire :: "Value \<Rightarrow> Value" where
  "wire v = canon (plain_maps v)"

definition wire_ok :: "nat \<Rightarrow> Value \<Rightarrow> bool" where
  "wire_ok d v \<longleftrightarrow> value_ok d (plain_maps v)"

text \<open>String maps in the order of their keys, whatever the values are.\<close>

definition by_key :: "(ustring \<times> 'a) list \<Rightarrow> (ustring \<times> 'a) list" where
  "by_key es = sort_key (\<lambda>e. text_key_encoding (fst e)) es"

lemma by_key_map: "by_key (map (\<lambda>(k, v). (k, f v)) es) = map (\<lambda>(k, v). (k, f v)) (by_key es)"
  by (simp add: by_key_def sort_key_map split_beta)

lemma by_key_idem [simp]: "by_key (by_key es) = by_key es"
  by (simp add: by_key_def sort_key_id_if_sorted)

lemma by_key_simps [simp]: "set (by_key es) = set es" "by_key [] = []" "by_key es = [] \<longleftrightarrow> es = []"
  "length (by_key es) = length es" "mset (by_key es) = mset es"
  by (simp_all add: by_key_def) (metis length_0_conv length_sort)

lemma distinct_by_key [simp]: "distinct (map fst (by_key es)) = distinct (map fst es)"
  by (metis by_key_simps(5) mset_map mset_eq_imp_distinct_iff)

lemma map_of_by_key: "distinct (map fst es) \<Longrightarrow> map_of (by_key es) = map_of es"
  by (simp add: map_of_inject_set)

lemma wire_pairs: "map (\<lambda>(k, v). (k, canon v)) (map (\<lambda>(k, v). (k, plain_maps v)) es) = map (\<lambda>(k, v). (k, wire v)) es"
  by (induction es) (auto simp: wire_def)

lemma wire_int_map: "wire (int_map es) = IntMap (sort_int_keys (map (\<lambda>(k, v). (k, wire v)) es))"
  unfolding wire_pairs [symmetric] int_map_def wire_def [of "IntMap es"] by simp

lemma wire_StrMap: "es \<noteq> [] \<Longrightarrow> wire (StrMap es) = StrMap (by_key (map (\<lambda>(k, v). (k, wire v)) es))"
  unfolding wire_pairs [symmetric] wire_def [of "StrMap es"] by (simp add: sort_str_keys_eq by_key_def)

lemma wire_simps [simp]:
  "wire (Unsigned n) = Unsigned n" "wire (Negative i) = Negative i" "wire (ByteString b) = ByteString b"
  "wire (TextString s) = TextString s" "wire (Array vs) = Array (map wire vs)" "wire (Bool t) = Bool t" "wire Null = Null"
  "wire (StrMap []) = IntMap []"
  by (simp_all add: wire_def sort_int_keys_eq)

lemma int_map_get_wire:
  assumes "distinct (map fst es)"
  shows "int_map_get (wire (int_map es)) k = map_option wire (map_of es k)"
proof -
  have "distinct (map fst (map (\<lambda>(k, v). (k, plain_maps v)) es))" using assms by (simp add: comp_def split_beta)
  from int_map_get_canon [OF this, of k] show ?thesis
    by (simp add: wire_def int_map_def map_of_map_canon option.map_comp comp_def del: map_map) (simp add: wire_def [abs_def])
qed

lemma wire_wire [simp]: "wire (wire v) = wire v"
  by (simp add: wire_def plain_maps_canon)

lemma wire_ok_simps [simp]:
  "wire_ok d (Unsigned n) \<longleftrightarrow> d < MAX_DECODE_DEPTH"
  "wire_ok d (Negative i) \<longleftrightarrow> d < MAX_DECODE_DEPTH \<and> sint i < 0"
  "wire_ok d (ByteString b) \<longleftrightarrow> d < MAX_DECODE_DEPTH"
  "wire_ok d (TextString s) \<longleftrightarrow> d < MAX_DECODE_DEPTH \<and> utf8_valid s"
  "wire_ok d (Bool t) \<longleftrightarrow> d < MAX_DECODE_DEPTH" "wire_ok d Null \<longleftrightarrow> d < MAX_DECODE_DEPTH"
  "wire_ok d (Array vs) \<longleftrightarrow> d < MAX_DECODE_DEPTH \<and> (\<forall>v \<in> set vs. wire_ok (Suc d) v)"
  "wire_ok d (IntMap es) \<longleftrightarrow> d < MAX_DECODE_DEPTH \<and> distinct (map fst es) \<and> (\<forall>(k, v) \<in> set es. wire_ok (Suc d) v)"
  "wire_ok d (int_map es) \<longleftrightarrow> d < MAX_DECODE_DEPTH \<and> distinct (map fst es) \<and> (\<forall>(k, v) \<in> set es. wire_ok (Suc d) v)"
  "wire_ok d (StrMap fs) \<longleftrightarrow> d < MAX_DECODE_DEPTH \<and> distinct (map fst fs) \<and>
     (\<forall>(k, v) \<in> set fs. utf8_valid k \<and> wire_ok (Suc d) v)"
  by (auto simp: wire_ok_def int_map_def comp_def split_beta)

lemma wire_ok_mono: "wire_ok e v \<Longrightarrow> d \<le> e \<Longrightarrow> wire_ok d v"
  by (simp add: wire_ok_def value_ok_mono)

lemma cbor_bytes_wire: "cbor_bytes (wire v) = cbor_bytes v"
  by (simp add: wire_def cbor_bytes_canon cbor_bytes_plain_maps)

lemma decode_wire:
  assumes "wire_ok 0 v" and "fits (cbor_bytes v @ rest)"
  shows "decode (cbor_bytes v @ rest) = Inr (wire v, length (cbor_bytes v))"
  using assms decode_cbor_bytes [of "plain_maps v" rest] by (simp add: wire_ok_def wire_def cbor_bytes_plain_maps)

lemma wire_inj:
  assumes "wire_ok 0 v" and "wire_ok 0 w" and "fits (cbor_bytes v)" and "cbor_bytes v = cbor_bytes w"
  shows "wire v = wire w"
  using decode_wire [of v "[]"] decode_wire [of w "[]"] assms by simp

section \<open>The interface of a message that may carry empty maps\<close>

locale wire_message =
  fixes to_cbor :: "'m \<Rightarrow> Value"
    and from_cbor :: "Value \<Rightarrow> 'e + 'm"
    and wf :: "'m \<Rightarrow> bool"
    and norm :: "'m \<Rightarrow> 'm"
  assumes wire_wf: "wf m \<Longrightarrow> wire_ok 0 (to_cbor m)"
    and from_wire: "wf m \<Longrightarrow> from_cbor (wire (to_cbor m)) = Inr (norm m)"
begin

lemma decode_sent:
  assumes "wf m" and "encode (to_cbor m) = Inr bs" and "fits (bs @ rest)"
  shows "\<exists>val. decode (bs @ rest) = Inr (val, length bs) \<and> from_cbor val = Inr (norm m)"
  using assms decode_wire [OF wire_wf [OF assms(1)], of rest] from_wire by (simp add: encode_eq)

lemma sent_inj:
  assumes "wf m" and "wf n" and "encode (to_cbor m) = Inr bs" and "encode (to_cbor n) = Inr bs" and "fits bs"
  shows "norm m = norm n"
proof -
  have "wire (to_cbor m) = wire (to_cbor n)"
    using assms by (intro wire_inj) (simp_all add: wire_wf encode_eq)
  then have "Inr (norm m) = (Inr (norm n) :: 'e + 'm)" using assms(1,2) by (simp flip: from_wire)
  then show ?thesis by simp
qed

end

sublocale wire_message \<subseteq> plain: cbor_message "\<lambda>m. plain_maps (to_cbor m)" from_cbor wf norm
  by unfold_locales (use wire_wf from_wire in \<open>simp_all add: wire_def wire_ok_def\<close>)

end
