(* ===== verification/Identity_V1.thy ===== *)
theory Identity_V1
  imports Cbor_Wire Crypto
begin

text \<open>
  Agent records, \<open>crates/aafp-identity/src/identity_v1.rs\<close>: agent ids and their fingerprints,
  capability descriptors, and the self-signed record an agent publishes. The packages for hashing and
  signatures are those of \<open>Crypto\<close>; \<open>hex\<close> stands for the package of that name. A failing \<open>unwrap\<close> is
  the value \<open>None\<close>.

  The theorems show that a record survives publication (it decodes to itself and its signature
  still verifies although the receiver encodes it again), that verification binds every field,
  and that the fingerprint routines compute base32 and a checksum that detects errors.
\<close>

section \<open>Errors\<close>

text \<open>The messages of \<open>InvalidField\<close>, in this file and in the extensions.\<close>

datatype identity_text =
    ExpectedGot string Value
  | UnsupportedValue Value
  | ExpectedVersion u64 u64
  | UnsupportedAlg ustring
  | KidMismatch ustring ustring
  | NotYetValid u64 u64
  | NotSubset ustring ustring
  | MustReduce
  | Unresolved ustring
  | LinkBroken ustring ustring
  | Expands ustring ustring

datatype IdentityErrorV1 =
    IvAgentIdLength nat nat
  | IvAgentId
  | IvRecordType ustring
  | IvUnsupportedAlgorithm u64
  | IvSignature
  | IvPublicKey
  | IvSignatureLength
  | IvExpired u64 u64
  | IvMissing string
  | IvInvalid string identity_text
  | IvCbor CborError

definition RECORD_DOMAIN_SEPARATOR :: bytes where
  "RECORD_DOMAIN_SEPARATOR = str ''aafp-v1-record''"

definition RECORD_TYPE_V1 :: ustring where
  "RECORD_TYPE_V1 = str ''aafp-record-v1''"

definition KEY_ALG_ML_DSA_65 :: u64 where
  "KEY_ALG_ML_DSA_65 = 1"

definition MAX_RECORD_EXPIRY :: u64 where
  "MAX_RECORD_EXPIRY = 30 * 24 * 60 * 60"

section \<open>Agent ids\<close>

definition AgentId_from_public_key :: "crypto \<Rightarrow> bytes \<Rightarrow> bytes" where
  "AgentId_from_public_key cr public_key = sha256 cr public_key"

definition AgentId_from_bytes :: "bytes \<Rightarrow> IdentityErrorV1 + bytes" where
  "AgentId_from_bytes bs = (if length bs \<noteq> 32 then Inl (IvAgentIdLength 32 (length bs)) else Inr bs)"

definition to_short_hex :: "(bytes \<Rightarrow> ustring) \<Rightarrow> bytes \<Rightarrow> ustring" where
  "to_short_hex hex agent_id = str ''0x'' @ hex (take 8 agent_id)"

definition base32_alphabet :: ustring where
  "base32_alphabet = str ''ABCDEFGHIJKLMNOPQRSTUVWXYZ234567''"

fun base32_drain :: "u32 \<Rightarrow> nat \<Rightarrow> ustring \<Rightarrow> nat \<times> ustring" where
  "base32_drain buffer bits_left result =
     (if bits_left \<ge> 5
      then let bits_left = bits_left - 5;
               index = unat (drop_bit bits_left buffer AND 0x1F)
           in base32_drain buffer bits_left (result @ [base32_alphabet ! index])
      else (bits_left, result))"

fun base32_loop :: "bytes \<Rightarrow> u32 \<Rightarrow> nat \<Rightarrow> ustring \<Rightarrow> u32 \<times> nat \<times> ustring" where
  "base32_loop [] buffer bits_left result = (buffer, bits_left, result)"
| "base32_loop (byte # data) buffer bits_left result =
     (let buffer = push_bit 8 buffer OR ucast byte;
          (bits_left, result) = base32_drain buffer (bits_left + 8) result
      in base32_loop data buffer bits_left result)"

definition base32_encode :: "bytes \<Rightarrow> ustring" where
  "base32_encode data =
     (let (buffer, bits_left, result) = base32_loop data 0 0 []
      in if bits_left > 0
         then let index = unat (push_bit (5 - bits_left) buffer AND 0x1F) in result @ [base32_alphabet ! index]
         else result)"

definition crc32_bit :: "u32 \<Rightarrow> u32" where
  "crc32_bit crc = (if crc AND 1 \<noteq> 0 then drop_bit 1 crc XOR 0xEDB88320 else drop_bit 1 crc)"

definition crc32_byte :: "byte \<Rightarrow> u32 \<Rightarrow> u32" where
  "crc32_byte byte crc = (crc32_bit ^^ 8) (crc XOR ucast byte)"

definition crc32 :: "bytes \<Rightarrow> u32" where
  "crc32 data = fold crc32_byte data 0xFFFFFFFF XOR 0xFFFFFFFF"

text \<open>The format \<open>{:08X}\<close> of a 32-bit number.\<close>

definition upper_hex_8 :: "u32 \<Rightarrow> ustring" where
  "upper_hex_8 n = map (\<lambda>i. str ''0123456789ABCDEF'' ! unat (drop_bit (4 * (7 - i)) n AND 0xF)) [0..<8]"

definition to_fingerprint :: "bytes \<Rightarrow> ustring" where
  "to_fingerprint agent_id =
     (let first_16 = take 16 agent_id
      in str ''AAFP-'' @ base32_encode first_16 @ str ''-'' @ upper_hex_8 (crc32 first_16))"

section \<open>Capability descriptors\<close>

datatype MetadataValue = MBool bool | MInt i64 | MText ustring | MBytes bytes

fun MetadataValue_to_cbor :: "MetadataValue \<Rightarrow> Value" where
  "MetadataValue_to_cbor (MBool b) = Bool b"
| "MetadataValue_to_cbor (MInt n) = (if 0 \<le> sint n then Unsigned n else Negative n)"
| "MetadataValue_to_cbor (MText s) = TextString s"
| "MetadataValue_to_cbor (MBytes b) = ByteString b"

fun MetadataValue_from_cbor :: "Value \<Rightarrow> IdentityErrorV1 + MetadataValue" where
  "MetadataValue_from_cbor (Bool b) = Inr (MBool b)"
| "MetadataValue_from_cbor (Unsigned n) = Inr (MInt n)"
| "MetadataValue_from_cbor (Negative n) = Inr (MInt n)"
| "MetadataValue_from_cbor (TextString s) = Inr (MText s)"
| "MetadataValue_from_cbor (ByteString b) = Inr (MBytes b)"
| "MetadataValue_from_cbor v = Inl (IvInvalid ''metadata_value'' (UnsupportedValue v))"

record CapabilityDescriptor =
  cd_name :: ustring
  cd_metadata :: "(ustring \<times> MetadataValue) list"

definition CapabilityDescriptor_new :: "ustring \<Rightarrow> CapabilityDescriptor" where
  "CapabilityDescriptor_new name = \<lparr>cd_name = name, cd_metadata = []\<rparr>"

definition with_metadata :: "ustring \<Rightarrow> MetadataValue \<Rightarrow> CapabilityDescriptor \<Rightarrow> CapabilityDescriptor" where
  "with_metadata key v c = c\<lparr>cd_metadata := cd_metadata c @ [(key, v)]\<rparr>"

definition CapabilityDescriptor_to_cbor :: "CapabilityDescriptor \<Rightarrow> Value" where
  "CapabilityDescriptor_to_cbor c =
     (let metadata_val = (if cd_metadata c = [] then StrMap []
        else str_map (map (\<lambda>(k, v). (k, MetadataValue_to_cbor v)) (cd_metadata c)))
      in int_map [(1, TextString (cd_name c)), (2, metadata_val)])"

definition req_tstr :: "string \<Rightarrow> Value option \<Rightarrow> IdentityErrorV1 + ustring" where
  "req_tstr field v =
     (case v of
        Some (TextString s) \<Rightarrow> Inr s
      | Some other \<Rightarrow> Inl (IvInvalid field (ExpectedGot ''tstr'' other))
      | None \<Rightarrow> Inl (IvMissing field))"

definition CapabilityDescriptor_from_cbor :: "Value \<Rightarrow> IdentityErrorV1 + CapabilityDescriptor" where
  "CapabilityDescriptor_from_cbor val =
     bind_result (req_tstr ''name'' (int_map_get val 1)) (\<lambda>name.
     bind_result
       (case int_map_get val 2 of
          Some (StrMap entries) \<Rightarrow>
            decode_all (\<lambda>(k, v). bind_result (MetadataValue_from_cbor v) (\<lambda>m. Inr (k, m))) entries
        | Some (IntMap _) \<Rightarrow> Inr []
        | None \<Rightarrow> Inr []
        | Some other \<Rightarrow> Inl (IvInvalid ''metadata'' (ExpectedGot ''map'' other))) (\<lambda>metadata.
     Inr \<lparr>cd_name = name, cd_metadata = metadata\<rparr>))"

section \<open>Agent records\<close>

record AgentRecord =
  ar_record_type :: ustring
  ar_agent_id :: bytes
  ar_public_key :: bytes
  ar_capabilities :: "CapabilityDescriptor list"
  ar_endpoints :: "ustring list"
  ar_created_at :: u64
  ar_expires_at :: u64
  ar_signature :: bytes
  ar_key_algorithm :: u64
  ar_record_version :: u64
  ar_extensions :: "(ustring \<times> Value) list"

definition AgentRecord_new ::
    "crypto \<Rightarrow> bytes \<Rightarrow> CapabilityDescriptor list \<Rightarrow> ustring list \<Rightarrow> u64 \<Rightarrow> u64 \<Rightarrow> u64 \<Rightarrow> AgentRecord" where
  "AgentRecord_new cr public_key capabilities endpoints created_at expires_at key_algorithm =
     \<lparr>ar_record_type = RECORD_TYPE_V1, ar_agent_id = AgentId_from_public_key cr public_key,
      ar_public_key = public_key, ar_capabilities = capabilities, ar_endpoints = endpoints,
      ar_created_at = created_at, ar_expires_at = expires_at, ar_signature = [],
      ar_key_algorithm = key_algorithm, ar_record_version = 1, ar_extensions = []\<rparr>"

definition to_cbor_without_sig :: "AgentRecord \<Rightarrow> Value" where
  "to_cbor_without_sig r =
     int_map ([(1, TextString (ar_record_type r)), (2, ByteString (ar_agent_id r)),
       (3, ByteString (ar_public_key r)),
       (4, Array (map CapabilityDescriptor_to_cbor (ar_capabilities r))),
       (5, Array (map TextString (ar_endpoints r))),
       (6, Unsigned (ar_created_at r)), (7, Unsigned (ar_expires_at r)),
       (9, Unsigned (ar_key_algorithm r)), (10, Unsigned (ar_record_version r))] @
       (if ar_extensions r \<noteq> [] then [(11, str_map (ar_extensions r))] else []))"

definition AgentRecord_to_cbor :: "AgentRecord \<Rightarrow> Value" where
  "AgentRecord_to_cbor r =
     int_map ([(1, TextString (ar_record_type r)), (2, ByteString (ar_agent_id r)),
       (3, ByteString (ar_public_key r)),
       (4, Array (map CapabilityDescriptor_to_cbor (ar_capabilities r))),
       (5, Array (map TextString (ar_endpoints r))),
       (6, Unsigned (ar_created_at r)), (7, Unsigned (ar_expires_at r)),
       (8, ByteString (ar_signature r)),
       (9, Unsigned (ar_key_algorithm r)), (10, Unsigned (ar_record_version r))] @
       (if ar_extensions r \<noteq> [] then [(11, str_map (ar_extensions r))] else []))"

definition expect_u64 :: "Value option \<Rightarrow> string \<Rightarrow> IdentityErrorV1 + u64" where
  "expect_u64 v field =
     (case v of
        Some (Unsigned n) \<Rightarrow> Inr n
      | Some other \<Rightarrow> Inl (IvInvalid field (ExpectedGot ''uint'' other))
      | None \<Rightarrow> Inl (IvMissing field))"

definition expect_bstr :: "Value option \<Rightarrow> string \<Rightarrow> IdentityErrorV1 + bytes" where
  "expect_bstr v field =
     (case v of
        Some (ByteString b) \<Rightarrow> Inr b
      | Some other \<Rightarrow> Inl (IvInvalid field (ExpectedGot ''bstr'' other))
      | None \<Rightarrow> Inl (IvMissing field))"

definition AgentRecord_from_cbor :: "Value \<Rightarrow> IdentityErrorV1 + AgentRecord" where
  "AgentRecord_from_cbor val =
     bind_result (req_tstr ''record_type'' (int_map_get val 1)) (\<lambda>record_type.
     bind_result (bind_result (expect_bstr (int_map_get val 2) ''agent_id'') AgentId_from_bytes) (\<lambda>agent_id.
     bind_result (expect_bstr (int_map_get val 3) ''public_key'') (\<lambda>public_key.
     bind_result
       (case int_map_get val 4 of
          Some (Array arr) \<Rightarrow> decode_all CapabilityDescriptor_from_cbor arr
        | Some other \<Rightarrow> Inl (IvInvalid ''capabilities'' (ExpectedGot ''array'' other))
        | None \<Rightarrow> Inl (IvMissing ''capabilities'')) (\<lambda>capabilities.
     bind_result
       (case int_map_get val 5 of
          Some (Array arr) \<Rightarrow>
            decode_all (\<lambda>item. case item of TextString s \<Rightarrow> Inr s
              | other \<Rightarrow> Inl (IvInvalid ''endpoints'' (ExpectedGot ''tstr in array'' other))) arr
        | Some other \<Rightarrow> Inl (IvInvalid ''endpoints'' (ExpectedGot ''array'' other))
        | None \<Rightarrow> Inl (IvMissing ''endpoints'')) (\<lambda>endpoints.
     bind_result (expect_u64 (int_map_get val 6) ''created_at'') (\<lambda>created_at.
     bind_result (expect_u64 (int_map_get val 7) ''expires_at'') (\<lambda>expires_at.
     bind_result (expect_bstr (int_map_get val 8) ''signature'') (\<lambda>signature.
     bind_result (expect_u64 (int_map_get val 9) ''key_algorithm'') (\<lambda>key_algorithm.
     bind_result
       (case int_map_get val 10 of
          Some (Unsigned n) \<Rightarrow> Inr n
        | None \<Rightarrow> Inr 0
        | Some other \<Rightarrow> Inl (IvInvalid ''record_version'' (ExpectedGot ''uint'' other))) (\<lambda>record_version.
     bind_result
       (case int_map_get val 11 of
          Some (StrMap entries) \<Rightarrow> Inr entries
        | Some (IntMap _) \<Rightarrow> Inr []
        | None \<Rightarrow> Inr []
        | Some other \<Rightarrow> Inl (IvInvalid ''extensions'' (ExpectedGot ''map'' other))) (\<lambda>extensions.
     Inr \<lparr>ar_record_type = record_type, ar_agent_id = agent_id, ar_public_key = public_key,
       ar_capabilities = capabilities, ar_endpoints = endpoints, ar_created_at = created_at,
       ar_expires_at = expires_at, ar_signature = signature, ar_key_algorithm = key_algorithm,
       ar_record_version = record_version, ar_extensions = extensions\<rparr>)))))))))))"

definition record_sig_input :: "AgentRecord \<Rightarrow> bytes option" where
  "record_sig_input r =
     (case encode (to_cbor_without_sig r) of
        Inr cbor \<Rightarrow> Some (RECORD_DOMAIN_SEPARATOR @ cbor)
      | Inl _ \<Rightarrow> None)"

definition AgentRecord_sign :: "crypto \<Rightarrow> bytes \<Rightarrow> bytes \<Rightarrow> AgentRecord \<Rightarrow> AgentRecord option" where
  "AgentRecord_sign cr secret_key rnd r =
     (case record_sig_input r of
        None \<Rightarrow> None
      | Some sig_input \<Rightarrow>
          map_option (\<lambda>sig. r\<lparr>ar_signature := sig\<rparr>) (MlDsa65_sign cr secret_key sig_input rnd))"

definition AgentRecord_verify :: "crypto \<Rightarrow> u64 \<Rightarrow> AgentRecord \<Rightarrow> (IdentityErrorV1 + unit) option" where
  "AgentRecord_verify cr now r =
     (if ar_agent_id r \<noteq> AgentId_from_public_key cr (ar_public_key r) then Some (Inl IvAgentId)
      else if ar_record_type r \<noteq> RECORD_TYPE_V1 then Some (Inl (IvRecordType (ar_record_type r)))
      else if ar_key_algorithm r \<noteq> KEY_ALG_ML_DSA_65 then Some (Inl (IvUnsupportedAlgorithm (ar_key_algorithm r)))
      else
        case record_sig_input r of
          None \<Rightarrow> None
        | Some sig_input \<Rightarrow> Some (
            bind_result (map_err (\<lambda>_. IvPublicKey) (MlDsa65PublicKey_from_bytes cr (ar_public_key r))) (\<lambda>pk.
            bind_result (map_err (\<lambda>_. IvSignatureLength) (MlDsa65Signature_from_bytes (ar_signature r))) (\<lambda>sig.
            if \<not> MlDsa65_verify cr pk sig_input sig then Inl IvSignature
            else if ar_expires_at r \<le> now then Inl (IvExpired (ar_expires_at r) now)
            else Inr ()))))"

definition AgentRecord_is_expired :: "u64 \<Rightarrow> AgentRecord \<Rightarrow> bool" where
  "AgentRecord_is_expired now r \<longleftrightarrow> ar_expires_at r \<le> now"

definition exceeds_max_expiry_warning :: "u64 \<Rightarrow> AgentRecord \<Rightarrow> bool" where
  "exceeds_max_expiry_warning now r \<longleftrightarrow>
     (if ar_expires_at r < now then 0 else ar_expires_at r - now) > MAX_RECORD_EXPIRY"

section \<open>Publication of a record\<close>

text \<open>
  What a record has to satisfy to be representable: texts are UTF-8, the keys of a map are
  distinct, the id has its length and the extensions can be encoded at their place. The receiver
  sees metadata and extensions in the order of their keys.
\<close>

fun metadata_ok :: "MetadataValue \<Rightarrow> bool" where
  "metadata_ok (MText s) = utf8_valid s"
| "metadata_ok _ = True"

definition capability_ok :: "CapabilityDescriptor \<Rightarrow> bool" where
  "capability_ok c \<longleftrightarrow> utf8_valid (cd_name c) \<and> distinct (map fst (cd_metadata c)) \<and>
     (\<forall>(k, m) \<in> set (cd_metadata c). utf8_valid k \<and> metadata_ok m)"

definition capability_norm :: "CapabilityDescriptor \<Rightarrow> CapabilityDescriptor" where
  "capability_norm c = c\<lparr>cd_metadata := by_key (cd_metadata c)\<rparr>"

definition record_ok :: "AgentRecord \<Rightarrow> bool" where
  "record_ok r \<longleftrightarrow> utf8_valid (ar_record_type r) \<and> length (ar_agent_id r) = 32 \<and>
     (\<forall>c \<in> set (ar_capabilities r). capability_ok c) \<and> (\<forall>e \<in> set (ar_endpoints r). utf8_valid e) \<and>
     distinct (map fst (ar_extensions r)) \<and> (\<forall>(k, v) \<in> set (ar_extensions r). utf8_valid k \<and> wire_ok (Suc (Suc 0)) v)"

definition record_norm :: "AgentRecord \<Rightarrow> AgentRecord" where
  "record_norm r = r\<lparr>ar_capabilities := map capability_norm (ar_capabilities r),
     ar_extensions := by_key (map (\<lambda>(k, v). (k, wire v)) (ar_extensions r))\<rparr>"

lemma metadata_wire [simp]: "wire (MetadataValue_to_cbor m) = MetadataValue_to_cbor m"
  by (cases m) simp_all

lemma metadata_from_to [simp]: "MetadataValue_from_cbor (MetadataValue_to_cbor m) = Inr m"
  by (cases m) simp_all

lemma metadata_wire_ok: "metadata_ok m \<Longrightarrow> d < 100 \<Longrightarrow> wire_ok d (MetadataValue_to_cbor m)"
  by (cases m) simp_all

lemma wire_metadata:
  assumes "md \<noteq> []"
  shows "wire (str_map (map (\<lambda>(k, m). (k, MetadataValue_to_cbor m)) md)) =
    StrMap (map (\<lambda>(k, m). (k, MetadataValue_to_cbor m)) (by_key md))"
proof -
  have "map (\<lambda>(k, v). (k, wire v)) (map (\<lambda>(k, m). (k, MetadataValue_to_cbor m)) md) =
      map (\<lambda>(k, m). (k, MetadataValue_to_cbor m)) md" by auto
  then show ?thesis using assms by (simp add: str_map_def wire_StrMap by_key_map del: map_map)
qed

lemma capability_wire_ok: "capability_ok c \<Longrightarrow> d < 90 \<Longrightarrow> wire_ok d (CapabilityDescriptor_to_cbor c)"
  by (auto simp: CapabilityDescriptor_to_cbor_def capability_ok_def str_map_def metadata_wire_ok comp_def split_beta)

lemma capability_from_wire:
  "CapabilityDescriptor_from_cbor (wire (CapabilityDescriptor_to_cbor c)) = Inr (capability_norm c)"
proof (cases "cd_metadata c = []")
  case True
  then show ?thesis
    by (simp add: CapabilityDescriptor_from_cbor_def CapabilityDescriptor_to_cbor_def int_map_get_wire
        capability_norm_def req_tstr_def)
next
  case False
  have "decode_all (\<lambda>(k, v). bind_result (MetadataValue_from_cbor v) (\<lambda>m. Inr (k, m)))
      (map (\<lambda>(k, m). (k, MetadataValue_to_cbor m)) (by_key (cd_metadata c))) = Inr (by_key (cd_metadata c))"
    by (rule decode_all_map) auto
  with False show ?thesis
    by (simp add: CapabilityDescriptor_from_cbor_def CapabilityDescriptor_to_cbor_def int_map_get_wire
        capability_norm_def req_tstr_def wire_metadata)
qed

interpretation capability_message: wire_message CapabilityDescriptor_to_cbor CapabilityDescriptor_from_cbor
  capability_ok capability_norm
  by unfold_locales (simp_all add: capability_wire_ok capability_from_wire)

lemma record_wire_ok: "record_ok r \<Longrightarrow> wire_ok 0 (AgentRecord_to_cbor r)"
  by (auto simp: AgentRecord_to_cbor_def record_ok_def str_map_def capability_wire_ok)

lemma unsigned_wire_ok: "record_ok r \<Longrightarrow> wire_ok 0 (to_cbor_without_sig r)"
  by (auto simp: to_cbor_without_sig_def record_ok_def str_map_def capability_wire_ok)

lemma extensions_wire:
  "es \<noteq> [] \<Longrightarrow> wire (str_map es) = StrMap (by_key (map (\<lambda>(k, v). (k, wire v)) es))"
  by (simp add: str_map_def wire_StrMap)

lemma record_from_wire:
  assumes "record_ok r"
  shows "AgentRecord_from_cbor (wire (AgentRecord_to_cbor r)) = Inr (record_norm r)"
proof -
  have caps: "decode_all CapabilityDescriptor_from_cbor (map (wire \<circ> CapabilityDescriptor_to_cbor) (ar_capabilities r)) =
      Inr (map capability_norm (ar_capabilities r))"
    by (rule decode_all_maps) (simp add: capability_from_wire)
  have ends: "decode_all (\<lambda>item. case item of TextString s \<Rightarrow> Inr s
      | other \<Rightarrow> Inl (IvInvalid ''endpoints'' (ExpectedGot ''tstr in array'' other))) (map (wire \<circ> TextString) (ar_endpoints r)) =
      Inr (ar_endpoints r)"
    by (rule decode_all_map) simp
  have "length (ar_agent_id r) = 32" using assms by (simp add: record_ok_def)
  then show ?thesis
    using caps ends
    by (cases "ar_extensions r = []")
      (simp_all add: AgentRecord_from_cbor_def AgentRecord_to_cbor_def int_map_get_wire req_tstr_def expect_bstr_def
        expect_u64_def AgentId_from_bytes_def record_norm_def extensions_wire)
qed

interpretation record_message: wire_message AgentRecord_to_cbor AgentRecord_from_cbor record_ok record_norm
  by unfold_locales (simp_all add: record_wire_ok record_from_wire)

text \<open>The receiver encodes the record again to verify it; the signed bytes are the same.\<close>

lemma capability_norm_wire: "wire (CapabilityDescriptor_to_cbor (capability_norm c)) = wire (CapabilityDescriptor_to_cbor c)"
  by (simp add: CapabilityDescriptor_to_cbor_def capability_norm_def wire_int_map wire_metadata)

lemma unsigned_norm_wire: "wire (to_cbor_without_sig (record_norm r)) = wire (to_cbor_without_sig r)"
proof -
  have ext: "wire (str_map (by_key (map (\<lambda>(k, v). (k, wire v)) es))) = wire (str_map es)" if "es \<noteq> []" for es
  proof -
    have "map (\<lambda>(k, v). (k, wire v)) (by_key (map (\<lambda>(k, v). (k, wire v)) es)) = by_key (map (\<lambda>(k, v). (k, wire v)) es)"
      by (auto simp: by_key_map)
    with that show ?thesis by (simp add: extensions_wire)
  qed
  show ?thesis
    by (simp add: to_cbor_without_sig_def record_norm_def wire_int_map capability_norm_wire comp_def ext)
qed

lemma sig_input_norm: "record_sig_input (record_norm r) = record_sig_input r"
proof -
  have "cbor_bytes (to_cbor_without_sig (record_norm r)) = cbor_bytes (to_cbor_without_sig r)"
    by (metis cbor_bytes_wire unsigned_norm_wire)
  then show ?thesis by (simp add: record_sig_input_def encode_eq)
qed

lemma record_verify_norm: "AgentRecord_verify cr now (record_norm r) = AgentRecord_verify cr now r"
proof -
  have f: "ar_agent_id (record_norm r) = ar_agent_id r" "ar_public_key (record_norm r) = ar_public_key r"
    "ar_record_type (record_norm r) = ar_record_type r" "ar_key_algorithm (record_norm r) = ar_key_algorithm r"
    "ar_signature (record_norm r) = ar_signature r" "ar_expires_at (record_norm r) = ar_expires_at r"
    by (simp_all add: record_norm_def)
  show ?thesis unfolding AgentRecord_verify_def sig_input_norm f by (rule refl)
qed

lemma record_transferred:
  assumes "record_ok r" and "encode (AgentRecord_to_cbor r) = Inr bs" and "fits (bs @ rest)"
  shows "\<exists>val. decode (bs @ rest) = Inr (val, length bs) \<and> AgentRecord_from_cbor val = Inr (record_norm r) \<and>
    AgentRecord_verify cr now (record_norm r) = AgentRecord_verify cr now r"
  using record_message.decode_sent [OF assms] by (auto simp: record_verify_norm)

section \<open>Verification\<close>

lemma record_sig_input_eq: "record_sig_input r = Some (RECORD_DOMAIN_SEPARATOR @ cbor_bytes (to_cbor_without_sig r))"
  by (simp add: record_sig_input_def encode_eq)

lemma record_verify_Inr:
  "AgentRecord_verify cr now r = Some (Inr ()) \<longleftrightarrow>
     ar_agent_id r = sha256 cr (ar_public_key r) \<and> ar_record_type r = RECORD_TYPE_V1 \<and>
     ar_key_algorithm r = KEY_ALG_ML_DSA_65 \<and> now < ar_expires_at r \<and>
     MlDsa65_verify cr (ar_public_key r) (RECORD_DOMAIN_SEPARATOR @ cbor_bytes (to_cbor_without_sig r)) (ar_signature r)"
  by (auto simp: AgentRecord_verify_def AgentId_from_public_key_def record_sig_input_eq bind_result_Inr_iff
      MlDsa65PublicKey_from_bytes_def MlDsa65Signature_from_bytes_def MlDsa65_verify_def split: if_splits)

text \<open>Everything but the signature.\<close>

definition signed_part :: "AgentRecord \<Rightarrow> AgentRecord" where
  "signed_part r = (record_norm r)\<lparr>ar_signature := []\<rparr>"

lemma array_wire_inj:
  assumes "map wire (map f xs) = map wire (map f ys)" and "\<And>x. g (wire (f x)) = Inr (h x)"
  shows "map h xs = map h ys"
proof -
  have "map (\<lambda>v. projr (g v)) (map wire (map f xs)) = map (\<lambda>v. projr (g v)) (map wire (map f ys))"
    using assms(1) by simp
  then show ?thesis by (simp add: comp_def assms(2))
qed

lemma unsigned_distinct:
  "distinct (map fst ([(1, a), (2, b), (3, c), (4, d), (5, e), (6, f), (7, g), (9, h), (10, i)] @ (if p then [(11 :: i64, j)] else [])))"
  by simp

lemma unsigned_fields:
  "int_map_get (wire (to_cbor_without_sig r)) 1 = Some (TextString (ar_record_type r))"
  "int_map_get (wire (to_cbor_without_sig r)) 2 = Some (ByteString (ar_agent_id r))"
  "int_map_get (wire (to_cbor_without_sig r)) 3 = Some (ByteString (ar_public_key r))"
  "int_map_get (wire (to_cbor_without_sig r)) 4 = Some (Array (map wire (map CapabilityDescriptor_to_cbor (ar_capabilities r))))"
  "int_map_get (wire (to_cbor_without_sig r)) 5 = Some (Array (map TextString (ar_endpoints r)))"
  "int_map_get (wire (to_cbor_without_sig r)) 6 = Some (Unsigned (ar_created_at r))"
  "int_map_get (wire (to_cbor_without_sig r)) 7 = Some (Unsigned (ar_expires_at r))"
  "int_map_get (wire (to_cbor_without_sig r)) 9 = Some (Unsigned (ar_key_algorithm r))"
  "int_map_get (wire (to_cbor_without_sig r)) 10 = Some (Unsigned (ar_record_version r))"
  "int_map_get (wire (to_cbor_without_sig r)) 11 =
     (if ar_extensions r = [] then None else Some (StrMap (by_key (map (\<lambda>(k, v). (k, wire v)) (ar_extensions r)))))"
  unfolding to_cbor_without_sig_def int_map_get_wire [OF unsigned_distinct] by (simp_all add: extensions_wire comp_def)

lemma signed_part_inj:
  assumes "wire (to_cbor_without_sig r) = wire (to_cbor_without_sig s)"
  shows "signed_part r = signed_part s"
proof -
  have eq: "int_map_get (wire (to_cbor_without_sig r)) k = int_map_get (wire (to_cbor_without_sig s)) k" for k
    using assms by simp
  have "map wire (map CapabilityDescriptor_to_cbor (ar_capabilities r)) = map wire (map CapabilityDescriptor_to_cbor (ar_capabilities s))"
    using eq [of 4] by (simp add: unsigned_fields)
  then have "map capability_norm (ar_capabilities r) = map capability_norm (ar_capabilities s)"
    using capability_from_wire by (rule array_wire_inj)
  moreover have "map TextString (ar_endpoints r) = map TextString (ar_endpoints s)"
    using eq [of 5] by (simp add: unsigned_fields)
  then have "ar_endpoints r = ar_endpoints s" by (rule map_injective) (simp add: inj_on_def)
  moreover have "by_key (map (\<lambda>(k, v). (k, wire v)) (ar_extensions r)) = by_key (map (\<lambda>(k, v). (k, wire v)) (ar_extensions s))"
    using eq [of 11] by (simp add: unsigned_fields split: if_splits)
  moreover have "ar_record_type r = ar_record_type s" using eq [of 1] by (simp add: unsigned_fields)
  moreover have "ar_agent_id r = ar_agent_id s" using eq [of 2] by (simp add: unsigned_fields)
  moreover have "ar_public_key r = ar_public_key s" using eq [of 3] by (simp add: unsigned_fields)
  moreover have "ar_created_at r = ar_created_at s" using eq [of 6] by (simp add: unsigned_fields)
  moreover have "ar_expires_at r = ar_expires_at s" using eq [of 7] by (simp add: unsigned_fields)
  moreover have "ar_key_algorithm r = ar_key_algorithm s" using eq [of 9] by (simp add: unsigned_fields)
  moreover have "ar_record_version r = ar_record_version s" using eq [of 10] by (simp add: unsigned_fields)
  ultimately show ?thesis by (simp add: signed_part_def record_norm_def)
qed

lemma record_signed_verifies:
  assumes "keypair_ok cr kp" and "ar_public_key r = kp_public_key kp" and "ar_agent_id r = sha256 cr (kp_public_key kp)"
    and "ar_record_type r = RECORD_TYPE_V1" and "ar_key_algorithm r = KEY_ALG_ML_DSA_65" and "now < ar_expires_at r"
  shows "\<exists>sig. AgentRecord_sign cr (kp_secret_key kp) rnd r = Some (r\<lparr>ar_signature := sig\<rparr>) \<and>
    AgentRecord_verify cr now (r\<lparr>ar_signature := sig\<rparr>) = Some (Inr ())"
proof -
  have "to_cbor_without_sig (r\<lparr>ar_signature := sig\<rparr>) = to_cbor_without_sig r" for sig
    by (simp add: to_cbor_without_sig_def)
  then show ?thesis
    using assms
    by (intro exI [of _ "fips_sign cr (kp_secret_key kp) (RECORD_DOMAIN_SEPARATOR @ cbor_bytes (to_cbor_without_sig r)) rnd"])
      (simp add: AgentRecord_sign_def record_sig_input_eq MlDsa65_sign_def record_verify_Inr MlDsa65_verify_def keypair_ok_def)
qed

text \<open>
  C30. An honest record is accepted by its receivers: signing a representable record of an agent (\<open>record_ok\<close>), of the record
  type of version 1, with the algorithm ML-DSA-65, the agent's key and the hash of that key as its id, with its own key succeeds, and whoever receives the encoded record,
  with anything after it in the buffer, decodes it to \<open>record_norm\<close> of the record and verifies it at any time before it expires, over bytes encoded from the
  decoded record. \<open>record_norm\<close> changes the order only, of metadata, of extensions and of the maps inside extension values, except that an
  empty string map inside an extension value becomes an empty integer map, since both have the same encoding.
\<close>

theorem record_published:
  assumes "keypair_ok cr kp" and "record_ok r" and "ar_public_key r = kp_public_key kp"
    and "ar_agent_id r = sha256 cr (kp_public_key kp)"
    and "ar_record_type r = RECORD_TYPE_V1" and "ar_key_algorithm r = KEY_ALG_ML_DSA_65" and "now < ar_expires_at r"
  shows "\<exists>r' bs. AgentRecord_sign cr (kp_secret_key kp) rnd r = Some r' \<and> encode (AgentRecord_to_cbor r') = Inr bs \<and>
    (\<forall>rest. fits (bs @ rest) \<longrightarrow>
       (\<exists>val. decode (bs @ rest) = Inr (val, length bs) \<and> AgentRecord_from_cbor val = Inr (record_norm r') \<and>
          AgentRecord_verify cr now (record_norm r') = Some (Inr ())))"
proof -
  obtain sig where s: "AgentRecord_sign cr (kp_secret_key kp) rnd r = Some (r\<lparr>ar_signature := sig\<rparr>)"
    "AgentRecord_verify cr now (r\<lparr>ar_signature := sig\<rparr>) = Some (Inr ())"
    using record_signed_verifies [OF assms(1,3-7)] by blast
  have "record_ok (r\<lparr>ar_signature := sig\<rparr>)" using assms(2) by (simp add: record_ok_def)
  with s show ?thesis
    using record_transferred [of "r\<lparr>ar_signature := sig\<rparr>" _ _ cr now]
    by (intro exI [of _ "r\<lparr>ar_signature := sig\<rparr>"]) (simp add: encode_eq)
qed

text \<open>
  C31. A record that verifies is that of its agent: its id is the hash of its key, its type and
  algorithm are those of version 1, it has not expired, and its signature verifies with that key over
  bytes that determine every other field; a record with any difference in a field, other than
  those that \<open>record_norm\<close> removes (the order of entries, and empty string maps in extension values), has different signed bytes.
\<close>

theorem record_verify_binds:
  assumes "AgentRecord_verify cr now r = Some (Inr ())" and "record_ok r" and "record_sig_input r = Some bs" and "fits bs"
  shows "ar_agent_id r = sha256 cr (ar_public_key r) \<and> ar_record_type r = RECORD_TYPE_V1 \<and>
    ar_key_algorithm r = KEY_ALG_ML_DSA_65 \<and> now < ar_expires_at r \<and>
    MlDsa65_verify cr (ar_public_key r) bs (ar_signature r) \<and>
    (\<forall>s. record_ok s \<and> record_sig_input s = Some bs \<longrightarrow> signed_part s = signed_part r)"
proof -
  have bs: "bs = RECORD_DOMAIN_SEPARATOR @ cbor_bytes (to_cbor_without_sig r)"
    using assms(3) by (simp add: record_sig_input_eq)
  have "signed_part s = signed_part r" if "record_ok s" "record_sig_input s = Some bs" for s
  proof (rule signed_part_inj, rule wire_inj)
    show "cbor_bytes (to_cbor_without_sig s) = cbor_bytes (to_cbor_without_sig r)"
      using that(2) bs by (simp add: record_sig_input_eq)
    then show "fits (cbor_bytes (to_cbor_without_sig s))" using assms(4) bs by simp
  qed (use that assms(2) in \<open>simp_all add: unsigned_wire_ok\<close>)
  then show ?thesis using assms(1) bs unfolding record_verify_Inr by blast
qed

text \<open>Example: a record of the agent with the example key.\<close>

definition example_record :: AgentRecord where
  "example_record = (AgentRecord_new example_crypto (replicate 1952 1)
     [with_metadata (str ''max'') (MInt (- 5)) (with_metadata (str ''lang'') (MText (str ''en'')) (CapabilityDescriptor_new (str ''chat''))),
      CapabilityDescriptor_new (str ''sum'')]
     [str ''quic://host''] 1000 2000 KEY_ALG_ML_DSA_65)\<lparr>ar_extensions := [(str ''x'', StrMap [])]\<rparr>"

lemma example_record_ok: "record_ok example_record"
proof -
  have "utf8_valid (str ''chat'')" "utf8_valid (str ''sum'')" "utf8_valid (str ''max'')" "utf8_valid (str ''lang'')"
    "utf8_valid (str ''en'')" "utf8_valid (str ''quic://host'')" "utf8_valid (str ''x'')" "utf8_valid RECORD_TYPE_V1"
    "str ''lang'' \<noteq> str ''max''" by code_simp+
  then show ?thesis
    by (simp add: record_ok_def example_record_def AgentRecord_new_def capability_ok_def CapabilityDescriptor_new_def
        with_metadata_def AgentId_from_public_key_def example_crypto_def)
qed

definition example_record_keys :: AgentKeypair where
  "example_record_keys = \<lparr>kp_public_key = replicate 1952 1, kp_secret_key = replicate 4032 1\<rparr>"

lemma example_record_keys_ok: "keypair_ok example_crypto example_record_keys"
  by (simp add: keypair_ok_def example_crypto_def example_record_keys_def)

lemma example_record_fields:
  "ar_public_key example_record = kp_public_key example_record_keys"
  "ar_agent_id example_record = sha256 example_crypto (kp_public_key example_record_keys)"
  "ar_record_type example_record = RECORD_TYPE_V1" "ar_key_algorithm example_record = KEY_ALG_ML_DSA_65"
  "ar_expires_at example_record = 2000"
  by (simp_all add: example_record_def AgentRecord_new_def example_record_keys_def AgentId_from_public_key_def)

theorem record_published_witness:
  "\<exists>r' bs val. AgentRecord_sign example_crypto (kp_secret_key example_record_keys) [] example_record = Some r' \<and>
     encode (AgentRecord_to_cbor r') = Inr bs \<and> decode bs = Inr (val, length bs) \<and>
     AgentRecord_from_cbor val = Inr (record_norm r') \<and> AgentRecord_verify example_crypto 1500 (record_norm r') = Some (Inr ())"
proof -
  obtain r' bs where r: "AgentRecord_sign example_crypto (kp_secret_key example_record_keys) [] example_record = Some r'"
    "encode (AgentRecord_to_cbor r') = Inr bs"
    "\<forall>rest. fits (bs @ rest) \<longrightarrow> (\<exists>val. decode (bs @ rest) = Inr (val, length bs) \<and>
       AgentRecord_from_cbor val = Inr (record_norm r') \<and> AgentRecord_verify example_crypto 1500 (record_norm r') = Some (Inr ()))"
    using record_published [of example_crypto example_record_keys example_record 1500 "[]"]
    by (auto simp: example_record_keys_ok example_record_ok example_record_fields)
  obtain sig where sig: "r' = example_record\<lparr>ar_signature := sig\<rparr>" "length sig = 3309"
    using r(1) by (auto simp: AgentRecord_sign_def record_sig_input_eq MlDsa65_sign_def example_crypto_def split: if_splits)
  have "fits (cbor_bytes (AgentRecord_to_cbor r') @ [])"
    by (rule fits_small) (simp add: sig AgentRecord_to_cbor_def example_record_def AgentRecord_new_def int_map_def str_map_def
        CapabilityDescriptor_to_cbor_def CapabilityDescriptor_new_def with_metadata_def RECORD_TYPE_V1_def str_def
        AgentId_from_public_key_def example_crypto_def)
  then have "fits bs" using r(2) by (simp add: encode_eq)
  then show ?thesis using r by (metis append_Nil2)
qed

theorem record_verify_binds_witness:
  "\<exists>r bs. AgentRecord_verify example_crypto 1500 r = Some (Inr ()) \<and> record_sig_input r = Some bs \<and>
     MlDsa65_verify example_crypto (ar_public_key r) bs (ar_signature r) \<and> ar_agent_id r = sha256 example_crypto (ar_public_key r)"
proof -
  obtain sig where v: "AgentRecord_verify example_crypto 1500 (example_record\<lparr>ar_signature := sig\<rparr>) = Some (Inr ())"
    using record_signed_verifies [OF example_record_keys_ok example_record_fields(1-4), of 1500] example_record_fields(5) by auto
  let ?r = "example_record\<lparr>ar_signature := sig\<rparr>"
  have ok: "record_ok ?r" using example_record_ok by (simp add: record_ok_def)
  have "fits (RECORD_DOMAIN_SEPARATOR @ cbor_bytes (to_cbor_without_sig ?r))"
    using cbor_bytes_length(1) [of "to_cbor_without_sig ?r"]
    by (simp add: to_cbor_without_sig_def example_record_def AgentRecord_new_def int_map_def str_map_def
        CapabilityDescriptor_to_cbor_def CapabilityDescriptor_new_def with_metadata_def RECORD_TYPE_V1_def
        RECORD_DOMAIN_SEPARATOR_def str_def AgentId_from_public_key_def example_crypto_def)
  from record_verify_binds [OF v ok record_sig_input_eq this] v show ?thesis using record_sig_input_eq by blast
qed

section \<open>Fingerprints\<close>

text \<open>The reference: the bits of the data, most significant first, in groups of five, padded with zeros.\<close>

definition low_bits :: "nat \<Rightarrow> 'a :: len word \<Rightarrow> bool list" where
  "low_bits n w = rev (map (bit w) [0..<n])"

definition bits_value :: "bool list \<Rightarrow> nat" where
  "bits_value bs = foldl (\<lambda>n b. 2 * n + of_bool b) 0 bs"

definition data_bits :: "bytes \<Rightarrow> bool list" where
  "data_bits data = concat (map (low_bits 8) data)"

fun base32_groups :: "bool list \<Rightarrow> ustring" where
  "base32_groups bs =
     (if bs = [] then []
      else base32_alphabet ! bits_value (take 5 (bs @ replicate 4 False)) # base32_groups (drop 5 bs))"

declare base32_groups.simps [simp del] base32_drain.simps [simp del]

lemma low_bits_simps [simp]: "low_bits 0 w = []" "low_bits (Suc n) w = bit w n # low_bits n w" "length (low_bits n w) = n"
  by (simp_all add: low_bits_def)

lemma bits_value_acc: "foldl (\<lambda>n b. 2 * n + of_bool b) k bs = k * 2 ^ length bs + bits_value bs"
proof (induction bs arbitrary: k)
  case (Cons b bs)
  show ?case using Cons [of "2 * k + of_bool b"] Cons [of "of_bool b"]
    by (simp add: bits_value_def algebra_simps)
qed (simp add: bits_value_def)

lemma bits_value_simps [simp]:
  "bits_value [] = 0" "bits_value (b # bs) = of_bool b * 2 ^ length bs + bits_value bs"
  using bits_value_acc [of "of_bool b" bs] by (simp_all add: bits_value_def)

lemma bits_value_low_bits: "bits_value (low_bits n w) = unat (take_bit n w)"
proof (induction n)
  case (Suc n)
  have "take_bit (Suc n) (unat w) = 2 ^ n * of_bool (bit (unat w) n) + take_bit n (unat w)"
    by (rule take_bit_Suc_from_most)
  with Suc show ?case by (simp add: unsigned_take_bit_eq bit_unsigned_iff)
qed simp

lemma low_bits_cong: "(\<And>i. i < n \<Longrightarrow> bit v i = bit w i) \<Longrightarrow> low_bits n v = low_bits n w"
  by (simp add: low_bits_def)

lemma low_bits_split: "low_bits (k + n) w = low_bits k (drop_bit n w) @ low_bits n w"
  by (induction k) (simp_all add: bit_simps add.commute)

lemma base32_groups_five: "length g = 5 \<Longrightarrow> base32_groups (g @ bs) = base32_alphabet ! bits_value g # base32_groups bs"
  by (subst base32_groups.simps) auto

lemma five_bits: "unat (w AND 0x1F) = bits_value (low_bits 5 (w :: u32))"
proof -
  have "(0x1F :: u32) = mask 5" by (simp add: mask_eq_exp_minus_1)
  then show ?thesis by (simp add: bits_value_low_bits take_bit_eq_mask)
qed

lemma base32_drain_groups:
  "base32_drain buffer n result = (m, result') \<Longrightarrow>
     m < 5 \<and> result' @ base32_groups (low_bits m buffer @ bs) = result @ base32_groups (low_bits n buffer @ bs)"
proof (induction buffer n result arbitrary: m result' rule: base32_drain.induct)
  case (1 buffer n result)
  show ?case
  proof (cases "n \<ge> 5")
    case True
    let ?c = "base32_alphabet ! unat (drop_bit (n - 5) buffer AND 0x1F)"
    have "base32_drain buffer (n - 5) (result @ [?c]) = (m, result')"
      using 1(2) True by (simp add: base32_drain.simps [of buffer n] Let_def)
    then have "m < 5 \<and> result' @ base32_groups (low_bits m buffer @ bs) =
        (result @ [?c]) @ base32_groups (low_bits (n - 5) buffer @ bs)"
      using 1(1) [OF True refl refl] by simp
    moreover have "base32_groups (low_bits n buffer @ bs) = ?c # base32_groups (low_bits (n - 5) buffer @ bs)"
      using low_bits_split [of 5 "n - 5" buffer] True by (simp add: base32_groups_five five_bits del: low_bits_simps(2))
    ultimately show ?thesis by simp
  next
    case False
    then show ?thesis using 1(2) by (simp add: base32_drain.simps [of buffer n])
  qed
qed

lemma shift_in_byte:
  assumes "n < 5"
  shows "low_bits (n + 8) (push_bit 8 buffer OR ucast byte :: u32) = low_bits n (buffer :: u32) @ low_bits 8 (byte :: byte)"
proof -
  let ?b = "push_bit 8 buffer OR ucast byte :: u32"
  have "low_bits n (drop_bit 8 ?b) = low_bits n buffer" "low_bits 8 ?b = low_bits 8 byte"
    by (rule low_bits_cong, use assms in \<open>auto simp: bit_simps dest: bit_imp_le_length\<close>)+
  then show ?thesis by (simp add: low_bits_split [of n 8])
qed

lemma base32_loop_groups:
  "base32_loop data buffer n result = (buffer', m, result') \<Longrightarrow> n < 5 \<Longrightarrow>
     m < 5 \<and> result' @ base32_groups (low_bits m buffer') = result @ base32_groups (low_bits n buffer @ data_bits data)"
proof (induction data buffer n result rule: base32_loop.induct)
  case (2 byte data buffer n result)
  let ?b = "push_bit 8 buffer OR ucast byte"
  obtain k res where d: "base32_drain ?b (n + 8) result = (k, res)" by (cases "base32_drain ?b (n + 8) result")
  have k: "k < 5" "res @ base32_groups (low_bits k ?b @ data_bits data) = result @ base32_groups (low_bits (n + 8) ?b @ data_bits data)"
    using base32_drain_groups [OF d] by auto
  have "base32_loop data ?b k res = (buffer', m, result')" using "2.prems"(1) d by (simp add: Let_def)
  from "2.IH" [OF refl d [symmetric] refl this k(1)] show ?case
    using k(2) shift_in_byte [OF "2.prems"(2), of buffer byte] by (simp add: data_bits_def)
qed (auto simp: data_bits_def)

lemma last_group:
  assumes "0 < m" and "m < 5"
  shows "base32_groups (low_bits m buffer) = [base32_alphabet ! unat (push_bit (5 - m) buffer AND 0x1F :: u32)]"
proof -
  have "low_bits m (drop_bit (5 - m) (push_bit (5 - m) buffer)) = low_bits m buffer"
    by (rule low_bits_cong) (use assms in \<open>auto simp: bit_simps\<close>)
  moreover have "low_bits (5 - m) (push_bit (5 - m) buffer) = replicate (5 - m) False"
    by (rule nth_equalityI) (auto simp: low_bits_def rev_nth bit_simps simp del: low_bits_simps)
  ultimately have "low_bits 5 (push_bit (5 - m) buffer) = low_bits m buffer @ replicate (5 - m) False"
    using low_bits_split [of m "5 - m" "push_bit (5 - m) buffer"] assms by simp
  moreover have "take 5 (low_bits m buffer @ replicate 4 False) = low_bits m buffer @ replicate (5 - m) False"
    using assms by (simp add: min_def)
  moreover have "low_bits m buffer \<noteq> []" using assms by (metis length_0_conv less_numeral_extra(3) low_bits_simps(3))
  ultimately show ?thesis
    using assms by (simp add: base32_groups.simps [of "low_bits m buffer"] base32_groups.simps [of "[]"] five_bits del: low_bits_simps(2))
qed

text \<open>
  The base32 routine, which shifts the bytes through a 32-bit buffer and discards what runs over,
  computes base32: the bits of the data in groups of five, the last one padded with zeros.
\<close>

lemma base32_encode_groups: "base32_encode data = base32_groups (data_bits data)"
proof -
  obtain buffer m result where l: "base32_loop data 0 0 [] = (buffer, m, result)"
    by (cases "base32_loop data 0 0 []") auto
  have "m < 5" "result @ base32_groups (low_bits m buffer) = base32_groups (data_bits data)"
    using base32_loop_groups [OF l] by simp_all
  then show ?thesis
    using l last_group [of m buffer] by (cases "m = 0") (simp_all add: base32_encode_def base32_groups.simps [of "[]"] Let_def)
qed

section \<open>The checksum\<close>

lemma xor_cancel [simp]:
  fixes x y a :: "'a :: len word"
  shows "x XOR a = y XOR a \<longleftrightarrow> x = y" and "a XOR x = a XOR y \<longleftrightarrow> x = y"
proof -
  have c: "(z XOR a) XOR a = z" for z by (simp add: xor.assoc)
  show "x XOR a = y XOR a \<longleftrightarrow> x = y" using c by metis
  then show "a XOR x = a XOR y \<longleftrightarrow> x = y" by (simp add: xor.commute)
qed

lemma crc32_bit_inj: "crc32_bit x = crc32_bit y \<longleftrightarrow> x = y"
proof
  assume eq: "crc32_bit x = crc32_bit y"
  have top: "bit (crc32_bit z) 31 = bit z 0" for z
    by (auto simp: crc32_bit_def bit_simps and_one_eq odd_iff_mod_2_eq_one bit_0 dest: bit_imp_le_length)
  have low: "bit x 0 = bit y 0" using eq top by metis
  then have "drop_bit 1 x = drop_bit 1 y"
    using eq by (auto simp: crc32_bit_def and_one_eq bit_0 odd_iff_mod_2_eq_one split: if_splits)
  then have "bit x (Suc n) = bit y (Suc n)" for n by (metis One_nat_def bit_drop_bit_eq comp_apply plus_1_eq_Suc)
  then show "x = y" using low by (intro bit_word_eqI) (metis not0_implies_Suc)
qed simp

lemma crc32_byte_inj: "crc32_byte b x = crc32_byte c y \<longleftrightarrow> x XOR ucast b = y XOR ucast c"
proof -
  have "(crc32_bit ^^ n) x = (crc32_bit ^^ n) y \<longleftrightarrow> x = y" for n x y
    by (induction n) (simp_all add: crc32_bit_inj)
  then show ?thesis by (simp add: crc32_byte_def)
qed

lemma crc32_fold_inj: "fold crc32_byte data x = fold crc32_byte data y \<longleftrightarrow> x = y"
  by (induction data arbitrary: x y) (simp_all add: crc32_byte_inj)

text \<open>The checksum of the fingerprint detects every change within one byte.\<close>

lemma crc32_detects_byte: "crc32 (pre @ b # post) = crc32 (pre @ c # post) \<longleftrightarrow> b = c"
proof -
  have "(ucast b :: u32) = ucast c \<longleftrightarrow> b = c"
    by (auto intro!: word_unat_eq_iff [THEN iffD2] simp: word_unat_eq_iff unat_ucast_small unat_less [THEN order_less_le_trans])
  then show ?thesis by (simp add: crc32_def crc32_fold_inj crc32_byte_inj)
qed

end
