(* ===== verification/Signed_Statement.thy ===== *)
theory Signed_Statement
  imports Identity_V1
begin

text \<open>
  Signed statements. Records, revocations, rotations, certificates and trust signatures are all signed
  the same way: a domain separator followed by the CBOR encoding of the fields other
  than the signatures. The interface \<open>signed_statement\<close> states what the encoding must satisfy and proves once
  that the signed bytes determine those fields and that a signature made by the owner of a key pair
  verifies.
\<close>

section \<open>The signed bytes\<close>

text \<open>An encoding that fails is replaced by the empty sequence.\<close>

definition statement_input :: "bytes \<Rightarrow> Value \<Rightarrow> bytes" where
  "statement_input domain val = domain @ (case encode val of Inr bs \<Rightarrow> bs | Inl _ \<Rightarrow> [])"

lemma statement_input_eq: "statement_input domain val = domain @ cbor_bytes val"
  by (simp add: statement_input_def encode_eq)

locale signed_statement =
  fixes domain :: bytes
    and body :: "'m \<Rightarrow> Value"
    and wf :: "'m \<Rightarrow> bool"
    and content :: "'m \<Rightarrow> 'c"
  assumes body_ok: "wf m \<Longrightarrow> wire_ok 0 (body m)"
    and body_content: "wire (body m) = wire (body n) \<Longrightarrow> content m = content n"
begin

lemma input_determines:
  assumes "wf m" and "wf n" and "statement_input domain (body m) = statement_input domain (body n)"
    and "fits (statement_input domain (body m))"
  shows "content m = content n"
proof (rule body_content, rule wire_inj)
  show "cbor_bytes (body m) = cbor_bytes (body n)" using assms(3) by (simp add: statement_input_eq)
  show "fits (cbor_bytes (body m))" using assms(4) by (simp add: statement_input_eq)
qed (use assms(1,2) in \<open>simp_all add: body_ok\<close>)

end

text \<open>Signing with the secret key of a pair gives a signature that its public key verifies.\<close>

lemma sign_verifies:
  assumes "keypair_ok cr kp"
  obtains sig where "MlDsa65_sign cr (kp_secret_key kp) msg rnd = Some sig" "MlDsa65_verify cr (kp_public_key kp) msg sig"
    "length sig = ML_DSA_65_SIGNATURE_LEN"
  using assms by (simp add: keypair_ok_def MlDsa65_sign_def MlDsa65_verify_def)

interpretation record_statement: signed_statement RECORD_DOMAIN_SEPARATOR to_cbor_without_sig record_ok signed_part
  by unfold_locales (rule unsigned_wire_ok, assumption, rule signed_part_inj)

end
