(* ===== verification/Revocation.thy ===== *)
theory Revocation
  imports Signed_Statement
begin

text \<open>
  Revocation lists and key rotation, \<open>crates/aafp-identity/src/revocation.rs\<close> and \<open>key_rotation.rs\<close>: signed
  entries, lists with a lifetime, the store that merges them, and the records by which an old key
  hands over to a new one. The randomness of signatures and the clock are arguments; signing with a malformed
  secret key panics, the value \<open>None\<close>. The order of a hash set is not observed here and the set of
  revoked ids is a set.
\<close>

section \<open>Revocation entries\<close>

definition REVOCATION_DOMAIN_SEPARATOR :: bytes where
  "REVOCATION_DOMAIN_SEPARATOR = str ''AAFP-REVOCATION-V1''"

definition DEFAULT_CRL_TTL_SECS :: u64 where
  "DEFAULT_CRL_TTL_SECS = 3600"

datatype RevocationError = RvCbor CborError | RvSignature | RvExpired | RvMissing string | RvInvalid string

record RevocationEntry =
  re_agent_id :: bytes
  re_revoked_at :: u64
  re_reason :: "ustring option"
  re_revoking_key_id :: bytes
  re_signature :: bytes

definition reason_value :: "ustring option \<Rightarrow> Value" where
  "reason_value r = (case r of Some t \<Rightarrow> TextString t | None \<Rightarrow> Null)"

definition RevocationEntry_to_cbor_without_sig :: "RevocationEntry \<Rightarrow> Value" where
  "RevocationEntry_to_cbor_without_sig e = int_map
     [(1, ByteString (re_agent_id e)), (2, Unsigned (re_revoked_at e)), (3, reason_value (re_reason e)),
      (4, ByteString (re_revoking_key_id e))]"

definition RevocationEntry_signature_input :: "RevocationEntry \<Rightarrow> bytes" where
  "RevocationEntry_signature_input e = statement_input REVOCATION_DOMAIN_SEPARATOR (RevocationEntry_to_cbor_without_sig e)"

definition RevocationEntry_new ::
  "crypto \<Rightarrow> bytes \<Rightarrow> bytes \<Rightarrow> u64 \<Rightarrow> ustring option \<Rightarrow> bytes \<Rightarrow> bytes \<Rightarrow> RevocationEntry option" where
  "RevocationEntry_new cr rnd agent_id revoked_at reason revoking_key_id secret_key =
     (let entry = \<lparr>re_agent_id = agent_id, re_revoked_at = revoked_at, re_reason = reason,
            re_revoking_key_id = revoking_key_id, re_signature = []\<rparr>
      in map_option (\<lambda>sig. entry\<lparr>re_signature := sig\<rparr>) (MlDsa65_sign cr secret_key (RevocationEntry_signature_input entry) rnd))"

definition RevocationEntry_to_cbor :: "RevocationEntry \<Rightarrow> Value" where
  "RevocationEntry_to_cbor e = int_map
     [(1, ByteString (re_agent_id e)), (2, Unsigned (re_revoked_at e)), (3, reason_value (re_reason e)),
      (4, ByteString (re_revoking_key_id e)), (5, ByteString (re_signature e))]"

definition read_id :: "Value option \<Rightarrow> string \<Rightarrow> RevocationError + bytes" where
  "read_id v field =
     (case v of
        Some (ByteString b) \<Rightarrow> if length b = 32 then Inr b else Inl (RvInvalid field)
      | _ \<Rightarrow> Inl (RvMissing field))"

definition RevocationEntry_from_cbor :: "Value \<Rightarrow> RevocationError + RevocationEntry" where
  "RevocationEntry_from_cbor val =
     bind_result (read_id (int_map_get val 1) ''agent_id'') (\<lambda>agent_id.
     bind_result (case int_map_get val 2 of Some (Unsigned n) \<Rightarrow> Inr n | _ \<Rightarrow> Inl (RvMissing ''revoked_at'')) (\<lambda>revoked_at.
     let reason = (case int_map_get val 3 of Some (TextString s) \<Rightarrow> Some s | _ \<Rightarrow> None) in
     bind_result (read_id (int_map_get val 4) ''revoking_key_id'') (\<lambda>revoking_key_id.
     bind_result (case int_map_get val 5 of Some (ByteString b) \<Rightarrow> Inr b | _ \<Rightarrow> Inl (RvMissing ''signature'')) (\<lambda>signature.
     Inr \<lparr>re_agent_id = agent_id, re_revoked_at = revoked_at, re_reason = reason,
       re_revoking_key_id = revoking_key_id, re_signature = signature\<rparr>))))"

definition RevocationEntry_verify :: "crypto \<Rightarrow> bytes \<Rightarrow> RevocationEntry \<Rightarrow> bool" where
  "RevocationEntry_verify cr public_key e = MlDsa65_verify cr public_key (RevocationEntry_signature_input e) (re_signature e)"

section \<open>Revocation lists\<close>

record RevocationList =
  rl_entries :: "RevocationEntry list"
  rl_generated_at :: u64
  rl_expires_at :: u64

text \<open>The expiry is computed with a checked addition; an overflow is a panic.\<close>

definition RevocationList_new :: "u64 \<Rightarrow> u64 \<Rightarrow> RevocationList option" where
  "RevocationList_new now ttl_seconds =
     (if unat now + unat ttl_seconds > USIZE_MAX then None
      else Some \<lparr>rl_entries = [], rl_generated_at = now, rl_expires_at = now + ttl_seconds\<rparr>)"

definition RevocationList_revoke ::
  "crypto \<Rightarrow> bytes \<Rightarrow> bytes \<Rightarrow> u64 \<Rightarrow> ustring option \<Rightarrow> bytes \<Rightarrow> bytes \<Rightarrow> RevocationList \<Rightarrow> RevocationList option" where
  "RevocationList_revoke cr rnd agent_id revoked_at reason revoking_key_id secret_key l =
     map_option (\<lambda>entry. l\<lparr>rl_entries := rl_entries l @ [entry]\<rparr>)
       (RevocationEntry_new cr rnd agent_id revoked_at reason revoking_key_id secret_key)"

definition RevocationList_is_revoked :: "RevocationList \<Rightarrow> bytes \<Rightarrow> bool" where
  "RevocationList_is_revoked l agent_id = list_ex (\<lambda>e. re_agent_id e = agent_id) (rl_entries l)"

definition RevocationList_is_expired :: "RevocationList \<Rightarrow> u64 \<Rightarrow> bool" where
  "RevocationList_is_expired l now \<longleftrightarrow> now \<ge> rl_expires_at l"

definition RevocationList_revoked_ids :: "RevocationList \<Rightarrow> bytes list" where
  "RevocationList_revoked_ids l = map re_agent_id (rl_entries l)"

definition RevocationList_to_cbor :: "RevocationList \<Rightarrow> Value" where
  "RevocationList_to_cbor l = int_map
     [(1, Array (map RevocationEntry_to_cbor (rl_entries l))), (2, Unsigned (rl_generated_at l)), (3, Unsigned (rl_expires_at l))]"

definition RevocationList_encode :: "RevocationList \<Rightarrow> RevocationError + bytes" where
  "RevocationList_encode l = map_err RvCbor (encode (RevocationList_to_cbor l))"

definition RevocationList_from_cbor :: "Value \<Rightarrow> RevocationError + RevocationList" where
  "RevocationList_from_cbor val =
     bind_result (case int_map_get val 1 of Some (Array arr) \<Rightarrow> decode_all RevocationEntry_from_cbor arr | _ \<Rightarrow> Inl (RvMissing ''entries'')) (\<lambda>entries.
     bind_result (case int_map_get val 2 of Some (Unsigned n) \<Rightarrow> Inr n | _ \<Rightarrow> Inl (RvMissing ''generated_at'')) (\<lambda>generated_at.
     bind_result (case int_map_get val 3 of Some (Unsigned n) \<Rightarrow> Inr n | _ \<Rightarrow> Inl (RvMissing ''expires_at'')) (\<lambda>expires_at.
     Inr \<lparr>rl_entries = entries, rl_generated_at = generated_at, rl_expires_at = expires_at\<rparr>)))"

definition RevocationList_decode :: "bytes \<Rightarrow> RevocationError + RevocationList" where
  "RevocationList_decode data = bind_result (map_err RvCbor (decode data)) (\<lambda>(val, _). RevocationList_from_cbor val)"

section \<open>The store\<close>

record RevocationStore =
  rs_revoked :: "bytes set"
  rs_crls :: "RevocationList list"

definition RevocationStore_new :: RevocationStore where
  "RevocationStore_new = \<lparr>rs_revoked = {}, rs_crls = []\<rparr>"

definition add_crl :: "RevocationList \<Rightarrow> RevocationStore \<Rightarrow> RevocationStore" where
  "add_crl crl s = s\<lparr>rs_revoked := fold (\<lambda>entry. insert (re_agent_id entry)) (rl_entries crl) (rs_revoked s),
     rs_crls := rs_crls s @ [crl]\<rparr>"

definition RevocationStore_is_revoked :: "RevocationStore \<Rightarrow> bytes \<Rightarrow> bool" where
  "RevocationStore_is_revoked s agent_id \<longleftrightarrow> agent_id \<in> rs_revoked s"

definition RevocationStore_evict_expired :: "u64 \<Rightarrow> RevocationStore \<Rightarrow> RevocationStore" where
  "RevocationStore_evict_expired now s =
     (let crls = filter (\<lambda>crl. \<not> RevocationList_is_expired crl now) (rs_crls s)
      in s\<lparr>rs_crls := crls, rs_revoked := set (concat (map (\<lambda>crl. map re_agent_id (rl_entries crl)) crls))\<rparr>)"

definition revoked_count :: "RevocationStore \<Rightarrow> nat" where
  "revoked_count s = card (rs_revoked s)"

section \<open>Key rotation\<close>

definition ROTATION_DOMAIN_SEPARATOR :: bytes where
  "ROTATION_DOMAIN_SEPARATOR = str ''aafp-v1-rotation''"

definition ROTATION_TYPE_V1 :: ustring where
  "ROTATION_TYPE_V1 = str ''aafp-rotation-v1''"

datatype RotationError =
    RtCbor CborError
  | RtOldSignature
  | RtNewSignature
  | RtMissing string
  | RtInvalidType ustring
  | RtOldAgentId
  | RtNewAgentId
  | RtPublicKey
  | RtSignatureLength
  | RtMissingSignature
  | RtIdentity IdentityErrorV1

record KeyRotationRecord =
  kr_record_type :: ustring
  kr_old_agent_id :: bytes
  kr_new_agent_id :: bytes
  kr_new_public_key :: bytes
  kr_timestamp :: u64
  kr_old_signature :: bytes
  kr_new_signature :: bytes

definition KeyRotationRecord_to_cbor_without_sig :: "KeyRotationRecord \<Rightarrow> Value" where
  "KeyRotationRecord_to_cbor_without_sig r = int_map
     [(1, TextString (kr_record_type r)), (2, ByteString (kr_old_agent_id r)), (3, ByteString (kr_new_agent_id r)),
      (4, ByteString (kr_new_public_key r)), (5, Unsigned (kr_timestamp r))]"

definition KeyRotationRecord_signature_input :: "KeyRotationRecord \<Rightarrow> bytes" where
  "KeyRotationRecord_signature_input r = statement_input ROTATION_DOMAIN_SEPARATOR (KeyRotationRecord_to_cbor_without_sig r)"

definition KeyRotationRecord_new ::
  "crypto \<Rightarrow> bytes \<Rightarrow> bytes \<Rightarrow> bytes \<Rightarrow> bytes \<Rightarrow> bytes \<Rightarrow> u64 \<Rightarrow> bytes \<Rightarrow> bytes \<Rightarrow> KeyRotationRecord option" where
  "KeyRotationRecord_new cr rnd rnd' old_agent_id new_agent_id new_public_key timestamp old_secret_key new_secret_key =
     (let r = \<lparr>kr_record_type = ROTATION_TYPE_V1, kr_old_agent_id = old_agent_id, kr_new_agent_id = new_agent_id,
            kr_new_public_key = new_public_key, kr_timestamp = timestamp, kr_old_signature = [], kr_new_signature = []\<rparr>;
          sig_input = KeyRotationRecord_signature_input r
      in case MlDsa65_sign cr old_secret_key sig_input rnd of
           None \<Rightarrow> None
         | Some old_sig \<Rightarrow>
             (case MlDsa65_sign cr new_secret_key sig_input rnd' of
                None \<Rightarrow> None
              | Some new_sig \<Rightarrow> Some (r\<lparr>kr_old_signature := old_sig, kr_new_signature := new_sig\<rparr>)))"

definition KeyRotationRecord_to_cbor :: "KeyRotationRecord \<Rightarrow> Value" where
  "KeyRotationRecord_to_cbor r = int_map
     [(1, TextString (kr_record_type r)), (2, ByteString (kr_old_agent_id r)), (3, ByteString (kr_new_agent_id r)),
      (4, ByteString (kr_new_public_key r)), (5, Unsigned (kr_timestamp r)), (6, ByteString (kr_old_signature r)),
      (7, ByteString (kr_new_signature r))]"

definition rt_bytes :: "Value option \<Rightarrow> string \<Rightarrow> RotationError + bytes" where
  "rt_bytes v field = (case v of Some (ByteString b) \<Rightarrow> Inr b | _ \<Rightarrow> Inl (RtMissing field))"

definition KeyRotationRecord_from_cbor :: "Value \<Rightarrow> RotationError + KeyRotationRecord" where
  "KeyRotationRecord_from_cbor val =
     bind_result (case int_map_get val 1 of Some (TextString s) \<Rightarrow> Inr s | _ \<Rightarrow> Inl (RtMissing ''type'')) (\<lambda>record_type.
     bind_result (bind_result (rt_bytes (int_map_get val 2) ''old_agent_id'') (\<lambda>b. map_err RtIdentity (AgentId_from_bytes b))) (\<lambda>old_agent_id.
     bind_result (bind_result (rt_bytes (int_map_get val 3) ''new_agent_id'') (\<lambda>b. map_err RtIdentity (AgentId_from_bytes b))) (\<lambda>new_agent_id.
     bind_result (rt_bytes (int_map_get val 4) ''new_public_key'') (\<lambda>new_public_key.
     bind_result (case int_map_get val 5 of Some (Unsigned n) \<Rightarrow> Inr n | _ \<Rightarrow> Inl (RtMissing ''timestamp'')) (\<lambda>timestamp.
     bind_result (rt_bytes (int_map_get val 6) ''old_signature'') (\<lambda>old_signature.
     bind_result (rt_bytes (int_map_get val 7) ''new_signature'') (\<lambda>new_signature.
     Inr \<lparr>kr_record_type = record_type, kr_old_agent_id = old_agent_id, kr_new_agent_id = new_agent_id,
       kr_new_public_key = new_public_key, kr_timestamp = timestamp, kr_old_signature = old_signature,
       kr_new_signature = new_signature\<rparr>)))))))"

definition KeyRotationRecord_encode_bytes :: "KeyRotationRecord \<Rightarrow> RotationError + bytes" where
  "KeyRotationRecord_encode_bytes r = map_err RtCbor (encode (KeyRotationRecord_to_cbor r))"

definition KeyRotationRecord_decode_bytes :: "bytes \<Rightarrow> RotationError + KeyRotationRecord" where
  "KeyRotationRecord_decode_bytes data = bind_result (map_err RtCbor (decode data)) (\<lambda>(val, _). KeyRotationRecord_from_cbor val)"

definition KeyRotationRecord_verify :: "crypto \<Rightarrow> bytes \<Rightarrow> u64 \<Rightarrow> KeyRotationRecord \<Rightarrow> RotationError + unit" where
  "KeyRotationRecord_verify cr old_public_key now r =
     (if kr_record_type r \<noteq> ROTATION_TYPE_V1 then Inl (RtInvalidType (kr_record_type r))
      else if kr_new_agent_id r \<noteq> AgentId_from_public_key cr (kr_new_public_key r) then Inl RtNewAgentId
      else if kr_old_agent_id r \<noteq> AgentId_from_public_key cr old_public_key then Inl RtOldAgentId
      else
        let sig_input = KeyRotationRecord_signature_input r in
        bind_result (map_err (\<lambda>_. RtSignatureLength) (MlDsa65Signature_from_bytes (kr_old_signature r))) (\<lambda>old_sig.
        if \<not> MlDsa65_verify cr old_public_key sig_input old_sig then Inl RtOldSignature
        else
          bind_result (map_err (\<lambda>_. RtPublicKey) (MlDsa65PublicKey_from_bytes cr (kr_new_public_key r))) (\<lambda>new_pk.
          bind_result (map_err (\<lambda>_. RtSignatureLength) (MlDsa65Signature_from_bytes (kr_new_signature r))) (\<lambda>new_sig.
          if \<not> MlDsa65_verify cr new_pk sig_input new_sig then Inl RtNewSignature
          else Inr ()))))"

definition revoke_old_key :: "crypto \<Rightarrow> bytes \<Rightarrow> bytes \<Rightarrow> ustring option \<Rightarrow> KeyRotationRecord \<Rightarrow> RevocationEntry option" where
  "revoke_old_key cr rnd old_secret_key reason r =
     RevocationEntry_new cr rnd (kr_old_agent_id r) (kr_timestamp r) reason (kr_old_agent_id r) old_secret_key"

definition create_revocation_crl ::
  "crypto \<Rightarrow> bytes \<Rightarrow> bytes \<Rightarrow> u64 \<Rightarrow> ustring option \<Rightarrow> KeyRotationRecord \<Rightarrow> RevocationList option" where
  "create_revocation_crl cr rnd old_secret_key ttl_secs reason r =
     (case RevocationList_new (kr_timestamp r) ttl_secs of
        None \<Rightarrow> None
      | Some crl \<Rightarrow>
          RevocationList_revoke cr rnd (kr_old_agent_id r) (kr_timestamp r) reason (kr_old_agent_id r) old_secret_key crl)"

section \<open>What is signed and sent\<close>

definition entry_ok :: "RevocationEntry \<Rightarrow> bool" where
  "entry_ok e \<longleftrightarrow> length (re_agent_id e) = 32 \<and> length (re_revoking_key_id e) = 32 \<and> pred_option utf8_valid (re_reason e)"

lemma reason_value_simps [simp]: "wire (reason_value r) = reason_value r"
  "(case reason_value r of TextString s \<Rightarrow> Some s | _ \<Rightarrow> None) = r"
  "reason_value r = reason_value q \<longleftrightarrow> r = q"
  "d < 100 \<Longrightarrow> pred_option utf8_valid r \<Longrightarrow> wire_ok d (reason_value r)"
  by (auto simp: reason_value_def split: option.splits)

lemma entry_wire_ok: "entry_ok e \<Longrightarrow> d < 99 \<Longrightarrow> wire_ok d (RevocationEntry_to_cbor e)"
  "entry_ok e \<Longrightarrow> wire_ok 0 (RevocationEntry_to_cbor_without_sig e)"
  by (simp_all add: RevocationEntry_to_cbor_def RevocationEntry_to_cbor_without_sig_def entry_ok_def)

lemma entry_from_wire: "entry_ok e \<Longrightarrow> RevocationEntry_from_cbor (wire (RevocationEntry_to_cbor e)) = Inr e"
  by (simp add: RevocationEntry_from_cbor_def RevocationEntry_to_cbor_def int_map_get_wire read_id_def entry_ok_def Let_def)

interpretation entry_statement: signed_statement REVOCATION_DOMAIN_SEPARATOR RevocationEntry_to_cbor_without_sig entry_ok
  "\<lambda>e. e\<lparr>re_signature := []\<rparr>"
proof
  fix m n assume "wire (RevocationEntry_to_cbor_without_sig m) = wire (RevocationEntry_to_cbor_without_sig n)"
  then have "int_map_get (wire (RevocationEntry_to_cbor_without_sig m)) k = int_map_get (wire (RevocationEntry_to_cbor_without_sig n)) k" for k
    by simp
  from this [of 1] this [of 2] this [of 3] this [of 4] show "m\<lparr>re_signature := []\<rparr> = n\<lparr>re_signature := []\<rparr>"
    by (simp add: RevocationEntry_to_cbor_without_sig_def int_map_get_wire)
qed (rule entry_wire_ok)

interpretation crl_message: wire_message RevocationList_to_cbor RevocationList_from_cbor "\<lambda>l. list_all entry_ok (rl_entries l)" id
proof
  fix l :: RevocationList assume l: "list_all entry_ok (rl_entries l)"
  then show "wire_ok 0 (RevocationList_to_cbor l)" by (auto simp: RevocationList_to_cbor_def list_all_iff entry_wire_ok)
  have "decode_all RevocationEntry_from_cbor (map (wire \<circ> RevocationEntry_to_cbor) (rl_entries l)) = Inr (rl_entries l)"
    using l by (intro decode_all_map) (simp add: list_all_iff entry_from_wire)
  then show "RevocationList_from_cbor (wire (RevocationList_to_cbor l)) = Inr (id l)"
    by (simp add: RevocationList_from_cbor_def RevocationList_to_cbor_def int_map_get_wire)
qed

definition rotation_ok :: "KeyRotationRecord \<Rightarrow> bool" where
  "rotation_ok r \<longleftrightarrow> utf8_valid (kr_record_type r) \<and> length (kr_old_agent_id r) = 32 \<and> length (kr_new_agent_id r) = 32"

interpretation rotation_statement: signed_statement ROTATION_DOMAIN_SEPARATOR KeyRotationRecord_to_cbor_without_sig rotation_ok
  "\<lambda>r. r\<lparr>kr_old_signature := [], kr_new_signature := []\<rparr>"
proof
  fix m n assume "wire (KeyRotationRecord_to_cbor_without_sig m) = wire (KeyRotationRecord_to_cbor_without_sig n)"
  then have "int_map_get (wire (KeyRotationRecord_to_cbor_without_sig m)) k = int_map_get (wire (KeyRotationRecord_to_cbor_without_sig n)) k" for k
    by simp
  from this [of 1] this [of 2] this [of 3] this [of 4] this [of 5]
  show "m\<lparr>kr_old_signature := [], kr_new_signature := []\<rparr> = n\<lparr>kr_old_signature := [], kr_new_signature := []\<rparr>"
    by (simp add: KeyRotationRecord_to_cbor_without_sig_def int_map_get_wire)
qed (simp add: KeyRotationRecord_to_cbor_without_sig_def rotation_ok_def)

interpretation rotation_message: wire_message KeyRotationRecord_to_cbor KeyRotationRecord_from_cbor rotation_ok id
  by unfold_locales (simp_all add: KeyRotationRecord_to_cbor_def KeyRotationRecord_from_cbor_def rotation_ok_def int_map_get_wire
      rt_bytes_def AgentId_from_bytes_def)

section \<open>The store over a run\<close>

datatype store_event = AddCrl RevocationList | EvictExpired u64

fun store_step :: "store_event \<Rightarrow> RevocationStore \<Rightarrow> RevocationStore" where
  "store_step (AddCrl crl) s = add_crl crl s"
| "store_step (EvictExpired now) s = RevocationStore_evict_expired now s"

lemma add_crl_revoked: "rs_revoked (add_crl crl s) = rs_revoked s \<union> {a. RevocationList_is_revoked crl a}"
proof -
  have "fold (\<lambda>entry. insert (re_agent_id entry)) es A = A \<union> re_agent_id ` set es" for es :: "RevocationEntry list" and A
    by (induction es arbitrary: A) auto
  then show ?thesis by (auto simp: add_crl_def RevocationList_is_revoked_def list_ex_iff)
qed

lemma store_revoked:
  "rs_revoked (fold store_step evs RevocationStore_new) =
     {a. \<exists>crl \<in> set (rs_crls (fold store_step evs RevocationStore_new)). RevocationList_is_revoked crl a}"
proof (induction evs rule: rev_induct)
  case (snoc e evs)
  show ?case
  proof (cases e)
    case (AddCrl crl)
    with snoc show ?thesis by (auto simp: add_crl_revoked) (auto simp: add_crl_def)
  next
    case (EvictExpired now)
    then show ?thesis
      by (auto simp: RevocationStore_evict_expired_def Let_def RevocationList_is_revoked_def list_ex_iff)
  qed
qed (simp add: RevocationStore_new_def)

lemma store_crls:
  "crl \<in> set (rs_crls (fold store_step evs RevocationStore_new)) \<longleftrightarrow>
     (\<exists>pre post. evs = pre @ AddCrl crl # post \<and> (\<forall>now. EvictExpired now \<in> set post \<longrightarrow> \<not> RevocationList_is_expired crl now))"
proof (induction evs rule: rev_induct)
  case (snoc e evs)
  have split: "(\<exists>pre post. evs @ [e] = pre @ AddCrl crl # post \<and> P post) \<longleftrightarrow>
      e = AddCrl crl \<and> P [] \<or> (\<exists>pre post. evs = pre @ AddCrl crl # post \<and> P (post @ [e]))" for P
    by (auto simp: append_eq_append_conv2 append_eq_Cons_conv Cons_eq_append_conv)
  show ?case
  proof (cases e)
    case (AddCrl crl')
    with snoc show ?thesis unfolding split by (auto simp: add_crl_def)
  next
    case (EvictExpired now)
    have "(\<forall>n. EvictExpired n \<in> set (post @ [e]) \<longrightarrow> \<not> RevocationList_is_expired crl n) \<longleftrightarrow>
        (\<forall>n. EvictExpired n \<in> set post \<longrightarrow> \<not> RevocationList_is_expired crl n) \<and> \<not> RevocationList_is_expired crl now" for post
      by (auto simp: EvictExpired)
    moreover have "crl \<in> set (rs_crls (fold store_step (evs @ [e]) RevocationStore_new)) \<longleftrightarrow>
        crl \<in> set (rs_crls (fold store_step evs RevocationStore_new)) \<and> \<not> RevocationList_is_expired crl now"
      by (auto simp: EvictExpired RevocationStore_evict_expired_def Let_def)
    ultimately show ?thesis unfolding split snoc using EvictExpired by simp metis
  qed
qed (simp add: RevocationStore_new_def)

text \<open>
  C40. The store answers exactly from the lists it holds: after any sequence of lists added and expired lists evicted,
  an agent counts as revoked if and only if some list that names it was added and was not yet expired at any
  eviction since; a list added later never brings back or hides another, and an eviction forgets no
  live list.
\<close>

theorem revocation_store_exact:
  "RevocationStore_is_revoked (fold store_step evs RevocationStore_new) a \<longleftrightarrow>
     (\<exists>crl pre post. evs = pre @ AddCrl crl # post \<and> RevocationList_is_revoked crl a \<and>
        (\<forall>now. EvictExpired now \<in> set post \<longrightarrow> \<not> RevocationList_is_expired crl now))"
  unfolding RevocationStore_is_revoked_def store_revoked using store_crls by blast

section \<open>Rotation\<close>

lemma rotation_verify_iff:
  "KeyRotationRecord_verify cr old_pk now r = Inr () \<longleftrightarrow>
     kr_record_type r = ROTATION_TYPE_V1 \<and> kr_new_agent_id r = sha256 cr (kr_new_public_key r) \<and> kr_old_agent_id r = sha256 cr old_pk \<and>
     MlDsa65_verify cr old_pk (KeyRotationRecord_signature_input r) (kr_old_signature r) \<and>
     MlDsa65_verify cr (kr_new_public_key r) (KeyRotationRecord_signature_input r) (kr_new_signature r)"
  by (auto simp: KeyRotationRecord_verify_def AgentId_from_public_key_def Let_def bind_result_Inr_iff
      MlDsa65PublicKey_from_bytes_def MlDsa65Signature_from_bytes_def MlDsa65_verify_def split: if_splits)

lemma rotation_created:
  assumes "keypair_ok cr old" and "keypair_ok cr new"
  obtains r where "KeyRotationRecord_new cr rnd rnd' (sha256 cr (kp_public_key old)) (sha256 cr (kp_public_key new)) (kp_public_key new) ts
      (kp_secret_key old) (kp_secret_key new) = Some r"
    "KeyRotationRecord_verify cr (kp_public_key old) now r = Inr ()" "kr_old_agent_id r = sha256 cr (kp_public_key old)"
    "kr_new_agent_id r = sha256 cr (kp_public_key new)" "kr_timestamp r = ts" "kr_record_type r = ROTATION_TYPE_V1"
proof -
  define r where "r = \<lparr>kr_record_type = ROTATION_TYPE_V1, kr_old_agent_id = sha256 cr (kp_public_key old),
    kr_new_agent_id = sha256 cr (kp_public_key new), kr_new_public_key = kp_public_key new, kr_timestamp = ts,
    kr_old_signature = [], kr_new_signature = []\<rparr>"
  obtain so where so: "MlDsa65_sign cr (kp_secret_key old) (KeyRotationRecord_signature_input r) rnd = Some so"
    "MlDsa65_verify cr (kp_public_key old) (KeyRotationRecord_signature_input r) so"
    using sign_verifies [OF assms(1)] by metis
  obtain sn where sn: "MlDsa65_sign cr (kp_secret_key new) (KeyRotationRecord_signature_input r) rnd' = Some sn"
    "MlDsa65_verify cr (kp_public_key new) (KeyRotationRecord_signature_input r) sn"
    using sign_verifies [OF assms(2)] by metis
  let ?r = "r\<lparr>kr_old_signature := so, kr_new_signature := sn\<rparr>"
  have "KeyRotationRecord_signature_input ?r = KeyRotationRecord_signature_input r"
    by (simp add: KeyRotationRecord_signature_input_def KeyRotationRecord_to_cbor_without_sig_def)
  with so sn have "KeyRotationRecord_verify cr (kp_public_key old) now ?r = Inr ()"
    by (simp add: rotation_verify_iff) (simp add: r_def)
  moreover have "KeyRotationRecord_new cr rnd rnd' (sha256 cr (kp_public_key old)) (sha256 cr (kp_public_key new)) (kp_public_key new) ts
      (kp_secret_key old) (kp_secret_key new) = Some ?r"
    using so(1) sn(1) unfolding KeyRotationRecord_new_def r_def by (simp add: Let_def)
  ultimately show thesis by (intro that [of ?r]) (simp_all add: r_def)
qed

text \<open>A rotation is carried through: the record verifies with the old key, and the list made from it revokes the old id wherever it is added.\<close>

lemma rotation_completes:
  assumes "keypair_ok cr old" and "keypair_ok cr new" and "unat ts + unat ttl \<le> USIZE_MAX"
  shows "\<exists>r crl. KeyRotationRecord_new cr rnd rnd' (sha256 cr (kp_public_key old)) (sha256 cr (kp_public_key new)) (kp_public_key new) ts
      (kp_secret_key old) (kp_secret_key new) = Some r \<and> KeyRotationRecord_verify cr (kp_public_key old) now r = Inr () \<and>
    create_revocation_crl cr rnd'' (kp_secret_key old) ttl reason r = Some crl \<and>
    (\<forall>e \<in> set (rl_entries crl). RevocationEntry_verify cr (kp_public_key old) e) \<and>
    (\<forall>s. RevocationStore_is_revoked (add_crl crl s) (sha256 cr (kp_public_key old)))"
proof -
  obtain r where r: "KeyRotationRecord_new cr rnd rnd' (sha256 cr (kp_public_key old)) (sha256 cr (kp_public_key new)) (kp_public_key new) ts
      (kp_secret_key old) (kp_secret_key new) = Some r"
    "KeyRotationRecord_verify cr (kp_public_key old) now r = Inr ()" "kr_old_agent_id r = sha256 cr (kp_public_key old)" "kr_timestamp r = ts"
    using rotation_created [OF assms(1,2)] by metis
  define e where "e = \<lparr>re_agent_id = kr_old_agent_id r, re_revoked_at = ts, re_reason = reason, re_revoking_key_id = kr_old_agent_id r,
    re_signature = []\<rparr>"
  obtain sig where sig: "MlDsa65_sign cr (kp_secret_key old) (RevocationEntry_signature_input e) rnd'' = Some sig"
    "MlDsa65_verify cr (kp_public_key old) (RevocationEntry_signature_input e) sig"
    using sign_verifies [OF assms(1)] by metis
  let ?crl = "\<lparr>rl_entries = [e\<lparr>re_signature := sig\<rparr>], rl_generated_at = ts, rl_expires_at = ts + ttl\<rparr>"
  have "create_revocation_crl cr rnd'' (kp_secret_key old) ttl reason r = Some ?crl"
    using assms(3) sig(1) unfolding e_def
    by (simp add: create_revocation_crl_def RevocationList_new_def RevocationList_revoke_def RevocationEntry_new_def r(4) Let_def)
  moreover have "RevocationEntry_verify cr (kp_public_key old) (e\<lparr>re_signature := sig\<rparr>)"
    using sig(2) by (simp add: RevocationEntry_verify_def RevocationEntry_signature_input_def RevocationEntry_to_cbor_without_sig_def)
  moreover have "RevocationStore_is_revoked (add_crl ?crl s) (sha256 cr (kp_public_key old))" for s
    by (simp add: RevocationStore_is_revoked_def add_crl_revoked RevocationList_is_revoked_def e_def r(3))
  ultimately show ?thesis using r by (intro exI [of _ r] exI [of _ ?crl]) simp
qed

text \<open>Example: a list added, one that expires, and an eviction.\<close>

definition example_crl :: "byte \<Rightarrow> u64 \<Rightarrow> RevocationList" where
  "example_crl a expires = \<lparr>rl_entries = [\<lparr>re_agent_id = [a], re_revoked_at = 0, re_reason = None, re_revoking_key_id = [], re_signature = []\<rparr>],
     rl_generated_at = 0, rl_expires_at = expires\<rparr>"

theorem revocation_store_exact_witness:
  "RevocationStore_is_revoked (fold store_step [AddCrl (example_crl 1 50), AddCrl (example_crl 2 90), EvictExpired 60] RevocationStore_new) [2]"
  unfolding revocation_store_exact
  by (rule exI [of _ "example_crl 2 90"], rule exI [of _ "[AddCrl (example_crl 1 50)]"], rule exI [of _ "[EvictExpired 60]"])
    (simp add: example_crl_def RevocationList_is_revoked_def RevocationList_is_expired_def)

end
