(* ===== verification/Record_Extensions.thy ===== *)
theory Record_Extensions
  imports Identity_V1 Hash_Map
begin

text \<open>
  The extensions of agent records, \<open>crates/aafp-identity/src/extensions/\<close>: the versioned wrapper, the
  operations that set and get a typed extension, and the extensions for location, performance, cost,
  reputation, semantic attributes, capability versions and heartbeats, with the tracker of heartbeats.
  The interface \<open>record_extension\<close> is the trait with the law its implementations keep; that an extension
  set on a record is read by every receiver, and that extensions do not disturb each
  other, is proved once from it.
\<close>

section \<open>The wrapper\<close>

definition to_extension_cbor :: "u64 \<Rightarrow> ('x \<Rightarrow> Value) \<Rightarrow> 'x \<Rightarrow> Value" where
  "to_extension_cbor version to_cbor x = int_map [(1, Unsigned version), (2, to_cbor x)]"

definition from_extension_cbor :: "u64 \<Rightarrow> (Value \<Rightarrow> IdentityErrorV1 + 'x) \<Rightarrow> Value \<Rightarrow> IdentityErrorV1 + 'x" where
  "from_extension_cbor expected from_cbor val =
     bind_result
       (case int_map_get val 1 of
          Some (Unsigned n) \<Rightarrow> Inr n
        | Some other \<Rightarrow> Inl (IvInvalid ''extension_version'' (ExpectedGot ''uint'' other))
        | None \<Rightarrow> Inl (IvMissing ''extension_version'')) (\<lambda>version.
     if version \<noteq> expected then Inl (IvInvalid ''extension_version'' (ExpectedVersion expected version))
     else
       case int_map_get val 2 of
         None \<Rightarrow> Inl (IvMissing ''extension_data'')
       | Some data \<Rightarrow> from_cbor data)"

definition get_extension :: "ustring \<Rightarrow> u64 \<Rightarrow> (Value \<Rightarrow> IdentityErrorV1 + 'x) \<Rightarrow> AgentRecord \<Rightarrow> 'x option" where
  "get_extension namespace version from_cbor r =
     (case find (\<lambda>(ns, _). ns = namespace) (ar_extensions r) of
        None \<Rightarrow> None
      | Some entry \<Rightarrow> (case from_extension_cbor version from_cbor (snd entry) of Inr x \<Rightarrow> Some x | Inl _ \<Rightarrow> None))"

fun position :: "('a \<Rightarrow> bool) \<Rightarrow> 'a list \<Rightarrow> nat option" where
  "position P [] = None"
| "position P (x # xs) = (if P x then Some 0 else map_option Suc (position P xs))"

definition set_extension :: "ustring \<Rightarrow> u64 \<Rightarrow> ('x \<Rightarrow> Value) \<Rightarrow> 'x \<Rightarrow> AgentRecord \<Rightarrow> AgentRecord" where
  "set_extension namespace version to_cbor ext r =
     (let cbor = to_extension_cbor version to_cbor ext
      in case position (\<lambda>(ns, _). ns = namespace) (ar_extensions r) of
           Some pos \<Rightarrow> r\<lparr>ar_extensions := (ar_extensions r)[pos := (namespace, cbor)]\<rparr>
         | None \<Rightarrow> r\<lparr>ar_extensions := ar_extensions r @ [(namespace, cbor)]\<rparr>)"

text \<open>Both as operations on a map: the extensions of a record with distinct namespaces.\<close>

lemma find_map_of: "find (\<lambda>(ns, _). ns = n) es = map_option (Pair n) (map_of es n)"
  by (induction es) auto

lemma set_extension_update:
  "ar_extensions (set_extension ns v f x r) = AList.update ns (to_extension_cbor v f x) (ar_extensions r)"
proof -
  have "AList.update ns c es = (case position (\<lambda>(n, _). n = ns) es of
      Some pos \<Rightarrow> es[pos := (ns, c)] | None \<Rightarrow> es @ [(ns, c)])" for c and es :: "(ustring \<times> Value) list"
    by (induction es) (auto split: option.splits)
  then show ?thesis by (simp add: set_extension_def Let_def split: option.splits)
qed

lemma set_extension_other_fields:
  "ar_record_type (set_extension ns v f x r) = ar_record_type r" "ar_agent_id (set_extension ns v f x r) = ar_agent_id r"
  "ar_public_key (set_extension ns v f x r) = ar_public_key r" "ar_capabilities (set_extension ns v f x r) = ar_capabilities r"
  "ar_endpoints (set_extension ns v f x r) = ar_endpoints r" "ar_created_at (set_extension ns v f x r) = ar_created_at r"
  "ar_expires_at (set_extension ns v f x r) = ar_expires_at r" "ar_signature (set_extension ns v f x r) = ar_signature r"
  "ar_key_algorithm (set_extension ns v f x r) = ar_key_algorithm r"
  "ar_record_version (set_extension ns v f x r) = ar_record_version r"
  by (simp_all add: set_extension_def Let_def split: option.split)

lemma get_extension_map_of:
  "get_extension ns v f r =
     (case map_of (ar_extensions r) ns of
        None \<Rightarrow> None
      | Some c \<Rightarrow> (case from_extension_cbor v f c of Inr x \<Rightarrow> Some x | Inl _ \<Rightarrow> None))"
  by (simp add: get_extension_def find_map_of split: option.split)

lemma get_set_other:
  "ns \<noteq> ns' \<Longrightarrow> get_extension ns v f (set_extension ns' v' g x r) = get_extension ns v f r"
  by (simp add: get_extension_map_of set_extension_update update_conv')

text \<open>The receiver of a record finds the extensions as they are on the wire.\<close>

lemma get_published:
  assumes "record_ok r"
  shows "map_of (ar_extensions (record_norm r)) ns = map_option wire (map_of (ar_extensions r) ns)"
proof -
  have "distinct (map fst (map (\<lambda>(k, v). (k, wire v)) (ar_extensions r)))"
    using assms by (simp add: record_ok_def comp_def split_beta)
  then show ?thesis by (simp add: record_norm_def map_of_by_key map_of_map_canon)
qed

lemma set_extension_ok:
  assumes "record_ok r" and "utf8_valid ns" and "wire_ok 3 (f x)"
  shows "record_ok (set_extension ns v f x r)"
proof -
  have "wire_ok (Suc (Suc 0)) (to_extension_cbor v f x)"
    using assms(3) by (simp add: to_extension_cbor_def numeral_3_eq_3)
  moreover have "set (AList.update ns c es) \<subseteq> insert (ns, c) (set es)" for c and es :: "(ustring \<times> Value) list"
    by (induction es) auto
  ultimately show ?thesis
    using assms(1,2) by (fastforce simp: record_ok_def set_extension_other_fields set_extension_update distinct_update)
qed

section \<open>The interface of an extension\<close>

locale record_extension =
  fixes namespace :: ustring
    and version :: u64
    and to_cbor :: "'x \<Rightarrow> Value"
    and from_cbor :: "Value \<Rightarrow> IdentityErrorV1 + 'x"
    and wf :: "'x \<Rightarrow> bool"
    and norm :: "'x \<Rightarrow> 'x"
  assumes namespace_utf8: "utf8_valid namespace"
    and data_ok: "wf x \<Longrightarrow> wire_ok 3 (to_cbor x)"
    and data_read: "wf x \<Longrightarrow> from_cbor (wire (to_cbor x)) = Inr (norm x)"
    and data_local: "wf x \<Longrightarrow> from_cbor (to_cbor x) = Inr (norm x)"
begin

lemma set_ok: "record_ok r \<Longrightarrow> wf x \<Longrightarrow> record_ok (set_extension namespace version to_cbor x r)"
  by (rule set_extension_ok) (simp_all add: namespace_utf8 data_ok)

lemma get_set:
  assumes "wf x"
  shows "get_extension namespace version from_cbor (set_extension namespace version to_cbor x r) = Some (norm x)"
  using data_local [OF assms]
  by (simp add: get_extension_map_of set_extension_update update_conv' from_extension_cbor_def to_extension_cbor_def
      int_map_def int_map_get_IntMap)

lemma get_received:
  assumes "record_ok r" and "map_of (ar_extensions r) namespace = Some (to_extension_cbor version to_cbor x)" and "wf x"
  shows "get_extension namespace version from_cbor (record_norm r) = Some (norm x)"
  using data_read [OF assms(3)]
  by (simp add: get_extension_map_of get_published [OF assms(1)] assms(2) from_extension_cbor_def to_extension_cbor_def
      int_map_get_wire)

text \<open>A newer or older version is read as absent.\<close>

lemma other_version_absent:
  assumes "map_of (ar_extensions r) namespace = Some (to_extension_cbor v g y)" and "v \<noteq> version"
  shows "get_extension namespace version from_cbor r = None"
  using assms by (simp add: get_extension_map_of from_extension_cbor_def to_extension_cbor_def int_map_def int_map_get_IntMap)

end

section \<open>Fields of an extension\<close>

text \<open>The entries pushed for the fields that are present, in the order of the fields.\<close>

definition pushed :: "(i64 \<times> Value option) list \<Rightarrow> (i64 \<times> Value) list" where
  "pushed fs = List.map_filter (\<lambda>(k, v). map_option (Pair k) v) fs"

definition text_array :: "ustring list \<Rightarrow> Value option" where
  "text_array xs = (if xs \<noteq> [] then Some (Array (map TextString xs)) else None)"

definition opt_text :: "Value option \<Rightarrow> ustring option" where
  "opt_text v = (case v of Some (TextString s) \<Rightarrow> Some s | _ \<Rightarrow> None)"

definition opt_uint :: "Value option \<Rightarrow> u64 option" where
  "opt_uint v = (case v of Some (Unsigned n) \<Rightarrow> Some n | _ \<Rightarrow> None)"

definition uint_or_zero :: "Value option \<Rightarrow> u64" where
  "uint_or_zero v = (case v of Some (Unsigned n) \<Rightarrow> n | _ \<Rightarrow> 0)"

definition extract_arr :: "Value option \<Rightarrow> ustring list" where
  "extract_arr v =
     (case v of
        Some (Array arr) \<Rightarrow> List.map_filter (\<lambda>v. case v of TextString s \<Rightarrow> Some s | _ \<Rightarrow> None) arr
      | _ \<Rightarrow> [])"

text \<open>The entries written are those of a map with distinct keys, and each is read back.\<close>

lemma pushed_simps [simp]: "pushed [] = []" "pushed ((k, None) # fs) = pushed fs" "pushed ((k, Some v) # fs) = (k, v) # pushed fs"
  by (simp_all add: pushed_def List.map_filter_simps)

lemma set_pushed: "set (pushed fs) = {(k, v). (k, Some v) \<in> set fs}"
  by (induction fs rule: list.induct) (auto simp: pushed_def List.map_filter_simps split: option.splits)

lemma distinct_pushed: "distinct (map fst fs) \<Longrightarrow> distinct (map fst (pushed fs))"
proof (induction fs)
  case (Cons f fs)
  obtain k v where "f = (k, v)" by (cases f)
  with Cons show ?case by (cases v) (auto simp: set_pushed rev_image_eqI)
qed simp

lemma map_of_pushed: "distinct (map fst fs) \<Longrightarrow> map_of (pushed fs) k = Option.bind (map_of fs k) id"
proof (induction fs)
  case (Cons f fs)
  obtain j v where f: "f = (j, v)" by (cases f)
  with Cons have "map_of fs j = None" by (simp add: map_of_eq_None_iff)
  with Cons f show ?case by (cases v) auto
qed simp

lemma pushed_read:
  assumes "distinct (map fst fs)"
  shows "int_map_get (int_map (pushed fs)) k = Option.bind (map_of fs k) id"
    "int_map_get (wire (int_map (pushed fs))) k = map_option wire (Option.bind (map_of fs k) id)"
  by (simp_all add: int_map_get_wire distinct_pushed map_of_pushed assms) (simp add: int_map_def int_map_get_IntMap map_of_pushed assms)

definition field_ok :: "nat \<Rightarrow> Value option \<Rightarrow> bool" where
  "field_ok d v \<longleftrightarrow> (case v of Some a \<Rightarrow> wire_ok d a | None \<Rightarrow> True)"

lemma pushed_ok:
  assumes "distinct (map fst fs)" and "d < 100" and "list_all (\<lambda>f. field_ok (Suc d) (snd f)) fs"
  shows "wire_ok d (int_map (pushed fs))"
  using assms by (fastforce simp: distinct_pushed set_pushed list_all_iff field_ok_def)

lemma read_text [simp]: "opt_text (map_option TextString x) = x"
  by (simp add: opt_text_def split: option.split)

lemma read_uint [simp]: "opt_uint (map_option (\<lambda>n. Unsigned (f n)) x) = map_option f x" "opt_uint (map_option Unsigned y) = y"
  "uint_or_zero None = 0" "uint_or_zero (Some (Unsigned n)) = n"
  by (simp_all add: opt_uint_def uint_or_zero_def split: option.split)

lemma text_filter: "List.map_filter (\<lambda>v. case v of TextString t \<Rightarrow> Some t | _ \<Rightarrow> None) (map TextString xs) = xs"
  by (induction xs) (simp_all add: List.map_filter_simps)

lemma wire_option [simp]: "map_option wire (text_array xs) = text_array xs"
  "map_option wire (map_option TextString x) = map_option TextString x"
  "map_option wire (map_option Unsigned y) = map_option Unsigned y"
  "map_option wire (map_option (\<lambda>n. Unsigned (f n)) z) = map_option (\<lambda>n. Unsigned (f n)) z"
  by (simp_all add: text_array_def option.map_comp comp_def)

lemma read_array [simp]: "extract_arr (text_array xs) = xs"
  by (simp add: extract_arr_def text_array_def text_filter)

text \<open>What a value must satisfy to be sent inside an extension.\<close>

definition texts_ok :: "ustring option list \<Rightarrow> ustring list list \<Rightarrow> bool" where
  "texts_ok ts xs \<longleftrightarrow> list_all (pred_option utf8_valid) ts \<and> list_all (list_all utf8_valid) xs"

lemma field_ok_simps [simp]:
  assumes "d < 99"
  shows "field_ok d (map_option TextString x) \<longleftrightarrow> pred_option utf8_valid x" "field_ok d (map_option Unsigned y)"
    "field_ok d (map_option (\<lambda>n. Unsigned (f n)) z)" "list_all utf8_valid xs \<Longrightarrow> field_ok d (text_array xs)"
    "field_ok d None" "field_ok d (Some v) = wire_ok d v"
  using assms by (simp_all add: field_ok_def text_array_def list_all_iff split: option.split)

section \<open>Location\<close>

record GeoExtension =
  geo_version :: u64
  geo_country :: "ustring option"
  geo_region :: "ustring option"
  geo_lat_micro_deg :: "32 word option"
  geo_lon_micro_deg :: "32 word option"
  geo_continent :: "ustring option"
  geo_data_residency :: "ustring list"

definition signed_value :: "32 word \<Rightarrow> Value" where
  "signed_value n = (if 0 \<le> sint n then Unsigned (scast n) else Negative (scast n))"

definition opt_i32 :: "Value option \<Rightarrow> 32 word option" where
  "opt_i32 v = (case v of Some (Negative n) \<Rightarrow> Some (ucast n) | Some (Unsigned n) \<Rightarrow> Some (ucast n) | _ \<Rightarrow> None)"

definition GeoExtension_NAMESPACE :: ustring where
  "GeoExtension_NAMESPACE = str ''aafp.geo.v1''"

definition GeoExtension_to_cbor :: "GeoExtension \<Rightarrow> Value" where
  "GeoExtension_to_cbor x = int_map (pushed
     [(1, map_option TextString (geo_country x)), (2, map_option TextString (geo_region x)),
      (3, map_option signed_value (geo_lat_micro_deg x)), (4, map_option signed_value (geo_lon_micro_deg x)),
      (5, map_option TextString (geo_continent x)), (6, text_array (geo_data_residency x))])"

definition GeoExtension_from_cbor :: "Value \<Rightarrow> IdentityErrorV1 + GeoExtension" where
  "GeoExtension_from_cbor val = Inr \<lparr>geo_version = 1, geo_country = opt_text (int_map_get val 1),
     geo_region = opt_text (int_map_get val 2), geo_lat_micro_deg = opt_i32 (int_map_get val 3),
     geo_lon_micro_deg = opt_i32 (int_map_get val 4), geo_continent = opt_text (int_map_get val 5),
     geo_data_residency = extract_arr (int_map_get val 6)\<rparr>"

definition geo_ok :: "GeoExtension \<Rightarrow> bool" where
  "geo_ok x \<longleftrightarrow> texts_ok [geo_country x, geo_region x, geo_continent x] [geo_data_residency x]"

lemma narrow_scast [simp]: "ucast (scast (n :: 32 word) :: 64 word) = n"
proof (rule bit_word_eqI)
  fix i assume "i < LENGTH(32)"
  then consider "i < 31" | "i = 31" by fastforce
  then show "bit (ucast (scast n :: 64 word) :: 32 word) i = bit n i"
    by cases (simp_all add: bit_simps min_def)
qed

lemma sint_scast_i32 [simp]: "sint (scast (n :: 32 word) :: 64 word) = sint n"
  by (simp add: sint_up_scast is_up)

lemma signed_value_simps [simp]: "wire (signed_value n) = signed_value n" "opt_i32 (map_option signed_value x) = x"
  "map_option wire (map_option signed_value x) = map_option signed_value x"
  "d < 99 \<Longrightarrow> field_ok d (map_option signed_value x)"
  by (cases x; simp add: signed_value_def opt_i32_def)+

interpretation geo: record_extension GeoExtension_NAMESPACE 1 GeoExtension_to_cbor GeoExtension_from_cbor geo_ok
  "\<lambda>x. x\<lparr>geo_version := 1\<rparr>"
proof
  show "utf8_valid GeoExtension_NAMESPACE" by code_simp
  show "wire_ok 3 (GeoExtension_to_cbor x)" if "geo_ok x" for x
    unfolding GeoExtension_to_cbor_def using that by (intro pushed_ok) (simp_all add: geo_ok_def texts_ok_def)
qed (simp_all add: GeoExtension_to_cbor_def GeoExtension_from_cbor_def pushed_read)

section \<open>Performance\<close>

record PerformanceExtension =
  pf_version :: u64
  pf_avg_latency_ms :: "u16 option"
  pf_p99_latency_ms :: "u16 option"
  pf_throughput_rps :: "u32 option"
  pf_max_batch_size :: "u32 option"
  pf_uptime_bps :: "u16 option"
  pf_window_secs :: u32
  pf_updated_at :: u64

definition PerformanceExtension_NAMESPACE :: ustring where
  "PerformanceExtension_NAMESPACE = str ''aafp.perf.v1''"

definition PerformanceExtension_to_cbor :: "PerformanceExtension \<Rightarrow> Value" where
  "PerformanceExtension_to_cbor x = int_map (pushed
     [(1, map_option (\<lambda>n. Unsigned (ucast n)) (pf_avg_latency_ms x)), (2, map_option (\<lambda>n. Unsigned (ucast n)) (pf_p99_latency_ms x)),
      (3, map_option (\<lambda>n. Unsigned (ucast n)) (pf_throughput_rps x)), (4, map_option (\<lambda>n. Unsigned (ucast n)) (pf_max_batch_size x)),
      (5, map_option (\<lambda>n. Unsigned (ucast n)) (pf_uptime_bps x)),
      (6, if 0 < pf_window_secs x then Some (Unsigned (ucast (pf_window_secs x))) else None),
      (7, if 0 < pf_updated_at x then Some (Unsigned (pf_updated_at x)) else None)])"

definition PerformanceExtension_from_cbor :: "Value \<Rightarrow> IdentityErrorV1 + PerformanceExtension" where
  "PerformanceExtension_from_cbor val = Inr \<lparr>pf_version = 1,
     pf_avg_latency_ms = map_option ucast (opt_uint (int_map_get val 1)),
     pf_p99_latency_ms = map_option ucast (opt_uint (int_map_get val 2)),
     pf_throughput_rps = map_option ucast (opt_uint (int_map_get val 3)),
     pf_max_batch_size = map_option ucast (opt_uint (int_map_get val 4)),
     pf_uptime_bps = map_option ucast (opt_uint (int_map_get val 5)),
     pf_window_secs = ucast (uint_or_zero (int_map_get val 6)),
     pf_updated_at = uint_or_zero (int_map_get val 7)\<rparr>"

lemma narrow_ucast [simp]: "ucast (ucast (a :: byte) :: u64) = a" "ucast (ucast (b :: u16) :: u64) = b" "ucast (ucast (c :: u32) :: u64) = c"
  by (rule bit_word_eqI, simp add: bit_simps)+

lemma nonzero_entry [simp]:
  "map_option wire (if p then Some (Unsigned n) else None) = (if p then Some (Unsigned n) else None)"
  "uint_or_zero (if 0 < n then Some (Unsigned n) else None) = n"
  "ucast (uint_or_zero (if 0 < m then Some (Unsigned (ucast m)) else None)) = (m :: u32)"
  "d < 99 \<Longrightarrow> field_ok d (if p then Some (Unsigned n) else None)"
  by (simp_all add: word_gt_0)

interpretation perf: record_extension PerformanceExtension_NAMESPACE 1 PerformanceExtension_to_cbor PerformanceExtension_from_cbor
  "\<lambda>_. True" "\<lambda>x. x\<lparr>pf_version := 1\<rparr>"
proof
  show "utf8_valid PerformanceExtension_NAMESPACE" by code_simp
  show "wire_ok 3 (PerformanceExtension_to_cbor x)" for x
    unfolding PerformanceExtension_to_cbor_def by (intro pushed_ok) simp_all
qed (simp_all add: PerformanceExtension_to_cbor_def PerformanceExtension_from_cbor_def pushed_read option.map_comp comp_def option.map_ident
    split del: if_split)

section \<open>Cost\<close>

record CostExtension =
  cost_version :: u64
  cost_per_invocation_micro_usd :: "u64 option"
  cost_per_token_micro_usd :: "u64 option"
  cost_has_free_tier :: bool

definition CostExtension_NAMESPACE :: ustring where
  "CostExtension_NAMESPACE = str ''aafp.cost.v1''"

definition CostExtension_to_cbor :: "CostExtension \<Rightarrow> Value" where
  "CostExtension_to_cbor x = int_map (pushed
     [(1, map_option Unsigned (cost_per_invocation_micro_usd x)), (2, map_option Unsigned (cost_per_token_micro_usd x)),
      (3, if cost_has_free_tier x then Some (Bool True) else None)])"

definition is_true :: "Value option \<Rightarrow> bool" where
  "is_true v = (case v of Some (Bool True) \<Rightarrow> True | _ \<Rightarrow> False)"

definition CostExtension_from_cbor :: "Value \<Rightarrow> IdentityErrorV1 + CostExtension" where
  "CostExtension_from_cbor val = Inr \<lparr>cost_version = 1,
     cost_per_invocation_micro_usd = opt_uint (int_map_get val 1),
     cost_per_token_micro_usd = opt_uint (int_map_get val 2),
     cost_has_free_tier = is_true (int_map_get val 3)\<rparr>"

text \<open>The additions of \<open>estimate_cost\<close> are checked; an overflow is a panic.\<close>

definition estimate_cost :: "CostExtension \<Rightarrow> u64 \<Rightarrow> u64 option" where
  "estimate_cost x token_count =
     (let base = (case cost_per_invocation_micro_usd x of Some per_call \<Rightarrow> per_call | None \<Rightarrow> 0)
      in case cost_per_token_micro_usd x of
           Some pt \<Rightarrow> (let add = sat_mul pt token_count
                      in if unat base + unat add > USIZE_MAX then None else Some (base + add))
         | None \<Rightarrow> Some base)"

definition is_free_eligible :: "CostExtension \<Rightarrow> u32 \<Rightarrow> bool" where
  "is_free_eligible x daily_usage = cost_has_free_tier x"

lemma free_tier_entry [simp]: "is_true (if p then Some (Bool True) else None) = p"
  "map_option wire (if p then Some (Bool True) else None) = (if p then Some (Bool True) else None)"
  by (simp_all add: is_true_def)

interpretation cost: record_extension CostExtension_NAMESPACE 1 CostExtension_to_cbor CostExtension_from_cbor
  "\<lambda>_. True" "\<lambda>x. x\<lparr>cost_version := 1\<rparr>"
proof
  show "utf8_valid CostExtension_NAMESPACE" by code_simp
  show "wire_ok 3 (CostExtension_to_cbor x)" for x
    unfolding CostExtension_to_cbor_def by (intro pushed_ok) simp_all
qed (simp_all add: CostExtension_to_cbor_def CostExtension_from_cbor_def pushed_read option.map_ident split del: if_split)

lemma unat_sat_mul: "unat (sat_mul a b) = min USIZE_MAX (unat a * unat b)"
  by (simp add: sat_mul_def unat_minus_one_u64 unat_word_ariths min_def not_less)

text \<open>
  The estimate is the exact price where it fits. It panics, instead of saturating as the product does,
  exactly when the price of the tokens and a price per invocation together exceed the type.
\<close>

lemma estimate_cost_exact:
  assumes "cost_per_invocation_micro_usd x = Some per_call" and "cost_per_token_micro_usd x = Some pt"
    and "unat per_call + unat pt * unat tokens \<le> USIZE_MAX"
  shows "map_option unat (estimate_cost x tokens) = Some (unat per_call + unat pt * unat tokens)"
  using assms by (simp add: estimate_cost_def unat_sat_mul unat_word_ariths)

lemma estimate_cost_panics:
  assumes "cost_per_invocation_micro_usd x = Some per_call" and "cost_per_token_micro_usd x = Some pt"
  shows "estimate_cost x tokens = None \<longleftrightarrow> 0 < per_call \<and> unat per_call + unat pt * unat tokens > USIZE_MAX"
proof -
  have "0 < per_call \<longleftrightarrow> 0 < unat per_call" by (simp add: word_gt_0 unat_gt_0)
  then show ?thesis
    using assms unat_u64_le [of per_call] by (auto simp: estimate_cost_def unat_sat_mul Let_def min_def not_less)
qed

section \<open>Reputation and semantic attributes\<close>

record ReputationExtension =
  rp_version :: u64
  rp_attestation_refs :: "ustring list"
  rp_self_claimed_score :: "byte option"
  rp_sources :: "ustring list"

definition ReputationExtension_NAMESPACE :: ustring where
  "ReputationExtension_NAMESPACE = str ''aafp.reputation.v1''"

definition ReputationExtension_to_cbor :: "ReputationExtension \<Rightarrow> Value" where
  "ReputationExtension_to_cbor x = int_map (pushed
     [(1, text_array (rp_attestation_refs x)), (2, map_option (\<lambda>n. Unsigned (ucast n)) (rp_self_claimed_score x)),
      (3, text_array (rp_sources x))])"

definition ReputationExtension_from_cbor :: "Value \<Rightarrow> IdentityErrorV1 + ReputationExtension" where
  "ReputationExtension_from_cbor val = Inr \<lparr>rp_version = 1, rp_attestation_refs = extract_arr (int_map_get val 1),
     rp_self_claimed_score = map_option ucast (opt_uint (int_map_get val 2)), rp_sources = extract_arr (int_map_get val 3)\<rparr>"

interpretation reputation: record_extension ReputationExtension_NAMESPACE 1 ReputationExtension_to_cbor ReputationExtension_from_cbor
  "\<lambda>x. texts_ok [] [rp_attestation_refs x, rp_sources x]" "\<lambda>x. x\<lparr>rp_version := 1\<rparr>"
proof
  show "utf8_valid ReputationExtension_NAMESPACE" by code_simp
  show "wire_ok 3 (ReputationExtension_to_cbor x)" if "texts_ok [] [rp_attestation_refs x, rp_sources x]" for x
    unfolding ReputationExtension_to_cbor_def using that by (intro pushed_ok) (simp_all add: texts_ok_def)
qed (simp_all add: ReputationExtension_to_cbor_def ReputationExtension_from_cbor_def pushed_read option.map_comp comp_def option.map_ident
    split del: if_split)

record SemanticExtension =
  sem_version :: u64
  sem_languages :: "ustring list"
  sem_modalities :: "ustring list"
  sem_hardware :: "ustring list"
  sem_frameworks :: "ustring list"
  sem_precision :: "ustring list"

definition SemanticExtension_NAMESPACE :: ustring where
  "SemanticExtension_NAMESPACE = str ''aafp.semantic.v1''"

definition SemanticExtension_to_cbor :: "SemanticExtension \<Rightarrow> Value" where
  "SemanticExtension_to_cbor x = int_map (pushed
     [(1, text_array (sem_languages x)), (2, text_array (sem_modalities x)), (3, text_array (sem_hardware x)),
      (4, text_array (sem_frameworks x)), (5, text_array (sem_precision x))])"

definition SemanticExtension_from_cbor :: "Value \<Rightarrow> IdentityErrorV1 + SemanticExtension" where
  "SemanticExtension_from_cbor val = Inr \<lparr>sem_version = 1, sem_languages = extract_arr (int_map_get val 1),
     sem_modalities = extract_arr (int_map_get val 2), sem_hardware = extract_arr (int_map_get val 3),
     sem_frameworks = extract_arr (int_map_get val 4), sem_precision = extract_arr (int_map_get val 5)\<rparr>"

definition semantic_ok :: "SemanticExtension \<Rightarrow> bool" where
  "semantic_ok x \<longleftrightarrow> texts_ok [] [sem_languages x, sem_modalities x, sem_hardware x, sem_frameworks x, sem_precision x]"

interpretation semantic: record_extension SemanticExtension_NAMESPACE 1 SemanticExtension_to_cbor SemanticExtension_from_cbor
  semantic_ok "\<lambda>x. x\<lparr>sem_version := 1\<rparr>"
proof
  show "utf8_valid SemanticExtension_NAMESPACE" by code_simp
  show "wire_ok 3 (SemanticExtension_to_cbor x)" if "semantic_ok x" for x
    unfolding SemanticExtension_to_cbor_def using that by (intro pushed_ok) (simp_all add: semantic_ok_def texts_ok_def)
qed (simp_all add: SemanticExtension_to_cbor_def SemanticExtension_from_cbor_def pushed_read)

section \<open>Capability versions\<close>

text \<open>The derived order is lexicographic in the order of the fields.\<close>

datatype SemanticVersion = SemanticVersion (sv_major: u32) (sv_minor: u32) (sv_patch: u32)

instantiation SemanticVersion :: linorder
begin

definition less_eq_SemanticVersion :: "SemanticVersion \<Rightarrow> SemanticVersion \<Rightarrow> bool" where
  "less_eq_SemanticVersion v w \<longleftrightarrow> sv_major v < sv_major w \<or> sv_major v = sv_major w \<and>
     (sv_minor v < sv_minor w \<or> sv_minor v = sv_minor w \<and> sv_patch v \<le> sv_patch w)"

definition less_SemanticVersion :: "SemanticVersion \<Rightarrow> SemanticVersion \<Rightarrow> bool" where
  "less_SemanticVersion v w \<longleftrightarrow> v \<le> w \<and> \<not> w \<le> v"

instance
  by standard (auto simp: less_eq_SemanticVersion_def less_SemanticVersion_def SemanticVersion.expand)

end

definition satisfies_min :: "SemanticVersion \<Rightarrow> SemanticVersion \<Rightarrow> bool" where
  "satisfies_min v lo \<longleftrightarrow> v \<ge> lo"

definition satisfies_range :: "SemanticVersion \<Rightarrow> SemanticVersion \<Rightarrow> SemanticVersion \<Rightarrow> bool" where
  "satisfies_range v lo hi \<longleftrightarrow> v \<ge> lo \<and> v \<le> hi"

definition SemanticVersion_to_cbor :: "SemanticVersion \<Rightarrow> Value" where
  "SemanticVersion_to_cbor v = int_map [(1, Unsigned (ucast (sv_major v))), (2, Unsigned (ucast (sv_minor v))), (3, Unsigned (ucast (sv_patch v)))]"

definition SemanticVersion_from_cbor :: "Value \<Rightarrow> IdentityErrorV1 + SemanticVersion" where
  "SemanticVersion_from_cbor val = Inr (SemanticVersion (ucast (uint_or_zero (int_map_get val 1)))
     (ucast (uint_or_zero (int_map_get val 2))) (ucast (uint_or_zero (int_map_get val 3))))"

record CapabilityVersionExtension =
  cv_version :: u64
  cv_versions :: "(ustring, SemanticVersion) hash_map"

definition CapabilityVersionExtension_NAMESPACE :: ustring where
  "CapabilityVersionExtension_NAMESPACE = str ''aafp.capver.v1''"

definition CapabilityVersionExtension_to_cbor ::
  "((ustring, SemanticVersion) hash_map \<Rightarrow> (ustring \<times> SemanticVersion) list) \<Rightarrow> CapabilityVersionExtension \<Rightarrow> Value" where
  "CapabilityVersionExtension_to_cbor ord x = int_map [(1, Array
     (map (\<lambda>(name, ver). int_map [(1, TextString name), (2, SemanticVersion_to_cbor ver)]) (ord (cv_versions x))))]"

fun read_versions :: "Value list \<Rightarrow> (ustring, SemanticVersion) hash_map \<Rightarrow> IdentityErrorV1 + (ustring, SemanticVersion) hash_map" where
  "read_versions [] versions = Inr versions"
| "read_versions (entry # arr) versions =
     (case int_map_get entry 1 of
        Some (TextString s) \<Rightarrow>
          (case int_map_get entry 2 of
             Some ver_val \<Rightarrow> bind_result (SemanticVersion_from_cbor ver_val) (\<lambda>ver. read_versions arr (hm_insert s ver versions))
           | None \<Rightarrow> read_versions arr versions)
      | _ \<Rightarrow> read_versions arr versions)"

definition CapabilityVersionExtension_from_cbor :: "Value \<Rightarrow> IdentityErrorV1 + CapabilityVersionExtension" where
  "CapabilityVersionExtension_from_cbor val =
     bind_result (case int_map_get val 1 of Some (Array arr) \<Rightarrow> read_versions arr [] | _ \<Rightarrow> Inr []) (\<lambda>versions.
     Inr \<lparr>cv_version = 1, cv_versions = versions\<rparr>)"

definition capver_ok ::
  "((ustring, SemanticVersion) hash_map \<Rightarrow> (ustring \<times> SemanticVersion) list) \<Rightarrow> CapabilityVersionExtension \<Rightarrow> bool" where
  "capver_ok ord x \<longleftrightarrow> iteration_order ord \<and> hm_ok (cv_versions x) \<and> list_all (\<lambda>(k, _). utf8_valid k) (cv_versions x)"

lemma version_read [simp]: "SemanticVersion_from_cbor (wire (SemanticVersion_to_cbor v)) = Inr v"
  "SemanticVersion_from_cbor (SemanticVersion_to_cbor v) = Inr v"
  by (simp_all add: SemanticVersion_from_cbor_def SemanticVersion_to_cbor_def int_map_get_wire)
    (simp add: int_map_def int_map_get_IntMap)

lemma read_versions_entries:
  assumes "\<And>name ver. (name, ver) \<in> set es \<Longrightarrow>
      int_map_get (f (name, ver)) 1 = Some (TextString name) \<and>
      (\<exists>v. int_map_get (f (name, ver)) 2 = Some v \<and> SemanticVersion_from_cbor v = Inr ver)"
    and "distinct (map fst (m @ es))"
  shows "read_versions (map f es) m = Inr (m @ es)"
  using assms
proof (induction es arbitrary: m)
  case (Cons e es)
  obtain name ver where e: "e = (name, ver)" by (cases e)
  then obtain v where "int_map_get (f e) 1 = Some (TextString name)" "int_map_get (f e) 2 = Some v"
    "SemanticVersion_from_cbor v = Inr ver" using Cons.prems(1) [of name ver] by auto
  moreover have "hm_insert name ver m = m @ [(name, ver)]" using Cons.prems(2) e by (intro hm_insert_fresh) auto
  moreover have "read_versions (map f es) (m @ [e]) = Inr ((m @ [e]) @ es)"
    using Cons.prems by (intro Cons.IH) auto
  ultimately show ?case using e by simp
qed simp

interpretation capver: record_extension CapabilityVersionExtension_NAMESPACE 1 "CapabilityVersionExtension_to_cbor ord"
  CapabilityVersionExtension_from_cbor "capver_ok ord" "\<lambda>x. \<lparr>cv_version = 1, cv_versions = ord (cv_versions x)\<rparr>" for ord
proof
  show "utf8_valid CapabilityVersionExtension_NAMESPACE" by code_simp
  fix x assume x: "capver_ok ord x"
  then have s: "set (ord (cv_versions x)) = set (cv_versions x)" by (simp add: capver_ok_def iterated_map)
  have d: "distinct (map fst ([] @ ord (cv_versions x)))"
    using x iterated_map(1) by (auto simp: capver_ok_def hm_ok_def)
  show "wire_ok 3 (CapabilityVersionExtension_to_cbor ord x)"
    using x by (auto simp: CapabilityVersionExtension_to_cbor_def SemanticVersion_to_cbor_def s capver_ok_def list_all_iff)
  show "CapabilityVersionExtension_from_cbor (wire (CapabilityVersionExtension_to_cbor ord x)) =
      Inr \<lparr>cv_version = 1, cv_versions = ord (cv_versions x)\<rparr>"
    using read_versions_entries [OF _ d, of "\<lambda>e. wire (case e of (name, ver) \<Rightarrow> int_map [(1, TextString name), (2, SemanticVersion_to_cbor ver)])"]
    by (simp add: CapabilityVersionExtension_from_cbor_def CapabilityVersionExtension_to_cbor_def int_map_get_wire comp_def)
  show "CapabilityVersionExtension_from_cbor (CapabilityVersionExtension_to_cbor ord x) =
      Inr \<lparr>cv_version = 1, cv_versions = ord (cv_versions x)\<rparr>"
    using read_versions_entries [OF _ d, of "\<lambda>(name, ver). int_map [(1, TextString name), (2, SemanticVersion_to_cbor ver)]"]
    by (simp add: CapabilityVersionExtension_from_cbor_def CapabilityVersionExtension_to_cbor_def int_map_def int_map_get_IntMap)
qed

section \<open>Heartbeats\<close>

definition DEFAULT_HEARTBEAT_INTERVAL_SECS :: u32 where
  "DEFAULT_HEARTBEAT_INTERVAL_SECS = 300"

definition STALENESS_MULTIPLIER :: u64 where
  "STALENESS_MULTIPLIER = 3"

record HeartbeatExtension =
  hx_version :: u64
  hx_interval_secs :: u32
  hx_last_heartbeat :: u64
  hx_heartbeat_sig :: bytes

definition HeartbeatExtension_NAMESPACE :: ustring where
  "HeartbeatExtension_NAMESPACE = str ''aafp.heartbeat.v1''"

definition HeartbeatExtension_to_cbor :: "HeartbeatExtension \<Rightarrow> Value" where
  "HeartbeatExtension_to_cbor x = int_map
     [(1, Unsigned (ucast (hx_interval_secs x))), (2, Unsigned (hx_last_heartbeat x)), (3, ByteString (hx_heartbeat_sig x))]"

definition HeartbeatExtension_from_cbor :: "Value \<Rightarrow> IdentityErrorV1 + HeartbeatExtension" where
  "HeartbeatExtension_from_cbor val = Inr \<lparr>hx_version = 1, hx_interval_secs = ucast (uint_or_zero (int_map_get val 1)),
     hx_last_heartbeat = uint_or_zero (int_map_get val 2),
     hx_heartbeat_sig = (case int_map_get val 3 of Some (ByteString b) \<Rightarrow> b | _ \<Rightarrow> [])\<rparr>"

interpretation heartbeat: record_extension HeartbeatExtension_NAMESPACE 1 HeartbeatExtension_to_cbor HeartbeatExtension_from_cbor
  "\<lambda>_. True" "\<lambda>x. x\<lparr>hx_version := 1\<rparr>"
proof
  show "utf8_valid HeartbeatExtension_NAMESPACE" by code_simp
  show "HeartbeatExtension_from_cbor (HeartbeatExtension_to_cbor x) = Inr (x\<lparr>hx_version := 1\<rparr>)" for x
    by (simp add: HeartbeatExtension_to_cbor_def HeartbeatExtension_from_cbor_def int_map_def int_map_get_IntMap)
qed (simp_all add: HeartbeatExtension_to_cbor_def HeartbeatExtension_from_cbor_def int_map_get_wire)

record HeartbeatUpdate =
  hb_agent_id :: bytes
  hb_timestamp :: u64
  hb_signature :: bytes

definition heartbeat_input :: "bytes \<Rightarrow> u64 \<Rightarrow> bytes" where
  "heartbeat_input agent_id timestamp = str ''aafp-heartbeat'' @ agent_id @ u64_to_be_bytes timestamp"

definition sign_heartbeat :: "crypto \<Rightarrow> bytes \<Rightarrow> bytes \<Rightarrow> u64 \<Rightarrow> bytes \<Rightarrow> HeartbeatUpdate option option" where
  "sign_heartbeat cr rnd agent_id timestamp secret_key =
     (case MlDsa65SecretKey_from_bytes cr secret_key of
        Inl _ \<Rightarrow> Some None
      | Inr sk \<Rightarrow> map_option (\<lambda>sig. Some \<lparr>hb_agent_id = agent_id, hb_timestamp = timestamp, hb_signature = sig\<rparr>)
          (MlDsa65_sign cr sk (heartbeat_input agent_id timestamp) rnd))"

definition verify_heartbeat :: "crypto \<Rightarrow> bytes \<Rightarrow> HeartbeatUpdate \<Rightarrow> bool" where
  "verify_heartbeat cr public_key hb =
     (case MlDsa65PublicKey_from_bytes cr public_key of
        Inl _ \<Rightarrow> False
      | Inr pk \<Rightarrow>
          (case MlDsa65Signature_from_bytes (hb_signature hb) of
             Inl _ \<Rightarrow> False
           | Inr sig \<Rightarrow> MlDsa65_verify cr pk (heartbeat_input (hb_agent_id hb) (hb_timestamp hb)) sig))"

record HeartbeatTracker =
  last_seen :: "(bytes, u64 \<times> u32) hash_map"

definition HeartbeatTracker_new :: HeartbeatTracker where
  "HeartbeatTracker_new = \<lparr>last_seen = []\<rparr>"

definition update_with_interval :: "HeartbeatUpdate \<Rightarrow> u32 \<Rightarrow> HeartbeatTracker \<Rightarrow> bool \<times> HeartbeatTracker" where
  "update_with_interval hb interval_secs t =
     (case hm_get (last_seen t) (hb_agent_id hb) of
        Some (existing_ts, _) \<Rightarrow>
          if hb_timestamp hb \<le> existing_ts then (False, t)
          else (True, t\<lparr>last_seen := hm_insert (hb_agent_id hb) (hb_timestamp hb, interval_secs) (last_seen t)\<rparr>)
      | None \<Rightarrow> (True, t\<lparr>last_seen := hm_insert (hb_agent_id hb) (hb_timestamp hb, interval_secs) (last_seen t)\<rparr>))"

definition HeartbeatTracker_update :: "HeartbeatUpdate \<Rightarrow> HeartbeatTracker \<Rightarrow> bool \<times> HeartbeatTracker" where
  "HeartbeatTracker_update hb t =
     (case hm_get (last_seen t) (hb_agent_id hb) of
        Some (existing_ts, _) \<Rightarrow>
          if hb_timestamp hb \<le> existing_ts then (False, t)
          else (True, t\<lparr>last_seen := hm_insert (hb_agent_id hb) (hb_timestamp hb, DEFAULT_HEARTBEAT_INTERVAL_SECS) (last_seen t)\<rparr>)
      | None \<Rightarrow> (True, t\<lparr>last_seen := hm_insert (hb_agent_id hb) (hb_timestamp hb, DEFAULT_HEARTBEAT_INTERVAL_SECS) (last_seen t)\<rparr>))"

definition is_stale :: "HeartbeatTracker \<Rightarrow> bytes \<Rightarrow> u64 \<Rightarrow> bool" where
  "is_stale t agent_id now =
     (case hm_get (last_seen t) agent_id of
        Some (ts, interval) \<Rightarrow> now > sat_add ts (sat_mul (ucast interval) STALENESS_MULTIPLIER)
      | None \<Rightarrow> False)"

definition last_heartbeat :: "HeartbeatTracker \<Rightarrow> bytes \<Rightarrow> u64 option" where
  "last_heartbeat t agent_id = map_option fst (hm_get (last_seen t) agent_id)"

definition evict_stale ::
  "((bytes, u64 \<times> u32) hash_map \<Rightarrow> (bytes \<times> u64 \<times> u32) list) \<Rightarrow> u64 \<Rightarrow> HeartbeatTracker \<Rightarrow> nat \<times> HeartbeatTracker" where
  "evict_stale ord now t =
     (let cutoff = sat_sub now 86400;
          to_remove = map fst (filter (\<lambda>(_, (ts, _)). ts < cutoff) (ord (last_seen t)))
      in (length to_remove, t\<lparr>last_seen := fold hm_remove to_remove (last_seen t)\<rparr>))"

lemma heartbeat_signed_verifies:
  assumes "keypair_ok cr kp"
  shows "\<exists>hb. sign_heartbeat cr rnd agent_id ts (kp_secret_key kp) = Some (Some hb) \<and> hb_agent_id hb = agent_id \<and>
    hb_timestamp hb = ts \<and> verify_heartbeat cr (kp_public_key kp) hb"
  using assms
  by (simp add: sign_heartbeat_def verify_heartbeat_def keypair_ok_def MlDsa65SecretKey_from_bytes_def MlDsa65_sign_def
      MlDsa65PublicKey_from_bytes_def MlDsa65Signature_from_bytes_def MlDsa65_verify_def)

text \<open>The signature covers the agent and the time: ids have a fixed length, so no two heartbeats share the input.\<close>

lemma heartbeat_input_inj:
  assumes "length a = length b"
  shows "heartbeat_input a s = heartbeat_input b t \<longleftrightarrow> a = b \<and> s = t"
proof -
  have "u64_to_be_bytes s = u64_to_be_bytes t \<Longrightarrow> s = t" by (metis be_val_u64 word_unat_eq_iff)
  then show ?thesis using assms by (auto simp: heartbeat_input_def)
qed

text \<open>The tracker over a run of heartbeats and evictions.\<close>

lemma update_default: "HeartbeatTracker_update hb = update_with_interval hb DEFAULT_HEARTBEAT_INTERVAL_SECS"
  by (rule ext) (simp add: HeartbeatTracker_update_def update_with_interval_def)

lemma last_heartbeat_update:
  "last_heartbeat (snd (update_with_interval hb i t)) a =
     (if a = hb_agent_id hb then Some (case last_heartbeat t a of None \<Rightarrow> hb_timestamp hb | Some ts \<Rightarrow> max ts (hb_timestamp hb))
      else last_heartbeat t a)"
  by (auto simp: update_with_interval_def last_heartbeat_def hm.get_put max_def not_less split: option.split)

lemma update_accepted:
  "fst (update_with_interval hb i t) \<longleftrightarrow> (case last_heartbeat t (hb_agent_id hb) of None \<Rightarrow> True | Some ts \<Rightarrow> ts < hb_timestamp hb)"
  by (auto simp: update_with_interval_def last_heartbeat_def split: option.split)

lemma is_stale_iff:
  "is_stale t a now \<longleftrightarrow> (\<exists>ts i. hm_get (last_seen t) a = Some (ts, i) \<and> unat now > unat ts + 3 * unat i)"
proof -
  have "unat (sat_mul (ucast i) STALENESS_MULTIPLIER) = 3 * unat i" for i :: u32
    using unat_less [of i] by (simp add: unat_sat_mul STALENESS_MULTIPLIER_def unsigned_ucast_eq take_bit_nat_eq_self min_def)
  then show ?thesis
    using unat_u64_le [of now] by (auto simp: is_stale_def word_less_nat_alt unat_sat_add split: option.split)
qed

lemma evict_stale_exact:
  assumes "hm_ok (last_seen t)" and "iteration_order ord" and "evict_stale ord now t = (n, t')"
  shows "hm_get (last_seen t') a = (case hm_get (last_seen t) a of
      Some (ts, i) \<Rightarrow> if unat ts + 86400 < unat now then None else Some (ts, i) | None \<Rightarrow> None)"
    and "n + hm_len (last_seen t') = hm_len (last_seen t)"
proof -
  define gone where "gone = map fst (filter (\<lambda>(_, (ts, _)). ts < sat_sub now 86400) (ord (last_seen t)))"
  have o: "mset (ord (last_seen t)) = mset (last_seen t)" using assms(2) by (simp add: iteration_order_def)
  have n: "n = length gone" and t': "last_seen t' = fold hm_remove gone (last_seen t)"
    using assms(3) by (auto simp: evict_stale_def gone_def Let_def)
  have gone: "k \<in> set gone \<longleftrightarrow> (\<exists>ts i. hm_get (last_seen t) k = Some (ts, i) \<and> unat ts + 86400 < unat now)" for k
    using mset_eq_setD [OF o] assms(1) by (force simp: gone_def hm_get_iff word_less_nat_alt unat_sat_sub)
  show "hm_get (last_seen t') a = (case hm_get (last_seen t) a of
      Some (ts, i) \<Rightarrow> if unat ts + 86400 < unat now then None else Some (ts, i) | None \<Rightarrow> None)"
    using gone [of a] by (auto simp: t' hm.get_del_all split: option.split)
  have "distinct (map fst (ord (last_seen t)))"
    using assms(1) o unfolding hm_ok_def by (metis mset_eq_imp_distinct_iff mset_map)
  then have "distinct gone" by (simp add: gone_def distinct_map_filter)
  moreover have "\<forall>k \<in> set gone. hm_get (last_seen t) k \<noteq> None" using gone by auto
  ultimately show "n + hm_len (last_seen t') = hm_len (last_seen t)"
    using hm.len_del_all [OF assms(1)] by (simp add: n t' add.commute)
qed

lemma last_heartbeat_run:
  "last_heartbeat (fold (\<lambda>(hb, i). snd \<circ> update_with_interval hb i) hbs t) a =
     fold (\<lambda>ts seen. Some (case seen of None \<Rightarrow> ts | Some s \<Rightarrow> max s ts))
       (map (hb_timestamp \<circ> fst) (filter (\<lambda>(hb, _). hb_agent_id hb = a) hbs)) (last_heartbeat t a)"
  by (induction hbs arbitrary: t) (auto simp: last_heartbeat_update split: option.split)

lemma fold_latest:
  "fold (\<lambda>ts seen. Some (case seen of None \<Rightarrow> ts | Some s \<Rightarrow> max s ts)) tss (Some s) = Some (Max (insert s (set tss)))"
proof (induction tss arbitrary: s)
  case (Cons a tss)
  have "Max (insert (max s a) (set tss)) = Max (insert s (insert a (set tss)))"
    by (cases "tss = []") (simp_all add: max.assoc)
  with Cons show ?case by simp
qed simp

text \<open>
  Whatever the order in which heartbeats arrive, the tracker knows the latest: after any run of
  heartbeats of any agents, the last heartbeat of an agent is the greatest timestamp among its
  own, and there is none exactly when it sent none; a replayed or delayed heartbeat is refused.
\<close>

lemma latest_heartbeat:
  "(let sent = map (hb_timestamp \<circ> fst) (filter (\<lambda>(hb, _). hb_agent_id hb = a) hbs);
        t = fold (\<lambda>(hb, i). snd \<circ> update_with_interval hb i) hbs HeartbeatTracker_new
    in last_heartbeat t a = (if sent = [] then None else Some (Max (set sent))) \<and>
       (\<forall>hb i. hb_agent_id hb = a \<and> (\<exists>ts \<in> set sent. hb_timestamp hb \<le> ts) \<longrightarrow> update_with_interval hb i t = (False, t)))"
proof -
  define sent where "sent = map (hb_timestamp \<circ> fst) (filter (\<lambda>(hb, _). hb_agent_id hb = a) hbs)"
  define t where "t = fold (\<lambda>(hb, i). snd \<circ> update_with_interval hb i) hbs HeartbeatTracker_new"
  have "last_heartbeat HeartbeatTracker_new a = None" by (simp add: last_heartbeat_def HeartbeatTracker_new_def)
  then have last: "last_heartbeat t a = (if sent = [] then None else Some (Max (set sent)))"
    by (cases sent) (simp_all add: t_def last_heartbeat_run fold_latest flip: sent_def)
  moreover have "update_with_interval hb i t = (False, t)"
    if "hb_agent_id hb = a" and "ts \<in> set sent" and "hb_timestamp hb \<le> ts" for hb i ts
  proof -
    have "hb_timestamp hb \<le> Max (set sent)" using that by (meson Max_ge List.finite_set order_trans)
    moreover have "sent \<noteq> []" using that(2) by auto
    ultimately show ?thesis using last that(1) by (auto simp: update_with_interval_def last_heartbeat_def)
  qed
  ultimately show ?thesis by (auto simp: Let_def simp flip: sent_def t_def)
qed

section \<open>Extensions of a published record\<close>

definition advertise ::
  "((ustring, SemanticVersion) hash_map \<Rightarrow> (ustring \<times> SemanticVersion) list) \<Rightarrow>
   GeoExtension \<Rightarrow> PerformanceExtension \<Rightarrow> CostExtension \<Rightarrow> ReputationExtension \<Rightarrow> SemanticExtension \<Rightarrow>
   CapabilityVersionExtension \<Rightarrow> HeartbeatExtension \<Rightarrow> AgentRecord \<Rightarrow> AgentRecord" where
  "advertise ord g p c q s v h =
     set_extension HeartbeatExtension_NAMESPACE 1 HeartbeatExtension_to_cbor h \<circ>
     set_extension CapabilityVersionExtension_NAMESPACE 1 (CapabilityVersionExtension_to_cbor ord) v \<circ>
     set_extension SemanticExtension_NAMESPACE 1 SemanticExtension_to_cbor s \<circ>
     set_extension ReputationExtension_NAMESPACE 1 ReputationExtension_to_cbor q \<circ>
     set_extension CostExtension_NAMESPACE 1 CostExtension_to_cbor c \<circ>
     set_extension PerformanceExtension_NAMESPACE 1 PerformanceExtension_to_cbor p \<circ>
     set_extension GeoExtension_NAMESPACE 1 GeoExtension_to_cbor g"

lemma namespaces_distinct: "distinct [GeoExtension_NAMESPACE, PerformanceExtension_NAMESPACE, CostExtension_NAMESPACE,
    ReputationExtension_NAMESPACE, SemanticExtension_NAMESPACE, CapabilityVersionExtension_NAMESPACE, HeartbeatExtension_NAMESPACE]"
  by code_simp

definition advertised_ok where
  "advertised_ok ord g q s v \<longleftrightarrow> geo_ok g \<and> texts_ok [] [rp_attestation_refs q, rp_sources q] \<and> semantic_ok s \<and> capver_ok ord v"

lemma advertise_ok:
  "record_ok r \<Longrightarrow> advertised_ok ord g q s v \<Longrightarrow> record_ok (advertise ord g p c q s v h r)"
  unfolding advertise_def comp_def advertised_ok_def
  by (intro heartbeat.set_ok capver.set_ok semantic.set_ok reputation.set_ok cost.set_ok perf.set_ok geo.set_ok) simp_all

text \<open>
  What an agent advertises is what others read: after setting its seven extensions on a
  representable record, whatever extensions the record had, everyone who receives the encoded record decodes it
  and gets from it each of the extensions as it was set, with the format's version; none
  replaces or hides another. The versions of capabilities come back as the same map.
\<close>

lemma extensions_received:
  assumes "record_ok r" and "advertised_ok ord g q s v" and "r' = advertise ord g p c q s v h r"
    and "encode (AgentRecord_to_cbor r') = Inr bs" and "fits (bs @ rest)"
  shows "\<exists>val r''. decode (bs @ rest) = Inr (val, length bs) \<and> AgentRecord_from_cbor val = Inr r'' \<and>
    get_extension GeoExtension_NAMESPACE 1 GeoExtension_from_cbor r'' = Some (g\<lparr>geo_version := 1\<rparr>) \<and>
    get_extension PerformanceExtension_NAMESPACE 1 PerformanceExtension_from_cbor r'' = Some (p\<lparr>pf_version := 1\<rparr>) \<and>
    get_extension CostExtension_NAMESPACE 1 CostExtension_from_cbor r'' = Some (c\<lparr>cost_version := 1\<rparr>) \<and>
    get_extension ReputationExtension_NAMESPACE 1 ReputationExtension_from_cbor r'' = Some (q\<lparr>rp_version := 1\<rparr>) \<and>
    get_extension SemanticExtension_NAMESPACE 1 SemanticExtension_from_cbor r'' = Some (s\<lparr>sem_version := 1\<rparr>) \<and>
    (\<exists>v'. get_extension CapabilityVersionExtension_NAMESPACE 1 CapabilityVersionExtension_from_cbor r'' = Some v' \<and>
       hm_get (cv_versions v') = hm_get (cv_versions v)) \<and>
    get_extension HeartbeatExtension_NAMESPACE 1 HeartbeatExtension_from_cbor r'' = Some (h\<lparr>hx_version := 1\<rparr>)"
proof -
  have ok: "record_ok r'" using assms(1,2) by (simp add: assms(3) advertise_ok)
  obtain val where "decode (bs @ rest) = Inr (val, length bs)" "AgentRecord_from_cbor val = Inr (record_norm r')"
    using record_message.decode_sent [OF ok assms(4,5)] by blast
  moreover have
    "map_of (ar_extensions r') GeoExtension_NAMESPACE = Some (to_extension_cbor 1 GeoExtension_to_cbor g)"
    "map_of (ar_extensions r') PerformanceExtension_NAMESPACE = Some (to_extension_cbor 1 PerformanceExtension_to_cbor p)"
    "map_of (ar_extensions r') CostExtension_NAMESPACE = Some (to_extension_cbor 1 CostExtension_to_cbor c)"
    "map_of (ar_extensions r') ReputationExtension_NAMESPACE = Some (to_extension_cbor 1 ReputationExtension_to_cbor q)"
    "map_of (ar_extensions r') SemanticExtension_NAMESPACE = Some (to_extension_cbor 1 SemanticExtension_to_cbor s)"
    "map_of (ar_extensions r') CapabilityVersionExtension_NAMESPACE = Some (to_extension_cbor 1 (CapabilityVersionExtension_to_cbor ord) v)"
    "map_of (ar_extensions r') HeartbeatExtension_NAMESPACE = Some (to_extension_cbor 1 HeartbeatExtension_to_cbor h)"
    using namespaces_distinct by (simp_all add: assms(3) advertise_def set_extension_update update_conv' not_sym)
  moreover have "hm_get (ord (cv_versions v)) = hm_get (cv_versions v)"
    using assms(2) by (simp add: advertised_ok_def capver_ok_def iterated_map)
  ultimately show ?thesis
    using assms(2)
    by (intro exI [of _ val] exI [of _ "record_norm r'"])
      (simp add: advertised_ok_def geo.get_received [OF ok] perf.get_received [OF ok] cost.get_received [OF ok]
        reputation.get_received [OF ok] semantic.get_received [OF ok] capver.get_received [OF ok] heartbeat.get_received [OF ok])
qed

definition example_geo :: GeoExtension where
  "example_geo = \<lparr>geo_version = 1, geo_country = Some (str ''DE''), geo_region = None, geo_lat_micro_deg = Some (- 33868800),
     geo_lon_micro_deg = Some 151209300, geo_continent = None, geo_data_residency = [str ''EU'']\<rparr>"

definition example_advertised :: AgentRecord where
  "example_advertised = advertise id example_geo \<lparr>pf_version = 1, pf_avg_latency_ms = Some 20, pf_p99_latency_ms = None,
     pf_throughput_rps = None, pf_max_batch_size = None, pf_uptime_bps = None, pf_window_secs = 0, pf_updated_at = 0\<rparr>
     \<lparr>cost_version = 1, cost_per_invocation_micro_usd = Some 5, cost_per_token_micro_usd = None, cost_has_free_tier = True\<rparr>
     \<lparr>rp_version = 1, rp_attestation_refs = [], rp_self_claimed_score = Some 90, rp_sources = []\<rparr>
     \<lparr>sem_version = 1, sem_languages = [str ''en''], sem_modalities = [], sem_hardware = [], sem_frameworks = [], sem_precision = []\<rparr>
     \<lparr>cv_version = 1, cv_versions = [(str ''chat'', SemanticVersion 4 1 0)]\<rparr>
     \<lparr>hx_version = 1, hx_interval_secs = 300, hx_last_heartbeat = 1000, hx_heartbeat_sig = []\<rparr> example_record"

lemma example_advertised_ok:
  "advertised_ok id example_geo \<lparr>rp_version = 1, rp_attestation_refs = [], rp_self_claimed_score = Some 90, rp_sources = []\<rparr>
     \<lparr>sem_version = 1, sem_languages = [str ''en''], sem_modalities = [], sem_hardware = [], sem_frameworks = [], sem_precision = []\<rparr>
     \<lparr>cv_version = 1, cv_versions = [(str ''chat'', SemanticVersion 4 1 0)]\<rparr>"
proof -
  have "utf8_valid (str ''DE'')" "utf8_valid (str ''EU'')" "utf8_valid (str ''en'')" "utf8_valid (str ''chat'')" by code_simp+
  then show ?thesis
    by (simp add: advertised_ok_def geo_ok_def texts_ok_def semantic_ok_def capver_ok_def example_geo_def iteration_order_def hm_ok_def)
qed

lemma length_str [simp]: "length (str s) = length s"
  by (simp add: str_def)

lemma size_bound_update:
  "sum_list (map (\<lambda>(k, v). 9 + length k + size_bound v) (AList.update k c es)) \<le>
     9 + length k + size_bound c + sum_list (map (\<lambda>(k, v). 9 + length k + size_bound v) es)"
  by (induction es) auto

lemma set_extension_size:
  assumes "sum_list (map (\<lambda>(k, v). 9 + length k + size_bound v) (ar_extensions r)) \<le> n" and "length ns \<le> 20" and "size_bound (f x) \<le> 200"
  shows "ar_extensions (set_extension ns v f x r) \<noteq> [] \<and>
    sum_list (map (\<lambda>(k, v). 9 + length k + size_bound v) (ar_extensions (set_extension ns v f x r))) \<le> n + 300"
proof -
  have "size_bound (to_extension_cbor v f x) = 36 + size_bound (f x)" by (simp add: to_extension_cbor_def int_map_def)
  then have "sum_list (map (\<lambda>(k, v). 9 + length k + size_bound v) (ar_extensions (set_extension ns v f x r))) \<le> n + 300"
    using size_bound_update [of ns "to_extension_cbor v f x" "ar_extensions r"] assms by (simp add: set_extension_update)
  then show ?thesis by (simp add: set_extension_update update_nonempty)
qed

lemma namespace_lengths:
  "length GeoExtension_NAMESPACE \<le> 20" "length PerformanceExtension_NAMESPACE \<le> 20"
  "length CostExtension_NAMESPACE \<le> 20" "length ReputationExtension_NAMESPACE \<le> 20" "length SemanticExtension_NAMESPACE \<le> 20"
  "length CapabilityVersionExtension_NAMESPACE \<le> 20" "length HeartbeatExtension_NAMESPACE \<le> 20"
  by (simp_all add: GeoExtension_NAMESPACE_def PerformanceExtension_NAMESPACE_def CostExtension_NAMESPACE_def
      ReputationExtension_NAMESPACE_def SemanticExtension_NAMESPACE_def CapabilityVersionExtension_NAMESPACE_def HeartbeatExtension_NAMESPACE_def)

lemma example_advertised_size:
  "ar_extensions example_advertised \<noteq> [] \<and>
     sum_list (map (\<lambda>(k, v). 9 + length k + size_bound v) (ar_extensions example_advertised)) \<le>
       100 + 300 + 300 + 300 + 300 + 300 + 300 + 300"
  unfolding example_advertised_def advertise_def comp_apply
  by (intro set_extension_size [THEN conjunct2] set_extension_size namespace_lengths)
    (simp_all add: example_record_def int_map_def GeoExtension_to_cbor_def PerformanceExtension_to_cbor_def CostExtension_to_cbor_def
      ReputationExtension_to_cbor_def SemanticExtension_to_cbor_def CapabilityVersionExtension_to_cbor_def
      SemanticVersion_to_cbor_def HeartbeatExtension_to_cbor_def example_geo_def text_array_def signed_value_def)

lemma extensions_received_example:
  "\<exists>bs val r'' v'. encode (AgentRecord_to_cbor example_advertised) = Inr bs \<and> decode bs = Inr (val, length bs) \<and>
     AgentRecord_from_cbor val = Inr r'' \<and>
     get_extension GeoExtension_NAMESPACE 1 GeoExtension_from_cbor r'' = Some (example_geo\<lparr>geo_version := 1\<rparr>) \<and>
     get_extension CapabilityVersionExtension_NAMESPACE 1 CapabilityVersionExtension_from_cbor r'' = Some v' \<and>
     hm_get (cv_versions v') (str ''chat'') = Some (SemanticVersion 4 1 0)"
proof -
  have "fits (cbor_bytes (AgentRecord_to_cbor example_advertised) @ [])"
    using example_advertised_size
    by (intro fits_small) (simp add: AgentRecord_to_cbor_def example_advertised_def advertise_def set_extension_other_fields
        example_record_def AgentRecord_new_def int_map_def str_map_def CapabilityDescriptor_to_cbor_def
        CapabilityDescriptor_new_def with_metadata_def RECORD_TYPE_V1_def str_def AgentId_from_public_key_def example_crypto_def)
  from extensions_received [OF example_record_ok example_advertised_ok example_advertised_def encode_eq this]
  obtain val r'' v' where "decode (cbor_bytes (AgentRecord_to_cbor example_advertised)) =
      Inr (val, length (cbor_bytes (AgentRecord_to_cbor example_advertised)))" "AgentRecord_from_cbor val = Inr r''"
    "get_extension GeoExtension_NAMESPACE 1 GeoExtension_from_cbor r'' = Some (example_geo\<lparr>geo_version := 1\<rparr>)"
    "get_extension CapabilityVersionExtension_NAMESPACE 1 CapabilityVersionExtension_from_cbor r'' = Some v'"
    "hm_get (cv_versions v') = hm_get [(str ''chat'', SemanticVersion 4 1 0)]" by auto
  moreover have "hm_get [(str ''chat'', SemanticVersion 4 1 0)] (str ''chat'') = Some (SemanticVersion 4 1 0)"
    by (simp add: hm_get_def)
  ultimately show ?thesis unfolding encode_eq by metis
qed

end
