(* ===== verification/Ca_Certificate.thy ===== *)
theory Ca_Certificate
  imports Revocation Record_Extensions
begin

text \<open>
  Certificates of certificate authorities, \<open>crates/aafp-identity/src/ca_certificate.rs\<close>: issuing, the CBOR
  form, verification of one certificate and of a chain against trusted roots and a revocation store.
  Validation of a chain is characterised exactly. The lemmas record that the refusal of self-signed certificates is
  never reached and that the holder of any certificate can act as an authority.
\<close>

section \<open>Certificates\<close>

definition CA_DOMAIN_SEPARATOR :: bytes where
  "CA_DOMAIN_SEPARATOR = str ''aafp-v1-ca''"

definition CA_CERT_TYPE_V1 :: ustring where
  "CA_CERT_TYPE_V1 = str ''aafp-ca-cert-v1''"

datatype CaError =
    CaCbor CborError
  | CaSignature
  | CaExpired
  | CaNotYetValid
  | CaMissing string
  | CaInvalidType ustring
  | CaBrokenChain nat nat
  | CaAgentIdMismatch
  | CaPublicKey
  | CaSignatureLength
  | CaNotTrusted ustring
  | CaRevoked
  | CaSelfSignedRejected
  | CaIdentity IdentityErrorV1

record CaCertificate =
  ca_cert_type :: ustring
  ca_agent_id :: bytes
  ca_public_key :: bytes
  ca_issuer :: ustring
  ca_issuer_public_key :: bytes
  ca_serial_number :: u64
  ca_not_before :: u64
  ca_not_after :: u64
  ca_capabilities :: "ustring list"
  ca_signature :: bytes

definition CaCertificate_to_cbor_without_sig :: "CaCertificate \<Rightarrow> Value" where
  "CaCertificate_to_cbor_without_sig c = int_map
     [(1, TextString (ca_cert_type c)), (2, ByteString (ca_agent_id c)), (3, ByteString (ca_public_key c)),
      (4, TextString (ca_issuer c)), (5, ByteString (ca_issuer_public_key c)), (6, Unsigned (ca_serial_number c)),
      (7, Unsigned (ca_not_before c)), (8, Unsigned (ca_not_after c)), (9, Array (map TextString (ca_capabilities c)))]"

definition CaCertificate_signature_input :: "CaCertificate \<Rightarrow> bytes" where
  "CaCertificate_signature_input c = statement_input CA_DOMAIN_SEPARATOR (CaCertificate_to_cbor_without_sig c)"

definition CaCertificate_issue ::
  "crypto \<Rightarrow> bytes \<Rightarrow> bytes \<Rightarrow> bytes \<Rightarrow> ustring \<Rightarrow> bytes \<Rightarrow> bytes \<Rightarrow> u64 \<Rightarrow> u64 \<Rightarrow> u64 \<Rightarrow> ustring list \<Rightarrow> CaCertificate option" where
  "CaCertificate_issue cr rnd agent_id agent_public_key issuer_name issuer_public_key ca_secret_key serial_number not_before not_after capabilities =
     (let cert = \<lparr>ca_cert_type = CA_CERT_TYPE_V1, ca_agent_id = agent_id, ca_public_key = agent_public_key, ca_issuer = issuer_name,
            ca_issuer_public_key = issuer_public_key, ca_serial_number = serial_number, ca_not_before = not_before,
            ca_not_after = not_after, ca_capabilities = capabilities, ca_signature = []\<rparr>
      in map_option (\<lambda>sig. cert\<lparr>ca_signature := sig\<rparr>) (MlDsa65_sign cr ca_secret_key (CaCertificate_signature_input cert) rnd))"

definition CaCertificate_to_cbor :: "CaCertificate \<Rightarrow> Value" where
  "CaCertificate_to_cbor c =
     (let entries = (case CaCertificate_to_cbor_without_sig c of IntMap e \<Rightarrow> e | _ \<Rightarrow> [])
      in IntMap (entries @ [(10, ByteString (ca_signature c))]))"

definition ca_bytes :: "Value option \<Rightarrow> string \<Rightarrow> CaError + bytes" where
  "ca_bytes v field = (case v of Some (ByteString b) \<Rightarrow> Inr b | _ \<Rightarrow> Inl (CaMissing field))"

definition ca_text :: "Value option \<Rightarrow> string \<Rightarrow> CaError + ustring" where
  "ca_text v field = (case v of Some (TextString s) \<Rightarrow> Inr s | _ \<Rightarrow> Inl (CaMissing field))"

definition ca_uint :: "Value option \<Rightarrow> string \<Rightarrow> CaError + u64" where
  "ca_uint v field = (case v of Some (Unsigned n) \<Rightarrow> Inr n | _ \<Rightarrow> Inl (CaMissing field))"

definition CaCertificate_from_cbor :: "Value \<Rightarrow> CaError + CaCertificate" where
  "CaCertificate_from_cbor val =
     bind_result (ca_text (int_map_get val 1) ''type'') (\<lambda>cert_type.
     bind_result (bind_result (ca_bytes (int_map_get val 2) ''agent_id'') (\<lambda>b. map_err CaIdentity (AgentId_from_bytes b))) (\<lambda>agent_id.
     bind_result (ca_bytes (int_map_get val 3) ''public_key'') (\<lambda>public_key.
     bind_result (ca_text (int_map_get val 4) ''issuer'') (\<lambda>issuer.
     bind_result (ca_bytes (int_map_get val 5) ''issuer_public_key'') (\<lambda>issuer_public_key.
     bind_result (ca_uint (int_map_get val 6) ''serial_number'') (\<lambda>serial_number.
     bind_result (ca_uint (int_map_get val 7) ''not_before'') (\<lambda>not_before.
     bind_result (ca_uint (int_map_get val 8) ''not_after'') (\<lambda>not_after.
     bind_result (case int_map_get val 9 of Some (Array arr) \<Rightarrow> Inr (extract_arr (Some (Array arr))) | _ \<Rightarrow> Inl (CaMissing ''capabilities'')) (\<lambda>capabilities.
     bind_result (ca_bytes (int_map_get val 10) ''ca_signature'') (\<lambda>signature.
     Inr \<lparr>ca_cert_type = cert_type, ca_agent_id = agent_id, ca_public_key = public_key, ca_issuer = issuer,
       ca_issuer_public_key = issuer_public_key, ca_serial_number = serial_number, ca_not_before = not_before,
       ca_not_after = not_after, ca_capabilities = capabilities, ca_signature = signature\<rparr>))))))))))"

definition CaCertificate_encode_bytes :: "CaCertificate \<Rightarrow> CaError + bytes" where
  "CaCertificate_encode_bytes c = map_err CaCbor (encode (CaCertificate_to_cbor c))"

definition CaCertificate_decode_bytes :: "bytes \<Rightarrow> CaError + CaCertificate" where
  "CaCertificate_decode_bytes data = bind_result (map_err CaCbor (decode data)) (\<lambda>(val, _). CaCertificate_from_cbor val)"

definition CaCertificate_verify :: "crypto \<Rightarrow> u64 \<Rightarrow> CaCertificate \<Rightarrow> CaError + unit" where
  "CaCertificate_verify cr now c =
     (if ca_cert_type c \<noteq> CA_CERT_TYPE_V1 then Inl (CaInvalidType (ca_cert_type c))
      else if ca_agent_id c \<noteq> AgentId_from_public_key cr (ca_public_key c) then Inl CaAgentIdMismatch
      else if now < ca_not_before c then Inl CaNotYetValid
      else if now \<ge> ca_not_after c then Inl CaExpired
      else
        let sig_input = CaCertificate_signature_input c in
        bind_result (map_err (\<lambda>_. CaPublicKey) (MlDsa65PublicKey_from_bytes cr (ca_issuer_public_key c))) (\<lambda>ca_pk.
        bind_result (map_err (\<lambda>_. CaSignatureLength) (MlDsa65Signature_from_bytes (ca_signature c))) (\<lambda>sig.
        if \<not> MlDsa65_verify cr ca_pk sig_input sig then Inl CaSignature else Inr ())))"

definition CaCertificate_is_expired :: "u64 \<Rightarrow> CaCertificate \<Rightarrow> bool" where
  "CaCertificate_is_expired now c \<longleftrightarrow> now \<ge> ca_not_after c"

definition is_self_signed :: "CaCertificate \<Rightarrow> bool" where
  "is_self_signed c \<longleftrightarrow> ca_issuer_public_key c = ca_public_key c"

definition issuer_agent_id :: "crypto \<Rightarrow> CaCertificate \<Rightarrow> bytes" where
  "issuer_agent_id cr c = AgentId_from_public_key cr (ca_issuer_public_key c)"

section \<open>Chains\<close>

record CaVerifier =
  trusted_roots :: "bytes set"

definition CaVerifier_new :: CaVerifier where
  "CaVerifier_new = \<lparr>trusted_roots = {}\<rparr>"

definition add_trusted_root :: "bytes \<Rightarrow> CaVerifier \<Rightarrow> CaVerifier" where
  "add_trusted_root public_key v = v\<lparr>trusted_roots := insert public_key (trusted_roots v)\<rparr>"

definition is_trusted_ca :: "CaVerifier \<Rightarrow> bytes \<Rightarrow> bool" where
  "is_trusted_ca v public_key \<longleftrightarrow> public_key \<in> trusted_roots v"

text \<open>The loop over the chain; the position is used in the error.\<close>

fun verify_links :: "crypto \<Rightarrow> CaVerifier \<Rightarrow> u64 \<Rightarrow> RevocationStore option \<Rightarrow> nat \<Rightarrow> CaCertificate list \<Rightarrow> CaError + unit" where
  "verify_links cr v now store i [] = Inr ()"
| "verify_links cr v now store i (cert # rest) =
     bind_result (CaCertificate_verify cr now cert) (\<lambda>_.
     if (case store of Some s \<Rightarrow> RevocationStore_is_revoked s (ca_agent_id cert) | None \<Rightarrow> False) then Inl CaRevoked
     else
       case rest of
         next # _ \<Rightarrow>
           if ca_issuer_public_key cert \<noteq> ca_public_key next then Inl (CaBrokenChain i (i + 1))
           else verify_links cr v now store (i + 1) rest
       | [] \<Rightarrow>
           if \<not> is_trusted_ca v (ca_issuer_public_key cert) then Inl (CaNotTrusted (ca_issuer cert))
           else if is_self_signed cert \<and> \<not> is_trusted_ca v (ca_public_key cert) then Inl CaSelfSignedRejected
           else verify_links cr v now store (i + 1) rest)"

definition verify_chain ::
  "crypto \<Rightarrow> CaVerifier \<Rightarrow> CaCertificate list \<Rightarrow> u64 \<Rightarrow> RevocationStore option \<Rightarrow> CaError + unit" where
  "verify_chain cr v chain now store =
     (if chain = [] then Inl (CaMissing ''chain'') else verify_links cr v now store 0 chain)"

definition verify_certificate ::
  "crypto \<Rightarrow> CaVerifier \<Rightarrow> CaCertificate \<Rightarrow> u64 \<Rightarrow> RevocationStore option \<Rightarrow> CaError + unit" where
  "verify_certificate cr v cert now store = verify_chain cr v [cert] now store"

section \<open>The certificate as a signed message\<close>

definition cert_ok :: "CaCertificate \<Rightarrow> bool" where
  "cert_ok c \<longleftrightarrow> utf8_valid (ca_cert_type c) \<and> length (ca_agent_id c) = 32 \<and> utf8_valid (ca_issuer c) \<and>
     list_all utf8_valid (ca_capabilities c)"

interpretation cert_statement: signed_statement CA_DOMAIN_SEPARATOR CaCertificate_to_cbor_without_sig cert_ok
  "\<lambda>c. c\<lparr>ca_signature := []\<rparr>"
proof
  fix m n assume "wire (CaCertificate_to_cbor_without_sig m) = wire (CaCertificate_to_cbor_without_sig n)"
  then have eq: "int_map_get (wire (CaCertificate_to_cbor_without_sig m)) k = int_map_get (wire (CaCertificate_to_cbor_without_sig n)) k" for k
    by simp
  have "map TextString (ca_capabilities m) = map TextString (ca_capabilities n)"
    using eq [of 9] by (simp add: CaCertificate_to_cbor_without_sig_def int_map_get_wire comp_def)
  then have "ca_capabilities m = ca_capabilities n" by (rule map_injective) (simp add: inj_on_def)
  with eq [of 1] eq [of 2] eq [of 3] eq [of 4] eq [of 5] eq [of 6] eq [of 7] eq [of 8]
  show "m\<lparr>ca_signature := []\<rparr> = n\<lparr>ca_signature := []\<rparr>"
    by (simp add: CaCertificate_to_cbor_without_sig_def int_map_get_wire)
qed (auto simp: CaCertificate_to_cbor_without_sig_def cert_ok_def list_all_iff)

lemma cert_entries: "CaCertificate_to_cbor c = int_map
     [(1, TextString (ca_cert_type c)), (2, ByteString (ca_agent_id c)), (3, ByteString (ca_public_key c)),
      (4, TextString (ca_issuer c)), (5, ByteString (ca_issuer_public_key c)), (6, Unsigned (ca_serial_number c)),
      (7, Unsigned (ca_not_before c)), (8, Unsigned (ca_not_after c)), (9, Array (map TextString (ca_capabilities c))),
      (10, ByteString (ca_signature c))]"
  by (simp add: CaCertificate_to_cbor_def CaCertificate_to_cbor_without_sig_def int_map_def)

interpretation cert_message: wire_message CaCertificate_to_cbor CaCertificate_from_cbor cert_ok id
  by unfold_locales (auto simp: cert_entries CaCertificate_from_cbor_def cert_ok_def list_all_iff int_map_get_wire ca_text_def
      ca_bytes_def ca_uint_def AgentId_from_bytes_def extract_arr_def text_filter comp_def)

section \<open>What a chain shows\<close>

definition cert_valid :: "crypto \<Rightarrow> u64 \<Rightarrow> RevocationStore option \<Rightarrow> CaCertificate \<Rightarrow> bool" where
  "cert_valid cr now store c \<longleftrightarrow> ca_cert_type c = CA_CERT_TYPE_V1 \<and> ca_agent_id c = sha256 cr (ca_public_key c) \<and>
     ca_not_before c \<le> now \<and> now < ca_not_after c \<and>
     MlDsa65_verify cr (ca_issuer_public_key c) (CaCertificate_signature_input c) (ca_signature c) \<and>
     (case store of Some s \<Rightarrow> \<not> RevocationStore_is_revoked s (ca_agent_id c) | None \<Rightarrow> True)"

lemma cert_verify_iff:
  "CaCertificate_verify cr now c = Inr () \<longleftrightarrow> cert_valid cr now None c"
  by (auto simp: CaCertificate_verify_def cert_valid_def AgentId_from_public_key_def Let_def bind_result_Inr_iff
      MlDsa65PublicKey_from_bytes_def MlDsa65Signature_from_bytes_def MlDsa65_verify_def not_less not_le split: if_splits)

lemma cert_valid_store:
  "cert_valid cr now store c \<longleftrightarrow> cert_valid cr now None c \<and> (case store of Some s \<Rightarrow> \<not> RevocationStore_is_revoked s (ca_agent_id c) | None \<Rightarrow> True)"
  by (simp add: cert_valid_def)

lemma verify_links_last:
  "verify_links cr v now store i [c] = Inr () \<longleftrightarrow> cert_valid cr now store c \<and> ca_issuer_public_key c \<in> trusted_roots v"
  by (auto simp: bind_result_Inr_iff cert_verify_iff cert_valid_store [of cr now store] is_trusted_ca_def is_self_signed_def split: option.splits)

lemma verify_links_step:
  "verify_links cr v now store i (c # c' # cs) = Inr () \<longleftrightarrow>
     cert_valid cr now store c \<and> ca_issuer_public_key c = ca_public_key c' \<and> verify_links cr v now store (i + 1) (c' # cs) = Inr ()"
  by (subst verify_links.simps(2))
    (auto simp: bind_result_Inr_iff cert_verify_iff cert_valid_store [of cr now store c] simp del: verify_links.simps split: option.splits)

lemma verify_links_iff:
  "chain \<noteq> [] \<Longrightarrow> verify_links cr v now store i chain = Inr () \<longleftrightarrow>
     list_all (cert_valid cr now store) chain \<and>
     successively (\<lambda>c c'. ca_issuer_public_key c = ca_public_key c') chain \<and> ca_issuer_public_key (last chain) \<in> trusted_roots v"
  by (induction chain arbitrary: i rule: induct_list012)
    (simp_all add: verify_links_last verify_links_step del: verify_links.simps, blast)

text \<open>
  C37. A chain is accepted exactly when it should be: it is not empty, every certificate of it is of the right type, names the
  hash of its key, is within its period of validity, is signed with the key of its issuer and is not revoked,
  each is issued by the key of the next, and the issuer of the last is a trusted root.
\<close>

theorem verify_chain_exact:
  "verify_chain cr v chain now store = Inr () \<longleftrightarrow>
     chain \<noteq> [] \<and> list_all (cert_valid cr now store) chain \<and>
     successively (\<lambda>c c'. ca_issuer_public_key c = ca_public_key c') chain \<and> ca_issuer_public_key (last chain) \<in> trusted_roots v"
  by (simp add: verify_chain_def verify_links_iff)

text \<open>The refusal of self-signed certificates cannot occur: such a certificate has just been found to be issued by a trusted root.\<close>

lemma self_signed_never_rejected: "verify_chain cr v chain now store \<noteq> Inl CaSelfSignedRejected"
proof -
  have "CaCertificate_verify cr now c \<noteq> Inl CaSelfSignedRejected" for c
    by (auto simp: CaCertificate_verify_def Let_def bind_result_Inl_iff MlDsa65PublicKey_from_bytes_def MlDsa65Signature_from_bytes_def
        split: if_splits)
  then have "verify_links cr v now store i chain \<noteq> Inl CaSelfSignedRejected" for i
    by (induction cr v now store i chain rule: verify_links.induct)
      (auto simp: bind_result_Inl_iff is_trusted_ca_def is_self_signed_def split: list.splits)
  then show ?thesis by (simp add: verify_chain_def)
qed

lemma cert_issued:
  assumes "keypair_ok cr kp" and "agent_id = sha256 cr pk" and "nb \<le> now" and "now < na"
  obtains c where "CaCertificate_issue cr rnd agent_id pk name (kp_public_key kp) (kp_secret_key kp) serial nb na caps = Some c"
    "cert_valid cr now None c" "ca_issuer_public_key c = kp_public_key kp" "ca_public_key c = pk" "ca_agent_id c = agent_id"
proof -
  define c where "c = \<lparr>ca_cert_type = CA_CERT_TYPE_V1, ca_agent_id = agent_id, ca_public_key = pk, ca_issuer = name,
    ca_issuer_public_key = kp_public_key kp, ca_serial_number = serial, ca_not_before = nb, ca_not_after = na,
    ca_capabilities = caps, ca_signature = []\<rparr>"
  obtain sig where sig: "MlDsa65_sign cr (kp_secret_key kp) (CaCertificate_signature_input c) rnd = Some sig"
    "MlDsa65_verify cr (kp_public_key kp) (CaCertificate_signature_input c) sig"
    using sign_verifies [OF assms(1)] by metis
  have "CaCertificate_signature_input (c\<lparr>ca_signature := sig\<rparr>) = CaCertificate_signature_input c"
    by (simp add: CaCertificate_signature_input_def CaCertificate_to_cbor_without_sig_def)
  with sig(2) assms have "cert_valid cr now None (c\<lparr>ca_signature := sig\<rparr>)"
    by (simp add: cert_valid_def) (simp add: c_def)
  moreover have "CaCertificate_issue cr rnd agent_id pk name (kp_public_key kp) (kp_secret_key kp) serial nb na caps = Some (c\<lparr>ca_signature := sig\<rparr>)"
    using sig(1) unfolding CaCertificate_issue_def c_def by (simp add: Let_def)
  ultimately show thesis by (intro that [of "c\<lparr>ca_signature := sig\<rparr>"]) (simp_all add: c_def)
qed

text \<open>
  Nothing in a certificate says that its holder may issue others: the holder of any certificate that is accepted can
  issue one for any key, and the chain of the two is accepted.
\<close>

lemma any_holder_issues:
  assumes "verify_chain cr v chain now None = Inr ()" and "keypair_ok cr kp" and "ca_public_key (hd chain) = kp_public_key kp"
    and "agent_id = sha256 cr pk" and "nb \<le> now" and "now < na"
  shows "\<exists>c. CaCertificate_issue cr rnd agent_id pk name (kp_public_key kp) (kp_secret_key kp) serial nb na caps = Some c \<and>
    verify_chain cr v (c # chain) now None = Inr ()"
proof -
  obtain c where c: "CaCertificate_issue cr rnd agent_id pk name (kp_public_key kp) (kp_secret_key kp) serial nb na caps = Some c"
    "cert_valid cr now None c" "ca_issuer_public_key c = kp_public_key kp"
    using cert_issued [OF assms(2,4-6)] by metis
  obtain d ds where "chain = d # ds" using assms(1) by (cases chain) (auto simp: verify_chain_def)
  then have "verify_chain cr v (c # chain) now None = Inr ()"
    using assms(1,3) c(2,3) by (simp add: verify_chain_def verify_links_iff del: verify_links.simps)
  with c(1) show ?thesis by blast
qed

end
