(* ===== verification/Web_Of_Trust.thy ===== *)
theory Web_Of_Trust
  imports Signed_Statement Hash_Map
begin

text \<open>
  The web of trust, \<open>crates/aafp-identity/src/web_of_trust.rs\<close>: trust signatures, and the store that computes
  from them how far the agent trusts another. The level computed is characterised by the paths of live signatures;
  eviction and the export and import of the store leave it unchanged. The lemmas at the end record that signatures are
  stored without being verified and that the level of the second signature of a path is not looked at.
\<close>

section \<open>Trust signatures\<close>

definition WOT_DOMAIN_SEPARATOR :: bytes where
  "WOT_DOMAIN_SEPARATOR = str ''aafp-v1-wot''"

definition WOT_SIG_TYPE_V1 :: ustring where
  "WOT_SIG_TYPE_V1 = str ''aafp-wot-sig-v1''"

definition TRUST_LEVEL_NONE :: byte where "TRUST_LEVEL_NONE = 0"

definition TRUST_LEVEL_MARGINAL :: byte where "TRUST_LEVEL_MARGINAL = 1"

definition TRUST_LEVEL_FULL :: byte where "TRUST_LEVEL_FULL = 2"

definition TRUST_LEVEL_ULTIMATE :: byte where "TRUST_LEVEL_ULTIMATE = 3"

lemmas trust_levels = TRUST_LEVEL_NONE_def TRUST_LEVEL_MARGINAL_def TRUST_LEVEL_FULL_def TRUST_LEVEL_ULTIMATE_def

datatype WotError =
    WotCbor CborError
  | WotSignature
  | WotExpired
  | WotMissing string
  | WotInvalid string
  | WotTrustLevel byte
  | WotAgentIdMismatch
  | WotPublicKey
  | WotSignatureLength
  | WotIdentity IdentityErrorV1

record TrustSignature =
  ts_sig_type :: ustring
  ts_signer_agent_id :: bytes
  ts_signed_agent_id :: bytes
  ts_signed_public_key :: bytes
  ts_trust_level :: byte
  ts_expiry :: u64
  ts_signature :: bytes

definition TrustSignature_to_cbor_without_sig :: "TrustSignature \<Rightarrow> Value" where
  "TrustSignature_to_cbor_without_sig s = int_map
     [(1, TextString (ts_sig_type s)), (2, ByteString (ts_signer_agent_id s)), (3, ByteString (ts_signed_agent_id s)),
      (4, ByteString (ts_signed_public_key s)), (5, Unsigned (ucast (ts_trust_level s))), (6, Unsigned (ts_expiry s))]"

definition TrustSignature_signature_input :: "TrustSignature \<Rightarrow> bytes" where
  "TrustSignature_signature_input s = statement_input WOT_DOMAIN_SEPARATOR (TrustSignature_to_cbor_without_sig s)"

text \<open>The constructor: an error for a level out of range, otherwise signing, which panics on a malformed secret key.\<close>

definition TrustSignature_new ::
  "crypto \<Rightarrow> bytes \<Rightarrow> bytes \<Rightarrow> bytes \<Rightarrow> bytes \<Rightarrow> byte \<Rightarrow> u64 \<Rightarrow> bytes \<Rightarrow> (WotError + TrustSignature) option" where
  "TrustSignature_new cr rnd signer_agent_id signed_agent_id signed_public_key trust_level expiry signer_secret_key =
     (if trust_level > TRUST_LEVEL_ULTIMATE then Some (Inl (WotTrustLevel trust_level))
      else
        let sig = \<lparr>ts_sig_type = WOT_SIG_TYPE_V1, ts_signer_agent_id = signer_agent_id, ts_signed_agent_id = signed_agent_id,
              ts_signed_public_key = signed_public_key, ts_trust_level = trust_level, ts_expiry = expiry, ts_signature = []\<rparr>
        in map_option (\<lambda>ml_sig. Inr (sig\<lparr>ts_signature := ml_sig\<rparr>))
             (MlDsa65_sign cr signer_secret_key (TrustSignature_signature_input sig) rnd))"

definition TrustSignature_to_cbor :: "TrustSignature \<Rightarrow> Value" where
  "TrustSignature_to_cbor s = int_map
     [(1, TextString (ts_sig_type s)), (2, ByteString (ts_signer_agent_id s)), (3, ByteString (ts_signed_agent_id s)),
      (4, ByteString (ts_signed_public_key s)), (5, Unsigned (ucast (ts_trust_level s))), (6, Unsigned (ts_expiry s)),
      (7, ByteString (ts_signature s))]"

definition wot_bytes :: "Value option \<Rightarrow> string \<Rightarrow> WotError + bytes" where
  "wot_bytes v field = (case v of Some (ByteString b) \<Rightarrow> Inr b | Some _ \<Rightarrow> Inl (WotInvalid field) | None \<Rightarrow> Inl (WotMissing field))"

definition wot_uint :: "Value option \<Rightarrow> string \<Rightarrow> WotError + u64" where
  "wot_uint v field = (case v of Some (Unsigned n) \<Rightarrow> Inr n | Some _ \<Rightarrow> Inl (WotInvalid field) | None \<Rightarrow> Inl (WotMissing field))"

definition wot_id :: "Value option \<Rightarrow> string \<Rightarrow> WotError + bytes" where
  "wot_id v field = bind_result (wot_bytes v field) (\<lambda>b. map_err WotIdentity (AgentId_from_bytes b))"

definition TrustSignature_from_cbor :: "Value \<Rightarrow> WotError + TrustSignature" where
  "TrustSignature_from_cbor val =
     bind_result (case int_map_get val 1 of Some (TextString s) \<Rightarrow> Inr s | Some _ \<Rightarrow> Inl (WotInvalid ''type'') | None \<Rightarrow> Inl (WotMissing ''type'')) (\<lambda>sig_type.
     bind_result (wot_id (int_map_get val 2) ''signer_agent_id'') (\<lambda>signer_agent_id.
     bind_result (wot_id (int_map_get val 3) ''signed_agent_id'') (\<lambda>signed_agent_id.
     bind_result (wot_bytes (int_map_get val 4) ''signed_public_key'') (\<lambda>signed_public_key.
     bind_result (wot_uint (int_map_get val 5) ''trust_level'') (\<lambda>level.
     bind_result (wot_uint (int_map_get val 6) ''expiry'') (\<lambda>expiry.
     bind_result (wot_bytes (int_map_get val 7) ''signature'') (\<lambda>signature.
     Inr \<lparr>ts_sig_type = sig_type, ts_signer_agent_id = signer_agent_id, ts_signed_agent_id = signed_agent_id,
       ts_signed_public_key = signed_public_key, ts_trust_level = ucast level, ts_expiry = expiry, ts_signature = signature\<rparr>)))))))"

definition TrustSignature_encode :: "TrustSignature \<Rightarrow> WotError + bytes" where
  "TrustSignature_encode s = map_err WotCbor (encode (TrustSignature_to_cbor s))"

definition TrustSignature_decode :: "bytes \<Rightarrow> WotError + TrustSignature" where
  "TrustSignature_decode data = bind_result (map_err WotCbor (decode data)) (\<lambda>(val, _). TrustSignature_from_cbor val)"

definition TrustSignature_verify :: "crypto \<Rightarrow> bytes \<Rightarrow> u64 option \<Rightarrow> TrustSignature \<Rightarrow> WotError + unit" where
  "TrustSignature_verify cr signer_public_key now s =
     (if ts_sig_type s \<noteq> WOT_SIG_TYPE_V1 then Inl (WotInvalid ''type'')
      else if ts_signed_agent_id s \<noteq> AgentId_from_public_key cr (ts_signed_public_key s) then Inl WotAgentIdMismatch
      else if ts_trust_level s > TRUST_LEVEL_ULTIMATE then Inl (WotTrustLevel (ts_trust_level s))
      else
        bind_result (map_err (\<lambda>_. WotSignatureLength) (MlDsa65Signature_from_bytes (ts_signature s))) (\<lambda>sig.
        if \<not> MlDsa65_verify cr signer_public_key (TrustSignature_signature_input s) sig then Inl WotSignature
        else
          case now of
            Some now \<Rightarrow> if ts_expiry s \<le> now then Inl WotExpired else Inr ()
          | None \<Rightarrow> Inr ()))"

definition TrustSignature_is_expired :: "TrustSignature \<Rightarrow> u64 \<Rightarrow> bool" where
  "TrustSignature_is_expired s now \<longleftrightarrow> ts_expiry s \<le> now"

section \<open>The store\<close>

record WebOfTrust =
  wt_own_agent_id :: "bytes option"
  wt_signatures :: "(bytes, TrustSignature list) hash_map"
  wt_known_public_keys :: "(bytes, bytes) hash_map"

definition WebOfTrust_new :: WebOfTrust where
  "WebOfTrust_new = \<lparr>wt_own_agent_id = None, wt_signatures = [], wt_known_public_keys = []\<rparr>"

definition set_own_agent_id :: "bytes \<Rightarrow> WebOfTrust \<Rightarrow> WebOfTrust" where
  "set_own_agent_id agent_id w = w\<lparr>wt_own_agent_id := Some agent_id\<rparr>"

definition add_known_public_key :: "bytes \<Rightarrow> bytes \<Rightarrow> WebOfTrust \<Rightarrow> WebOfTrust" where
  "add_known_public_key agent_id public_key w =
     w\<lparr>wt_known_public_keys := hm_insert agent_id public_key (wt_known_public_keys w)\<rparr>"

definition signatures_by :: "WebOfTrust \<Rightarrow> bytes \<Rightarrow> TrustSignature list" where
  "signatures_by w signer = (case hm_get (wt_signatures w) signer of Some v \<Rightarrow> v | None \<Rightarrow> [])"

definition add_trust_signature :: "TrustSignature \<Rightarrow> WebOfTrust \<Rightarrow> WebOfTrust" where
  "add_trust_signature sig w =
     (let signer = ts_signer_agent_id sig;
          w' = w\<lparr>wt_known_public_keys := hm_insert (ts_signed_agent_id sig) (ts_signed_public_key sig) (wt_known_public_keys w)\<rparr>
      in w'\<lparr>wt_signatures := hm_insert signer
           ((case hm_get (wt_signatures w') signer of Some v \<Rightarrow> v | None \<Rightarrow> []) @ [sig]) (wt_signatures w')\<rparr>)"

type_synonym wot_order = "(bytes, TrustSignature list) hash_map \<Rightarrow> (bytes \<times> TrustSignature list) list"

definition all_signatures :: "wot_order \<Rightarrow> WebOfTrust \<Rightarrow> TrustSignature list" where
  "all_signatures ord w = concat (map snd (ord (wt_signatures w)))"

definition signature_count :: "WebOfTrust \<Rightarrow> nat" where
  "signature_count w = sum_list (map (\<lambda>(_, v). length v) (wt_signatures w))"

text \<open>The two loops of \<open>trust_level\<close>: over the own signatures, and over those of the agents they name.\<close>

definition direct_level :: "bytes \<Rightarrow> u64 \<Rightarrow> TrustSignature list \<Rightarrow> byte \<Rightarrow> byte" where
  "direct_level target now = fold (\<lambda>sig best.
     if TrustSignature_is_expired sig now then best
     else if ts_signed_agent_id sig = target then
       (let level = min (ts_trust_level sig) TRUST_LEVEL_FULL in if level > best then level else best)
     else best)"

definition hop_level :: "WebOfTrust \<Rightarrow> bytes \<Rightarrow> u64 \<Rightarrow> TrustSignature list \<Rightarrow> byte \<Rightarrow> byte" where
  "hop_level w target now = fold (\<lambda>sig best.
     if TrustSignature_is_expired sig now then best
     else if ts_trust_level sig < TRUST_LEVEL_MARGINAL then best
     else
       let intermediary = ts_signed_agent_id sig in
       if intermediary = target then best
       else
         case hm_get (wt_signatures w) intermediary of
           Some inter_sigs \<Rightarrow>
             fold (\<lambda>inter_sig best.
               if TrustSignature_is_expired inter_sig now then best
               else if ts_signed_agent_id inter_sig = target then
                 (if TRUST_LEVEL_MARGINAL > best then TRUST_LEVEL_MARGINAL else best)
               else best) inter_sigs best
         | None \<Rightarrow> best)"

definition trust_level :: "WebOfTrust \<Rightarrow> bytes \<Rightarrow> u64 \<Rightarrow> byte" where
  "trust_level w target now =
     (case wt_own_agent_id w of
        None \<Rightarrow> TRUST_LEVEL_NONE
      | Some own \<Rightarrow>
          if own = target then TRUST_LEVEL_ULTIMATE
          else
            let best = (case hm_get (wt_signatures w) own of
                  Some direct_sigs \<Rightarrow> direct_level target now direct_sigs TRUST_LEVEL_NONE
                | None \<Rightarrow> TRUST_LEVEL_NONE)
            in if best \<ge> TRUST_LEVEL_MARGINAL then best
               else
                 case hm_get (wt_signatures w) own of
                   Some direct_sigs \<Rightarrow> hop_level w target now direct_sigs best
                 | None \<Rightarrow> best)"

definition is_trusted :: "WebOfTrust \<Rightarrow> bytes \<Rightarrow> byte \<Rightarrow> u64 \<Rightarrow> bool" where
  "is_trusted w target min_level now \<longleftrightarrow> trust_level w target now \<ge> min_level"

definition export_trust_value :: "wot_order \<Rightarrow> WebOfTrust \<Rightarrow> Value" where
  "export_trust_value ord w = int_map
     [(1, Array (map TrustSignature_to_cbor (all_signatures ord w))),
      (2, case wt_own_agent_id w of Some agent_id \<Rightarrow> ByteString agent_id | None \<Rightarrow> Null)]"

definition export_trust :: "wot_order \<Rightarrow> WebOfTrust \<Rightarrow> WotError + bytes" where
  "export_trust ord w = map_err WotCbor (encode (export_trust_value ord w))"

text \<open>Importing stops at the first signature that cannot be read; those before it stay in the store.\<close>

fun import_signatures :: "Value list \<Rightarrow> WebOfTrust \<Rightarrow> (WotError + unit) \<times> WebOfTrust" where
  "import_signatures [] w = (Inr (), w)"
| "import_signatures (v # vs) w =
     (case TrustSignature_from_cbor v of
        Inl e \<Rightarrow> (Inl e, w)
      | Inr sig \<Rightarrow> import_signatures vs (add_trust_signature sig w))"

definition import_trust :: "bytes \<Rightarrow> WebOfTrust \<Rightarrow> (WotError + unit) \<times> WebOfTrust" where
  "import_trust data w =
     (case decode data of
        Inl e \<Rightarrow> (Inl (WotCbor e), w)
      | Inr (val, _) \<Rightarrow>
          (case (case int_map_get val 1 of Some (Array sigs) \<Rightarrow> import_signatures sigs w | _ \<Rightarrow> (Inr (), w)) of
             (Inl e, w') \<Rightarrow> (Inl e, w')
           | (Inr _, w') \<Rightarrow>
               (Inr (), case int_map_get val 2 of
                  Some (ByteString b) \<Rightarrow> if length b = 32 then w'\<lparr>wt_own_agent_id := Some b\<rparr> else w'
                | _ \<Rightarrow> w')))"

definition WebOfTrust_evict_expired :: "u64 \<Rightarrow> WebOfTrust \<Rightarrow> nat \<times> WebOfTrust" where
  "WebOfTrust_evict_expired now w =
     (let live = filter (\<lambda>s. \<not> TrustSignature_is_expired s now);
          removed = sum_list (map (\<lambda>(_, sigs). length sigs - length (live sigs)) (wt_signatures w))
      in (removed, w\<lparr>wt_signatures := hm_retain (\<lambda>_ v. v \<noteq> []) (map (\<lambda>(k, sigs). (k, live sigs)) (wt_signatures w))\<rparr>))"

definition trusted_by :: "WebOfTrust \<Rightarrow> bytes \<Rightarrow> u64 \<Rightarrow> (bytes \<times> byte) list" where
  "trusted_by w signer now =
     (case hm_get (wt_signatures w) signer of
        Some sigs \<Rightarrow> map (\<lambda>s. (ts_signed_agent_id s, ts_trust_level s)) (filter (\<lambda>s. \<not> TrustSignature_is_expired s now) sigs)
      | None \<Rightarrow> [])"

section \<open>Signatures as signed messages\<close>

definition trust_signature_ok :: "TrustSignature \<Rightarrow> bool" where
  "trust_signature_ok s \<longleftrightarrow> utf8_valid (ts_sig_type s) \<and> length (ts_signer_agent_id s) = 32 \<and> length (ts_signed_agent_id s) = 32"

lemma level_narrowed [simp]: "ucast (ucast (l :: byte) :: u64) = l"
  by (simp add: unsigned_ucast_eq take_bit_word_eq_self)

lemma level_widened_inj [simp]: "(ucast (l :: byte) :: u64) = ucast k \<longleftrightarrow> l = k"
  by (metis level_narrowed)

interpretation trust_statement: signed_statement WOT_DOMAIN_SEPARATOR TrustSignature_to_cbor_without_sig trust_signature_ok
  "\<lambda>s. s\<lparr>ts_signature := []\<rparr>"
proof
  fix m n assume "wire (TrustSignature_to_cbor_without_sig m) = wire (TrustSignature_to_cbor_without_sig n)"
  then have "int_map_get (wire (TrustSignature_to_cbor_without_sig m)) k = int_map_get (wire (TrustSignature_to_cbor_without_sig n)) k" for k
    by simp
  from this [of 1] this [of 2] this [of 3] this [of 4] this [of 5] this [of 6]
  show "m\<lparr>ts_signature := []\<rparr> = n\<lparr>ts_signature := []\<rparr>"
    by (simp add: TrustSignature_to_cbor_without_sig_def int_map_get_wire)
qed (simp add: TrustSignature_to_cbor_without_sig_def trust_signature_ok_def)

lemma trust_signature_wire_ok: "trust_signature_ok s \<Longrightarrow> d < 99 \<Longrightarrow> wire_ok d (TrustSignature_to_cbor s)"
  by (simp add: TrustSignature_to_cbor_def trust_signature_ok_def)

interpretation trust_message: wire_message TrustSignature_to_cbor TrustSignature_from_cbor trust_signature_ok id
  by unfold_locales (simp_all add: trust_signature_wire_ok TrustSignature_to_cbor_def TrustSignature_from_cbor_def trust_signature_ok_def
      int_map_get_wire wot_bytes_def wot_uint_def wot_id_def AgentId_from_bytes_def)

lemma trust_verify_iff:
  "TrustSignature_verify cr pk now s = Inr () \<longleftrightarrow> ts_sig_type s = WOT_SIG_TYPE_V1 \<and> ts_signed_agent_id s = sha256 cr (ts_signed_public_key s) \<and>
     ts_trust_level s \<le> TRUST_LEVEL_ULTIMATE \<and> MlDsa65_verify cr pk (TrustSignature_signature_input s) (ts_signature s) \<and>
     (case now of Some t \<Rightarrow> \<not> TrustSignature_is_expired s t | None \<Rightarrow> True)"
  by (auto simp: TrustSignature_verify_def AgentId_from_public_key_def bind_result_Inr_iff MlDsa65Signature_from_bytes_def
      MlDsa65_verify_def TrustSignature_is_expired_def not_less split: if_splits option.splits)

section \<open>The level of trust\<close>

text \<open>\<open>trusts w now a b l\<close>: the store holds a live signature of \<open>a\<close> that gives \<open>b\<close> the level \<open>l\<close>.\<close>

definition trusts :: "WebOfTrust \<Rightarrow> u64 \<Rightarrow> bytes \<Rightarrow> bytes \<Rightarrow> byte \<Rightarrow> bool" where
  "trusts w now a b l \<longleftrightarrow> (\<exists>s \<in> set (signatures_by w a). \<not> TrustSignature_is_expired s now \<and> ts_signed_agent_id s = b \<and> ts_trust_level s = l)"

lemma no_signatures [simp]: "direct_level target now [] best = best" "hop_level w target now [] best = best"
  by (simp_all add: direct_level_def hop_level_def)

lemma direct_level_ge:
  "k \<le> direct_level target now sigs best \<longleftrightarrow> k \<le> best \<or>
     (\<exists>s \<in> set sigs. \<not> TrustSignature_is_expired s now \<and> ts_signed_agent_id s = target \<and> k \<le> min (ts_trust_level s) TRUST_LEVEL_FULL)"
proof (induction sigs arbitrary: best)
  case (Cons s sigs)
  show ?case
    unfolding direct_level_def fold_simps comp_apply
    unfolding direct_level_def [symmetric] Cons
    by (auto simp: Let_def)
qed (simp add: direct_level_def)

text \<open>A loop that raises the level to marginal at the elements with a property.\<close>

lemma raise_fold:
  assumes "\<And>x b. f x b = (if P x \<and> b < (m :: byte) then m else b)"
  shows "fold f xs b = (if b < m \<and> (\<exists>x \<in> set xs. P x) then m else b)"
proof (induction xs arbitrary: b)
  case (Cons x xs)
  have "fold f (x # xs) b = fold f xs (f x b)" by simp
  also have "\<dots> = (if f x b < m \<and> (\<exists>x \<in> set xs. P x) then m else f x b)" by (rule Cons)
  also have "\<dots> = (if b < m \<and> (\<exists>x \<in> set (x # xs). P x) then m else b)"
    by (cases "P x"; cases "b < m") (simp_all add: assms [of x b])
  finally show ?case .
qed simp

lemma inter_fold:
  "fold (\<lambda>inter_sig best. if TrustSignature_is_expired inter_sig now then best
     else if ts_signed_agent_id inter_sig = target then (if TRUST_LEVEL_MARGINAL > best then TRUST_LEVEL_MARGINAL else best)
     else best) xs b =
   (if b < TRUST_LEVEL_MARGINAL \<and> (\<exists>s \<in> set xs. \<not> TrustSignature_is_expired s now \<and> ts_signed_agent_id s = target) then TRUST_LEVEL_MARGINAL else b)"
  by (rule raise_fold) auto

lemma hop_level_eq:
  "hop_level w target now sigs b =
     (if b < TRUST_LEVEL_MARGINAL \<and> (\<exists>s \<in> set sigs. \<not> TrustSignature_is_expired s now \<and> TRUST_LEVEL_MARGINAL \<le> ts_trust_level s \<and>
           ts_signed_agent_id s \<noteq> target \<and> (\<exists>l. trusts w now (ts_signed_agent_id s) target l))
      then TRUST_LEVEL_MARGINAL else b)"
  unfolding hop_level_def inter_fold
proof (rule raise_fold)
  fix s and best :: byte
  have "(\<exists>l. trusts w now i target l) \<longleftrightarrow> (case hm_get (wt_signatures w) i of
      Some sigs \<Rightarrow> \<exists>s \<in> set sigs. \<not> TrustSignature_is_expired s now \<and> ts_signed_agent_id s = target | None \<Rightarrow> False)" for i
    by (auto simp: trusts_def signatures_by_def split: option.splits)
  then show "(if TrustSignature_is_expired s now then best
     else if ts_trust_level s < TRUST_LEVEL_MARGINAL then best
     else
       let intermediary = ts_signed_agent_id s in
       if intermediary = target then best
       else
         case hm_get (wt_signatures w) intermediary of
           None \<Rightarrow> best
         | Some inter_sigs \<Rightarrow>
             if best < TRUST_LEVEL_MARGINAL \<and> (\<exists>s \<in> set inter_sigs. \<not> TrustSignature_is_expired s now \<and> ts_signed_agent_id s = target)
             then TRUST_LEVEL_MARGINAL else best) =
    (if (\<not> TrustSignature_is_expired s now \<and> TRUST_LEVEL_MARGINAL \<le> ts_trust_level s \<and>
           ts_signed_agent_id s \<noteq> target \<and> (\<exists>l. trusts w now (ts_signed_agent_id s) target l)) \<and> best < TRUST_LEVEL_MARGINAL
      then TRUST_LEVEL_MARGINAL else best)"
    by (simp add: Let_def not_le [symmetric] split: option.split)
qed

lemma trust_level_cases:
  assumes "wt_own_agent_id w = Some own" and "own \<noteq> target"
  shows "trust_level w target now =
    (let best = direct_level target now (signatures_by w own) TRUST_LEVEL_NONE
     in if best \<ge> TRUST_LEVEL_MARGINAL then best else hop_level w target now (signatures_by w own) best)"
proof (cases "hm_get (wt_signatures w) own")
  case None
  then show ?thesis using assms by (simp add: trust_level_def signatures_by_def)
next
  case (Some sigs)
  then show ?thesis using assms by (simp add: trust_level_def signatures_by_def Let_def)
qed

lemma byte_levels: "(1 :: byte) \<le> l \<longleftrightarrow> l = 1 \<or> 2 \<le> l" "l < (1 :: byte) \<longleftrightarrow> l = 0" "(l :: byte) \<le> 2 \<longleftrightarrow> l = 0 \<or> l = 1 \<or> l = 2"
proof -
  show "(1 :: byte) \<le> l \<longleftrightarrow> l = 1 \<or> 2 \<le> l" by (simp add: word_le_nat_alt word_unat_eq_iff) auto
  show "l < (1 :: byte) \<longleftrightarrow> l = 0" by (simp add: word_less_nat_alt word_unat_eq_iff)
  show "(l :: byte) \<le> 2 \<longleftrightarrow> l = 0 \<or> l = 1 \<or> l = 2" by (simp add: word_le_nat_alt word_unat_eq_iff) auto
qed

lemma trust_level_paths:
  "trust_level w target now =
     (case wt_own_agent_id w of
        None \<Rightarrow> 0
      | Some own \<Rightarrow>
          if own = target then 3
          else if \<exists>l. trusts w now own target l \<and> l \<ge> 2 then 2
          else if trusts w now own target 1 \<or>
              (\<exists>i l k. i \<noteq> target \<and> trusts w now own i l \<and> l \<ge> 1 \<and> trusts w now i target k) then 1
          else 0)"
proof (cases "wt_own_agent_id w")
  case (Some own)
  show ?thesis
  proof (cases "own = target")
    case False
    define best where "best = direct_level target now (signatures_by w own) TRUST_LEVEL_NONE"
    have ge: "k \<le> best \<longleftrightarrow> k \<le> 0 \<or> (\<exists>l. trusts w now own target l \<and> k \<le> min l 2)" for k
      unfolding best_def direct_level_ge trusts_def trust_levels by blast
    have two: "2 \<le> best \<longleftrightarrow> (\<exists>l. trusts w now own target l \<and> 2 \<le> l)"
      unfolding ge min.bounded_iff by simp
    have one: "1 \<le> best \<longleftrightarrow> 2 \<le> best \<or> trusts w now own target 1"
      unfolding two ge [of 1] min.bounded_iff by (auto simp: byte_levels)
    have le: "best \<le> 2" using ge [of best] by (auto simp: min.bounded_iff)
    have hop: "hop_level w target now (signatures_by w own) best =
        (if best < 1 \<and> (\<exists>i l k. i \<noteq> target \<and> trusts w now own i l \<and> 1 \<le> l \<and> trusts w now i target k) then 1 else best)"
      unfolding hop_level_eq trust_levels trusts_def [of w now own] by (rule if_cong) auto
    have "trust_level w target now = (if 1 \<le> best then best else hop_level w target now (signatures_by w own) best)"
      unfolding trust_level_cases [OF Some False] best_def Let_def trust_levels ..
    moreover consider "best = 0" | "best = 1" | "best = 2" using le unfolding byte_levels by blast
    then have "(if 1 \<le> best then best else if best < 1 \<and> hops then 1 else best) =
        (if 2 \<le> best then 2 else if trusts w now own target 1 \<or> hops then 1 else 0)" for hops
      by cases (use one in \<open>simp_all add: word_le_nat_alt [of 2 1]\<close>)
    ultimately show ?thesis unfolding hop two using Some False by simp
  qed (simp add: trust_level_def Some trust_levels)
qed (simp add: trust_level_def trust_levels)

section \<open>The store over a run\<close>

definition wot_ok :: "WebOfTrust \<Rightarrow> bool" where
  "wot_ok w \<longleftrightarrow> hm_ok (wt_signatures w) \<and> (\<forall>(k, sigs) \<in> set (wt_signatures w). \<forall>s \<in> set sigs. ts_signer_agent_id s = k)"

datatype wot_event = AddKey bytes bytes | AddSignature TrustSignature | EvictSignatures u64

fun wot_step :: "wot_event \<Rightarrow> WebOfTrust \<Rightarrow> WebOfTrust" where
  "wot_step (AddKey agent_id public_key) w = add_known_public_key agent_id public_key w"
| "wot_step (AddSignature sig) w = add_trust_signature sig w"
| "wot_step (EvictSignatures now) w = snd (WebOfTrust_evict_expired now w)"

lemma signatures_by_add:
  "signatures_by (add_trust_signature s w) a = signatures_by w a @ (if ts_signer_agent_id s = a then [s] else [])"
  by (simp add: signatures_by_def add_trust_signature_def Let_def hm.get_put)

lemma hm_get_map_values: "hm_get (map (\<lambda>(k, v). (k, f v)) m) a = map_option f (hm_get m a)"
  unfolding hm_get_def by (induction m) auto

lemma hm_ok_map_values: "hm_ok (map (\<lambda>(k, v). (k, f v)) m) = hm_ok m"
  by (simp add: hm_ok_def comp_def case_prod_beta)

lemma signatures_by_evict:
  "hm_ok (wt_signatures w) \<Longrightarrow> signatures_by (snd (WebOfTrust_evict_expired t w)) a = filter (\<lambda>s. \<not> TrustSignature_is_expired s t) (signatures_by w a)"
  by (auto simp: signatures_by_def WebOfTrust_evict_expired_def Let_def hm_get_retain hm_ok_map_values hm_get_map_values split: option.split)

lemma wot_step_ok: "hm_ok (wt_signatures w) \<Longrightarrow> hm_ok (wt_signatures (wot_step e w))"
  by (cases e) (simp_all add: add_known_public_key_def add_trust_signature_def Let_def hm.put_ok WebOfTrust_evict_expired_def
      hm_retain_ok hm_ok_map_values)

lemma wot_step_own: "wt_own_agent_id (wot_step e w) = wt_own_agent_id w"
  by (cases e) (simp_all add: add_known_public_key_def add_trust_signature_def WebOfTrust_evict_expired_def Let_def)

text \<open>Every operation keeps the signatures under the agent they are made by.\<close>

lemma wot_step_wot_ok: "wot_ok w \<Longrightarrow> wot_ok (wot_step e w)"
proof (cases e)
  case (AddSignature sig)
  assume ok: "wot_ok w"
  have "ts_signer_agent_id s = k" if "hm_get (wt_signatures (wot_step e w)) k = Some sigs" and "s \<in> set sigs" for k sigs s
    using that ok unfolding AddSignature
    by (fastforce simp: wot_ok_def add_trust_signature_def Let_def hm.get_put hm_get_iff split: if_splits option.splits)
  with wot_step_ok [of w e] ok show ?thesis by (auto simp: wot_ok_def hm_get_iff)
next
  case (EvictSignatures t)
  assume "wot_ok w"
  with wot_step_ok [of w e] show ?thesis unfolding EvictSignatures
    by (fastforce simp: wot_ok_def WebOfTrust_evict_expired_def Let_def hm_retain_def)
qed (simp add: wot_ok_def add_known_public_key_def)

lemma run_ok: "hm_ok (wt_signatures w) \<Longrightarrow> hm_ok (wt_signatures (fold wot_step evs w))"
  by (induction evs arbitrary: w) (simp_all add: wot_step_ok)

lemma run_own: "wt_own_agent_id (fold wot_step evs w) = wt_own_agent_id w"
  by (induction evs arbitrary: w) (simp_all add: wot_step_own)

text \<open>A signature is held, as far as it is still live, from the moment it is added.\<close>

lemma run_signatures:
  assumes "hm_ok (wt_signatures w)" and "\<forall>t. EvictSignatures t \<in> set evs \<longrightarrow> t \<le> now"
  shows "s \<in> set (signatures_by (fold wot_step evs w) a) \<and> \<not> TrustSignature_is_expired s now \<longleftrightarrow>
    (s \<in> set (signatures_by w a) \<or> AddSignature s \<in> set evs \<and> ts_signer_agent_id s = a) \<and> \<not> TrustSignature_is_expired s now"
  using assms
proof (induction evs arbitrary: w)
  case (Cons e evs)
  have step: "s \<in> set (signatures_by (wot_step e w) a) \<and> \<not> TrustSignature_is_expired s now \<longleftrightarrow>
      (s \<in> set (signatures_by w a) \<or> e = AddSignature s \<and> ts_signer_agent_id s = a) \<and> \<not> TrustSignature_is_expired s now"
  proof (cases e)
    case (AddKey a k)
    then show ?thesis by (simp add: add_known_public_key_def signatures_by_def)
  next
    case (AddSignature s')
    then show ?thesis by (auto simp: signatures_by_add)
  next
    case (EvictSignatures t)
    then have "t \<le> now" using Cons.prems(2) by simp
    then have "\<not> TrustSignature_is_expired s now \<Longrightarrow> \<not> TrustSignature_is_expired s t"
      by (auto simp: TrustSignature_is_expired_def)
    with EvictSignatures Cons.prems(1) show ?thesis by (auto simp: signatures_by_evict)
  qed
  show ?case
    unfolding fold_simps
    by (subst Cons.IH) (use Cons.prems step in \<open>auto simp: wot_step_ok\<close>)
qed simp

definition live_trust :: "wot_event list \<Rightarrow> u64 \<Rightarrow> bytes \<Rightarrow> bytes \<Rightarrow> byte \<Rightarrow> bool" where
  "live_trust evs now a b l \<longleftrightarrow> (\<exists>s. AddSignature s \<in> set evs \<and> ts_signer_agent_id s = a \<and> ts_signed_agent_id s = b \<and>
     ts_trust_level s = l \<and> now < ts_expiry s)"

lemma run_trusts:
  assumes "\<forall>t. EvictSignatures t \<in> set evs \<longrightarrow> t \<le> now"
  shows "trusts (fold wot_step evs (set_own_agent_id own WebOfTrust_new)) now = live_trust evs now"
proof (intro ext)
  fix a b l
  have "hm_ok (wt_signatures (set_own_agent_id own WebOfTrust_new))" "signatures_by (set_own_agent_id own WebOfTrust_new) a = []"
    by (simp_all add: set_own_agent_id_def WebOfTrust_new_def signatures_by_def)
  note s = run_signatures [OF this(1) assms, where a = a, unfolded this(2)]
  show "trusts (fold wot_step evs (set_own_agent_id own WebOfTrust_new)) now a b l = live_trust evs now a b l"
    unfolding trusts_def live_trust_def using s by (auto simp: TrustSignature_is_expired_def not_le)
qed

text \<open>
  C38. Over any run of the store the level computed depends only on the signatures that were added and have not expired, whatever
  was evicted on the way: the own agent has level 3; another agent has level 2 if the own agent signed it at level 2 or more,
  otherwise level 1 if the own agent signed it at level 1 or if some other agent that the own agent signed at level 1 or more
  signed it, and otherwise level 0.
\<close>

theorem web_of_trust_exact:
  assumes "\<forall>t. EvictSignatures t \<in> set evs \<longrightarrow> t \<le> now"
  shows "trust_level (fold wot_step evs (set_own_agent_id own WebOfTrust_new)) target now =
     (if own = target then 3
      else if \<exists>l. live_trust evs now own target l \<and> l \<ge> 2 then 2
      else if live_trust evs now own target 1 \<or>
          (\<exists>i l k. i \<noteq> target \<and> live_trust evs now own i l \<and> l \<ge> 1 \<and> live_trust evs now i target k) then 1
      else 0)"
  unfolding trust_level_paths run_trusts [OF assms] run_own by (simp add: set_own_agent_id_def)

definition example_trust :: "byte \<Rightarrow> byte \<Rightarrow> byte \<Rightarrow> u64 \<Rightarrow> TrustSignature" where
  "example_trust a b l expiry = \<lparr>ts_sig_type = WOT_SIG_TYPE_V1, ts_signer_agent_id = replicate 32 a, ts_signed_agent_id = replicate 32 b,
     ts_signed_public_key = [b], ts_trust_level = l, ts_expiry = expiry, ts_signature = []\<rparr>"

lemma wot_type_valid [simp]: "utf8_valid WOT_SIG_TYPE_V1"
  by code_simp

lemma example_trust_simps [simp]:
  "ts_signer_agent_id (example_trust a b l t) = replicate 32 a" "ts_signed_agent_id (example_trust a b l t) = replicate 32 b"
  "ts_trust_level (example_trust a b l t) = l" "ts_expiry (example_trust a b l t) = t" "trust_signature_ok (example_trust a b l t)"
  "replicate 32 a = replicate 32 b \<longleftrightarrow> a = (b :: byte)"
  by (simp_all add: example_trust_def trust_signature_ok_def)

theorem web_of_trust_exact_witness:
  "trust_level (fold wot_step [AddSignature (example_trust 1 2 2 50), EvictSignatures 10, AddSignature (example_trust 2 3 1 60)]
     (set_own_agent_id (replicate 32 1) WebOfTrust_new)) (replicate 32 3) 20 = 1"
proof -
  have trust: "live_trust [AddSignature (example_trust 1 2 2 50), EvictSignatures 10, AddSignature (example_trust 2 3 1 60)] 20 a b l \<longleftrightarrow>
      a = replicate 32 1 \<and> b = replicate 32 2 \<and> l = 2 \<or> a = replicate 32 2 \<and> b = replicate 32 3 \<and> l = 1" for a b l
    unfolding live_trust_def by auto
  show ?thesis by (subst web_of_trust_exact, simp, unfold trust) auto
qed

section \<open>Export and import\<close>

lemma import_signatures_sent:
  "list_all trust_signature_ok sigs \<Longrightarrow>
     import_signatures (map (\<lambda>s. wire (TrustSignature_to_cbor s)) sigs) w = (Inr (), fold add_trust_signature sigs w)"
  by (induction sigs arbitrary: w) (simp_all add: trust_message.from_wire)

lemma signatures_by_fold_add:
  "signatures_by (fold add_trust_signature sigs w) a = signatures_by w a @ filter (\<lambda>s. ts_signer_agent_id s = a) sigs"
  by (induction sigs arbitrary: w) (auto simp: signatures_by_add)

lemma own_fold_add: "wt_own_agent_id (fold add_trust_signature sigs w) = wt_own_agent_id w"
  by (induction sigs arbitrary: w) (simp_all add: add_trust_signature_def Let_def)

lemma filter_keyed:
  assumes "distinct (map fst m)" and "\<forall>(k, sigs) \<in> set m. \<forall>s \<in> set sigs. ts_signer_agent_id s = k"
  shows "filter (\<lambda>s. ts_signer_agent_id s = a) (concat (map snd m)) = (case map_of m a of Some v \<Rightarrow> v | None \<Rightarrow> [])"
  using assms
proof (induction m)
  case (Cons e m)
  obtain k sigs where e: "e = (k, sigs)" by (cases e)
  have keyed: "\<forall>s \<in> set sigs. ts_signer_agent_id s = k" using Cons.prems(2) e by simp
  have rest: "filter (\<lambda>s. ts_signer_agent_id s = a) (concat (map snd m)) = (case map_of m a of Some v \<Rightarrow> v | None \<Rightarrow> [])"
    using Cons by simp
  show ?case
  proof (cases "k = a")
    case True
    then have "map_of m a = None" using Cons.prems(1) e by (auto simp: map_of_eq_None_iff)
    with True rest keyed show ?thesis by (simp add: e filter_True)
  next
    case False
    with rest keyed show ?thesis by (simp add: e)
  qed
qed simp

lemma exported_signatures:
  assumes "iteration_order ord" and "wot_ok w"
  shows "filter (\<lambda>s. ts_signer_agent_id s = a) (all_signatures ord w) = signatures_by w a"
proof -
  have ok: "hm_ok (wt_signatures w)" using assms(2) by (simp add: wot_ok_def)
  note it = iterated_map [OF assms(1) ok]
  show ?thesis
    unfolding all_signatures_def
    by (subst filter_keyed)
      (use it assms(2) in \<open>simp_all add: hm_ok_def wot_ok_def signatures_by_def hm_get_def fun_eq_iff\<close>)
qed

lemma trust_level_cong:
  assumes "wt_own_agent_id v = wt_own_agent_id w" and "signatures_by v = signatures_by w"
  shows "trust_level v target now = trust_level w target now"
proof -
  have trusts: "trusts v now = trusts w now" by (simp add: trusts_def assms(2) fun_eq_iff)
  show ?thesis unfolding trust_level_paths assms(1) trusts ..
qed

text \<open>
  A web of trust that is exported and imported into an empty one gives the same levels: for every agent and at every time
  the level computed is the one of the original, in whatever order the signatures were written.
\<close>

lemma trust_restored:
  assumes "iteration_order ord" and "wot_ok w" and "list_all trust_signature_ok (all_signatures ord w)"
    and "pred_option (\<lambda>b. length b = 32) (wt_own_agent_id w)" and "export_trust ord w = Inr bs" and "fits bs"
  shows "\<exists>w'. import_trust bs WebOfTrust_new = (Inr (), w') \<and> (\<forall>target now. trust_level w' target now = trust_level w target now)"
proof -
  let ?val = "export_trust_value ord w" and ?sigs = "all_signatures ord w"
  have bs: "bs = cbor_bytes ?val" using assms(5) by (simp add: export_trust_def encode_eq)
  have "wire_ok 0 ?val"
    using assms(3) by (auto simp: export_trust_value_def list_all_iff trust_signature_wire_ok split: option.split)
  from decode_wire [OF this, of "[]"] assms(6) have dec: "decode bs = Inr (wire ?val, length bs)" by (simp add: bs)
  define v where "v = fold add_trust_signature ?sigs WebOfTrust_new"
  have "import_signatures (map (\<lambda>s. wire (TrustSignature_to_cbor s)) ?sigs) WebOfTrust_new = (Inr (), v)"
    using assms(3) unfolding v_def by (rule import_signatures_sent)
  then have imported: "import_trust bs WebOfTrust_new = (Inr (), v\<lparr>wt_own_agent_id := wt_own_agent_id w\<rparr>)"
    using assms(4) own_fold_add [of ?sigs WebOfTrust_new] unfolding import_trust_def dec
    by (auto simp: export_trust_value_def int_map_get_wire comp_def v_def WebOfTrust_new_def split: option.split)
  have "signatures_by (v\<lparr>wt_own_agent_id := wt_own_agent_id w\<rparr>) a = signatures_by w a" for a
    using signatures_by_fold_add [of ?sigs WebOfTrust_new a] exported_signatures [OF assms(1,2)]
    by (simp add: v_def signatures_by_def WebOfTrust_new_def)
  then have "trust_level (v\<lparr>wt_own_agent_id := wt_own_agent_id w\<rparr>) target now = trust_level w target now" for target now
    by (intro trust_level_cong) auto
  with imported show ?thesis by blast
qed

definition example_web :: WebOfTrust where
  "example_web = \<lparr>wt_own_agent_id = Some (replicate 32 1), wt_signatures = [(replicate 32 1, [example_trust 1 2 2 50])], wt_known_public_keys = []\<rparr>"

lemma trust_restored_example:
  "\<exists>w'. import_trust (cbor_bytes (export_trust_value id example_web)) WebOfTrust_new = (Inr (), w') \<and>
     (\<forall>target now. trust_level w' target now = trust_level example_web target now)"
proof (rule trust_restored)
  show "fits (cbor_bytes (export_trust_value id example_web))"
    using fits_small [of "export_trust_value id example_web" "[]"]
    by (simp add: export_trust_value_def example_web_def all_signatures_def example_trust_def TrustSignature_to_cbor_def int_map_def
        WOT_SIG_TYPE_V1_def str_def)
qed (simp_all add: iteration_order_def wot_ok_def example_web_def hm_ok_def all_signatures_def export_trust_def encode_eq)

section \<open>What is not checked\<close>

text \<open>The store takes signatures as they come: one with no signature bytes at all, in the name of the own agent, makes any agent fully trusted.\<close>

lemma forged_signature_counts:
  assumes "wt_own_agent_id w = Some own" and "own \<noteq> target" and "now < expiry"
  shows "trust_level (add_trust_signature \<lparr>ts_sig_type = t, ts_signer_agent_id = own, ts_signed_agent_id = target,
    ts_signed_public_key = pk, ts_trust_level = 2, ts_expiry = expiry, ts_signature = []\<rparr> w) target now = 2"
proof -
  let ?w = "add_trust_signature \<lparr>ts_sig_type = t, ts_signer_agent_id = own, ts_signed_agent_id = target,
    ts_signed_public_key = pk, ts_trust_level = 2, ts_expiry = expiry, ts_signature = []\<rparr> w"
  have "trusts ?w now own target 2"
    using assms(3) by (simp add: trusts_def signatures_by_add TrustSignature_is_expired_def not_le)
  moreover have "wt_own_agent_id ?w = Some own" using assms(1) by (simp add: add_trust_signature_def Let_def)
  ultimately show ?thesis using assms(2) unfolding trust_level_paths by auto
qed

text \<open>The level in the second signature of a path is not looked at: a statement that an agent is not trusted makes it marginally trusted.\<close>

lemma distrust_counts_as_trust:
  "trust_level (fold add_trust_signature [example_trust 1 2 1 50, example_trust 2 3 0 50] (set_own_agent_id (replicate 32 1) WebOfTrust_new))
     (replicate 32 3) 0 = 1"
proof -
  let ?w = "fold add_trust_signature [example_trust 1 2 1 50, example_trust 2 3 0 50] (set_own_agent_id (replicate 32 1) WebOfTrust_new)"
  have own: "wt_own_agent_id ?w = Some (replicate 32 1)"
    unfolding own_fold_add by (simp add: set_own_agent_id_def)
  have "signatures_by (set_own_agent_id (replicate 32 1) WebOfTrust_new) a = []" for a
    by (simp add: signatures_by_def set_own_agent_id_def WebOfTrust_new_def)
  then have trusts: "trusts ?w 0 a b l \<longleftrightarrow> a = replicate 32 1 \<and> b = replicate 32 2 \<and> l = 1 \<or> a = replicate 32 2 \<and> b = replicate 32 3 \<and> l = 0" for a b l
    unfolding trusts_def signatures_by_fold_add by (auto simp: TrustSignature_is_expired_def)
  show ?thesis unfolding trust_level_paths own option.case trusts by auto
qed

text \<open>Imported data names the own agent, and with it the root of all trust.\<close>

lemma import_replaces_own:
  assumes "length other = 32"
  shows "import_trust (cbor_bytes (int_map [(2, ByteString other)])) w = (Inr (), w\<lparr>wt_own_agent_id := Some other\<rparr>)"
proof -
  have "fits (cbor_bytes (int_map [(2, ByteString other)]))"
    using fits_small [of "int_map [(2, ByteString other)]" "[]"] assms by (simp add: int_map_def)
  then have "decode (cbor_bytes (int_map [(2, ByteString other)])) = Inr (wire (int_map [(2, ByteString other)]),
      length (cbor_bytes (int_map [(2, ByteString other)])))"
    using decode_wire [of "int_map [(2, ByteString other)]" "[]"] by simp
  with assms show ?thesis by (simp add: import_trust_def int_map_get_wire)
qed

end
