(* ===== verification/Trust_Manager.thy ===== *)
theory Trust_Manager
  imports Ca_Certificate Web_Of_Trust
begin

text \<open>
  Trust decisions: the in-memory key directory and its client (\<open>crates/aafp-identity/src/key_directory.rs\<close>) and the trust
  manager (\<open>trust_manager.rs\<close>), which asks the revocation store, the keys seen before, a certificate, the web of trust and
  the directory, in this order. The peers that are accepted are characterised exactly, the directory is followed over its runs,
  and the rotation of a key is followed up to the refusal of the old one.
\<close>

section \<open>The key directory\<close>

definition RATE_LIMIT_SECS :: u64 where
  "RATE_LIMIT_SECS = 3600"

datatype directory_text =
    RecordRefused IdentityErrorV1
  | OlderVersion
  | InvalidRecordField
  | InvalidDirectorySignature
  | DirectorySignatureFailed
  | InvalidStatusField

datatype DirectoryError =
    DirInvalidRecord directory_text
  | DirRateLimited
  | DirPersistence ustring
  | DirCbor CborError
  | DirIdentity IdentityErrorV1
  | DirNotFound

record KeyDirectory =
  kd_records :: "(bytes, AgentRecord) hash_map"
  kd_last_publish :: "(bytes, u64) hash_map"
  kd_directory_key :: "(bytes \<times> bytes) option"

definition KeyDirectory_new :: KeyDirectory where
  "KeyDirectory_new = \<lparr>kd_records = [], kd_last_publish = [], kd_directory_key = None\<rparr>"

definition with_directory_key :: "bytes \<Rightarrow> bytes \<Rightarrow> KeyDirectory \<Rightarrow> KeyDirectory" where
  "with_directory_key public_key secret_key d = d\<lparr>kd_directory_key := Some (public_key, secret_key)\<rparr>"

definition directory_lookup :: "KeyDirectory \<Rightarrow> bytes \<Rightarrow> AgentRecord option" where
  "directory_lookup d agent_id = hm_get (kd_records d) agent_id"

text \<open>Publishing; a panic of the verification of the record is \<open>None\<close>.\<close>

definition publish :: "crypto \<Rightarrow> AgentRecord \<Rightarrow> u64 \<Rightarrow> KeyDirectory \<Rightarrow> ((DirectoryError + unit) \<times> KeyDirectory) option" where
  "publish cr r now d =
     (case AgentRecord_verify cr now r of
        None \<Rightarrow> None
      | Some (Inl e) \<Rightarrow> Some (Inl (DirInvalidRecord (RecordRefused e)), d)
      | Some (Inr _) \<Rightarrow>
          if (case hm_get (kd_last_publish d) (ar_agent_id r) of Some latest \<Rightarrow> sat_sub now latest < RATE_LIMIT_SECS | None \<Rightarrow> False)
          then Some (Inl DirRateLimited, d)
          else if (case hm_get (kd_records d) (ar_agent_id r) of Some existing \<Rightarrow> ar_record_version r < ar_record_version existing | None \<Rightarrow> False)
          then Some (Inl (DirInvalidRecord OlderVersion), d)
          else Some (Inr (), d\<lparr>kd_last_publish := hm_insert (ar_agent_id r) now (kd_last_publish d),
                 kd_records := hm_insert (ar_agent_id r) r (kd_records d)\<rparr>))"

definition KeyDirectory_verify :: "crypto \<Rightarrow> KeyDirectory \<Rightarrow> bytes \<Rightarrow> AgentRecord \<Rightarrow> u64 \<Rightarrow> bool option" where
  "KeyDirectory_verify cr d agent_id r now =
     (case hm_get (kd_records d) agent_id of
        Some stored \<Rightarrow>
          if ar_agent_id stored = ar_agent_id r \<and> ar_public_key stored = ar_public_key r \<and> ar_signature stored = ar_signature r
          then map_option (\<lambda>res. res = Inr ()) (AgentRecord_verify cr now r)
          else Some False
      | None \<Rightarrow> Some False)"

definition sign_record :: "crypto \<Rightarrow> bytes \<Rightarrow> KeyDirectory \<Rightarrow> bytes \<Rightarrow> bytes option option" where
  "sign_record cr rnd d record_bytes =
     (case kd_directory_key d of
        None \<Rightarrow> Some None
      | Some (_, sk) \<Rightarrow> map_option Some (MlDsa65_sign cr sk record_bytes rnd))"

definition verify_directory_signature :: "crypto \<Rightarrow> bytes \<Rightarrow> bytes \<Rightarrow> bytes \<Rightarrow> bool" where
  "verify_directory_signature cr record_bytes signature directory_public_key =
     (case MlDsa65Signature_from_bytes signature of
        Inr sig \<Rightarrow> MlDsa65_verify cr directory_public_key record_bytes sig
      | Inl _ \<Rightarrow> False)"

definition KeyDirectory_evict_expired :: "u64 \<Rightarrow> KeyDirectory \<Rightarrow> KeyDirectory" where
  "KeyDirectory_evict_expired now d = d\<lparr>kd_records := hm_retain (\<lambda>_ r. \<not> AgentRecord_is_expired now r) (kd_records d)\<rparr>"

section \<open>The directory client\<close>

definition encode_lookup_request :: "bytes \<Rightarrow> bytes" where
  "encode_lookup_request agent_id = (case encode (int_map [(1, ByteString agent_id)]) of Inr bs \<Rightarrow> bs | Inl _ \<Rightarrow> [])"

text \<open>\<open>dir_pk\<close> is the trusted key of the directory, the only field of the client.\<close>

definition decode_lookup_response :: "crypto \<Rightarrow> bytes option \<Rightarrow> bytes \<Rightarrow> u64 \<Rightarrow> (DirectoryError + AgentRecord option) option" where
  "decode_lookup_response cr dir_pk data now =
     (case decode data of
        Inl e \<Rightarrow> Some (Inl (DirCbor e))
      | Inr (val, _) \<Rightarrow>
          (case int_map_get val 1 of
             None \<Rightarrow> Some (Inr None)
           | Some Null \<Rightarrow> Some (Inr None)
           | Some (ByteString record_bytes) \<Rightarrow>
               (case decode record_bytes of
                  Inl e \<Rightarrow> Some (Inl (DirCbor e))
                | Inr (record_cbor, _) \<Rightarrow>
                    (case AgentRecord_from_cbor record_cbor of
                       Inl e \<Rightarrow> Some (Inl (DirIdentity e))
                     | Inr r \<Rightarrow>
                         (case AgentRecord_verify cr now r of
                            None \<Rightarrow> None
                          | Some (Inl e) \<Rightarrow> Some (Inl (DirInvalidRecord (RecordRefused e)))
                          | Some (Inr _) \<Rightarrow>
                              (case (dir_pk, int_map_get val 2) of
                                 (Some pk, Some (ByteString sig)) \<Rightarrow>
                                   Some (bind_result (map_err (\<lambda>_. DirInvalidRecord InvalidDirectorySignature) (MlDsa65Signature_from_bytes sig)) (\<lambda>sig_obj.
                                     if \<not> MlDsa65_verify cr pk record_bytes sig_obj then Inl (DirInvalidRecord DirectorySignatureFailed)
                                     else Inr (Some r)))
                               | _ \<Rightarrow> Some (Inr (Some r))))))
           | Some _ \<Rightarrow> Some (Inl (DirInvalidRecord InvalidRecordField))))"

definition encode_publish_request :: "AgentRecord \<Rightarrow> bytes" where
  "encode_publish_request r =
     (let cbor_bytes = (case encode (AgentRecord_to_cbor r) of Inr bs \<Rightarrow> bs | Inl _ \<Rightarrow> [])
      in case encode (int_map [(1, ByteString cbor_bytes)]) of Inr bs \<Rightarrow> bs | Inl _ \<Rightarrow> [])"

definition decode_publish_response :: "bytes \<Rightarrow> DirectoryError + (u64 \<times> ustring)" where
  "decode_publish_response data =
     bind_result (map_err DirCbor (decode data)) (\<lambda>(val, _).
     bind_result (case int_map_get val 1 of Some (Unsigned n) \<Rightarrow> Inr n | _ \<Rightarrow> Inl (DirInvalidRecord InvalidStatusField)) (\<lambda>status.
     Inr (status, case int_map_get val 2 of Some (TextString s) \<Rightarrow> s | _ \<Rightarrow> [])))"

section \<open>The trust manager\<close>

datatype TrustSource = SourceDirect | SourceWebOfTrust | SourceCertificateAuthority | SourceDirectory | SourceTofu

datatype TrustSuggestion = SuggestTofu | QueryDirectory | RequestWotSignature | RequestCaCert

datatype TrustResult =
    Trusted TrustSource byte
  | Untrusted string
  | Revoked string
  | UnknownPeer TrustSuggestion

datatype TrustPolicy = Strict | Cautious | Permissive

record TrustManager =
  tm_own_agent_id :: bytes
  tm_direct_cache :: "(bytes, bytes) hash_map"
  tm_wot :: WebOfTrust
  tm_ca_verifier :: CaVerifier
  tm_directory :: "KeyDirectory option"
  tm_revocation_store :: RevocationStore
  tm_policy :: TrustPolicy

definition TrustManager_new :: "bytes \<Rightarrow> TrustManager" where
  "TrustManager_new own_agent_id = \<lparr>tm_own_agent_id = own_agent_id, tm_direct_cache = [],
     tm_wot = set_own_agent_id own_agent_id WebOfTrust_new, tm_ca_verifier = CaVerifier_new, tm_directory = None,
     tm_revocation_store = RevocationStore_new, tm_policy = Cautious\<rparr>"

definition with_policy :: "TrustPolicy \<Rightarrow> TrustManager \<Rightarrow> TrustManager" where
  "with_policy policy tm = tm\<lparr>tm_policy := policy\<rparr>"

definition with_directory :: "KeyDirectory \<Rightarrow> TrustManager \<Rightarrow> TrustManager" where
  "with_directory directory tm = tm\<lparr>tm_directory := Some directory\<rparr>"

definition add_trusted_ca :: "bytes \<Rightarrow> TrustManager \<Rightarrow> TrustManager" where
  "add_trusted_ca public_key tm = tm\<lparr>tm_ca_verifier := add_trusted_root public_key (tm_ca_verifier tm)\<rparr>"

definition add_direct_trust :: "bytes \<Rightarrow> bytes \<Rightarrow> TrustManager \<Rightarrow> TrustManager" where
  "add_direct_trust agent_id public_key tm = tm\<lparr>tm_direct_cache := hm_insert agent_id public_key (tm_direct_cache tm)\<rparr>"

text \<open>The suggestion made when nothing is known; whether there are signatures does not depend on the order of the map.\<close>

definition trust_suggestion :: "TrustManager \<Rightarrow> TrustSuggestion" where
  "trust_suggestion tm =
     (if tm_directory tm \<noteq> None then QueryDirectory
      else if all_signatures (\<lambda>m. m) (tm_wot tm) \<noteq> [] then RequestWotSignature
      else SuggestTofu)"

text \<open>The last two steps of \<open>verify_peer\<close>: the directory, and nothing known.\<close>

definition verify_in_directory :: "crypto \<Rightarrow> TrustManager \<Rightarrow> bytes \<Rightarrow> bytes \<Rightarrow> u64 \<Rightarrow> TrustResult option" where
  "verify_in_directory cr tm agent_id public_key now =
     (case (case tm_directory tm of Some dir \<Rightarrow> directory_lookup dir agent_id | None \<Rightarrow> None) of
        Some r \<Rightarrow>
          if ar_public_key r = public_key then
            (case AgentRecord_verify cr now r of
               None \<Rightarrow> None
             | Some (Inr _) \<Rightarrow> Some (Trusted SourceDirectory TRUST_LEVEL_FULL)
             | Some (Inl _) \<Rightarrow> Some (UnknownPeer (trust_suggestion tm)))
          else Some (Untrusted ''public key mismatch with directory record'')
      | None \<Rightarrow> Some (UnknownPeer (trust_suggestion tm)))"

definition verify_peer :: "crypto \<Rightarrow> TrustManager \<Rightarrow> bytes \<Rightarrow> bytes \<Rightarrow> CaCertificate option \<Rightarrow> u64 \<Rightarrow> TrustResult option" where
  "verify_peer cr tm agent_id public_key ca_cert now =
     (if RevocationStore_is_revoked (tm_revocation_store tm) agent_id then Some (Revoked ''agent_id is in revocation store'')
      else
        case hm_get (tm_direct_cache tm) agent_id of
          Some cached_pk \<Rightarrow>
            if cached_pk = public_key then Some (Trusted SourceDirect TRUST_LEVEL_ULTIMATE)
            else Some (Untrusted ''public key mismatch with cached direct trust'')
        | None \<Rightarrow>
            if (case ca_cert of
                  Some cert \<Rightarrow> verify_certificate cr (tm_ca_verifier tm) cert now (Some (tm_revocation_store tm)) = Inr ()
                | None \<Rightarrow> False)
            then Some (Trusted SourceCertificateAuthority TRUST_LEVEL_FULL)
            else
              let wot_level = trust_level (tm_wot tm) agent_id now in
              if wot_level \<ge> TRUST_LEVEL_MARGINAL then Some (Trusted SourceWebOfTrust wot_level)
              else verify_in_directory cr tm agent_id public_key now)"

fun should_accept :: "TrustPolicy \<Rightarrow> TrustResult \<Rightarrow> bool" where
  "should_accept _ (Trusted _ _) = True"
| "should_accept _ (Revoked _) = False"
| "should_accept _ (Untrusted _) = False"
| "should_accept Strict (UnknownPeer _) = False"
| "should_accept Cautious (UnknownPeer _) = False"
| "should_accept Permissive (UnknownPeer _) = True"

definition accept_tofu :: "bytes \<Rightarrow> bytes \<Rightarrow> TrustManager \<Rightarrow> TrustManager" where
  "accept_tofu agent_id public_key tm = add_direct_trust agent_id public_key tm"

definition direct_trust_count :: "TrustManager \<Rightarrow> nat" where
  "direct_trust_count tm = hm_len (tm_direct_cache tm)"

section \<open>Which peers are accepted\<close>

lemma should_accept_unknown: "should_accept p (UnknownPeer s) \<longleftrightarrow> p = Permissive"
  by (cases p) simp_all

lemma record_verify_total: "AgentRecord_verify cr now r \<noteq> None"
  by (simp add: AgentRecord_verify_def record_sig_input_eq Let_def)

lemma certificate_verified:
  "verify_certificate cr v c now store = Inr () \<longleftrightarrow> cert_valid cr now store c \<and> ca_issuer_public_key c \<in> trusted_roots v"
  by (simp add: verify_certificate_def verify_chain_def verify_links_last del: verify_links.simps)

text \<open>
  C35. When a peer is accepted. A revoked peer never is. When a key of this agent was seen before, it alone decides: the peer is accepted if and only if
  it has that key, whatever certificate, web of trust or directory say. Otherwise it is accepted if and only if the certificate presented with it is
  valid and issued by a trusted root (of whichever agent: the certificate is not compared with the peer, see \<open>certificate_of_another\<close>), or the web of trust gives the agent a level of at
  least 1, or the directory holds a record of the agent with this key that verifies, or, under the permissive policy only, the directory has no
  record of it or one with this key that does not verify.
\<close>

theorem accepted_peers:
  "(\<exists>res. verify_peer cr tm agent_id pk cert now = Some res \<and> should_accept (tm_policy tm) res) \<longleftrightarrow>
     agent_id \<notin> rs_revoked (tm_revocation_store tm) \<and>
     (case hm_get (tm_direct_cache tm) agent_id of
        Some cached \<Rightarrow> cached = pk
      | None \<Rightarrow>
          (\<exists>c. cert = Some c \<and> cert_valid cr now (Some (tm_revocation_store tm)) c \<and> ca_issuer_public_key c \<in> trusted_roots (tm_ca_verifier tm)) \<or>
          trust_level (tm_wot tm) agent_id now \<ge> 1 \<or>
          (case Option.bind (tm_directory tm) (\<lambda>d. directory_lookup d agent_id) of
             Some r \<Rightarrow> ar_public_key r = pk \<and> (AgentRecord_verify cr now r = Some (Inr ()) \<or> tm_policy tm = Permissive)
           | None \<Rightarrow> tm_policy tm = Permissive))"
proof -
  have dir: "(\<exists>res. verify_in_directory cr tm agent_id pk now = Some res \<and> should_accept (tm_policy tm) res) \<longleftrightarrow>
      (case Option.bind (tm_directory tm) (\<lambda>d. directory_lookup d agent_id) of
         Some r \<Rightarrow> ar_public_key r = pk \<and> (AgentRecord_verify cr now r = Some (Inr ()) \<or> tm_policy tm = Permissive)
       | None \<Rightarrow> tm_policy tm = Permissive)"
    by (auto simp: verify_in_directory_def should_accept_unknown record_verify_total split: option.splits sum.splits)
  have cert: "(case cert of Some c \<Rightarrow> verify_certificate cr (tm_ca_verifier tm) c now (Some (tm_revocation_store tm)) = Inr () | None \<Rightarrow> False) \<longleftrightarrow>
      (\<exists>c. cert = Some c \<and> cert_valid cr now (Some (tm_revocation_store tm)) c \<and> ca_issuer_public_key c \<in> trusted_roots (tm_ca_verifier tm))"
    by (simp add: certificate_verified split: option.split)
  show ?thesis
    unfolding verify_peer_def cert RevocationStore_is_revoked_def dir [symmetric]
    by (auto simp: Let_def TRUST_LEVEL_MARGINAL_def split: option.split)
qed

text \<open>A peer accepted on first use is held to the key it had then.\<close>

lemma tofu_pins:
  assumes "pk' \<noteq> pk" and "verify_peer cr (accept_tofu agent_id pk tm) agent_id pk' cert now = Some res"
  shows "\<not> should_accept policy res"
  using assms by (auto simp: verify_peer_def accept_tofu_def add_direct_trust_def hm.get_put split: if_splits)

text \<open>
  The certificate is not compared with the peer: with a valid certificate of any agent, a peer not seen before is trusted under
  every policy, whatever its id and key.
\<close>

lemma certificate_of_another:
  assumes "cert_valid cr now (Some (tm_revocation_store tm)) c" and "ca_issuer_public_key c \<in> trusted_roots (tm_ca_verifier tm)"
    and "hm_get (tm_direct_cache tm) agent_id = None" and "agent_id \<notin> rs_revoked (tm_revocation_store tm)"
  shows "verify_peer cr tm agent_id pk (Some c) now = Some (Trusted SourceCertificateAuthority TRUST_LEVEL_FULL)"
  using assms by (simp add: verify_peer_def RevocationStore_is_revoked_def certificate_verified)

section \<open>From rotation to refusal\<close>

lemma revoked_refused:
  "agent_id \<in> rs_revoked (tm_revocation_store tm) \<Longrightarrow>
     verify_peer cr tm agent_id pk cert now = Some (Revoked ''agent_id is in revocation store'')"
  by (simp add: verify_peer_def RevocationStore_is_revoked_def)

text \<open>
  C36. A rotation is carried through: the record made with both keys verifies with the old key, the list of revocations made from
  it holds an entry that verifies with the old key, and every trust manager to whose store the list is added refuses the old id as revoked,
  whatever certificate it presents and whatever was known of it.
\<close>

theorem rotation_retires_old_key:
  assumes "keypair_ok cr old" and "keypair_ok cr new" and "unat ts + unat ttl \<le> USIZE_MAX"
  shows "\<exists>r crl. KeyRotationRecord_new cr rnd rnd' (sha256 cr (kp_public_key old)) (sha256 cr (kp_public_key new)) (kp_public_key new) ts
      (kp_secret_key old) (kp_secret_key new) = Some r \<and> KeyRotationRecord_verify cr (kp_public_key old) now r = Inr () \<and>
    create_revocation_crl cr rnd'' (kp_secret_key old) ttl reason r = Some crl \<and>
    list_all (RevocationEntry_verify cr (kp_public_key old)) (rl_entries crl) \<and>
    (\<forall>tm pk cert now'. verify_peer cr (tm\<lparr>tm_revocation_store := add_crl crl (tm_revocation_store tm)\<rparr>) (sha256 cr (kp_public_key old)) pk cert now' =
       Some (Revoked ''agent_id is in revocation store''))"
proof -
  obtain r crl where r: "KeyRotationRecord_new cr rnd rnd' (sha256 cr (kp_public_key old)) (sha256 cr (kp_public_key new)) (kp_public_key new) ts
      (kp_secret_key old) (kp_secret_key new) = Some r" "KeyRotationRecord_verify cr (kp_public_key old) now r = Inr ()"
    "create_revocation_crl cr rnd'' (kp_secret_key old) ttl reason r = Some crl"
    "\<forall>e \<in> set (rl_entries crl). RevocationEntry_verify cr (kp_public_key old) e"
    "\<forall>s. RevocationStore_is_revoked (add_crl crl s) (sha256 cr (kp_public_key old))"
    using rotation_completes [OF assms] by metis
  then have "list_all (RevocationEntry_verify cr (kp_public_key old)) (rl_entries crl)" by (simp add: list_all_iff)
  moreover have "verify_peer cr (tm\<lparr>tm_revocation_store := add_crl crl (tm_revocation_store tm)\<rparr>) (sha256 cr (kp_public_key old)) pk cert now' =
      Some (Revoked ''agent_id is in revocation store'')" for tm pk cert now'
    using r(5) by (intro revoked_refused) (simp add: RevocationStore_is_revoked_def)
  ultimately show ?thesis using r(1-3) by blast
qed

definition example_new_keys :: AgentKeypair where
  "example_new_keys = \<lparr>kp_public_key = replicate 1952 2, kp_secret_key = replicate 4032 2\<rparr>"

theorem rotation_retires_old_key_witness:
  "\<exists>r crl. KeyRotationRecord_new example_crypto [] [] (sha256 example_crypto (kp_public_key example_record_keys))
      (sha256 example_crypto (kp_public_key example_new_keys)) (kp_public_key example_new_keys) 1000
      (kp_secret_key example_record_keys) (kp_secret_key example_new_keys) = Some r \<and>
    KeyRotationRecord_verify example_crypto (kp_public_key example_record_keys) 1000 r = Inr () \<and>
    create_revocation_crl example_crypto [] (kp_secret_key example_record_keys) 60 None r = Some crl \<and>
    list_all (RevocationEntry_verify example_crypto (kp_public_key example_record_keys)) (rl_entries crl) \<and>
    (\<forall>tm pk cert now'. verify_peer example_crypto (tm\<lparr>tm_revocation_store := add_crl crl (tm_revocation_store tm)\<rparr>)
       (sha256 example_crypto (kp_public_key example_record_keys)) pk cert now' = Some (Revoked ''agent_id is in revocation store''))"
proof (rule rotation_retires_old_key [OF example_record_keys_ok])
  show "keypair_ok example_crypto example_new_keys" by (simp add: keypair_ok_def example_crypto_def example_new_keys_def)
qed simp

section \<open>The directory over a run\<close>

datatype directory_event = Publish AgentRecord u64 | EvictRecords u64

text \<open>The state of a run is the directory and the publications it accepted, the latest first.\<close>

fun directory_step :: "crypto \<Rightarrow> directory_event \<Rightarrow> KeyDirectory \<times> (AgentRecord \<times> u64) list \<Rightarrow> KeyDirectory \<times> (AgentRecord \<times> u64) list" where
  "directory_step cr (Publish r now) (d, log) =
     (case publish cr r now d of
        Some (Inr _, d') \<Rightarrow> (d', (r, now) # log)
      | Some (Inl _, d') \<Rightarrow> (d', log)
      | None \<Rightarrow> (d, log))"
| "directory_step cr (EvictRecords now) (d, log) = (KeyDirectory_evict_expired now d, log)"

definition apart :: "AgentRecord \<times> u64 \<Rightarrow> AgentRecord \<times> u64 \<Rightarrow> bool" where
  "apart p q \<longleftrightarrow> (ar_agent_id (fst p) = ar_agent_id (fst q) \<longrightarrow> unat (snd q) + 3600 \<le> unat (snd p))"

definition latest :: "bytes \<Rightarrow> (AgentRecord \<times> u64) list \<Rightarrow> (AgentRecord \<times> u64) option" where
  "latest a log = find (\<lambda>p. ar_agent_id (fst p) = a) log"

definition directory_inv :: "crypto \<Rightarrow> KeyDirectory \<times> (AgentRecord \<times> u64) list \<Rightarrow> bool" where
  "directory_inv cr = (\<lambda>(d, log). hm_ok (kd_records d) \<and>
     (\<forall>a. hm_get (kd_last_publish d) a = map_option snd (latest a log)) \<and>
     (\<forall>a r. directory_lookup d a = Some r \<longrightarrow> (\<exists>t. latest a log = Some (r, t))) \<and>
     (\<forall>p \<in> set log. AgentRecord_verify cr (snd p) (fst p) = Some (Inr ())) \<and>
     sorted_wrt apart log)"

lemma published:
  "publish cr r now d = Some (Inr (), d') \<longleftrightarrow> AgentRecord_verify cr now r = Some (Inr ()) \<and>
     (\<forall>t. hm_get (kd_last_publish d) (ar_agent_id r) = Some t \<longrightarrow> unat t + unat RATE_LIMIT_SECS \<le> unat now) \<and>
     (\<forall>r'. directory_lookup d (ar_agent_id r) = Some r' \<longrightarrow> ar_record_version r' \<le> ar_record_version r) \<and>
     d' = d\<lparr>kd_last_publish := hm_insert (ar_agent_id r) now (kd_last_publish d), kd_records := hm_insert (ar_agent_id r) r (kd_records d)\<rparr>"
proof -
  have sub: "sat_sub now t < RATE_LIMIT_SECS \<longleftrightarrow> \<not> unat t + unat RATE_LIMIT_SECS \<le> unat now" for t
    unfolding word_less_nat_alt unat_sat_sub RATE_LIMIT_SECS_def by (simp, linarith)
  have rate: "(case x of Some t \<Rightarrow> sat_sub now t < RATE_LIMIT_SECS | None \<Rightarrow> False) \<longleftrightarrow>
      \<not> (\<forall>t. x = Some t \<longrightarrow> unat t + unat RATE_LIMIT_SECS \<le> unat now)" for x
    unfolding sub by (cases x) simp_all
  have version: "(case x of Some existing \<Rightarrow> ar_record_version r < ar_record_version existing | None \<Rightarrow> False) \<longleftrightarrow>
      \<not> (\<forall>r'. x = Some r' \<longrightarrow> ar_record_version r' \<le> ar_record_version r)" for x :: "AgentRecord option"
    by (cases x) (simp_all add: not_le)
  show ?thesis
    unfolding publish_def directory_lookup_def rate version
    by (cases "AgentRecord_verify cr now r"; cases "the (AgentRecord_verify cr now r)") (simp_all, blast+)
qed

lemma published_refused: "publish cr r now d = Some (Inl e, d') \<Longrightarrow> d' = d"
  by (auto simp: publish_def split: option.splits sum.splits if_splits)

lemma latest_simps [simp]: "latest a [] = None" "latest a (p # log) = (if ar_agent_id (fst p) = a then Some p else latest a log)"
  by (simp_all add: latest_def)

lemma latest_Some: "latest a log = Some p \<Longrightarrow> p \<in> set log \<and> ar_agent_id (fst p) = a"
  by (induction log) (auto split: if_splits)

lemma latest_is_last:
  "sorted_wrt apart log \<Longrightarrow> q \<in> set log \<Longrightarrow> ar_agent_id (fst q) = a \<Longrightarrow> \<exists>p. latest a log = Some p \<and> unat (snd q) \<le> unat (snd p)"
  by (induction log) (auto simp: apart_def)

lemma accepted_inv:
  assumes "directory_inv cr (d, log)" and "publish cr r now d = Some (Inr (), d')"
  shows "directory_inv cr (d', (r, now) # log)"
proof -
  note inv = assms(1) [unfolded directory_inv_def prod.case] and pub = assms(2) [unfolded published]
  have "apart (r, now) q" if q: "q \<in> set log" for q
    unfolding apart_def fst_conv snd_conv
  proof
    assume "ar_agent_id r = ar_agent_id (fst q)"
    then obtain p where p: "latest (ar_agent_id r) log = Some p" "unat (snd q) \<le> unat (snd p)"
      using latest_is_last [OF _ q] inv by metis
    then have "hm_get (kd_last_publish d) (ar_agent_id r) = Some (snd p)" using inv by simp
    with pub have "unat (snd p) + 3600 \<le> unat now" by (simp add: RATE_LIMIT_SECS_def)
    with p(2) show "unat (snd q) + 3600 \<le> unat now" by simp
  qed
  then have "sorted_wrt apart ((r, now) # log)" using inv by simp
  moreover have "hm_get (kd_last_publish d') a = map_option snd (latest a ((r, now) # log))" for a
    using inv pub by (simp add: hm.get_put)
  moreover have "\<exists>t. latest a ((r, now) # log) = Some (r', t)" if "directory_lookup d' a = Some r'" for a r'
    using that inv pub by (auto simp: directory_lookup_def hm.get_put split: if_splits)
  ultimately show ?thesis
    using inv pub unfolding directory_inv_def prod.case by (simp add: hm.put_ok)
qed

lemma directory_step_inv:
  assumes "directory_inv cr s"
  shows "directory_inv cr (directory_step cr e s)"
proof (cases s)
  case (Pair d log)
  show ?thesis
  proof (cases e)
    case (Publish r now)
    show ?thesis
    proof (cases "publish cr r now d")
      case (Some res)
      obtain x d' where res: "res = (x, d')" by (cases res)
      show ?thesis
      proof (cases x)
        case (Inl err)
        with Some res have "d' = d" using published_refused by simp
        with Some res Inl Publish Pair assms show ?thesis by simp
      next
        case (Inr u)
        with Some res Publish Pair assms accepted_inv [of cr d log r now d'] show ?thesis by simp
      qed
    qed (use Publish Pair assms in simp)
  next
    case (EvictRecords now)
    have "directory_lookup d a = Some r" if "hm_ok (kd_records d)" "directory_lookup (KeyDirectory_evict_expired now d) a = Some r" for a r
      using that by (auto simp: directory_lookup_def KeyDirectory_evict_expired_def hm_get_retain split: option.splits if_splits)
    with EvictRecords Pair assms show ?thesis
      by (auto simp: directory_inv_def KeyDirectory_evict_expired_def hm_retain_ok)
  qed
qed

text \<open>
  C39. Over any run of the directory: a record that it serves for an id was accepted by it, verified at the time it was published, and
  carries the key that the id is the hash of; and the publications accepted for one id are at least an hour apart, evictions in between
  or not.
\<close>

theorem directory_run:
  assumes "fold (directory_step cr) evs (KeyDirectory_new, []) = (d, log)"
  shows "(\<forall>a r. directory_lookup d a = Some r \<longrightarrow>
       a = sha256 cr (ar_public_key r) \<and> (\<exists>t. (r, t) \<in> set log \<and> AgentRecord_verify cr t r = Some (Inr ()))) \<and>
     sorted_wrt (\<lambda>p q. ar_agent_id (fst p) = ar_agent_id (fst q) \<longrightarrow> unat (snd q) + 3600 \<le> unat (snd p)) log"
proof -
  have "directory_inv cr (fold (directory_step cr) evs s)" if "directory_inv cr s" for s
    using that by (induction evs arbitrary: s) (simp_all add: directory_step_inv)
  from this [of "(KeyDirectory_new, [])"] have inv: "directory_inv cr (d, log)"
    unfolding assms by (simp add: directory_inv_def KeyDirectory_new_def directory_lookup_def)
  have "a = sha256 cr (ar_public_key r) \<and> (\<exists>t. (r, t) \<in> set log \<and> AgentRecord_verify cr t r = Some (Inr ()))"
    if lookup: "directory_lookup d a = Some r" for a r
  proof -
    obtain t where "latest a log = Some (r, t)" using inv lookup unfolding directory_inv_def prod.case by blast
    then have t: "(r, t) \<in> set log" "ar_agent_id r = a" using latest_Some by fastforce+
    then have "AgentRecord_verify cr t r = Some (Inr ())" using inv unfolding directory_inv_def prod.case by fastforce
    with t show ?thesis by (auto simp: record_verify_Inr)
  qed
  moreover have "sorted_wrt (\<lambda>p q. ar_agent_id (fst p) = ar_agent_id (fst q) \<longrightarrow> unat (snd q) + 3600 \<le> unat (snd p)) log"
    using inv unfolding directory_inv_def prod.case apart_def [abs_def] by blast
  ultimately show ?thesis by blast
qed

theorem directory_run_witness:
  "\<exists>r d log. fold (directory_step example_crypto) [Publish r 1500] (KeyDirectory_new, []) = (d, log) \<and>
     directory_lookup d (ar_agent_id r) = Some r \<and> ar_agent_id r = sha256 example_crypto (ar_public_key r) \<and> log = [(r, 1500)]"
proof -
  obtain sig where v: "AgentRecord_verify example_crypto 1500 (example_record\<lparr>ar_signature := sig\<rparr>) = Some (Inr ())"
    using record_signed_verifies [OF example_record_keys_ok example_record_fields(1-4), of 1500] example_record_fields(5) by auto
  define r where "r = example_record\<lparr>ar_signature := sig\<rparr>"
  let ?d = "KeyDirectory_new\<lparr>kd_last_publish := hm_insert (ar_agent_id r) 1500 [], kd_records := hm_insert (ar_agent_id r) r []\<rparr>"
  have "publish example_crypto r 1500 KeyDirectory_new = Some (Inr (), ?d)"
    using v unfolding published r_def [symmetric] by (simp add: KeyDirectory_new_def directory_lookup_def)
  then have run: "fold (directory_step example_crypto) [Publish r 1500] (KeyDirectory_new, []) = (?d, [(r, 1500)])" by simp
  moreover have "directory_lookup ?d (ar_agent_id r) = Some r" by (simp add: directory_lookup_def hm.get_put)
  ultimately show ?thesis using directory_run [OF run] by blast
qed

text \<open>
  The version kept is that of the record held: once it has expired and been evicted, a record with any older version is
  accepted again.
\<close>

lemma version_forgotten:
  assumes "hm_ok (kd_records d)" and "directory_lookup d (ar_agent_id r) = Some r'" and "AgentRecord_is_expired t r'"
    and "hm_get (kd_last_publish d) (ar_agent_id r) = Some t0" and "unat t0 + 3600 \<le> unat now" and "AgentRecord_verify cr now r = Some (Inr ())"
  shows "\<exists>d'. publish cr r now (KeyDirectory_evict_expired t d) = Some (Inr (), d') \<and> directory_lookup d' (ar_agent_id r) = Some r"
  using assms unfolding published
  by (simp add: directory_lookup_def KeyDirectory_evict_expired_def hm_get_retain RATE_LIMIT_SECS_def hm.get_put)

section \<open>The client\<close>

lemma lookup_response_verified:
  "decode_lookup_response cr dir_pk data now = Some (Inr (Some r)) \<Longrightarrow> AgentRecord_verify cr now r = Some (Inr ())"
  by (auto simp: decode_lookup_response_def bind_result_Inr_iff split: option.splits sum.splits Value.splits if_splits)

text \<open>A response without a signature is taken even by a client that has the key of the directory.\<close>

lemma unsigned_response_accepted:
  assumes "decode data = Inr (val, n)" and "int_map_get val 1 = Some (ByteString bs)" and "int_map_get val 2 = None"
    and "decode bs = Inr (rv, m)" and "AgentRecord_from_cbor rv = Inr r" and "AgentRecord_verify cr now r = Some (Inr ())"
  shows "decode_lookup_response cr (Some dir_pk) data now = Some (Inr (Some r))"
  using assms by (simp add: decode_lookup_response_def)

end
