(* ===== verification/Ucan_Extension.thy ===== *)
theory Ucan_Extension
  imports Record_Extensions "HOL-Library.Sublist"
begin

text \<open>
  Delegation tokens, \<open>crates/aafp-identity/src/extensions/ucan.rs\<close>: capabilities with caveats, tokens that
  carry their proof chain, signing, verification, delegation, attenuation, validation of chains, the
  CBOR form and the builder. Hexadecimal output is the parameter \<open>hex\<close> and the order in which hash
  maps are iterated is \<open>ord\<close>; the clock and the randomness of signatures are arguments. Panics are \<open>None\<close>.

  Validation is compared with an inductive definition of valid chains. The theorems show that no capability
  of a valid token exceeds those of any token it is derived from, that an honest delegation of a
  valid token is valid, and that a token sent to someone else is validated there with the same
  result. What validation does not tie together, the signer and the issuer it names, is a lemma.
\<close>

section \<open>Tokens\<close>

definition UCAN_ALG :: ustring where "UCAN_ALG = str ''ML-DSA-65''"
definition UCAN_TYP :: ustring where "UCAN_TYP = str ''UCAN''"

record UcanHeader =
  uh_alg :: ustring
  uh_typ :: ustring
  uh_kid :: ustring

record Capability =
  cap_resource :: ustring
  cap_action :: ustring
  cap_caveats :: "(ustring, ustring) hash_map"

datatype Ucan = Ucan (ucan_header: UcanHeader) (ucan_payload: UcanPayload) (ucan_signature: bytes)
  and UcanPayload = UcanPayload (pay_iss: ustring) (pay_aud: ustring) (pay_exp: u64) (pay_nbf: u64)
    (pay_prf: "Ucan list") (pay_att: "Capability list") (pay_fct: "(ustring, ustring) hash_map list")

type_synonym text_order = "(ustring, ustring) hash_map \<Rightarrow> (ustring \<times> ustring) list"

definition UcanHeader_new :: "ustring \<Rightarrow> ustring \<Rightarrow> ustring \<Rightarrow> UcanHeader" where
  "UcanHeader_new alg typ kid = \<lparr>uh_alg = alg, uh_typ = typ, uh_kid = kid\<rparr>"

definition Capability_new :: "ustring \<Rightarrow> ustring \<Rightarrow> Capability" where
  "Capability_new resource action = \<lparr>cap_resource = resource, cap_action = action, cap_caveats = []\<rparr>"

definition with_caveat :: "ustring \<Rightarrow> ustring \<Rightarrow> Capability \<Rightarrow> Capability" where
  "with_caveat key val c = c\<lparr>cap_caveats := hm_insert key val (cap_caveats c)\<rparr>"

definition is_subset_of :: "Capability \<Rightarrow> Capability \<Rightarrow> bool" where
  "is_subset_of c parent =
     (let resource_ok = (cap_resource c = cap_resource parent \<or> prefix (cap_resource parent @ str ''.'') (cap_resource c));
          action_ok = (cap_action c = cap_action parent)
      in if \<not> resource_ok \<or> \<not> action_ok then False
         else list_all (\<lambda>(k, v). hm_get (cap_caveats c) k = Some v) (cap_caveats parent))"

text \<open>The derived equality of capabilities compares the caveats as maps.\<close>

definition Capability_eq :: "Capability \<Rightarrow> Capability \<Rightarrow> bool" where
  "Capability_eq c p \<longleftrightarrow> cap_resource c = cap_resource p \<and> cap_action c = cap_action p \<and>
     hm_len (cap_caveats c) = hm_len (cap_caveats p) \<and>
     list_all (\<lambda>(k, v). hm_get (cap_caveats p) k = Some v) (cap_caveats c)"

section \<open>CBOR form\<close>

definition text_field :: "Value \<Rightarrow> i64 \<Rightarrow> string \<Rightarrow> IdentityErrorV1 + ustring" where
  "text_field val k name = (case int_map_get val k of Some (TextString s) \<Rightarrow> Inr s | _ \<Rightarrow> Inl (IvMissing name))"

definition uint_field :: "Value \<Rightarrow> i64 \<Rightarrow> string \<Rightarrow> IdentityErrorV1 + u64" where
  "uint_field val k name = (case int_map_get val k of Some (Unsigned n) \<Rightarrow> Inr n | _ \<Rightarrow> Inl (IvMissing name))"

definition UcanHeader_to_cbor :: "UcanHeader \<Rightarrow> Value" where
  "UcanHeader_to_cbor h = int_map [(1, TextString (uh_alg h)), (2, TextString (uh_typ h)), (3, TextString (uh_kid h))]"

definition UcanHeader_from_cbor :: "Value \<Rightarrow> IdentityErrorV1 + UcanHeader" where
  "UcanHeader_from_cbor val =
     bind_result (text_field val 1 ''alg'') (\<lambda>alg.
     bind_result (text_field val 2 ''typ'') (\<lambda>typ.
     bind_result (text_field val 3 ''kid'') (\<lambda>kid.
     Inr \<lparr>uh_alg = alg, uh_typ = typ, uh_kid = kid\<rparr>)))"

definition text_map :: "text_order \<Rightarrow> (ustring, ustring) hash_map \<Rightarrow> Value" where
  "text_map ord m = str_map (map (\<lambda>(k, v). (k, TextString v)) (ord m))"

definition read_text_map :: "(ustring \<times> Value) list \<Rightarrow> (ustring, ustring) hash_map" where
  "read_text_map entries = fold (\<lambda>(k, v) m. case v of TextString s \<Rightarrow> hm_insert k s m | _ \<Rightarrow> m) entries []"

definition Capability_to_cbor :: "text_order \<Rightarrow> Capability \<Rightarrow> Value" where
  "Capability_to_cbor ord c = int_map
     ([(1, TextString (cap_resource c)), (2, TextString (cap_action c))] @
      (if cap_caveats c \<noteq> [] then [(3, text_map ord (cap_caveats c))] else []))"

definition Capability_from_cbor :: "Value \<Rightarrow> IdentityErrorV1 + Capability" where
  "Capability_from_cbor val =
     bind_result (text_field val 1 ''resource'') (\<lambda>resource.
     bind_result (text_field val 2 ''action'') (\<lambda>action.
     let caveats = (case int_map_get val 3 of Some (StrMap entries) \<Rightarrow> read_text_map entries | _ \<Rightarrow> [])
     in Inr \<lparr>cap_resource = resource, cap_action = action, cap_caveats = caveats\<rparr>))"

primrec Ucan_to_cbor :: "text_order \<Rightarrow> Ucan \<Rightarrow> Value" and UcanPayload_to_cbor :: "text_order \<Rightarrow> UcanPayload \<Rightarrow> Value" where
  "Ucan_to_cbor ord (Ucan header payload signature) = int_map
     [(1, UcanHeader_to_cbor header), (2, UcanPayload_to_cbor ord payload), (3, ByteString signature)]"
| "UcanPayload_to_cbor ord (UcanPayload iss aud exp nbf prf att fct) = int_map
     ([(1, TextString iss), (2, TextString aud), (3, Unsigned exp), (4, Unsigned nbf)] @
      (if prf \<noteq> [] then [(5, Array (map (Ucan_to_cbor ord) prf))] else []) @
      (if att \<noteq> [] then [(6, Array (map (Capability_to_cbor ord) att))] else []) @
      (if fct \<noteq> [] then [(7, Array (map (text_map ord) fct))] else []))"

definition read_facts :: "Value list \<Rightarrow> (ustring, ustring) hash_map list" where
  "read_facts arr = List.map_filter (\<lambda>v. case v of StrMap entries \<Rightarrow> Some (read_text_map entries) | _ \<Rightarrow> None) arr"

lemma decode_all_cong [fundef_cong]:
  "xs = ys \<Longrightarrow> (\<And>x. x \<in> set ys \<Longrightarrow> f x = g x) \<Longrightarrow> decode_all f xs = decode_all g ys"
  by (induction ys arbitrary: xs) auto

lemma int_map_get_size: "int_map_get val k = Some v \<Longrightarrow> size v < size val"
proof -
  assume "int_map_get val k = Some v"
  then obtain es where val: "val = IntMap es" and "(k, v) \<in> set es"
    by (auto simp: int_map_get_def find_Some_iff split: Value.splits) (metis nth_mem)
  then have "size v \<le> size_list (size_prod (\<lambda>_. 0) size) es"
    by (intro size_list_estimation' [of "(k, v)"]) auto
  then show ?thesis by (simp add: val)
qed

lemma int_map_get_item_size: "int_map_get val k = Some (Array arr) \<Longrightarrow> x \<in> set arr \<Longrightarrow> size x < size val"
  using int_map_get_size [of val k "Array arr"] size_list_estimation' [of x arr "size x" size] by simp

function Ucan_from_cbor :: "Value \<Rightarrow> IdentityErrorV1 + Ucan"
  and UcanPayload_from_cbor :: "Value \<Rightarrow> IdentityErrorV1 + UcanPayload" where
  "Ucan_from_cbor val =
     bind_result (case int_map_get val 1 of Some h \<Rightarrow> UcanHeader_from_cbor h | None \<Rightarrow> Inl (IvMissing ''header'')) (\<lambda>header.
     bind_result (case int_map_get val 2 of Some p \<Rightarrow> UcanPayload_from_cbor p | None \<Rightarrow> Inl (IvMissing ''payload'')) (\<lambda>payload.
     let signature = (case int_map_get val 3 of Some (ByteString b) \<Rightarrow> b | _ \<Rightarrow> [])
     in Inr (Ucan header payload signature)))"
| "UcanPayload_from_cbor val =
     bind_result (text_field val 1 ''iss'') (\<lambda>iss.
     bind_result (text_field val 2 ''aud'') (\<lambda>aud.
     bind_result (uint_field val 3 ''exp'') (\<lambda>exp.
     bind_result (uint_field val 4 ''nbf'') (\<lambda>nbf.
     bind_result (case int_map_get val 5 of Some (Array arr) \<Rightarrow> decode_all Ucan_from_cbor arr | _ \<Rightarrow> Inr []) (\<lambda>prf.
     bind_result (case int_map_get val 6 of Some (Array arr) \<Rightarrow> decode_all Capability_from_cbor arr | _ \<Rightarrow> Inr []) (\<lambda>att.
     let fct = (case int_map_get val 7 of Some (Array arr) \<Rightarrow> read_facts arr | _ \<Rightarrow> [])
     in Inr (UcanPayload iss aud exp nbf prf att fct)))))))"
  by pat_completeness auto
termination
  by (relation "measure (case_sum size size)") (auto simp: int_map_get_size int_map_get_item_size)

declare Ucan_from_cbor.simps [simp del] UcanPayload_from_cbor.simps [simp del]

definition Ucan_to_bytes :: "text_order \<Rightarrow> Ucan \<Rightarrow> IdentityErrorV1 + bytes" where
  "Ucan_to_bytes ord u = map_err IvCbor (encode (Ucan_to_cbor ord u))"

definition Ucan_from_bytes :: "bytes \<Rightarrow> IdentityErrorV1 + Ucan" where
  "Ucan_from_bytes data = bind_result (map_err IvCbor (decode data)) (\<lambda>(val, _). Ucan_from_cbor val)"

section \<open>Signing and verifying\<close>

definition Ucan_new :: "UcanHeader \<Rightarrow> UcanPayload \<Rightarrow> Ucan" where
  "Ucan_new header payload = Ucan header payload []"

definition signing_input :: "text_order \<Rightarrow> Ucan \<Rightarrow> bytes option" where
  "signing_input ord u =
     (case encode (UcanHeader_to_cbor (ucan_header u)) of
        Inl _ \<Rightarrow> None
      | Inr header \<Rightarrow>
          (case encode (UcanPayload_to_cbor ord (ucan_payload u)) of
             Inl _ \<Rightarrow> None
           | Inr payload \<Rightarrow> Some (header @ payload)))"

definition Ucan_sign ::
  "crypto \<Rightarrow> (bytes \<Rightarrow> ustring) \<Rightarrow> text_order \<Rightarrow> AgentKeypair \<Rightarrow> bytes \<Rightarrow> Ucan \<Rightarrow> (IdentityErrorV1 + Ucan) option" where
  "Ucan_sign cr hex ord keypair rnd u =
     (let expected_kid = hex (derive_agent_id cr (kp_public_key keypair))
      in if uh_kid (ucan_header u) \<noteq> expected_kid
         then Some (Inl (IvInvalid ''kid'' (KidMismatch expected_kid (uh_kid (ucan_header u)))))
         else
           case signing_input ord u of
             None \<Rightarrow> None
           | Some input \<Rightarrow> map_option (\<lambda>sig. Inr (Ucan (ucan_header u) (ucan_payload u) sig)) (AgentKeypair_sign cr keypair input rnd))"

definition Ucan_verify ::
  "crypto \<Rightarrow> (bytes \<Rightarrow> ustring) \<Rightarrow> text_order \<Rightarrow> bytes \<Rightarrow> u64 \<Rightarrow> Ucan \<Rightarrow> (IdentityErrorV1 + unit) option" where
  "Ucan_verify cr hex ord public_key now_secs u =
     (if uh_alg (ucan_header u) \<noteq> UCAN_ALG then Some (Inl (IvInvalid ''alg'' (UnsupportedAlg (uh_alg (ucan_header u)))))
      else if uh_kid (ucan_header u) \<noteq> hex (derive_agent_id cr public_key) then Some (Inl IvAgentId)
      else
        case signing_input ord u of
          None \<Rightarrow> None
        | Some input \<Rightarrow> Some (
            bind_result (map_err (\<lambda>_. IvPublicKey) (MlDsa65PublicKey_from_bytes cr public_key)) (\<lambda>pk.
            bind_result (map_err (\<lambda>_. IvSignatureLength) (MlDsa65Signature_from_bytes (ucan_signature u))) (\<lambda>sig.
            if \<not> MlDsa65_verify cr pk input sig then Inl IvSignature
            else if pay_exp (ucan_payload u) \<le> now_secs then Inl (IvExpired (pay_exp (ucan_payload u)) now_secs)
            else if now_secs < pay_nbf (ucan_payload u) then Inl (IvInvalid ''nbf'' (NotYetValid (pay_nbf (ucan_payload u)) now_secs))
            else Inr ()))))"

definition Ucan_is_expired :: "u64 \<Rightarrow> Ucan \<Rightarrow> bool" where
  "Ucan_is_expired now_secs u \<longleftrightarrow> now_secs \<ge> pay_exp (ucan_payload u)"

section \<open>Delegation\<close>

definition Ucan_delegate ::
  "crypto \<Rightarrow> (bytes \<Rightarrow> ustring) \<Rightarrow> text_order \<Rightarrow> bytes \<Rightarrow> AgentKeypair \<Rightarrow> bytes \<Rightarrow> Capability list \<Rightarrow> u64 \<Rightarrow> u64 \<Rightarrow> Ucan \<Rightarrow>
   (IdentityErrorV1 + Ucan) option" where
  "Ucan_delegate cr hex ord rnd new_issuer audience capabilities expires_at not_before u =
     (case find (\<lambda>cap. \<not> list_ex (\<lambda>parent. is_subset_of cap parent) (pay_att (ucan_payload u))) capabilities of
        Some cap \<Rightarrow> Some (Inl (IvInvalid ''att'' (NotSubset (cap_resource cap) (cap_action cap))))
      | None \<Rightarrow>
          let issuer_kid = hex (derive_agent_id cr (kp_public_key new_issuer));
              header = UcanHeader_new UCAN_ALG UCAN_TYP issuer_kid;
              payload = UcanPayload (uh_kid header) (hex audience) expires_at not_before [u] capabilities []
          in Ucan_sign cr hex ord new_issuer rnd (Ucan_new header payload))"

definition Ucan_attenuate ::
  "crypto \<Rightarrow> (bytes \<Rightarrow> ustring) \<Rightarrow> text_order \<Rightarrow> bytes \<Rightarrow> AgentKeypair \<Rightarrow> bytes \<Rightarrow> Capability list \<Rightarrow> u64 \<Rightarrow> u64 \<Rightarrow> Ucan \<Rightarrow>
   (IdentityErrorV1 + Ucan) option" where
  "Ucan_attenuate cr hex ord rnd new_issuer audience capabilities expires_at not_before u =
     (let att = pay_att (ucan_payload u);
          all_equal = list_all (\<lambda>c. list_ex (\<lambda>p. Capability_eq c p) att) capabilities
      in if length capabilities \<ge> length att \<and> all_equal \<and> length capabilities = length att
         then Some (Inl (IvInvalid ''att'' MustReduce))
         else Ucan_delegate cr hex ord rnd new_issuer audience capabilities expires_at not_before u)"

section \<open>Proof chains\<close>

definition try_then :: "('e + 'a) option \<Rightarrow> ('a \<Rightarrow> ('e + 'b) option) \<Rightarrow> ('e + 'b) option" where
  "try_then r f = (case r of None \<Rightarrow> None | Some (Inl e) \<Rightarrow> Some (Inl e) | Some (Inr a) \<Rightarrow> f a)"

lemma try_then_cong [fundef_cong]:
  "r = r' \<Longrightarrow> (\<And>a. r' = Some (Inr a) \<Longrightarrow> f a = g a) \<Longrightarrow> try_then r f = try_then r' g"
  by (simp add: try_then_def split: option.split sum.split)

fun validate_chain_impl ::
  "crypto \<Rightarrow> (bytes \<Rightarrow> ustring) \<Rightarrow> text_order \<Rightarrow> u64 \<Rightarrow> (ustring \<Rightarrow> bytes option) \<Rightarrow> Ucan \<Rightarrow> (IdentityErrorV1 + unit) option"
  and validate_parents ::
  "crypto \<Rightarrow> (bytes \<Rightarrow> ustring) \<Rightarrow> text_order \<Rightarrow> u64 \<Rightarrow> (ustring \<Rightarrow> bytes option) \<Rightarrow> ustring \<Rightarrow> Capability list \<Rightarrow> Ucan list \<Rightarrow>
   (IdentityErrorV1 + unit) option" where
  "validate_chain_impl cr hex ord now_secs resolver (Ucan header (UcanPayload iss aud exp nbf prf att fct) signature) =
     (case resolver (uh_kid header) of
        None \<Rightarrow> Some (Inl (IvInvalid ''kid'' (Unresolved (uh_kid header))))
      | Some pubkey \<Rightarrow>
          try_then (Ucan_verify cr hex ord pubkey now_secs (Ucan header (UcanPayload iss aud exp nbf prf att fct) signature)) (\<lambda>_.
          validate_parents cr hex ord now_secs resolver iss att prf))"
| "validate_parents cr hex ord now_secs resolver iss att [] = Some (Inr ())"
| "validate_parents cr hex ord now_secs resolver iss att (parent # prf) =
     (if pay_aud (ucan_payload parent) \<noteq> iss
      then Some (Inl (IvInvalid ''prf'' (LinkBroken (pay_aud (ucan_payload parent)) iss)))
      else
        case find (\<lambda>cap. \<not> list_ex (\<lambda>pc. is_subset_of cap pc) (pay_att (ucan_payload parent))) att of
          Some cap \<Rightarrow> Some (Inl (IvInvalid ''att'' (Expands (cap_resource cap) (cap_action cap))))
        | None \<Rightarrow>
            try_then (validate_chain_impl cr hex ord now_secs resolver parent) (\<lambda>_.
            validate_parents cr hex ord now_secs resolver iss att prf))"

definition validate_chain ::
  "crypto \<Rightarrow> (bytes \<Rightarrow> ustring) \<Rightarrow> text_order \<Rightarrow> u64 \<Rightarrow> (ustring \<Rightarrow> bytes option) \<Rightarrow> Ucan \<Rightarrow> (IdentityErrorV1 + unit) option" where
  "validate_chain cr hex ord now_secs resolver u = validate_chain_impl cr hex ord now_secs resolver u"

section \<open>The builder\<close>

record UcanBuilder =
  ub_alg :: ustring
  ub_typ :: ustring
  ub_kid :: ustring
  ub_iss :: ustring
  ub_aud :: ustring
  ub_exp :: u64
  ub_nbf :: u64
  ub_prf :: "Ucan list"
  ub_att :: "Capability list"
  ub_fct :: "(ustring, ustring) hash_map list"

definition UcanBuilder_new :: UcanBuilder where
  "UcanBuilder_new = \<lparr>ub_alg = UCAN_ALG, ub_typ = UCAN_TYP, ub_kid = [], ub_iss = [], ub_aud = [], ub_exp = - 1, ub_nbf = 0,
     ub_prf = [], ub_att = [], ub_fct = []\<rparr>"

definition ub_algorithm :: "ustring \<Rightarrow> UcanBuilder \<Rightarrow> UcanBuilder" where
  "ub_algorithm alg b = b\<lparr>ub_alg := alg\<rparr>"

definition ub_token_type :: "ustring \<Rightarrow> UcanBuilder \<Rightarrow> UcanBuilder" where
  "ub_token_type typ b = b\<lparr>ub_typ := typ\<rparr>"

definition ub_issuer_kid :: "ustring \<Rightarrow> UcanBuilder \<Rightarrow> UcanBuilder" where
  "ub_issuer_kid kid b = (let b = (if ub_iss b = [] then b\<lparr>ub_iss := kid\<rparr> else b) in b\<lparr>ub_kid := kid\<rparr>)"

definition ub_issuer :: "ustring \<Rightarrow> UcanBuilder \<Rightarrow> UcanBuilder" where
  "ub_issuer iss b = (let b = b\<lparr>ub_iss := iss\<rparr> in if ub_kid b = [] then b\<lparr>ub_kid := ub_iss b\<rparr> else b)"

definition ub_audience :: "ustring \<Rightarrow> UcanBuilder \<Rightarrow> UcanBuilder" where
  "ub_audience aud b = b\<lparr>ub_aud := aud\<rparr>"

definition ub_expiry :: "u64 \<Rightarrow> UcanBuilder \<Rightarrow> UcanBuilder" where
  "ub_expiry expires b = b\<lparr>ub_exp := expires\<rparr>"

definition ub_not_before :: "u64 \<Rightarrow> UcanBuilder \<Rightarrow> UcanBuilder" where
  "ub_not_before nbf b = b\<lparr>ub_nbf := nbf\<rparr>"

definition ub_proof :: "Ucan \<Rightarrow> UcanBuilder \<Rightarrow> UcanBuilder" where
  "ub_proof u b = b\<lparr>ub_prf := ub_prf b @ [u]\<rparr>"

definition ub_capability :: "Capability \<Rightarrow> UcanBuilder \<Rightarrow> UcanBuilder" where
  "ub_capability cap b = b\<lparr>ub_att := ub_att b @ [cap]\<rparr>"

definition ub_fact :: "(ustring, ustring) hash_map \<Rightarrow> UcanBuilder \<Rightarrow> UcanBuilder" where
  "ub_fact f b = b\<lparr>ub_fct := ub_fct b @ [f]\<rparr>"

definition ub_build :: "UcanBuilder \<Rightarrow> Ucan" where
  "ub_build b = Ucan_new \<lparr>uh_alg = ub_alg b, uh_typ = ub_typ b, uh_kid = ub_kid b\<rparr>
     (UcanPayload (ub_iss b) (ub_aud b) (ub_exp b) (ub_nbf b) (ub_prf b) (ub_att b) (ub_fct b))"

definition ub_build_and_sign ::
  "crypto \<Rightarrow> (bytes \<Rightarrow> ustring) \<Rightarrow> text_order \<Rightarrow> AgentKeypair \<Rightarrow> bytes \<Rightarrow> UcanBuilder \<Rightarrow> (IdentityErrorV1 + Ucan) option" where
  "ub_build_and_sign cr hex ord keypair rnd b = Ucan_sign cr hex ord keypair rnd (ub_build b)"

section \<open>Attenuation\<close>

lemma is_subset_of_iff:
  "is_subset_of c p \<longleftrightarrow> (cap_resource c = cap_resource p \<or> prefix (cap_resource p @ str ''.'') (cap_resource c)) \<and>
     cap_action c = cap_action p \<and> (\<forall>(k, v) \<in> set (cap_caveats p). hm_get (cap_caveats c) k = Some v)"
  by (auto simp: is_subset_of_def Let_def list_all_iff)

lemma is_subset_of_refl: "hm_ok (cap_caveats c) \<Longrightarrow> is_subset_of c c"
  by (auto simp: is_subset_of_iff hm_get_iff)

lemma is_subset_of_trans:
  assumes "is_subset_of a b" and "is_subset_of b c"
  shows "is_subset_of a c"
proof -
  have "prefix (cap_resource c @ str ''.'') (cap_resource a)"
    if "prefix (cap_resource b @ str ''.'') (cap_resource a)" "prefix (cap_resource c @ str ''.'') (cap_resource b)"
    using that by (meson prefix_order.trans prefixI)
  moreover have "hm_get (cap_caveats a) k = Some v" if "(k, v) \<in> set (cap_caveats c)" for k v
  proof -
    have "hm_get (cap_caveats b) k = Some v" using assms(2) that by (auto simp: is_subset_of_iff)
    then have "(k, v) \<in> set (cap_caveats b)" by (simp add: hm_get_def map_of_SomeD)
    then show ?thesis using assms(1) by (auto simp: is_subset_of_iff)
  qed
  ultimately show ?thesis using assms by (auto simp: is_subset_of_iff)
qed

section \<open>Valid chains\<close>

definition covered :: "Capability list \<Rightarrow> Capability list \<Rightarrow> bool" where
  "covered att parent_att \<longleftrightarrow> (\<forall>c \<in> set att. \<exists>p \<in> set parent_att. is_subset_of c p)"

lemma find_uncovered:
  "find (\<lambda>cap. \<not> list_ex (\<lambda>p. is_subset_of cap p) parent_att) att = None \<longleftrightarrow> covered att parent_att"
  by (auto simp: find_None_iff covered_def list_ex_iff)

lemma covered_trans: "covered a b \<Longrightarrow> covered b c \<Longrightarrow> covered a c"
  unfolding covered_def by (meson is_subset_of_trans)

inductive chain_valid :: "crypto \<Rightarrow> (bytes \<Rightarrow> ustring) \<Rightarrow> text_order \<Rightarrow> u64 \<Rightarrow> (ustring \<Rightarrow> bytes option) \<Rightarrow> Ucan \<Rightarrow> bool"
  for cr hex ord now resolver where
  chain_validI: "resolver (uh_kid (ucan_header u)) = Some pk \<Longrightarrow> Ucan_verify cr hex ord pk now u = Some (Inr ()) \<Longrightarrow>
     (\<And>p. p \<in> set (pay_prf (ucan_payload u)) \<Longrightarrow> pay_aud (ucan_payload p) = pay_iss (ucan_payload u) \<and>
        covered (pay_att (ucan_payload u)) (pay_att (ucan_payload p)) \<and> chain_valid cr hex ord now resolver p) \<Longrightarrow>
     chain_valid cr hex ord now resolver u"

inductive_cases chain_validE: "chain_valid cr hex ord now resolver u"

lemma try_then_Inr: "try_then r f = Some (Inr b) \<longleftrightarrow> (\<exists>a. r = Some (Inr a) \<and> f a = Some (Inr b))"
  by (auto simp: try_then_def split: option.splits sum.splits)

lemma validate_chain_valid:
  "validate_chain_impl cr hex ord now resolver u = Some (Inr ()) \<longleftrightarrow> chain_valid cr hex ord now resolver u"
  "validate_parents cr hex ord now resolver iss att ps = Some (Inr ()) \<longleftrightarrow>
     (\<forall>p \<in> set ps. pay_aud (ucan_payload p) = iss \<and> covered att (pay_att (ucan_payload p)) \<and> chain_valid cr hex ord now resolver p)"
proof (induction cr hex ord now resolver u and cr hex ord now resolver iss att ps rule: validate_chain_impl_validate_parents.induct)
  case (1 cr hex ord now resolver header iss aud exp nbf ps att fct signature)
  show ?case
    by (subst chain_valid.simps) (auto simp: try_then_Inr 1 split: option.splits)
next
  case (3 cr hex ord now resolver iss att parent ps)
  then show ?case
    using find_uncovered [of "pay_att (ucan_payload parent)" att] by (auto simp: try_then_Inr split: if_splits option.splits)
qed simp

text \<open>The tokens a token is derived from, itself included.\<close>

inductive derived_from :: "Ucan \<Rightarrow> Ucan \<Rightarrow> bool" where
  derived_self: "derived_from u u"
| derived_step: "p \<in> set (pay_prf (ucan_payload u)) \<Longrightarrow> derived_from p a \<Longrightarrow> derived_from u a"

lemma chain_valid_ancestor:
  assumes "derived_from u a" and "chain_valid cr hex ord now resolver u"
  shows "chain_valid cr hex ord now resolver a \<and> (a = u \<or> covered (pay_att (ucan_payload u)) (pay_att (ucan_payload a)))"
  using assms
proof (induction rule: derived_from.induct)
  case (derived_step p u a)
  then have p: "chain_valid cr hex ord now resolver p" "covered (pay_att (ucan_payload u)) (pay_att (ucan_payload p))"
    by (auto elim: chain_validE)
  then show ?case using derived_step.IH covered_trans by blast
qed simp

lemma covered_refl: "\<forall>c \<in> set att. hm_ok (cap_caveats c) \<Longrightarrow> covered att att"
  unfolding covered_def by (meson is_subset_of_refl)

lemma signing_input_eq:
  "signing_input ord u = Some (cbor_bytes (UcanHeader_to_cbor (ucan_header u)) @ cbor_bytes (UcanPayload_to_cbor ord (ucan_payload u)))"
  by (simp add: signing_input_def encode_eq)

lemma Ucan_verify_Inr:
  "Ucan_verify cr hex ord pk now u = Some (Inr ()) \<longleftrightarrow>
     uh_alg (ucan_header u) = UCAN_ALG \<and> uh_kid (ucan_header u) = hex (sha256 cr pk) \<and>
     pay_nbf (ucan_payload u) \<le> now \<and> now < pay_exp (ucan_payload u) \<and>
     (\<exists>input. signing_input ord u = Some input \<and> MlDsa65_verify cr pk input (ucan_signature u))"
  by (auto simp: Ucan_verify_def signing_input_eq bind_result_Inr_iff derive_agent_id_def not_le not_less
      MlDsa65PublicKey_from_bytes_def MlDsa65Signature_from_bytes_def MlDsa65_verify_def split: if_splits)

text \<open>
  C32. Validation of a chain is sound: when a token validates, every token it is derived from, however
  far back and along every branch of the proofs, is signed with the key its key id resolves to and
  names, is valid at the given time, is linked to its own proofs by audience and issuer, and
  grants every capability of the token, so authority only ever narrows from the roots.
\<close>

theorem chain_attenuates:
  assumes "validate_chain cr hex ord now resolver u = Some (Inr ())" and "derived_from u a"
    and "\<forall>c \<in> set (pay_att (ucan_payload u)). hm_ok (cap_caveats c)"
  shows "(\<exists>pk input. resolver (uh_kid (ucan_header a)) = Some pk \<and> uh_kid (ucan_header a) = hex (sha256 cr pk) \<and>
      signing_input ord a = Some input \<and> MlDsa65_verify cr pk input (ucan_signature a)) \<and>
    pay_nbf (ucan_payload a) \<le> now \<and> now < pay_exp (ucan_payload a) \<and>
    (\<forall>p \<in> set (pay_prf (ucan_payload a)). pay_aud (ucan_payload p) = pay_iss (ucan_payload a)) \<and>
    (\<forall>c \<in> set (pay_att (ucan_payload u)). \<exists>g \<in> set (pay_att (ucan_payload a)). is_subset_of c g)"
proof -
  have "chain_valid cr hex ord now resolver u" using assms(1) by (simp add: validate_chain_def validate_chain_valid)
  from chain_valid_ancestor [OF assms(2) this]
  have a: "chain_valid cr hex ord now resolver a" and "a = u \<or> covered (pay_att (ucan_payload u)) (pay_att (ucan_payload a))"
    by simp_all
  then have "covered (pay_att (ucan_payload u)) (pay_att (ucan_payload a))"
    using covered_refl [OF assms(3)] by blast
  moreover from a obtain pk where "resolver (uh_kid (ucan_header a)) = Some pk" "Ucan_verify cr hex ord pk now a = Some (Inr ())"
    "\<forall>p \<in> set (pay_prf (ucan_payload a)). pay_aud (ucan_payload p) = pay_iss (ucan_payload a)"
    by (auto elim: chain_validE)
  ultimately show ?thesis unfolding Ucan_verify_Inr covered_def by blast
qed

lemma Ucan_sign_verifies:
  assumes "keypair_ok cr kp" and "uh_kid (ucan_header u) = hex (sha256 cr (kp_public_key kp))"
  obtains sig where "Ucan_sign cr hex ord kp rnd u = Some (Inr (Ucan (ucan_header u) (ucan_payload u) sig))"
    "\<And>now. uh_alg (ucan_header u) = UCAN_ALG \<Longrightarrow> pay_nbf (ucan_payload u) \<le> now \<Longrightarrow> now < pay_exp (ucan_payload u) \<Longrightarrow>
       Ucan_verify cr hex ord (kp_public_key kp) now (Ucan (ucan_header u) (ucan_payload u) sig) = Some (Inr ())"
proof -
  obtain input where i: "signing_input ord u = Some input" by (simp add: signing_input_eq)
  obtain sig where s: "AgentKeypair_sign cr kp input rnd = Some sig" "MlDsa65_verify cr (kp_public_key kp) input sig"
    using keypair_sign_verify [OF assms(1), of input rnd] by (metis AgentKeypair_verify_iff)
  have "signing_input ord (Ucan (ucan_header u) (ucan_payload u) sig) = Some input" using i by (simp add: signing_input_eq)
  with s i assms(2) that show thesis by (simp add: Ucan_sign_def derive_agent_id_def Ucan_verify_Inr)
qed

text \<open>
  C33. Honest delegation works: the agent a token is made out to, whose key the resolver knows, can delegate any capabilities
  covered by the token; the call succeeds, the new token carries exactly those capabilities for the new audience, and it validates at
  exactly those times that lie in its own period of validity and at which the chain of the parent validates. In particular it stops
  validating with the parent: the period given to the call is not limited to the parent's.
\<close>

theorem delegate_validates:
  assumes "keypair_ok cr kp" and "pay_aud (ucan_payload u) = hex (sha256 cr (kp_public_key kp))"
    and "resolver (hex (sha256 cr (kp_public_key kp))) = Some (kp_public_key kp)"
    and "\<forall>c \<in> set caps. \<exists>g \<in> set (pay_att (ucan_payload u)). is_subset_of c g"
  shows "\<exists>t. Ucan_delegate cr hex ord rnd kp audience caps expires nbf u = Some (Inr t) \<and>
    pay_att (ucan_payload t) = caps \<and> pay_aud (ucan_payload t) = hex audience \<and>
    (\<forall>now. validate_chain cr hex ord now resolver t = Some (Inr ()) \<longleftrightarrow>
       nbf \<le> now \<and> now < expires \<and> validate_chain cr hex ord now resolver u = Some (Inr ()))"
proof -
  let ?kid = "hex (sha256 cr (kp_public_key kp))"
  define new where "new = Ucan_new (UcanHeader_new UCAN_ALG UCAN_TYP ?kid) (UcanPayload ?kid (hex audience) expires nbf [u] caps [])"
  have f: "uh_kid (ucan_header new) = ?kid" "uh_alg (ucan_header new) = UCAN_ALG" "pay_nbf (ucan_payload new) = nbf" "pay_exp (ucan_payload new) = expires"
    "pay_prf (ucan_payload new) = [u]" "pay_iss (ucan_payload new) = ?kid" "pay_att (ucan_payload new) = caps" "pay_aud (ucan_payload new) = hex audience"
    by (simp_all add: new_def Ucan_new_def UcanHeader_new_def)
  have cov: "covered caps (pay_att (ucan_payload u))" using assms(4) by (simp add: covered_def)
  obtain sig where s: "Ucan_sign cr hex ord kp rnd new = Some (Inr (Ucan (ucan_header new) (ucan_payload new) sig))"
    "\<And>now. nbf \<le> now \<Longrightarrow> now < expires \<Longrightarrow>
       Ucan_verify cr hex ord (kp_public_key kp) now (Ucan (ucan_header new) (ucan_payload new) sig) = Some (Inr ())"
    by (rule Ucan_sign_verifies [where hex = hex and u = new and ord = ord and rnd = rnd, OF assms(1) f(1)]) (simp add: f)
  define t where "t = Ucan (ucan_header new) (ucan_payload new) sig"
  have t: "ucan_header t = ucan_header new" "ucan_payload t = ucan_payload new" by (simp_all add: t_def)
  have "chain_valid cr hex ord now resolver t \<longleftrightarrow> nbf \<le> now \<and> now < expires \<and> chain_valid cr hex ord now resolver u" (is "?l \<longleftrightarrow> ?r") for now
  proof
    assume ?l
    then show ?r by (rule chain_validE) (simp add: Ucan_verify_Inr t f)
  next
    assume ?r
    then show ?l
      using s(2) [folded t_def] cov assms(2,3) by (intro chain_validI [of _ _ "kp_public_key kp"]) (simp_all add: t f)
  qed
  moreover have "Ucan_delegate cr hex ord rnd kp audience caps expires nbf u = Ucan_sign cr hex ord kp rnd new"
    using find_uncovered [of "pay_att (ucan_payload u)" caps] cov
    by (simp add: new_def Ucan_delegate_def derive_agent_id_def UcanHeader_new_def Let_def)
  ultimately show ?thesis
    using s(1) by (intro exI [of _ t]) (simp add: t_def validate_chain_def validate_chain_valid f)
qed

text \<open>
  What validation does not check is that the issuer a token names is the signer. Whoever holds a valid token made out to
  somebody else can name that audience as the issuer of a new token, sign it with any key that
  resolves, and pass the whole authority on: the result validates.
\<close>

lemma issuer_not_signer:
  assumes "validate_chain cr hex ord now resolver u = Some (Inr ())" and "keypair_ok cr kp" and "hex (sha256 cr (kp_public_key kp)) \<noteq> []"
    and "resolver (hex (sha256 cr (kp_public_key kp))) = Some (kp_public_key kp)" and "now < - 1"
    and "\<forall>c \<in> set (pay_att (ucan_payload u)). hm_ok (cap_caveats c)"
  shows "\<exists>t. ub_build_and_sign cr hex ord kp rnd (fold ub_capability (pay_att (ucan_payload u)) (ub_proof u
      (ub_issuer (pay_aud (ucan_payload u)) (ub_issuer_kid (hex (sha256 cr (kp_public_key kp))) UcanBuilder_new)))) = Some (Inr t) \<and>
    pay_att (ucan_payload t) = pay_att (ucan_payload u) \<and> validate_chain cr hex ord now resolver t = Some (Inr ())"
proof -
  let ?kid = "hex (sha256 cr (kp_public_key kp))"
  let ?t = "Ucan \<lparr>uh_alg = UCAN_ALG, uh_typ = UCAN_TYP, uh_kid = ?kid\<rparr>
    (UcanPayload (pay_aud (ucan_payload u)) [] (- 1) 0 [u] (pay_att (ucan_payload u)) []) []"
  have "fold ub_capability cs b = b\<lparr>ub_att := ub_att b @ cs\<rparr>" for cs b
    by (induction cs arbitrary: b) (simp_all add: ub_capability_def)
  then have t: "ub_build (fold ub_capability (pay_att (ucan_payload u)) (ub_proof u
      (ub_issuer (pay_aud (ucan_payload u)) (ub_issuer_kid ?kid UcanBuilder_new)))) = ?t"
    using assms(3) by (simp add: ub_build_def ub_proof_def ub_issuer_def ub_issuer_kid_def UcanBuilder_new_def Ucan_new_def)
  have u: "chain_valid cr hex ord now resolver u" using assms(1) by (simp add: validate_chain_def validate_chain_valid)
  have "uh_kid (ucan_header ?t) = ?kid" by simp
  from Ucan_sign_verifies [where hex = hex and u = ?t and ord = ord and rnd = rnd, OF assms(2) this] obtain sig where
    s: "Ucan_sign cr hex ord kp rnd ?t = Some (Inr (Ucan (ucan_header ?t) (ucan_payload ?t) sig))"
    "Ucan_verify cr hex ord (kp_public_key kp) now (Ucan (ucan_header ?t) (ucan_payload ?t) sig) = Some (Inr ())"
    using assms(5) by auto
  have "chain_valid cr hex ord now resolver (Ucan (ucan_header ?t) (ucan_payload ?t) sig)"
    using s(2) u covered_refl [OF assms(6)] assms(4) by (intro chain_validI [of _ _ "kp_public_key kp"]) simp_all
  then show ?thesis using s(1) by (simp add: ub_build_and_sign_def t validate_chain_def validate_chain_valid)
qed

text \<open>Attenuation refuses a list of the same capabilities only when it has the same length.\<close>

lemma attenuate_repeated:
  assumes "pay_att (ucan_payload u) = [c]" and "hm_ok (cap_caveats c)" and "keypair_ok cr kp"
  shows "\<exists>t. Ucan_attenuate cr hex ord rnd kp audience [c, c] expires nbf u = Some (Inr t) \<and> pay_att (ucan_payload t) = [c, c]"
proof -
  let ?kid = "hex (sha256 cr (kp_public_key kp))"
  let ?t = "Ucan_new (UcanHeader_new UCAN_ALG UCAN_TYP ?kid) (UcanPayload ?kid (hex audience) expires nbf [u] [c, c] [])"
  have "uh_kid (ucan_header ?t) = ?kid" by (simp add: Ucan_new_def UcanHeader_new_def)
  from Ucan_sign_verifies [where hex = hex and u = ?t and ord = ord and rnd = rnd, OF assms(3) this] obtain sig where
    "Ucan_sign cr hex ord kp rnd ?t = Some (Inr (Ucan (ucan_header ?t) (ucan_payload ?t) sig))" by auto
  then show ?thesis
    using assms(1) is_subset_of_refl [OF assms(2)]
    by (simp add: Ucan_attenuate_def Ucan_delegate_def derive_agent_id_def Ucan_new_def UcanHeader_new_def Let_def)
qed

section \<open>Tokens on the wire\<close>

text \<open>
  Tokens that can be sent: texts are UTF-8, hash maps have one entry per key, no fact is the empty
  map, and the nesting stays within the decoder's limit, three levels for each token of the chain.
\<close>

definition text_map_ok :: "(ustring, ustring) hash_map \<Rightarrow> bool" where
  "text_map_ok m \<longleftrightarrow> hm_ok m \<and> list_all (\<lambda>(k, v). utf8_valid k \<and> utf8_valid v \<and> fits k) m"

definition cap_ok :: "Capability \<Rightarrow> bool" where
  "cap_ok c \<longleftrightarrow> utf8_valid (cap_resource c) \<and> utf8_valid (cap_action c) \<and> text_map_ok (cap_caveats c)"

primrec ucan_ok :: "Ucan \<Rightarrow> nat \<Rightarrow> bool" and payload_ok :: "UcanPayload \<Rightarrow> nat \<Rightarrow> bool" where
  "ucan_ok (Ucan h p sig) d \<longleftrightarrow> utf8_valid (uh_alg h) \<and> utf8_valid (uh_typ h) \<and> utf8_valid (uh_kid h) \<and> payload_ok p (Suc d)"
| "payload_ok (UcanPayload iss aud e n ps att fct) d \<longleftrightarrow> d < 95 \<and> utf8_valid iss \<and> utf8_valid aud \<and>
     list_all (\<lambda>ok. ok (Suc (Suc d))) (map ucan_ok ps) \<and> list_all cap_ok att \<and> list_all (\<lambda>f. f \<noteq> [] \<and> text_map_ok f) fct"

text \<open>The received token has the entries of its maps in the order of the encoding.\<close>

definition cap_norm :: "text_order \<Rightarrow> Capability \<Rightarrow> Capability" where
  "cap_norm ord c = c\<lparr>cap_caveats := by_key (ord (cap_caveats c))\<rparr>"

lemma cap_norm_fields [simp]: "cap_resource (cap_norm ord c) = cap_resource c" "cap_action (cap_norm ord c) = cap_action c"
  by (simp_all add: cap_norm_def)

primrec ucan_norm :: "text_order \<Rightarrow> Ucan \<Rightarrow> Ucan" and payload_norm :: "text_order \<Rightarrow> UcanPayload \<Rightarrow> UcanPayload" where
  "ucan_norm ord (Ucan h p sig) = Ucan h (payload_norm ord p) sig"
| "payload_norm ord (UcanPayload iss aud e n ps att fct) =
     UcanPayload iss aud e n (map (ucan_norm ord) ps) (map (cap_norm ord) att) (map (\<lambda>f. by_key (ord f)) fct)"

lemma ordered_map:
  assumes "iteration_order ord" and "hm_ok m"
  shows "hm_ok (by_key (ord m))" and "hm_get (by_key (ord m)) = hm_get m" and "set (by_key (ord m)) = set m"
    and "by_key (ord m) = [] \<longleftrightarrow> m = []"
  using iterated_map [OF assms] by (auto simp: hm_ok_def hm_get_def map_of_by_key fun_eq_iff)

lemma text_map_norm_ok: "iteration_order ord \<Longrightarrow> text_map_ok m \<Longrightarrow> text_map_ok (by_key (ord m))"
  using ordered_map [of ord m] by (auto simp: text_map_ok_def list_all_iff)

lemma by_key_order:
  assumes "iteration_order ord" and "iteration_order ord'" and "text_map_ok m"
  shows "by_key (ord' (by_key (ord m))) = by_key (ord m)"
proof (rule map_sorted_distinct_set_unique [where f = "\<lambda>e. text_key_encoding (fst e)"])
  have hm: "hm_ok m" using assms(3) by (simp add: text_map_ok_def)
  note o = ordered_map [OF assms(1) hm]
  note o' = ordered_map [OF assms(2) o(1)]
  have inj: "inj_on (\<lambda>e. text_key_encoding (fst e)) (set xs)" if "set xs = set m" "hm_ok xs" for xs :: "(ustring \<times> ustring) list"
  proof (rule inj_onI)
    fix e f assume e: "e \<in> set xs" "f \<in> set xs" "text_key_encoding (fst e) = text_key_encoding (fst f)"
    then have "fits (fst e)" "fits (fst f)" using assms(3) that(1) by (auto simp: text_map_ok_def list_all_iff)
    then have "fst e = fst f" using e(3) by (rule text_key_encoding_inj)
    then show "e = f" using e(1,2) that(2) by (auto simp: hm_ok_def distinct_map inj_on_def)
  qed
  show "set (by_key (ord' (by_key (ord m)))) = set (by_key (ord m))" by (rule o'(3))
  show "inj_on (\<lambda>e. text_key_encoding (fst e)) (set (by_key (ord' (by_key (ord m)))) \<union> set (by_key (ord m)))"
    using inj [OF o(3) o(1)] unfolding o'(3) by simp
  show "distinct (map (\<lambda>e. text_key_encoding (fst e)) (by_key (ord m)))"
    using o(1) inj [OF o(3) o(1)] by (simp add: distinct_map hm_ok_def)
  show "distinct (map (\<lambda>e. text_key_encoding (fst e)) (by_key (ord' (by_key (ord m)))))"
    using o'(1) inj [OF o'(3) [unfolded o(3)] o'(1)] by (simp add: distinct_map hm_ok_def)
qed (simp_all add: by_key_def)

lemma wire_text_map:
  assumes "iteration_order ord" and "text_map_ok m" and "m \<noteq> []"
  shows "wire (text_map ord m) = StrMap (map (\<lambda>(k, v). (k, TextString v)) (by_key (ord m)))"
proof -
  have "ord m \<noteq> []" using assms ordered_map(4) [of ord m] by (auto simp: text_map_ok_def)
  moreover have "map (\<lambda>(k, v). (k, wire v)) (map (\<lambda>(k, v). (k, TextString v)) (ord m)) = map (\<lambda>(k, v). (k, TextString v)) (ord m)"
    by auto
  ultimately show ?thesis by (simp add: text_map_def str_map_def wire_StrMap by_key_map del: map_map)
qed

lemma read_text_map_eq: "hm_ok m \<Longrightarrow> read_text_map (map (\<lambda>(k, v). (k, TextString v)) m) = m"
proof (induction m rule: rev_induct)
  case (snoc e m)
  obtain k v where e: "e = (k, v)" by (cases e)
  have "hm_insert k v m = m @ [(k, v)]" using snoc.prems e by (intro hm_insert_fresh) (auto simp: hm_ok_def)
  moreover have "hm_ok m" using snoc.prems by (simp add: hm_ok_def)
  ultimately show ?case using snoc.IH e by (simp add: read_text_map_def)
qed (simp add: read_text_map_def)

lemma text_map_norm_wire:
  assumes "iteration_order ord" and "iteration_order ord'" and "text_map_ok m" and "m \<noteq> []"
  shows "wire (text_map ord' (by_key (ord m))) = wire (text_map ord m)"
proof -
  have "by_key (ord m) \<noteq> []" using assms ordered_map(4) by (auto simp: text_map_ok_def)
  from wire_text_map [OF assms(2) text_map_norm_ok [OF assms(1,3)] this] show ?thesis
    by (simp add: wire_text_map [OF assms(1,3,4)] by_key_order [OF assms(1-3)])
qed

lemma text_map_wire_ok:
  assumes "iteration_order ord" and "text_map_ok m" and "d < 99"
  shows "wire_ok d (text_map ord m)"
  using assms iterated_map [of ord m] by (auto simp: text_map_def str_map_def text_map_ok_def hm_ok_def list_all_iff comp_def split_beta)

lemma cap_distinct: "distinct (map fst ([(1, a), (2, b)] @ (if p then [(3 :: i64, c)] else [])))"
  by simp

lemma cap_wire_ok: "iteration_order ord \<Longrightarrow> cap_ok c \<Longrightarrow> d < 97 \<Longrightarrow> wire_ok d (Capability_to_cbor ord c)"
  by (auto simp: Capability_to_cbor_def cap_ok_def text_map_wire_ok)

lemma cap_from_wire:
  assumes "iteration_order ord" and "cap_ok c"
  shows "Capability_from_cbor (wire (Capability_to_cbor ord c)) = Inr (cap_norm ord c)"
proof -
  have m: "text_map_ok (cap_caveats c)" using assms(2) by (simp add: cap_ok_def)
  then have hm: "hm_ok (cap_caveats c)" by (simp add: text_map_ok_def)
  note g = int_map_get_wire [OF cap_distinct, of "TextString (cap_resource c)" "TextString (cap_action c)"
    "cap_caveats c \<noteq> []" "text_map ord (cap_caveats c)", folded Capability_to_cbor_def]
  show ?thesis
  proof (cases "cap_caveats c = []")
    case True
    then show ?thesis using ordered_map(4) [OF assms(1) hm]
      by (simp add: Capability_from_cbor_def text_field_def g cap_norm_def)
  next
    case False
    then show ?thesis using wire_text_map [OF assms(1) m False] read_text_map_eq [OF ordered_map(1) [OF assms(1) hm]]
      by (simp add: Capability_from_cbor_def text_field_def g cap_norm_def)
  qed
qed

lemma cap_norm_wire:
  assumes "iteration_order ord" and "iteration_order ord'" and "cap_ok c"
  shows "wire (Capability_to_cbor ord' (cap_norm ord c)) = wire (Capability_to_cbor ord c)"
proof -
  have m: "text_map_ok (cap_caveats c)" using assms(3) by (simp add: cap_ok_def)
  then have e: "by_key (ord (cap_caveats c)) = [] \<longleftrightarrow> cap_caveats c = []"
    using ordered_map(4) [OF assms(1)] by (simp add: text_map_ok_def)
  have "wire (text_map ord' (by_key (ord (cap_caveats c)))) = wire (text_map ord (cap_caveats c))" if "cap_caveats c \<noteq> []"
    using text_map_norm_wire [OF assms(1,2) m that] .
  then show ?thesis using e by (simp add: Capability_to_cbor_def cap_norm_def wire_int_map)
qed

lemma payload_distinct:
  "distinct (map fst ([(1, a), (2, b), (3, c), (4, d)] @ (if p then [(5 :: i64, e)] else []) @ (if q then [(6, f)] else []) @ (if r then [(7, g)] else [])))"
  by simp

lemma payload_fields:
  fixes ord iss aud e n ps att fct
  defines "v \<equiv> wire (UcanPayload_to_cbor ord (UcanPayload iss aud e n ps att fct))"
  shows "int_map_get v 1 = Some (TextString iss)" "int_map_get v 2 = Some (TextString aud)"
    "int_map_get v 3 = Some (Unsigned e)" "int_map_get v 4 = Some (Unsigned n)"
    "int_map_get v 5 = (if ps = [] then None else Some (Array (map (wire \<circ> Ucan_to_cbor ord) ps)))"
    "int_map_get v 6 = (if att = [] then None else Some (Array (map (wire \<circ> Capability_to_cbor ord) att)))"
    "int_map_get v 7 = (if fct = [] then None else Some (Array (map (wire \<circ> text_map ord) fct)))"
  unfolding v_def UcanPayload_to_cbor.simps int_map_get_wire [OF payload_distinct] by simp_all

lemma ucan_wire_ok:
  assumes "iteration_order ord"
  shows "ucan_ok u d \<Longrightarrow> wire_ok d (Ucan_to_cbor ord u)" and "payload_ok p d \<Longrightarrow> wire_ok d (UcanPayload_to_cbor ord p)"
proof (induction u and p arbitrary: d and d rule: Ucan.induct UcanPayload.induct)
  case (Ucan h p sig)
  have "d < 94" using Ucan.prems by (cases p) simp
  then show ?case using Ucan by (simp add: UcanHeader_to_cbor_def)
next
  case (UcanPayload iss aud e n ps att fct)
  then show ?case
    using assms by (auto simp: list_all_iff cap_wire_ok text_map_wire_ok)
qed

lemma facts_read:
  assumes "iteration_order ord" and "list_all (\<lambda>f. f \<noteq> [] \<and> text_map_ok f) fct"
  shows "read_facts (map (\<lambda>f. wire (text_map ord f)) fct) = map (\<lambda>f. by_key (ord f)) fct"
  using assms(2)
proof (induction fct)
  case (Cons f fct)
  then have "wire (text_map ord f) = StrMap (map (\<lambda>(k, v). (k, TextString v)) (by_key (ord f)))"
    using wire_text_map [OF assms(1)] by simp
  moreover have "read_text_map (map (\<lambda>(k, v). (k, TextString v)) (by_key (ord f))) = by_key (ord f)"
    using Cons.prems ordered_map(1) [OF assms(1)] by (intro read_text_map_eq) (simp add: text_map_ok_def)
  ultimately show ?case using Cons by (simp add: read_facts_def List.map_filter_simps)
qed (simp add: read_facts_def List.map_filter_simps)

lemma ucan_from_wire:
  assumes "iteration_order ord"
  shows "ucan_ok u d \<Longrightarrow> Ucan_from_cbor (wire (Ucan_to_cbor ord u)) = Inr (ucan_norm ord u)"
    and "payload_ok p d \<Longrightarrow> UcanPayload_from_cbor (wire (UcanPayload_to_cbor ord p)) = Inr (payload_norm ord p)"
proof (induction u and p arbitrary: d and d rule: Ucan.induct UcanPayload.induct)
  case (Ucan h p sig)
  have "UcanHeader_from_cbor (wire (UcanHeader_to_cbor h)) = Inr h"
    by (simp add: UcanHeader_from_cbor_def UcanHeader_to_cbor_def text_field_def int_map_get_wire)
  then show ?case using Ucan.IH [of "Suc d"] Ucan.prems by (subst Ucan_from_cbor.simps) (simp add: int_map_get_wire)
next
  case (UcanPayload iss aud e n ps att fct)
  have "decode_all Ucan_from_cbor (map (wire \<circ> Ucan_to_cbor ord) ps) = Inr (map (ucan_norm ord) ps)"
    using UcanPayload.IH UcanPayload.prems by (intro decode_all_maps) (auto simp: list_all_iff)
  moreover have "decode_all Capability_from_cbor (map (wire \<circ> Capability_to_cbor ord) att) = Inr (map (cap_norm ord) att)"
    using UcanPayload.prems by (intro decode_all_maps) (auto simp: list_all_iff cap_from_wire [OF assms])
  moreover have "read_facts (map (wire \<circ> text_map ord) fct) = map (\<lambda>f. by_key (ord f)) fct"
    using UcanPayload.prems facts_read [OF assms, of fct] by (simp add: comp_def)
  ultimately show ?case
    by (subst UcanPayload_from_cbor.simps) (simp add: payload_fields text_field_def uint_field_def del: UcanPayload_to_cbor.simps)
qed

lemma ucan_norm_wire:
  assumes "iteration_order ord" and "iteration_order ord'"
  shows "ucan_ok u d \<Longrightarrow> wire (Ucan_to_cbor ord' (ucan_norm ord u)) = wire (Ucan_to_cbor ord u)"
    and "payload_ok p d \<Longrightarrow> wire (UcanPayload_to_cbor ord' (payload_norm ord p)) = wire (UcanPayload_to_cbor ord p)"
proof (induction u and p arbitrary: d and d rule: Ucan.induct UcanPayload.induct)
  case (UcanPayload iss aud e n ps att fct)
  have "map (wire \<circ> Ucan_to_cbor ord') (map (ucan_norm ord) ps) = map (wire \<circ> Ucan_to_cbor ord) ps"
    using UcanPayload.IH UcanPayload.prems by (auto simp: list_all_iff)
  moreover have "map (wire \<circ> Capability_to_cbor ord') (map (cap_norm ord) att) = map (wire \<circ> Capability_to_cbor ord) att"
    using UcanPayload.prems by (auto simp: list_all_iff cap_norm_wire [OF assms])
  moreover have "map (wire \<circ> text_map ord') (map (\<lambda>f. by_key (ord f)) fct) = map (wire \<circ> text_map ord) fct"
    using UcanPayload.prems by (auto simp: list_all_iff text_map_norm_wire [OF assms])
  ultimately have "wire (Array (map (Ucan_to_cbor ord') (map (ucan_norm ord) ps))) = wire (Array (map (Ucan_to_cbor ord) ps))"
    "wire (Array (map (Capability_to_cbor ord') (map (cap_norm ord) att))) = wire (Array (map (Capability_to_cbor ord) att))"
    "wire (Array (map (text_map ord') (map (\<lambda>f. by_key (ord f)) fct))) = wire (Array (map (text_map ord) fct))"
    by (simp_all add: comp_assoc)
  then show ?case by (simp add: wire_int_map del: map_map wire_simps(5))
next
  case (Ucan h p sig)
  then show ?case using Ucan.IH [of "Suc d"] by (simp add: wire_int_map)
qed

lemma ucan_norm_fields [simp]:
  "ucan_header (ucan_norm ord u) = ucan_header u" "ucan_payload (ucan_norm ord u) = payload_norm ord (ucan_payload u)"
  "ucan_signature (ucan_norm ord u) = ucan_signature u"
  by (cases u; simp)+

lemma payload_norm_fields [simp]:
  "pay_iss (payload_norm ord p) = pay_iss p" "pay_aud (payload_norm ord p) = pay_aud p"
  "pay_exp (payload_norm ord p) = pay_exp p" "pay_nbf (payload_norm ord p) = pay_nbf p"
  "pay_att (payload_norm ord p) = map (cap_norm ord) (pay_att p)"
  by (cases p; simp)+

lemma verify_norm:
  assumes "iteration_order ord" and "iteration_order ord'" and "ucan_ok u d"
  shows "Ucan_verify cr hex ord' pk now (ucan_norm ord u) = Ucan_verify cr hex ord pk now u"
proof -
  have "payload_ok (ucan_payload u) (Suc d)" using assms(3) by (cases u) simp
  then have "cbor_bytes (UcanPayload_to_cbor ord' (payload_norm ord (ucan_payload u))) = cbor_bytes (UcanPayload_to_cbor ord (ucan_payload u))"
    using ucan_norm_wire(2) [OF assms(1,2)] cbor_bytes_wire by metis
  then have si: "signing_input ord' (ucan_norm ord u) = signing_input ord u" by (simp add: signing_input_eq)
  show ?thesis unfolding Ucan_verify_def ucan_norm_fields payload_norm_fields si by (rule refl)
qed

lemma subset_norm:
  assumes "iteration_order ord" and "cap_ok c" and "cap_ok p"
  shows "is_subset_of (cap_norm ord c) (cap_norm ord p) \<longleftrightarrow> is_subset_of c p"
  using assms ordered_map [OF assms(1)] by (simp add: is_subset_of_iff cap_norm_def cap_ok_def text_map_ok_def)

lemma find_map_norm:
  assumes "iteration_order ord" and "list_all cap_ok att" and "list_all cap_ok parent_att"
  shows "find (\<lambda>c. \<not> list_ex (\<lambda>p. is_subset_of c p) (map (cap_norm ord) parent_att)) (map (cap_norm ord) att) =
    map_option (cap_norm ord) (find (\<lambda>c. \<not> list_ex (\<lambda>p. is_subset_of c p) parent_att) att)"
  using assms(2,3) by (induction att) (auto simp: list_ex_iff list_all_iff subset_norm [OF assms(1)])

lemma validate_norm:
  assumes "iteration_order ord'"
  shows "iteration_order ord \<Longrightarrow> ucan_ok u d \<Longrightarrow>
      validate_chain_impl cr hex ord' now resolver (ucan_norm ord u) = validate_chain_impl cr hex ord now resolver u"
    and "iteration_order ord \<Longrightarrow> list_all cap_ok att \<Longrightarrow> list_all (\<lambda>u. ucan_ok u d) ps \<Longrightarrow>
      validate_parents cr hex ord' now resolver iss (map (cap_norm ord) att) (map (ucan_norm ord) ps) =
      validate_parents cr hex ord now resolver iss att ps"
proof (induction cr hex ord now resolver u and cr hex ord now resolver iss att ps
    arbitrary: d and d rule: validate_chain_impl_validate_parents.induct)
  case (1 cr hex ord now resolver header iss aud e n ps att fct sig)
  let ?u = "Ucan header (UcanPayload iss aud e n ps att fct) sig"
  have ok: "list_all cap_ok att" "list_all (\<lambda>u. ucan_ok u (Suc (Suc (Suc d)))) ps" using 1(3) by (simp_all add: list_all_iff)
  show ?case
  proof (cases "resolver (uh_kid header)")
    case (Some pk)
    have "try_then (Ucan_verify cr hex ord' pk now (ucan_norm ord ?u))
        (\<lambda>_. validate_parents cr hex ord' now resolver iss (map (cap_norm ord) att) (map (ucan_norm ord) ps)) =
      try_then (Ucan_verify cr hex ord pk now ?u) (\<lambda>_. validate_parents cr hex ord now resolver iss att ps)"
      using verify_norm [OF 1(2) assms 1(3)] 1(1) [OF Some _ 1(2) ok] by (rule try_then_cong)
    then show ?thesis using Some by simp
  qed simp
next
  case (3 cr hex ord now resolver iss att parent ps)
  have "list_all cap_ok (pay_att (ucan_payload parent))"
    using 3(5) by (cases parent; cases "ucan_payload parent") auto
  note f = find_map_norm [OF 3(3) 3(4) this]
  show ?case
  proof (cases "pay_aud (ucan_payload parent) = iss \<and> find (\<lambda>c. \<not> list_ex (\<lambda>p. is_subset_of c p) (pay_att (ucan_payload parent))) att = None")
    case True
    have "try_then (validate_chain_impl cr hex ord' now resolver (ucan_norm ord parent))
        (\<lambda>_. validate_parents cr hex ord' now resolver iss (map (cap_norm ord) att) (map (ucan_norm ord) ps)) =
      try_then (validate_chain_impl cr hex ord now resolver parent) (\<lambda>_. validate_parents cr hex ord now resolver iss att ps)"
      using 3 True by (intro try_then_cong) auto
    then show ?thesis using True f by simp
  next
    case False
    then show ?thesis using f by auto
  qed
qed simp

text \<open>
  A token means the same to its receiver: a well-formed token whose chain is within the nesting limit is encoded,
  every buffer that starts with the encoding is read as the same token up to the order of
  caveats and facts, and validating what was read gives the same result, acceptance or the same error,
  whatever the iteration order of the receiver's hash maps is.
\<close>

lemma ucan_transferred:
  assumes "iteration_order ord" and "iteration_order ord'" and "ucan_ok u 0" and "Ucan_to_bytes ord u = Inr bs" and "fits (bs @ rest)"
  shows "Ucan_from_bytes (bs @ rest) = Inr (ucan_norm ord u) \<and>
    validate_chain cr hex ord' now resolver (ucan_norm ord u) = validate_chain cr hex ord now resolver u"
proof -
  have bs: "bs = cbor_bytes (Ucan_to_cbor ord u)" using assms(4) by (simp add: Ucan_to_bytes_def encode_eq)
  have "decode (bs @ rest) = Inr (wire (Ucan_to_cbor ord u), length bs)"
    using decode_wire [OF ucan_wire_ok(1) [OF assms(1,3)]] assms(5) bs by simp
  then show ?thesis
    using ucan_from_wire(1) [OF assms(1,3)] validate_norm(1) [OF assms(2,1,3)]
    by (simp add: Ucan_from_bytes_def validate_chain_def)
qed

text \<open>An empty fact is encoded as an empty map, read as a map with integer keys and dropped; the signature no longer covers what was read.\<close>

lemma empty_fact_lost:
  assumes "utf8_valid (uh_alg h)" "utf8_valid (uh_typ h)" "utf8_valid (uh_kid h)" "utf8_valid iss" "utf8_valid aud"
    and "iteration_order ord" and "fits (cbor_bytes (Ucan_to_cbor ord (Ucan h (UcanPayload iss aud e n [] [] [[]]) sig)))"
    and "fits (cbor_bytes (UcanPayload_to_cbor ord (UcanPayload iss aud e n [] [] [[]])))"
  shows "Ucan_from_bytes (cbor_bytes (Ucan_to_cbor ord (Ucan h (UcanPayload iss aud e n [] [] [[]]) sig))) =
      Inr (Ucan h (UcanPayload iss aud e n [] [] []) sig)"
    and "signing_input ord (Ucan h (UcanPayload iss aud e n [] [] []) sig) \<noteq>
      signing_input ord (Ucan h (UcanPayload iss aud e n [] [] [[]]) sig)"
proof -
  let ?p = "UcanPayload iss aud e n [] [] [[]]" and ?q = "UcanPayload iss aud e n [] [] []"
  have ord: "ord [] = []" using assms(6) unfolding iteration_order_def by (metis mset_zero_iff_right mset.simps(1))
  have ok: "wire_ok d (UcanPayload_to_cbor ord ?p)" "wire_ok d (UcanPayload_to_cbor ord ?q)" if "d < 90" for d
    using assms that by (simp_all add: text_map_def str_map_def ord)
  have "wire_ok 0 (Ucan_to_cbor ord (Ucan h ?p sig))"
    using ok(1) [of 1] assms by (simp add: UcanHeader_to_cbor_def del: UcanPayload_to_cbor.simps)
  from decode_wire [OF this, of "[]"] have "decode (cbor_bytes (Ucan_to_cbor ord (Ucan h ?p sig))) =
      Inr (wire (Ucan_to_cbor ord (Ucan h ?p sig)), length (cbor_bytes (Ucan_to_cbor ord (Ucan h ?p sig))))"
    using assms(7) by simp
  moreover have "UcanPayload_from_cbor (wire (UcanPayload_to_cbor ord ?p)) = Inr ?q"
    by (subst UcanPayload_from_cbor.simps) (simp add: payload_fields text_field_def uint_field_def read_facts_def text_map_def
        str_map_def ord List.map_filter_simps del: UcanPayload_to_cbor.simps)
  moreover have "UcanHeader_from_cbor (wire (UcanHeader_to_cbor h)) = Inr h"
    by (simp add: UcanHeader_from_cbor_def UcanHeader_to_cbor_def text_field_def int_map_get_wire)
  ultimately show "Ucan_from_bytes (cbor_bytes (Ucan_to_cbor ord (Ucan h ?p sig))) = Inr (Ucan h ?q sig)"
    by (simp add: Ucan_from_bytes_def Ucan_from_cbor.simps int_map_get_wire del: UcanPayload_to_cbor.simps)
  have "wire (UcanPayload_to_cbor ord ?q) \<noteq> wire (UcanPayload_to_cbor ord ?p)"
    using payload_fields(7) [of ord iss aud e n "[]" "[]" "[]"] payload_fields(7) [of ord iss aud e n "[]" "[]" "[[]]"] by force
  then have "cbor_bytes (UcanPayload_to_cbor ord ?q) \<noteq> cbor_bytes (UcanPayload_to_cbor ord ?p)"
    using wire_inj [of "UcanPayload_to_cbor ord ?q" "UcanPayload_to_cbor ord ?p"] ok [of 0] assms(8)
    by (metis zero_less_numeral)
  then show "signing_input ord (Ucan h ?q sig) \<noteq> signing_input ord (Ucan h ?p sig)"
    by (simp add: signing_input_eq del: UcanPayload_to_cbor.simps)
qed

text \<open>Example: a token for chat on everything below \<open>compute\<close>, and a narrower one derived from it.\<close>

definition example_root :: "bytes \<Rightarrow> Ucan" where
  "example_root sig = Ucan (UcanHeader_new UCAN_ALG UCAN_TYP (sha256 example_crypto (replicate 1952 1)))
     (UcanPayload (sha256 example_crypto (replicate 1952 1)) (sha256 example_crypto (replicate 1952 1)) 2000 1000 []
        [Capability_new (str ''compute'') (str ''chat'')] []) sig"

definition example_narrow :: Capability where
  "example_narrow = with_caveat (str ''max'') (str ''5'') (Capability_new (str ''compute.gpu'') (str ''chat''))"

abbreviation example_resolver :: "ustring \<Rightarrow> bytes option" where
  "example_resolver \<equiv> \<lambda>_. Some (kp_public_key example_record_keys)"

lemma example_root_valid: "\<exists>sig. validate_chain example_crypto id id 1500 example_resolver (example_root sig) = Some (Inr ())"
proof -
  have "uh_kid (ucan_header (example_root [])) = id (sha256 example_crypto (kp_public_key example_record_keys))"
    by (simp add: example_root_def UcanHeader_new_def example_record_keys_def)
  from Ucan_sign_verifies [where hex = id and u = "example_root []" and ord = id and rnd = "[]", OF example_record_keys_ok this]
  obtain sig where s: "\<And>now. uh_alg (ucan_header (example_root [])) = UCAN_ALG \<Longrightarrow> pay_nbf (ucan_payload (example_root [])) \<le> now \<Longrightarrow>
      now < pay_exp (ucan_payload (example_root [])) \<Longrightarrow> Ucan_verify example_crypto id id (kp_public_key example_record_keys) now
        (Ucan (ucan_header (example_root [])) (ucan_payload (example_root [])) sig) = Some (Inr ())" by blast
  have "Ucan_verify example_crypto id id (kp_public_key example_record_keys) 1500 (example_root sig) = Some (Inr ())"
    using s [of 1500] by (simp add: example_root_def UcanHeader_new_def)
  then show ?thesis
    unfolding validate_chain_def validate_chain_valid
    by (intro exI [of _ sig] chain_validI [of _ _ "kp_public_key example_record_keys"]) (simp_all add: example_root_def)
qed

lemma example_narrow_subset: "is_subset_of example_narrow (Capability_new (str ''compute'') (str ''chat''))"
  by code_simp

theorem delegate_validates_witness:
  "\<exists>sig t. Ucan_delegate example_crypto id id [] example_record_keys [1, 2] [example_narrow] 1900 1200 (example_root sig) = Some (Inr t) \<and>
     validate_chain example_crypto id id 1500 example_resolver t = Some (Inr ())"
proof -
  obtain sig where "validate_chain example_crypto id id 1500 example_resolver (example_root sig) = Some (Inr ())"
    using example_root_valid by blast
  note root = this
  have att: "pay_att (ucan_payload (example_root sig)) = [Capability_new (str ''compute'') (str ''chat'')]"
    and aud: "pay_aud (ucan_payload (example_root sig)) = sha256 example_crypto (kp_public_key example_record_keys)"
    by (simp_all add: example_root_def example_record_keys_def)
  have "\<exists>t. Ucan_delegate example_crypto id id [] example_record_keys [1, 2] [example_narrow] 1900 1200 (example_root sig) = Some (Inr t) \<and>
      pay_att (ucan_payload t) = [example_narrow] \<and> pay_aud (ucan_payload t) = id [1, 2] \<and>
      (\<forall>now. validate_chain example_crypto id id now example_resolver t = Some (Inr ()) \<longleftrightarrow>
         1200 \<le> now \<and> now < 1900 \<and> validate_chain example_crypto id id now example_resolver (example_root sig) = Some (Inr ()))"
    by (rule delegate_validates [OF example_record_keys_ok]) (use example_narrow_subset in \<open>simp_all add: att aud\<close>)
  then obtain t where t: "Ucan_delegate example_crypto id id [] example_record_keys [1, 2] [example_narrow] 1900 1200 (example_root sig) = Some (Inr t)"
    "validate_chain example_crypto id id 1500 example_resolver t = Some (Inr ()) \<longleftrightarrow>
       (1200 :: u64) \<le> 1500 \<and> (1500 :: u64) < 1900 \<and> validate_chain example_crypto id id 1500 example_resolver (example_root sig) = Some (Inr ())" by blast
  have "(1200 :: u64) \<le> 1500" "(1500 :: u64) < 1900" by simp_all
  with t root show ?thesis by blast
qed

theorem chain_attenuates_witness:
  "\<exists>t a g. validate_chain example_crypto id id 1500 example_resolver t = Some (Inr ()) \<and> derived_from t a \<and>
     pay_att (ucan_payload t) = [example_narrow] \<and> g \<in> set (pay_att (ucan_payload a)) \<and> is_subset_of example_narrow g \<and> g \<noteq> example_narrow"
proof -
  obtain sig where root: "validate_chain example_crypto id id 1500 example_resolver (example_root sig) = Some (Inr ())"
    using example_root_valid by blast
  let ?kid = "sha256 example_crypto (kp_public_key example_record_keys)"
  let ?u = "Ucan_new (UcanHeader_new UCAN_ALG UCAN_TYP ?kid) (UcanPayload ?kid [1, 2] 1900 1200 [example_root sig] [example_narrow] [])"
  have "uh_kid (ucan_header ?u) = id ?kid" by (simp add: Ucan_new_def UcanHeader_new_def)
  from Ucan_sign_verifies [where hex = id and u = ?u and ord = id and rnd = "[]", OF example_record_keys_ok this]
  obtain s where s: "\<And>now. uh_alg (ucan_header ?u) = UCAN_ALG \<Longrightarrow> pay_nbf (ucan_payload ?u) \<le> now \<Longrightarrow> now < pay_exp (ucan_payload ?u) \<Longrightarrow>
      Ucan_verify example_crypto id id (kp_public_key example_record_keys) now (Ucan (ucan_header ?u) (ucan_payload ?u) s) = Some (Inr ())"
    by blast
  let ?t = "Ucan (ucan_header ?u) (ucan_payload ?u) s"
  have att: "pay_att (ucan_payload (example_root sig)) = [Capability_new (str ''compute'') (str ''chat'')]"
    and aud: "pay_aud (ucan_payload (example_root sig)) = ?kid" by (simp_all add: example_root_def example_record_keys_def)
  have "chain_valid example_crypto id id 1500 example_resolver (example_root sig)"
    using root by (simp only: validate_chain_def validate_chain_valid)
  then have "chain_valid example_crypto id id 1500 example_resolver ?t"
    using s [of 1500] example_narrow_subset
    by (intro chain_validI [of _ _ "kp_public_key example_record_keys"])
      (auto simp: Ucan_new_def UcanHeader_new_def att aud covered_def)
  then have t: "validate_chain example_crypto id id 1500 example_resolver ?t = Some (Inr ())"
    by (simp add: validate_chain_def validate_chain_valid)
  have d: "derived_from ?t (example_root sig)"
    by (rule derived_step [OF _ derived_self]) (simp add: Ucan_new_def)
  have "hm_ok (cap_caveats example_narrow)" by code_simp
  then have "\<forall>c \<in> set (pay_att (ucan_payload ?t)). hm_ok (cap_caveats c)" by (simp add: Ucan_new_def)
  from chain_attenuates [OF t d this] have "is_subset_of example_narrow (Capability_new (str ''compute'') (str ''chat''))"
    by (simp add: Ucan_new_def att)
  moreover have "Capability_new (str ''compute'') (str ''chat'') \<noteq> example_narrow" by code_simp
  ultimately show ?thesis using t d att
    by (intro exI [of _ ?t] exI [of _ "example_root sig"] exI [of _ "Capability_new (str ''compute'') (str ''chat'')"]) (simp add: Ucan_new_def)
qed

definition example_token :: Ucan where
  "example_token =
     (let h = UcanHeader_new UCAN_ALG UCAN_TYP (str ''ab12'');
          root = Ucan h (UcanPayload (str ''ab12'') (str ''ab12'') 2000 1000 [] [Capability_new (str ''compute'') (str ''chat'')] []) [1]
      in Ucan h (UcanPayload (str ''ab12'') (str ''cd34'') 2000 1000 [root] [example_narrow] [[(str ''k'', str ''v'')]]) [2])"

lemma ucan_transferred_example:
  "\<exists>bs t. Ucan_to_bytes rev example_token = Inr bs \<and> Ucan_from_bytes bs = Inr t \<and>
     validate_chain example_crypto id id 1500 example_resolver t = validate_chain example_crypto id rev 1500 example_resolver example_token"
proof -
  have ord: "iteration_order rev" "iteration_order id" by (simp_all add: iteration_order_def)
  have "utf8_valid UCAN_ALG" "utf8_valid UCAN_TYP" "utf8_valid (str ''ab12'')" "utf8_valid (str ''cd34'')" "utf8_valid (str ''k'')"
    "utf8_valid (str ''v'')" "utf8_valid (str ''compute'')" "utf8_valid (str ''compute.gpu'')" "utf8_valid (str ''chat'')"
    "utf8_valid (str ''max'')" "utf8_valid (str ''5'')" by code_simp+
  then have ok: "ucan_ok example_token 0"
    by (simp add: example_token_def UcanHeader_new_def Let_def cap_ok_def text_map_ok_def example_narrow_def Capability_new_def
        with_caveat_def hm_insert_def hm_ok_def)
  have "fits (cbor_bytes (Ucan_to_cbor rev example_token) @ [])"
    by (rule fits_small) (simp add: example_token_def UcanHeader_new_def Let_def example_narrow_def Capability_new_def UCAN_ALG_def
        UCAN_TYP_def with_caveat_def hm_insert_def int_map_def UcanHeader_to_cbor_def Capability_to_cbor_def text_map_def str_map_def)
  moreover have "Ucan_to_bytes rev example_token = Inr (cbor_bytes (Ucan_to_cbor rev example_token))"
    by (simp add: Ucan_to_bytes_def encode_eq)
  ultimately show ?thesis
    using ucan_transferred [OF ord ok, of _ "[]" example_crypto id 1500 example_resolver] by auto
qed

end
