(* ===== verification/Signature_Domains.thy ===== *)
theory Signature_Domains
  imports Trust_Manager Ucan_Extension Handshake_V1 "HOL-Library.Sublist"
begin

text \<open>
  Everything an agent signs with its key: handshakes, records, revocations, rotations, certificates, trust signatures, heartbeats
  and delegation tokens. The bytes signed determine the kind of the statement and its content, so that a
  signature made for one purpose is of no use for another. The content of each kind comes from the
  interpretations of \<open>signed_statement\<close>.
\<close>

section \<open>Statements\<close>

datatype signed_message =
    SignedHandshake bytes
  | SignedRecord AgentRecord
  | SignedRevocation RevocationEntry
  | SignedRotation KeyRotationRecord
  | SignedCertificate CaCertificate
  | SignedTrust TrustSignature
  | SignedHeartbeat bytes u64
  | SignedToken text_order Ucan

fun signed_bytes :: "signed_message \<Rightarrow> bytes" where
  "signed_bytes (SignedHandshake h) = signature_input h"
| "signed_bytes (SignedRecord r) = the (record_sig_input r)"
| "signed_bytes (SignedRevocation e) = RevocationEntry_signature_input e"
| "signed_bytes (SignedRotation r) = KeyRotationRecord_signature_input r"
| "signed_bytes (SignedCertificate c) = CaCertificate_signature_input c"
| "signed_bytes (SignedTrust s) = TrustSignature_signature_input s"
| "signed_bytes (SignedHeartbeat agent_id timestamp) = heartbeat_input agent_id timestamp"
| "signed_bytes (SignedToken ord u) = the (signing_input ord u)"

fun statement_ok :: "signed_message \<Rightarrow> bool" where
  "statement_ok (SignedHandshake h) = True"
| "statement_ok (SignedRecord r) = record_ok r"
| "statement_ok (SignedRevocation e) = entry_ok e"
| "statement_ok (SignedRotation r) = rotation_ok r"
| "statement_ok (SignedCertificate c) = cert_ok c"
| "statement_ok (SignedTrust s) = trust_signature_ok s"
| "statement_ok (SignedHeartbeat agent_id timestamp) = (length agent_id = 32)"
| "statement_ok (SignedToken ord u) = (iteration_order ord \<and> ucan_ok u 0)"

text \<open>What is signed: the message without its signatures, and with the entries of its maps in the order of the encoding.\<close>

fun statement_content :: "signed_message \<Rightarrow> signed_message" where
  "statement_content (SignedHandshake h) = SignedHandshake h"
| "statement_content (SignedRecord r) = SignedRecord (signed_part r)"
| "statement_content (SignedRevocation e) = SignedRevocation (e\<lparr>re_signature := []\<rparr>)"
| "statement_content (SignedRotation r) = SignedRotation (r\<lparr>kr_old_signature := [], kr_new_signature := []\<rparr>)"
| "statement_content (SignedCertificate c) = SignedCertificate (c\<lparr>ca_signature := []\<rparr>)"
| "statement_content (SignedTrust s) = SignedTrust (s\<lparr>ts_signature := []\<rparr>)"
| "statement_content (SignedHeartbeat agent_id timestamp) = SignedHeartbeat agent_id timestamp"
| "statement_content (SignedToken ord u) = SignedToken id (Ucan (ucan_header u) (payload_norm ord (ucan_payload u)) [])"

section \<open>Domains\<close>

fun statement_domain :: "signed_message \<Rightarrow> bytes" where
  "statement_domain (SignedHandshake _) = DOMAIN_SEPARATOR"
| "statement_domain (SignedRecord _) = RECORD_DOMAIN_SEPARATOR"
| "statement_domain (SignedRevocation _) = REVOCATION_DOMAIN_SEPARATOR"
| "statement_domain (SignedRotation _) = ROTATION_DOMAIN_SEPARATOR"
| "statement_domain (SignedCertificate _) = CA_DOMAIN_SEPARATOR"
| "statement_domain (SignedTrust _) = WOT_DOMAIN_SEPARATOR"
| "statement_domain (SignedHeartbeat _ _) = str ''aafp-heartbeat''"
| "statement_domain (SignedToken _ _) = [0xA3]"

lemmas domain_separators = DOMAIN_SEPARATOR_def RECORD_DOMAIN_SEPARATOR_def REVOCATION_DOMAIN_SEPARATOR_def
  ROTATION_DOMAIN_SEPARATOR_def CA_DOMAIN_SEPARATOR_def WOT_DOMAIN_SEPARATOR_def

lemma header_map_byte: "\<exists>rest. cbor_bytes (UcanHeader_to_cbor h) = 0xA3 # rest"
proof -
  have "hdr 5 3 = [0xA3]" by code_simp
  then show ?thesis by (simp add: UcanHeader_to_cbor_def int_map_def)
qed

lemma record_input: "the (record_sig_input r) = statement_input RECORD_DOMAIN_SEPARATOR (to_cbor_without_sig r)"
  by (simp add: record_sig_input_eq statement_input_eq)

lemma signed_bytes_domain: "prefix (statement_domain m) (signed_bytes m)"
proof (cases m)
  case (SignedToken ord u)
  obtain rest where "cbor_bytes (UcanHeader_to_cbor (ucan_header u)) = 0xA3 # rest" using header_map_byte by blast
  with SignedToken show ?thesis by (simp add: signing_input_eq)
qed (simp_all add: signature_input_def record_input statement_input_eq heartbeat_input_def RevocationEntry_signature_input_def
    KeyRotationRecord_signature_input_def CaCertificate_signature_input_def TrustSignature_signature_input_def)

text \<open>No domain is a prefix of another.\<close>

lemma domains_apart:
  assumes "prefix (statement_domain m) (statement_domain n)"
  shows "statement_domain m = statement_domain n"
proof -
  define ds where "ds = [DOMAIN_SEPARATOR, RECORD_DOMAIN_SEPARATOR, REVOCATION_DOMAIN_SEPARATOR, ROTATION_DOMAIN_SEPARATOR,
    CA_DOMAIN_SEPARATOR, WOT_DOMAIN_SEPARATOR, str ''aafp-heartbeat'', [0xA3]]"
  have "statement_domain k \<in> set ds" for k by (cases k) (simp_all add: ds_def)
  moreover have "list_all (\<lambda>a. list_all (\<lambda>b. prefix a b \<longrightarrow> a = b) ds) ds"
    by (simp add: ds_def domain_separators str_def)
  ultimately show ?thesis using assms by (simp add: list_all_iff)
qed

section \<open>Content\<close>

lemma header_wire_ok: "ucan_ok u d \<Longrightarrow> wire_ok 0 (UcanHeader_to_cbor (ucan_header u))"
  by (cases u) (simp add: UcanHeader_to_cbor_def)

lemma header_from_wire: "UcanHeader_from_cbor (wire (UcanHeader_to_cbor h)) = Inr h"
  by (simp add: UcanHeader_from_cbor_def UcanHeader_to_cbor_def text_field_def int_map_get_wire)

lemma token_ok_mono: "ucan_ok u d \<Longrightarrow> d' \<le> d \<Longrightarrow> ucan_ok u d'" "payload_ok p d \<Longrightarrow> d' \<le> d \<Longrightarrow> payload_ok p d'"
proof (induction u and p arbitrary: d d' and d d' rule: Ucan.induct UcanPayload.induct)
  case (Ucan h p sig)
  from Ucan.prems Ucan.IH [of "Suc d" "Suc d'"] show ?case by simp
next
  case (UcanPayload iss aud e n ps att fct)
  have "ucan_ok q (Suc (Suc d'))" if "q \<in> set ps" for q
    using UcanPayload.IH(1) [OF that, of "Suc (Suc d)" "Suc (Suc d')"] UcanPayload.prems that by (simp add: list_all_iff)
  with UcanPayload.prems show ?case by (simp add: list_all_iff)
qed

lemma token_payload_ok: "ucan_ok u 0 \<Longrightarrow> payload_ok (ucan_payload u) 0"
  by (cases u) (auto intro: token_ok_mono(2))

lemma token_input_determines:
  assumes ord: "iteration_order ord" "iteration_order ord'" and ok: "ucan_ok u 0" "ucan_ok v 0"
    and eq: "signing_input ord u = Some bs" "signing_input ord' v = Some bs" and "fits bs"
  shows "ucan_header u = ucan_header v \<and> payload_norm ord (ucan_payload u) = payload_norm ord' (ucan_payload v)"
proof -
  let ?hu = "UcanHeader_to_cbor (ucan_header u)" and ?hv = "UcanHeader_to_cbor (ucan_header v)"
  let ?pu = "UcanPayload_to_cbor ord (ucan_payload u)" and ?pv = "UcanPayload_to_cbor ord' (ucan_payload v)"
  have bs: "bs = cbor_bytes ?hu @ cbor_bytes ?pu" "bs = cbor_bytes ?hv @ cbor_bytes ?pv"
    using eq by (simp_all add: signing_input_eq)
  have "decode bs = Inr (wire ?hu, length (cbor_bytes ?hu))" "decode bs = Inr (wire ?hv, length (cbor_bytes ?hv))"
    using decode_wire [OF header_wire_ok [OF ok(1)]] decode_wire [OF header_wire_ok [OF ok(2)]] \<open>fits bs\<close> bs by metis+
  then have head: "wire ?hu = wire ?hv" "length (cbor_bytes ?hu) = length (cbor_bytes ?hv)" by simp_all
  then have "cbor_bytes ?pu = cbor_bytes ?pv" using bs by (metis append_eq_append_conv)
  moreover have "fits (cbor_bytes ?pu @ [])" using \<open>fits bs\<close> unfolding bs(1) by simp
  ultimately have payload: "wire ?pu = wire ?pv"
    using ucan_wire_ok(2) [OF ord(1) token_payload_ok [OF ok(1)]] ucan_wire_ok(2) [OF ord(2) token_payload_ok [OF ok(2)]]
    by (intro wire_inj) simp_all
  have "payload_norm ord (ucan_payload u) = payload_norm ord' (ucan_payload v)"
    using ucan_from_wire(2) [OF ord(1) token_payload_ok [OF ok(1)]] ucan_from_wire(2) [OF ord(2) token_payload_ok [OF ok(2)]]
    unfolding payload by (metis sum.inject(2))
  moreover have "ucan_header u = ucan_header v"
    using header_from_wire [of "ucan_header u"] header_from_wire [of "ucan_header v"] unfolding head(1) by (metis sum.inject(2))
  ultimately show ?thesis by blast
qed

text \<open>Statements of the same domain are of the same kind.\<close>

lemma same_domain_cases:
  assumes "statement_domain m = statement_domain n"
  obtains (handshake) h h' where "m = SignedHandshake h" "n = SignedHandshake h'"
    | (agent_record) r r' where "m = SignedRecord r" "n = SignedRecord r'"
    | (revocation) e e' where "m = SignedRevocation e" "n = SignedRevocation e'"
    | (rotation) k k' where "m = SignedRotation k" "n = SignedRotation k'"
    | (certificate) c c' where "m = SignedCertificate c" "n = SignedCertificate c'"
    | (trust) s s' where "m = SignedTrust s" "n = SignedTrust s'"
    | (heartbeat) a t a' t' where "m = SignedHeartbeat a t" "n = SignedHeartbeat a' t'"
    | (token) ord u ord' u' where "m = SignedToken ord u" "n = SignedToken ord' u'"
  using assms
  by (cases m; cases n) (simp_all add: domain_separators str_def handshake agent_record revocation rotation certificate trust heartbeat token)

lemma same_domain_content:
  assumes "statement_domain m = statement_domain n" and ok: "statement_ok m" "statement_ok n"
    and bytes: "signed_bytes m = signed_bytes n" and "fits (signed_bytes m)"
  shows "statement_content m = statement_content n"
  using assms(1)
proof (cases rule: same_domain_cases)
  case handshake
  with bytes show ?thesis by (simp add: signature_input_def)
next
  case (agent_record r r')
  with ok bytes assms(5) have "signed_part r = signed_part r'"
    by (intro record_statement.input_determines) (simp_all add: record_input)
  with agent_record show ?thesis by simp
next
  case (revocation e e')
  with ok bytes assms(5) have "e\<lparr>re_signature := []\<rparr> = e'\<lparr>re_signature := []\<rparr>"
    by (intro entry_statement.input_determines) (simp_all add: RevocationEntry_signature_input_def)
  with revocation show ?thesis by simp
next
  case (rotation k k')
  with ok bytes assms(5) have "k\<lparr>kr_old_signature := [], kr_new_signature := []\<rparr> = k'\<lparr>kr_old_signature := [], kr_new_signature := []\<rparr>"
    by (intro rotation_statement.input_determines) (simp_all add: KeyRotationRecord_signature_input_def)
  with rotation show ?thesis by simp
next
  case (certificate c c')
  with ok bytes assms(5) have "c\<lparr>ca_signature := []\<rparr> = c'\<lparr>ca_signature := []\<rparr>"
    by (intro cert_statement.input_determines) (simp_all add: CaCertificate_signature_input_def)
  with certificate show ?thesis by simp
next
  case (trust s s')
  with ok bytes assms(5) have "s\<lparr>ts_signature := []\<rparr> = s'\<lparr>ts_signature := []\<rparr>"
    by (intro trust_statement.input_determines) (simp_all add: TrustSignature_signature_input_def)
  with trust show ?thesis by simp
next
  case heartbeat
  with ok bytes show ?thesis by (simp add: heartbeat_input_inj)
next
  case (token ord u ord' u')
  let ?bs = "signed_bytes m"
  have "iteration_order ord" "iteration_order ord'" "ucan_ok u 0" "ucan_ok u' 0" using ok unfolding token by simp_all
  moreover have "signing_input ord u = Some ?bs" "signing_input ord' u' = Some ?bs"
    using bytes unfolding token by (simp_all only: signed_bytes.simps signing_input_eq option.sel)
  ultimately have "ucan_header u = ucan_header u' \<and> payload_norm ord (ucan_payload u) = payload_norm ord' (ucan_payload u')"
    using assms(5) by (rule token_input_determines)
  then show ?thesis unfolding token statement_content.simps by (elim conjE) (simp only:)
qed

text \<open>
  C34. A signature says one thing only: if the bytes signed for two well-formed statements are the same, the statements are of the same kind, handshake,
  record, revocation, rotation, certificate, trust signature, heartbeat or delegation token, and have the same content, up to signatures
  and the order of maps.
\<close>

theorem signatures_do_not_cross:
  assumes "statement_ok m" and "statement_ok n" and "signed_bytes m = signed_bytes n" and "fits (signed_bytes m)"
  shows "statement_domain m = statement_domain n \<and> statement_content m = statement_content n"
proof -
  have "prefix (statement_domain m) (signed_bytes n)" "prefix (statement_domain n) (signed_bytes n)"
    using signed_bytes_domain [of m] signed_bytes_domain [of n] assms(3) by simp_all
  then have domain: "statement_domain m = statement_domain n"
    using prefix_same_cases domains_apart by metis
  with same_domain_content [OF _ assms] show ?thesis by blast
qed

theorem signatures_do_not_cross_witness:
  "statement_domain (SignedTrust (example_trust 1 2 2 50)) = statement_domain (SignedTrust ((example_trust 1 2 2 50)\<lparr>ts_signature := [7]\<rparr>)) \<and>
   statement_content (SignedTrust (example_trust 1 2 2 50)) = statement_content (SignedTrust ((example_trust 1 2 2 50)\<lparr>ts_signature := [7]\<rparr>))"
proof (rule signatures_do_not_cross)
  let ?v = "TrustSignature_to_cbor_without_sig (example_trust 1 2 2 50)"
  have "length (cbor_bytes ?v) \<le> size_bound ?v" by (rule cbor_bytes_length(1))
  then show "fits (signed_bytes (SignedTrust (example_trust 1 2 2 50)))"
    by (simp add: TrustSignature_signature_input_def statement_input_eq WOT_DOMAIN_SEPARATOR_def str_def
        TrustSignature_to_cbor_without_sig_def example_trust_def int_map_def WOT_SIG_TYPE_V1_def)
qed (simp_all add: trust_signature_ok_def example_trust_def TrustSignature_signature_input_def TrustSignature_to_cbor_without_sig_def)

end
