(* ===== verification/Spec2Isabelle.thy ===== *)
theory Spec2Isabelle
  imports Cbor_Order Framing Extensions Errors Rpc Session Handshake_Runs Close_Manager Pipeline Keepalive Agent_Client Agent_Server Connection_Pool Plan_Graph Account Signature_Domains
begin

text \<open>
  \<^bold>\<open>Verification of the AAFP protocol stack.\<close>

  AAFP lets agents talk to each other over QUIC. An agent has an ML-DSA-65 key pair and is named by
  the SHA-256 hash of its public key. Two agents that are connected run a handshake on the first
  stream, in which each proves its identity by a signature over a transcript that starts with the
  TLS channel binding; an authorization provider then decides about the peer, the session moves to
  messaging, and frames with CBOR payloads flow. The source is a Rust workspace under
  \<open>src/crates\<close>; file names below are relative to it.

  \<^bold>\<open>Parts of the program and the theories that model them.\<close>

  \<^item> \<open>Prelude\<close>, \<open>Utf8\<close>: bytes, big-endian integers, results and the \<open>?\<close> operator (\<open>bind_result\<close>, and
    \<open>then_with\<close> for computations with a state), UTF-8 validity. The locale \<open>prefix_codec\<close> is the contract
    of a codec that can decode a prefix of a buffer.
  \<^item> \<open>Hash_Map\<close>: \<open>HashMap\<close> as an association list with distinct keys; the order of iteration is a
    parameter. The locale \<open>keyed_store\<close> is the interface of a map.
  \<^item> \<open>Cbor\<close>, \<open>Cbor_Codec\<close>, \<open>Cbor_Roundtrip\<close>, \<open>Cbor_Order\<close>, \<open>Cbor_Message\<close> (\<open>aafp-cbor/src/lib.rs\<close>): the value
    type, encoder and decoder; the decoder against an inductive definition of the accepted
    language; determinism and order of the encoding; bounds on what a decoder builds; the locale
    \<open>cbor_message\<close> for messages that travel as integer-keyed maps.
  \<^item> \<open>Framing\<close>, \<open>Extensions\<close>, \<open>Errors\<close>, \<open>Rpc\<close> (\<open>aafp-messaging/src/framing.rs\<close>, \<open>extensions.rs\<close>, \<open>rpc_v1.rs\<close>,
    \<open>aafp-core/src/error.rs\<close>): frames in three decoders and four encoders, extension blocks, the
    registry of error codes, and the RPC, CLOSE and ERROR messages.
  \<^item> \<open>Lifecycle\<close>, \<open>Session\<close>, \<open>Handshake_State\<close>, \<open>Handshake_Runs\<close> (\<open>aafp-core/src/session.rs\<close>,
    \<open>handshake_state.rs\<close>): the session object and the handshake state machines, with the locales
    \<open>transition_table\<close>, \<open>event_system\<close> and \<open>staged_system\<close> for machines whose states only move forward.
  \<^item> \<open>Close_Manager\<close>, \<open>Pipeline\<close>, \<open>Keepalive\<close> (\<open>aafp-messaging/src/close_manager.rs\<close>, \<open>pipeline.rs\<close>,
    \<open>keepalive.rs\<close>): closing a connection, the ordered checks on a received frame, and ping tracking
    (locale \<open>ping_tracker\<close>, interpreted for the plain and the adaptive tracker).
  \<^item> \<open>Crypto\<close>, \<open>Handshake_V1\<close>, \<open>Replay_Cache\<close> (\<open>aafp-crypto/src/dsa.rs\<close>, \<open>kdf.rs\<close>, \<open>handshake_v1.rs\<close>,
    \<open>replay_cache.rs\<close>, \<open>aafp-identity/src/keypair.rs\<close>, \<open>agent_id.rs\<close>): wrappers of the cryptographic
    packages, the handshake messages with transcript and verification, and the nonce cache.
  \<^item> \<open>Handshake_Driver\<close>, \<open>Transport_Binding\<close> (\<open>aafp-sdk/src/handshake_driver.rs\<close>, \<open>transport_binding.rs\<close>,
    \<open>protocol_frames.rs\<close>): the exchange itself on both sides, the establishment of a session, control frames.
  \<^item> \<open>Peer_Table\<close>, \<open>Agent_Client\<close>, \<open>Agent_Server\<close>, \<open>Connection_Pool\<close> (\<open>aafp-sdk/src/client.rs\<close>, \<open>server.rs\<close>,
    \<open>connection_pool.rs\<close>): the client with its table of connections, the server with its rate limiter, whose
    steps interleave with those of concurrent calls, and the pool.
  \<^item> \<open>Plan\<close>, \<open>Kahn\<close>, \<open>Longest_Chain\<close>, \<open>Plan_Graph\<close> (\<open>aafp-sdk/src/execution/plan.rs\<close>): execution plans and their
    graph algorithms; the locale \<open>longest_chain\<close> is shared by the two computations of the critical path.
  \<^item> \<open>Account\<close> (\<open>aafp-economics/src/account.rs\<close>, \<open>lib.rs\<close>): metering of resources, limits and transfers.
  \<^item> \<open>Cbor_Wire\<close>, \<open>Identity_V1\<close>, \<open>Record_Extensions\<close> (\<open>aafp-identity/src/identity_v1.rs\<close>, \<open>extensions\<close>): what a decoder reads from
    an encoding, with empty maps (locale \<open>wire_message\<close>); agent records, their signatures and fingerprints; the
    extensions of records (locale \<open>record_extension\<close>, interpreted for all seven) and heartbeats.
  \<^item> \<open>Ucan_Extension\<close> (\<open>aafp-identity/src/extensions/ucan.rs\<close>): delegation tokens and their chains.
  \<^item> \<open>Signed_Statement\<close>, \<open>Revocation\<close>, \<open>Ca_Certificate\<close>, \<open>Web_Of_Trust\<close>, \<open>Trust_Manager\<close>, \<open>Signature_Domains\<close>
    (\<open>aafp-identity/src/revocation.rs\<close>, \<open>key_rotation.rs\<close>, \<open>ca_certificate.rs\<close>, \<open>web_of_trust.rs\<close>, \<open>key_directory.rs\<close>,
    \<open>trust_manager.rs\<close>): revocation and rotation of keys, certificates, the web of trust, the in-memory key
    directory, and the decision about a peer that combines them. The locale \<open>signed_statement\<close> is the
    contract of everything that is signed; its interpretations come together in \<open>Signature_Domains\<close>.

  \<^bold>\<open>Conventions.\<close> Structs are records with a prefix per struct, enums are datatypes, machine integers are
  words, \<open>usize\<close> is \<open>nat\<close> with its bound written where it matters, \<open>Result\<close> is a sum with the error on
  the left. Texts of errors are enumerated as constructors. A panic is \<open>None\<close> or an extra error. Clock
  readings, random values, iteration orders and failures of the transport are arguments, so that
  theorems hold for all of them. State behind a lock is a record and an operation is one atomic
  step; where the source releases a lock in between, the steps of others are an argument.
  The packages for hashing and signatures are a record of functions; what is relied on is stated as
  \<open>crypto_ok\<close> and \<open>keypair_ok\<close>.

  \<^bold>\<open>What the theorems show.\<close> Wire formats: round trips, exact characterisations of what is accepted,
  equality of the in-place and the allocating routines. State machines: order of states, no shortcut, at
  most one message of each kind, deadlines. Frame processing: which check precedes which effect.
  Handshake: what acceptance implies on each side, binding of the transcript, refusal of replays, and
  that two honest agents, which start with nothing sent, reach messaging in three rounds and agree. Peers: every connection on which the client
  sends or that the pool hands out had a verified handshake with an authorized peer, and the peers of the server
  are authenticated and authorized. Resources: closing terminates and closes once,
  the connection is closed exactly when enough pings stayed unanswered for longer than the timeout, caches and rates are bounded, limits hold and transfers conserve.
  Plans: the algorithms end on every input and are correct on plans without cycles. Identity: honest
  records and delegated tokens verify, what verifies is bound to its key, chains only narrow
  capabilities. Trust: exactly which chains, levels and peers are accepted, over all runs of the stores, that a rotation
  ends in the refusal of the old key, and that a signature for one purpose says nothing for another.
  Lemmas beside the theorems record where the code does less than its comments say.

  \<^bold>\<open>Bounds.\<close> No fuel is used. The decoder recurses on the remaining depth, which the source bounds by 100; the work lists
  over plans are \<open>while_option\<close> loops, proved to end on every plan; the other loops are structural or have a
  termination proof. Buffers are assumed to fit the address space where the source computes with lengths.

  \<^bold>\<open>Not modelled.\<close> The QUIC transport (\<open>aafp-transport-quic\<close>) wraps an external package; its streams
  appear as byte sequences. The foreign protocol bridges (\<open>aafp-transport-mcp\<close>, \<open>aafp-transport-a2a\<close>)
  and perception capabilities (\<open>aafp-perception\<close>) are I/O around external services. The persistent key directory, and
  the persistent tables of \<open>aafp-discovery\<close>, are queries to an external database. Attestations, routing, pricing and
  ranking compute with floating-point numbers, as does the adaptive lifetime of heartbeats; the integer parts
  beside them (priorities, circuit breakers, checkpoints) are not called by the parts modelled.
  Discovery, relaying (\<open>aafp-nat\<close>), publish-subscribe and the execution engine are layers above messaging,
  mostly asynchronous, and independent of the parts modelled. The distribution of revocation lists is not reached
  from them either.
  Command line, Python bindings, load tests, benchmarks, conformance tools and tests are not part of the protocol.
  Key encapsulation, AEAD and the superseded handshake, records and tokens (\<open>aafp-crypto/src/kem.rs\<close>, \<open>aead.rs\<close>,
  \<open>handshake.rs\<close>, \<open>aafp-identity/src/agent_record.rs\<close>, \<open>ucan.rs\<close>) only call packages or are unused by the current stack.
\<close>

end
